(* ===== verification/Prelude.thy ===== *)
theory Prelude
  imports Complex_Main "HOL-Library.Multiset" "HOL-Library.Word" "HOL-Library.Product_Lexorder"
begin

text \<open>
  Shared vocabulary of the development: the error-and-state computations in which the stateful Go
  code is written, their weakest preconditions, rows addressed by a primary key, the
  three-valued logic and the row order of SQL, and decimal numerals.

  Nothing here models a particular file of the repository.  The collections below drive the
  automation: \<open>run_simps\<close> computes weakest preconditions, \<open>row_simps\<close> rewrites look-ups
  in tables, \<open>wf_intros\<close> collects the facts that re-establish the database invariant.
\<close>

named_theorems run_simps \<open>weakest preconditions of the computations\<close>
named_theorems row_simps \<open>look-ups in keyed tables\<close>

section \<open>Computations with state and errors\<close>

text \<open>
  A Go function that reads and writes state and may return early with an error (or panic) is a
  function from the state to a result and the state it leaves: \<^term>\<open>Inl e\<close> for the error,
  \<^term>\<open>Inr x\<close> for the value.
\<close>

type_synonym ('s, 'e, 'a) sem = "'s \<Rightarrow> ('e + 'a) \<times> 's"

definition returnM :: "'a \<Rightarrow> ('s, 'e, 'a) sem" where
  "returnM x = (\<lambda>s. (Inr x, s))"

definition raiseM :: "'e \<Rightarrow> ('s, 'e, 'a) sem" where
  "raiseM e = (\<lambda>s. (Inl e, s))"

definition bindM :: "('s, 'e, 'a) sem \<Rightarrow> ('a \<Rightarrow> ('s, 'e, 'b) sem) \<Rightarrow> ('s, 'e, 'b) sem" where
  "bindM m f = (\<lambda>s. case m s of (Inl e, s') \<Rightarrow> (Inl e, s') | (Inr x, s') \<Rightarrow> f x s')"

definition getM :: "('s \<Rightarrow> 'a) \<Rightarrow> ('s, 'e, 'a) sem" where
  "getM f = (\<lambda>s. (Inr (f s), s))"

definition modifyM :: "('s \<Rightarrow> 's) \<Rightarrow> ('s, 'e, unit) sem" where
  "modifyM f = (\<lambda>s. (Inr (), f s))"

text \<open>Handling an error: the handler starts in the state the error left.\<close>

definition catchM :: "('s, 'e, 'a) sem \<Rightarrow> ('e \<Rightarrow> ('s, 'f, 'a) sem) \<Rightarrow> ('s, 'f, 'a) sem" where
  "catchM m h = (\<lambda>s. case m s of (Inl e, s') \<Rightarrow> h e s' | (Inr x, s') \<Rightarrow> (Inr x, s'))"

text \<open>A \<open>for\<close> loop over a slice.\<close>

primrec forM :: "'x list \<Rightarrow> ('x \<Rightarrow> ('s, 'e, unit) sem) \<Rightarrow> ('s, 'e, unit) sem" where
  "forM [] f = returnM ()"
| "forM (x # xs) f = bindM (f x) (\<lambda>_. forM xs f)"

text \<open>A loop that threads the value of a local variable.\<close>

primrec foldM :: "('x \<Rightarrow> 'a \<Rightarrow> ('s, 'e, 'a) sem) \<Rightarrow> 'x list \<Rightarrow> 'a \<Rightarrow> ('s, 'e, 'a) sem" where
  "foldM f [] a = returnM a"
| "foldM f (x # xs) a = bindM (f x a) (\<lambda>a'. foldM f xs a')"

subsection \<open>Weakest preconditions\<close>

text \<open>
  \<open>run m Q R s\<close>: started in \<open>s\<close>, the computation ends in a value and a state that satisfy
  \<open>Q\<close>, or in an error and a state that satisfy \<open>R\<close>.  With \<open>R = (\<lambda>_ _. True)\<close> this is
  partial correctness, with \<open>R = (\<lambda>_ _. False)\<close> it includes that no error occurs.
\<close>

definition run :: "('s, 'e, 'a) sem \<Rightarrow> ('a \<Rightarrow> 's \<Rightarrow> bool) \<Rightarrow> ('e \<Rightarrow> 's \<Rightarrow> bool) \<Rightarrow> 's \<Rightarrow> bool" where
  "run m Q R s = (case m s of (Inl e, s') \<Rightarrow> R e s' | (Inr x, s') \<Rightarrow> Q x s')"

lemma run_returnM [run_simps]: "run (returnM x) Q R s = Q x s"
  by (simp add: run_def returnM_def)

lemma run_raiseM [run_simps]: "run (raiseM e) Q R s = R e s"
  by (simp add: run_def raiseM_def)

lemma run_bindM [run_simps]: "run (bindM m f) Q R s = run m (\<lambda>x. run (f x) Q R) R s"
  by (simp add: run_def bindM_def split: prod.split sum.split)

lemma run_getM [run_simps]: "run (getM f) Q R s = Q (f s) s"
  by (simp add: run_def getM_def)

lemma run_modifyM [run_simps]: "run (modifyM f) Q R s = Q () (f s)"
  by (simp add: run_def modifyM_def)

lemma run_catchM [run_simps]: "run (catchM m h) Q R s = run m Q (\<lambda>e. run (h e) Q R) s"
  by (simp add: run_def catchM_def split: prod.split sum.split)

lemma run_if [run_simps]:
  "run (if b then m else m') Q R s = (if b then run m Q R s else run m' Q R s)"
  by simp

lemma run_case_option [run_simps]:
  "run (case x of None \<Rightarrow> m | Some y \<Rightarrow> f y) Q R s =
    (case x of None \<Rightarrow> run m Q R s | Some y \<Rightarrow> run (f y) Q R s)"
  by (simp split: option.split)

lemma run_case_sum [run_simps]:
  "run (case x of Inl y \<Rightarrow> f y | Inr z \<Rightarrow> g z) Q R s =
    (case x of Inl y \<Rightarrow> run (f y) Q R s | Inr z \<Rightarrow> run (g z) Q R s)"
  by (simp split: sum.split)

lemma run_case_prod [run_simps]:
  "run (case x of (y, z) \<Rightarrow> f y z) Q R s = (case x of (y, z) \<Rightarrow> run (f y z) Q R s)"
  by (simp split: prod.split)

lemma run_Let [run_simps]: "run (Let x f) Q R s = run (f x) Q R s"
  by simp

lemma run_forM_Nil [run_simps]: "run (forM [] f) Q R s = Q () s"
  by (simp add: run_simps)

lemma run_foldM_Nil [run_simps]: "run (foldM f [] a) Q R s = Q a s"
  by (simp add: run_simps)

lemma run_mono:
  assumes "run m Q R s"
    and "\<And>x s'. Q x s' \<Longrightarrow> Q' x s'"
    and "\<And>e s'. R e s' \<Longrightarrow> R' e s'"
  shows "run m Q' R' s"
  using assms by (auto simp: run_def split: prod.splits sum.splits)

lemma run_conj:
  "run m Q R s \<Longrightarrow> run m Q' R' s \<Longrightarrow> run m (\<lambda>x s'. Q x s' \<and> Q' x s') (\<lambda>e s'. R e s' \<and> R' e s') s"
  by (auto simp: run_def split: prod.splits sum.splits)

lemma run_trivial [simp]: "run m (\<lambda>_ _. True) (\<lambda>_ _. True) s"
  by (simp add: run_def split: prod.split sum.split)

lemma run_InrD: "run m Q R s \<Longrightarrow> m s = (Inr x, s') \<Longrightarrow> Q x s'"
  by (simp add: run_def)

lemma run_InlD: "run m Q R s \<Longrightarrow> m s = (Inl e, s') \<Longrightarrow> R e s'"
  by (simp add: run_def)

lemma run_total: "run m Q (\<lambda>_ _. False) s \<Longrightarrow> \<exists>x s'. m s = (Inr x, s') \<and> Q x s'"
  by (auto simp: run_def split: prod.splits sum.splits)

lemma run_partialI: "(\<And>x s'. m s = (Inr x, s') \<Longrightarrow> Q x s') \<Longrightarrow> run m Q (\<lambda>_ _. True) s"
  by (simp add: run_def split: prod.split sum.split)

text \<open>Sequencing through an intermediate condition, the rule the loop proofs use.\<close>

lemma run_bind_seq:
  assumes "run m P R s" and "\<And>x s'. P x s' \<Longrightarrow> run (f x) Q R s'"
  shows "run (bindM m f) Q R s"
  unfolding run_bindM by (rule run_mono [OF assms(1)]) (auto intro: assms(2))

lemma run_forM_Cons:
  assumes "run (f x) (\<lambda>_. run (forM xs f) Q R) R s"
  shows "run (forM (x # xs) f) Q R s"
  using assms by (simp add: run_simps)

text \<open>
  The contract of a loop body: it keeps an invariant, on success and on failure, and fails with
  the errors of one kind only.  Every loop built from it does the same.
\<close>

locale loop_body =
  fixes body :: "'x \<Rightarrow> ('s, 'e, unit) sem"
    and admissible :: "'x \<Rightarrow> bool"
    and I :: "'s \<Rightarrow> bool"
    and raised :: "'e \<Rightarrow> bool"
  assumes body_keeps: "admissible x \<Longrightarrow> I s \<Longrightarrow> run (body x) (\<lambda>_. I) (\<lambda>e s'. I s' \<and> raised e) s"
begin

lemma forM_keeps:
  assumes "\<And>x. x \<in> set xs \<Longrightarrow> admissible x" and "I s"
  shows "run (forM xs body) (\<lambda>_. I) (\<lambda>e s'. I s' \<and> raised e) s"
  using assms
proof (induction xs arbitrary: s)
  case Nil
  then show ?case by (simp add: run_simps)
next
  case (Cons x xs)
  have "run (body x) (\<lambda>_. I) (\<lambda>e s'. I s' \<and> raised e) s"
    using Cons.prems by (intro body_keeps) auto
  then have "run (body x) (\<lambda>_. run (forM xs body) (\<lambda>_. I) (\<lambda>e s'. I s' \<and> raised e)) (\<lambda>e s'. I s' \<and> raised e) s"
    by (rule run_mono) (simp_all add: Cons.IH Cons.prems)
  then show ?case by (rule run_forM_Cons)
qed

end

section \<open>Rows addressed by a key\<close>

definition find_row :: "('r \<Rightarrow> 'k) \<Rightarrow> 'k \<Rightarrow> 'r list \<Rightarrow> 'r option" where
  "find_row key k xs = find (\<lambda>x. key x = k) xs"

lemma find_row_Nil [simp]: "find_row key k [] = None"
  by (simp add: find_row_def)

lemma find_row_Cons [simp]:
  "find_row key k (x # xs) = (if key x = k then Some x else find_row key k xs)"
  by (simp add: find_row_def)

lemma find_row_SomeD: "find_row key k xs = Some x \<Longrightarrow> x \<in> set xs \<and> key x = k"
  by (induction xs) (auto split: if_splits)

lemma find_row_key: "find_row key k xs = Some x \<Longrightarrow> key x = k"
  by (drule find_row_SomeD) simp

lemma find_row_mem: "find_row key k xs = Some x \<Longrightarrow> x \<in> set xs"
  by (drule find_row_SomeD) simp

lemma find_row_None_iff: "find_row key k xs = None \<longleftrightarrow> k \<notin> key ` set xs"
  by (induction xs) auto

lemma find_row_unique: "distinct (map key xs) \<Longrightarrow> x \<in> set xs \<Longrightarrow> find_row key (key x) xs = Some x"
  by (induction xs) (auto simp: image_iff)

lemma find_row_iff:
  "distinct (map key xs) \<Longrightarrow> find_row key k xs = Some x \<longleftrightarrow> x \<in> set xs \<and> key x = k"
  by (auto dest: find_row_SomeD find_row_unique)

lemma find_row_append [row_simps]:
  "find_row key k (xs @ ys) = (case find_row key k xs of None \<Rightarrow> find_row key k ys | Some x \<Rightarrow> Some x)"
  by (induction xs) auto

lemma find_row_map [row_simps]:
  "(\<And>x. key (f x) = key x) \<Longrightarrow> find_row key k (map f xs) = map_option f (find_row key k xs)"
  by (induction xs) auto

lemma find_row_filter [row_simps]:
  "distinct (map key xs) \<Longrightarrow> find_row key k (filter P xs) =
    (case find_row key k xs of None \<Rightarrow> None | Some x \<Rightarrow> if P x then Some x else None)"
proof (induction xs)
  case Nil
  then show ?case by simp
next
  case (Cons x xs)
  then have "key x = k \<Longrightarrow> find_row key k xs = None"
    by (auto simp: find_row_None_iff)
  with Cons show ?case by auto
qed

lemma distinct_map_filter_key: "distinct (map key xs) \<Longrightarrow> distinct (map key (filter P xs))"
  by (induction xs) auto

lemma map_key_cong: "(\<And>x. key (f x) = key x) \<Longrightarrow> map key (map f xs) = map key xs"
  by simp

text \<open>
  A join against a table on its primary key has at most one partner.  This turns the nested
  comprehensions that model SQL joins into look-ups.
\<close>

lemma join_primary_key:
  "distinct (map key xs) \<Longrightarrow>
    concat (map (\<lambda>x. if key x = k then g x else []) xs) =
      (case find_row key k xs of None \<Rightarrow> [] | Some x \<Rightarrow> g x)"
proof (induction xs)
  case Nil
  then show ?case by simp
next
  case (Cons x xs)
  then have "key x = k \<Longrightarrow> find_row key k xs = None"
    by (auto simp: find_row_None_iff)
  with Cons show ?case by auto
qed

lemma concat_map_if_singleton:
  "concat (map (\<lambda>x. if P x then [f x] else []) xs) = map f (filter P xs)"
  by (induction xs) auto

lemma concat_map_if_guard:
  "concat (map (\<lambda>x. if P x then g x else []) xs) = concat (map g (filter P xs))"
  by (induction xs) auto

lemma filter_map_swap: "filter P (map f xs) = map f (filter (\<lambda>x. P (f x)) xs)"
  by (induction xs) auto

lemma length_filter_le_if:
  "(\<And>x. x \<in> set xs \<Longrightarrow> P x \<Longrightarrow> Q x) \<Longrightarrow> length (filter P xs) \<le> length (filter Q xs)"
  by (induction xs) auto

lemma length_filter_all_but_one:
  assumes "distinct (map key xs)"
    and "\<And>x. x \<in> set xs \<Longrightarrow> P x \<Longrightarrow> key x \<noteq> k \<Longrightarrow> Q x"
  shows "length (filter P xs) \<le> length (filter Q xs) + 1"
  using assms
proof (induction xs)
  case Nil
  then show ?case by simp
next
  case (Cons x xs)
  show ?case
  proof (cases "key x = k")
    case True
    have "Q y" if "y \<in> set xs" "P y" for y
    proof (rule Cons.prems(2))
      show "key y \<noteq> k"
        using that True Cons.prems(1) by (metis distinct.simps(2) imageI list.map(2) list.set_map)
    qed (use that in simp_all)
    then have "length (filter P xs) \<le> length (filter Q xs)"
      by (rule length_filter_le_if)
    then show ?thesis by auto
  next
    case False
    with Cons show ?thesis by auto
  qed
qed

section \<open>SQL: row order and three-valued logic\<close>

text \<open>
  SQL fixes the set of rows a query returns and, with \<open>ORDER BY\<close>, that they come sorted; the
  order among equal keys, and the order of a query without \<open>ORDER BY\<close>, is the database's
  choice.  The choice is a permutation of positions, a parameter of the model; every sorted
  arrangement of the rows is the stable sort of some permutation of them.
\<close>

definition permute :: "nat list \<Rightarrow> 'a list \<Rightarrow> 'a list" where
  "permute is xs = map (\<lambda>i. xs ! i) is"

lemma mset_permute:
  assumes "mset is = mset [0..<length xs]"
  shows "mset (permute is xs) = mset xs"
proof -
  have "mset (permute is xs) = image_mset (\<lambda>i. xs ! i) (mset [0..<length xs])"
    unfolding permute_def by (simp only: mset_map assms)
  also have "\<dots> = mset (map (\<lambda>i. xs ! i) [0..<length xs])"
    by (simp only: mset_map)
  also have "\<dots> = mset xs"
    by (simp only: map_nth)
  finally show ?thesis .
qed

lemma permute_upt [simp]: "permute [0..<length xs] xs = xs"
  by (simp add: permute_def map_nth)

lemma sort_key_head_least:
  assumes "sort_key f xs = x # ys" and "y \<in> set xs"
  shows "f x \<le> f y"
proof -
  have "sorted (map f (x # ys))"
    by (simp only: assms(1) [symmetric] sorted_sort_key)
  moreover have "y \<in> set (x # ys)"
    using assms by (metis set_sort)
  ultimately show ?thesis by auto
qed

text \<open>\<open>NULL\<close> is \<^term>\<open>None\<close>, and so is the truth value \<open>unknown\<close>; a \<open>WHERE\<close> keeps a row only if
  its condition is \<^term>\<open>Some True\<close>.\<close>

definition sql_not_in :: "'a option \<Rightarrow> 'a option list \<Rightarrow> bool option" where
  "sql_not_in x ys =
    (if ys = [] then Some True
     else case x of None \<Rightarrow> None
       | Some v \<Rightarrow> if Some v \<in> set ys then Some False
                   else if None \<in> set ys then None else Some True)"

definition sql_is_null :: "'a option \<Rightarrow> bool option" where
  "sql_is_null x = Some (x = None)"

fun sql_or :: "bool option \<Rightarrow> bool option \<Rightarrow> bool option" where
  "sql_or (Some True) _ = Some True"
| "sql_or _ (Some True) = Some True"
| "sql_or (Some False) (Some False) = Some False"
| "sql_or _ _ = None"

lemma sql_or_True: "sql_or a b = Some True \<longleftrightarrow> a = Some True \<or> b = Some True"
  by (cases "(a, b)" rule: sql_or.cases) auto

lemma sql_not_in_True:
  "sql_not_in x ys = Some True \<longleftrightarrow> ys = [] \<or> (x \<noteq> None \<and> x \<notin> set ys \<and> None \<notin> set ys)"
  by (cases x) (auto simp: sql_not_in_def)

section \<open>Decimal numerals\<close>

text \<open>Go's \<open>%d\<close> of a non-negative number, and the digits \<open>strconv\<close> accepts in base 10.\<close>

definition digit_char :: "nat \<Rightarrow> char" where
  "digit_char d = char_of (48 + d)"

fun dec :: "nat \<Rightarrow> string" where
  "dec n = (if n < 10 then [digit_char n] else dec (n div 10) @ [digit_char (n mod 10)])"

declare dec.simps [simp del]

definition char_digit :: "char \<Rightarrow> nat option" where
  "char_digit c = (let v = (of_char c :: nat) in if 48 \<le> v \<and> v \<le> 57 then Some (v - 48) else None)"

primrec parse_digits :: "nat \<Rightarrow> string \<Rightarrow> nat option" where
  "parse_digits acc [] = Some acc"
| "parse_digits acc (c # cs) =
    (case char_digit c of None \<Rightarrow> None | Some d \<Rightarrow> parse_digits (10 * acc + d) cs)"

lemma char_digit_digit_char: "d < 10 \<Longrightarrow> char_digit (digit_char d) = Some d"
  by (simp add: char_digit_def digit_char_def)

lemma parse_digits_append:
  "parse_digits acc (xs @ ys) =
    (case parse_digits acc xs of None \<Rightarrow> None | Some a \<Rightarrow> parse_digits a ys)"
  by (induction xs arbitrary: acc) (auto split: option.split)

lemma parse_digits_dec: "parse_digits 0 (dec n) = Some n"
proof (induction n rule: dec.induct)
  case (1 n)
  show ?case
  proof (cases "n < 10")
    case True
    then show ?thesis by (simp add: dec.simps [of n] char_digit_digit_char)
  next
    case False
    with 1 have "parse_digits 0 (dec (n div 10)) = Some (n div 10)" by simp
    with False show ?thesis
      by (simp add: dec.simps [of n] parse_digits_append char_digit_digit_char)
  qed
qed

lemma dec_nonempty: "dec n \<noteq> []"
  by (subst dec.simps) simp

lemma dec_digits: "c \<in> set (dec n) \<Longrightarrow> \<exists>d<10. c = digit_char d"
proof (induction n rule: dec.induct)
  case (1 n)
  show ?case
  proof (cases "n < 10")
    case True
    with 1 show ?thesis by (auto simp: dec.simps [of n])
  next
    case False
    with 1 show ?thesis
      by (auto simp: dec.simps [of n] intro: exI [of _ "n mod 10"])
  qed
qed

lemma digit_char_neq_colon: "d < 10 \<Longrightarrow> digit_char d \<noteq> CHR '':''"
proof
  assume "d < 10" and "digit_char d = CHR '':''"
  then have "char_digit (CHR '':'') = Some d"
    using char_digit_digit_char [of d] by simp
  then show False by (simp add: char_digit_def)
qed

lemma colon_notin_dec: "CHR '':'' \<notin> set (dec n)"
  using dec_digits digit_char_neq_colon by metis

text \<open>\<open>%d\<close> of a signed integer.\<close>

definition show_int :: "int \<Rightarrow> string" where
  "show_int i = (if i < 0 then CHR ''-'' # dec (nat (- i)) else dec (nat i))"

end
