(* ===== verification/Msp.thy ===== *)
theory Msp
  imports Prelude
begin

text \<open>
  The data of the master-slave protocol, \<open>src/msp/dataobjects.go\<close>: the structs as records, the
  string enumerations with their constants, the validation of a received error, and the redacted
  printing of credentials.  A Go pointer to a struct that may be nil is an option.

  A \<open>float64\<close> priority is a rational: the values the master writes are small integers, and
  a value read back from JSON or BSON is finite.
\<close>

type_synonym PortNumber = "16 word"
type_synonym MongodState = string
type_synonym ShardingRole = string

abbreviation MongodStateForceDestroyed :: MongodState where
  "MongodStateForceDestroyed \<equiv> ''forcedestroyed''"
abbreviation MongodStateDestroyed :: MongodState where
  "MongodStateDestroyed \<equiv> ''destroyed''"
abbreviation MongodStateNotRunning :: MongodState where
  "MongodStateNotRunning \<equiv> ''notrunning''"
abbreviation MongodStateUninitialized :: MongodState where
  "MongodStateUninitialized \<equiv> ''uninitiated''"
abbreviation MongodStateRecovering :: MongodState where
  "MongodStateRecovering \<equiv> ''recovering''"
abbreviation MongodStateRunning :: MongodState where
  "MongodStateRunning \<equiv> ''running''"
abbreviation MongodStateRemoved :: MongodState where
  "MongodStateRemoved \<equiv> ''removed''"

abbreviation ShardingRoleNone :: ShardingRole where
  "ShardingRoleNone \<equiv> ''none''"
abbreviation ShardingRoleShardServer :: ShardingRole where
  "ShardingRoleShardServer \<equiv> ''shardsvr''"
abbreviation ShardingRoleConfigServer :: ShardingRole where
  "ShardingRoleConfigServer \<equiv> ''configsvr''"

text \<open>\<open>MongodState.IsProcessExecuting\<close>.\<close>

definition IsProcessExecuting :: "MongodState \<Rightarrow> bool" where
  "IsProcessExecuting s \<longleftrightarrow>
    \<not> (s = MongodStateForceDestroyed \<or> s = MongodStateDestroyed \<or> s = MongodStateNotRunning)"

record HostPort =
  HostPort_Hostname :: string
  HostPort_Port :: PortNumber

record MongodCredential =
  Credential_Username :: string
  Credential_Password :: string

record ReplicaSetMember =
  Member_HostPort :: HostPort
  Member_Priority :: rat
  Member_Votes :: int

record ReplicaSetConfig =
  Config_ReplicaSetName :: string
  Config_ReplicaSetMembers :: "ReplicaSetMember list"
  Config_ShardingRole :: ShardingRole
  Config_RootCredential :: MongodCredential

text \<open>The struct \<open>msp.Error\<close>.\<close>

record mspError =
  Error_Identifier :: string
  Error_Description :: string
  Error_LongDescription :: string

text \<open>The struct \<open>msp.Mongod\<close>, the protocol's view of one database process.\<close>

record mspMongod =
  mspMongod_Port :: PortNumber
  mspMongod_KeyfileContent :: string
  mspMongod_ReplicaSetConfig :: ReplicaSetConfig
  mspMongod_StatusError :: "mspError option"
  mspMongod_LastEstablishStateError :: "mspError option"
  mspMongod_State :: MongodState

record RsInitiateMessage =
  RsInitiate_Port :: PortNumber
  RsInitiate_ReplicaSetConfig :: ReplicaSetConfig

text \<open>Go's zero values, what a declared but unset variable holds.\<close>

definition zeroCredential :: MongodCredential where
  "zeroCredential = \<lparr>Credential_Username = '''', Credential_Password = ''''\<rparr>"

definition zeroReplicaSetConfig :: ReplicaSetConfig where
  "zeroReplicaSetConfig = \<lparr>Config_ReplicaSetName = '''', Config_ReplicaSetMembers = [],
     Config_ShardingRole = '''', Config_RootCredential = zeroCredential\<rparr>"

definition zeroMspMongod :: mspMongod where
  "zeroMspMongod = \<lparr>mspMongod_Port = 0, mspMongod_KeyfileContent = '''',
     mspMongod_ReplicaSetConfig = zeroReplicaSetConfig, mspMongod_StatusError = None,
     mspMongod_LastEstablishStateError = None, mspMongod_State = ''''\<rparr>"

definition zeroMspError :: mspError where
  "zeroMspError = \<lparr>Error_Identifier = '''', Error_Description = '''', Error_LongDescription = ''''\<rparr>"

subsection \<open>Error identifiers\<close>

abbreviation CommunicationError :: string where "CommunicationError \<equiv> ''COMM''"
abbreviation BadStateDescription :: string where "BadStateDescription \<equiv> ''BADSTATE''"
abbreviation SlaveSpawnError :: string where "SlaveSpawnError \<equiv> ''SLAVESPAWN''"
abbreviation SlaveConnectMongodError :: string where "SlaveConnectMongodError \<equiv> ''SLAVECONERR''"
abbreviation SlaveGetMongodStatusError :: string where
  "SlaveGetMongodStatusError \<equiv> ''SLAVEGETSTATUSERR''"
abbreviation SlaveReplicaSetInitError :: string where
  "SlaveReplicaSetInitError \<equiv> ''SLAVEREPLSETINIT''"
abbreviation SlaveReplicaSetCreateRootUserError :: string where
  "SlaveReplicaSetCreateRootUserError \<equiv> ''SLAVEREPLSETCREATEROOTUSER''"
abbreviation SlaveReplicaSetConfigError :: string where
  "SlaveReplicaSetConfigError \<equiv> ''SLAVEREPLSETCONFIG''"
abbreviation SlaveMongodProtocolError :: string where
  "SlaveMongodProtocolError \<equiv> ''SLAVEMONGODPROTOERR''"
abbreviation NotImplementedError :: string where "NotImplementedError \<equiv> ''NOTIMPLEMENTED''"
abbreviation SlaveShutdownError :: string where "SlaveShutdownError \<equiv> ''SLAVESHUTDOWNERR''"

text \<open>\<open>Error.validateFields\<close>: the error for a missing mandatory field, if any.\<close>

definition validateFields :: "mspError \<Rightarrow> string option" where
  "validateFields e =
    (let validationError = (\<lambda>fieldname. ''invalid msp.Error: `'' @ fieldname @ ''` is a mandatory field'')
     in if Error_Identifier e = [] then Some (validationError ''Identifier'') else None)"

text \<open>\<open>MongodCredential.GoString\<close>, the \<open>%#v\<close> form that reaches the log.\<close>

definition MongodCredential_GoString :: "MongodCredential \<Rightarrow> string" where
  "MongodCredential_GoString m =
    ''msp.MongodCredential{Username:'' @ [CHR 0x22] @ Credential_Username m @ [CHR 0x22] @
    '', Password:'' @ [CHR 0x22] @ ''<redacted>'' @ [CHR 0x22] @ ''}''"

text \<open>
  \<open>Mongod.GoString\<close>.  The \<open>%#v\<close> of the remaining fields is Go's own printing, a parameter: a
  function of the configuration with its credential already replaced by its \<open>GoString\<close>, of
  the errors and of the state.
\<close>

record printed_config =
  Printed_ReplicaSetName :: string
  Printed_ReplicaSetMembers :: "ReplicaSetMember list"
  Printed_ShardingRole :: ShardingRole
  Printed_RootCredential :: string

definition print_config :: "ReplicaSetConfig \<Rightarrow> printed_config" where
  "print_config c = \<lparr>Printed_ReplicaSetName = Config_ReplicaSetName c,
     Printed_ReplicaSetMembers = Config_ReplicaSetMembers c,
     Printed_ShardingRole = Config_ShardingRole c,
     Printed_RootCredential = MongodCredential_GoString (Config_RootCredential c)\<rparr>"

definition Mongod_GoString ::
  "(printed_config \<Rightarrow> string) \<Rightarrow> (mspError option \<Rightarrow> string) \<Rightarrow> (MongodState \<Rightarrow> string) \<Rightarrow> mspMongod \<Rightarrow> string" where
  "Mongod_GoString pc pe ps m =
    ''msp.Mongod{Port: '' @ dec (unat (mspMongod_Port m)) @
    '', KeyfileContent:'' @ [CHR 0x22] @ ''<redacted>'' @ [CHR 0x22] @
    '', ReplicaSetConfig:'' @ pc (print_config (mspMongod_ReplicaSetConfig m)) @
    '', StatusError:'' @ pe (mspMongod_StatusError m) @
    '', LastEstablishStateError:'' @ pe (mspMongod_LastEstablishStateError m) @
    '', State:'' @ ps (mspMongod_State m) @ ''}''"

text \<open>\<open>Error.String\<close>.\<close>

definition Error_String :: "mspError \<Rightarrow> string" where
  "Error_String e = ''{'' @ Error_Identifier e @ '': '' @ Error_Description e @ '' : '' @
    Error_LongDescription e @ ''}''"

lemma validateFields_None [simp]: "validateFields e = None \<longleftrightarrow> Error_Identifier e \<noteq> []"
  by (simp add: validateFields_def Let_def)

text \<open>What is printed of a Mongod does not depend on the keyfile content and not on the
  password of the root credential: two values that differ in these secrets only print alike.\<close>

theorem gostring_redacts:
  "Mongod_GoString pc pe ps
     (m\<lparr>mspMongod_KeyfileContent := k, mspMongod_ReplicaSetConfig :=
        c\<lparr>Config_RootCredential := \<lparr>Credential_Username = u, Credential_Password = p\<rparr>\<rparr>\<rparr>) =
   Mongod_GoString pc pe ps
     (m\<lparr>mspMongod_KeyfileContent := k', mspMongod_ReplicaSetConfig :=
        c\<lparr>Config_RootCredential := \<lparr>Credential_Username = u, Credential_Password = p'\<rparr>\<rparr>\<rparr>)"
  by (simp add: Mongod_GoString_def print_config_def MongodCredential_GoString_def)

end
