(* ===== verification/Model.thy ===== *)
theory Model
  imports Msp
begin

text \<open>
  The master's data model, \<open>src/model/db.go\<close> and \<open>src/model/messages.go\<close>.  Each struct that gorm
  stores is a record with the columns of its table; the fields that gorm fills by following a
  foreign key (\<open>Mongods\<close>, \<open>ParentSlave\<close>, \<open>DesiredState\<close>, ...) are not columns and are looked up
  where the code looks them up.  \<open>sql.NullInt64\<close> is an optional integer.
\<close>

type_synonym ID = int

text \<open>\<open>SlaveState\<close>; the value 0 is what the zero value and a failed conversion give.\<close>

datatype SlaveState =
  SlaveStateInvalid | SlaveStateActive | SlaveStateMaintenance | SlaveStateDisabled

primrec SlaveState_num :: "SlaveState \<Rightarrow> nat" where
  "SlaveState_num SlaveStateInvalid = 0"
| "SlaveState_num SlaveStateActive = 1"
| "SlaveState_num SlaveStateMaintenance = 2"
| "SlaveState_num SlaveStateDisabled = 3"

lemma SlaveState_num_inj: "SlaveState_num a = SlaveState_num b \<longleftrightarrow> a = b"
  by (cases a; cases b) simp_all

text \<open>The column is an integer, and the queries sort by it: the order of the states is the order
  of their numbers.\<close>

instantiation SlaveState :: linorder
begin

definition less_eq_SlaveState :: "SlaveState \<Rightarrow> SlaveState \<Rightarrow> bool" where
  "less_eq_SlaveState a b = (SlaveState_num a \<le> SlaveState_num b)"

definition less_SlaveState :: "SlaveState \<Rightarrow> SlaveState \<Rightarrow> bool" where
  "less_SlaveState a b = (SlaveState_num a < SlaveState_num b)"

instance
  by standard (auto simp: less_eq_SlaveState_def less_SlaveState_def SlaveState_num_inj)

end

datatype MongodExecutionState =
  MongodExecutionStateInvalid
| MongodExecutionStateForceDestroyed
| MongodExecutionStateDestroyed
| MongodExecutionStateNotRunning
| MongodExecutionStateUninitiated
| MongodExecutionStateRecovering
| MongodExecutionStateRunning

primrec MongodExecutionState_num :: "MongodExecutionState \<Rightarrow> nat" where
  "MongodExecutionState_num MongodExecutionStateInvalid = 0"
| "MongodExecutionState_num MongodExecutionStateForceDestroyed = 1"
| "MongodExecutionState_num MongodExecutionStateDestroyed = 2"
| "MongodExecutionState_num MongodExecutionStateNotRunning = 3"
| "MongodExecutionState_num MongodExecutionStateUninitiated = 4"
| "MongodExecutionState_num MongodExecutionStateRecovering = 5"
| "MongodExecutionState_num MongodExecutionStateRunning = 6"

lemma MongodExecutionState_num_6 [simp]:
  "MongodExecutionState_num e = 6 \<longleftrightarrow> e = MongodExecutionStateRunning"
  by (cases e) simp_all

record Slave =
  Slave_ID :: ID
  Slave_Hostname :: string
  Slave_Port :: PortNumber
  Slave_MongodPortRangeBegin :: PortNumber
  Slave_MongodPortRangeEnd :: PortNumber
  Slave_PersistentStorage :: bool
  Slave_ConfiguredState :: SlaveState
  Slave_RiskGroupID :: "ID option"
  Slave_ObservationErrorID :: "ID option"

record ReplicaSet =
  ReplicaSet_ID :: ID
  ReplicaSet_Name :: string
  ReplicaSet_PersistentMemberCount :: "64 word"
  ReplicaSet_VolatileMemberCount :: "64 word"
  ReplicaSet_ShardingRole :: ShardingRole
  ReplicaSet_Initiated :: bool

record RiskGroup =
  RiskGroup_ID :: ID
  RiskGroup_Name :: string

record Mongod =
  Mongod_ID :: ID
  Mongod_Port :: PortNumber
  Mongod_ReplSetName :: string
  Mongod_ObservationErrorID :: "ID option"
  Mongod_LastEstablishStateErrorID :: "ID option"
  Mongod_ParentSlaveID :: ID
  Mongod_ReplicaSetID :: "ID option"
  Mongod_DesiredStateID :: ID
  Mongod_ObservedStateID :: "ID option"

text \<open>The zero value of the struct \<open>Mongod\<close>.\<close>

definition zeroMongod :: Mongod where
  "zeroMongod = \<lparr>Mongod_ID = 0, Mongod_Port = 0, Mongod_ReplSetName = [], Mongod_ObservationErrorID = None,
     Mongod_LastEstablishStateErrorID = None, Mongod_ParentSlaveID = 0, Mongod_ReplicaSetID = None,
     Mongod_DesiredStateID = 0, Mongod_ObservedStateID = None\<rparr>"

record MongodStateRow =
  State_ID :: ID
  State_ParentMongodID :: ID
  State_ShardingRole :: ShardingRole
  State_ExecutionState :: MongodExecutionState

record MSPError =
  MSPError_ID :: ID
  MSPError_Identifier :: string
  MSPError_Description :: string
  MSPError_LongDescription :: string

datatype ProblemType =
  ProblemTypeInvalid
| ProblemTypeConnection
| ProblemTypeMismatch
| ProblemTypeDesiredReplicaSetConstraint
| ProblemTypeObservedReplicaSetConstraint

text \<open>Times are integers (nanoseconds since the epoch).\<close>

record Problem =
  Problem_ID :: ID
  Problem_Description :: string
  Problem_LongDescription :: string
  Problem_ProblemType :: ProblemType
  Problem_FirstOccurred :: int
  Problem_LastUpdated :: int
  Problem_SlaveID :: "ID option"
  Problem_ReplicaSetID :: "ID option"
  Problem_MongodID :: "ID option"

record MongodKeyfile =
  Keyfile_ID :: ID
  Keyfile_Content :: string

record MongodbCredential =
  MongodbCredential_ID :: ID
  MongodbCredential_Username :: string
  MongodbCredential_Password :: string

section \<open>Messages on the bus\<close>

record ConnectionStatus =
  Connection_Unreachable :: bool
  Connection_Slave :: Slave
  Connection_CommunicationError :: mspError

record MongodMatchStatus =
  Match_Mismatch :: bool
  Match_Mongod :: Mongod

record DesiredReplicaSetConstraintStatus =
  Desired_Unsatisfied :: bool
  Desired_ReplicaSet :: ReplicaSet
  Desired_ConfiguredVolatileCount :: nat
  Desired_ConfiguredPersistentCount :: nat

record ObservedReplicaSetConstraintStatus =
  Observed_Unsatisfied :: bool
  Observed_ReplicaSet :: ReplicaSet
  Observed_ConfiguredVolatileCount :: nat
  Observed_ConfiguredPersistentCount :: nat
  Observed_ActualVolatileCount :: nat
  Observed_ActualPersistentCount :: nat

record ReplicaSetInitiationStatus =
  Initiation_Initiated :: bool
  Initiation_ReplicaSet :: ReplicaSet

text \<open>The bus carries \<open>interface{}\<close> values; the receivers switch on the dynamic type.\<close>

datatype StatusMessage =
  ConnectionStatusMsg ConnectionStatus
| MongodMatchStatusMsg MongodMatchStatus
| DesiredConstraintMsg DesiredReplicaSetConstraintStatus
| ObservedConstraintMsg ObservedReplicaSetConstraintStatus
| InitiationMsg ReplicaSetInitiationStatus

end
