(* ===== verification/Ports.thy ===== *)
theory Ports
  imports Model
begin

text \<open>
  The search for a free port, \<open>findUnusedPort\<close> of \<open>src/master/cluster_allocator.go\<close>, and the port
  arithmetic beside it.  Ports are 16-bit words, so \<open>currentPort++\<close> and the subtraction of the
  range bounds wrap as in the code.
\<close>

section \<open>The merge-join-like loop\<close>

text \<open>The first loop moves \<open>usedPortIndex\<close> past the used ports below the range.\<close>

function skipPorts :: "PortNumber list \<Rightarrow> PortNumber \<Rightarrow> nat \<Rightarrow> nat" where
  "skipPorts usedPorts minPort usedPortIndex =
    (if usedPortIndex < length usedPorts \<and> \<not> (minPort \<le> usedPorts ! usedPortIndex)
     then skipPorts usedPorts minPort (Suc usedPortIndex)
     else usedPortIndex)"
  by pat_completeness auto
termination
  by (relation "measure (\<lambda>(usedPorts, minPort, i). length usedPorts - i)") auto

lemma unat_Suc_word: "(c :: PortNumber) < m \<Longrightarrow> unat (c + 1) = Suc (unat c)"
  by unat_arith

text \<open>The second loop: \<open>currentPort\<close> runs through the range.\<close>

function portLoop :: "PortNumber list \<Rightarrow> PortNumber \<Rightarrow> nat \<Rightarrow> PortNumber \<Rightarrow> PortNumber \<times> bool" where
  "portLoop usedPorts maxPort usedPortIndex currentPort =
    (if currentPort < maxPort then
       if usedPortIndex \<ge> length usedPorts then (currentPort, True)
       else if usedPorts ! usedPortIndex = currentPort
         then portLoop usedPorts maxPort (Suc usedPortIndex) (currentPort + 1)
       else if usedPorts ! usedPortIndex > currentPort then (currentPort, True)
       else portLoop usedPorts maxPort usedPortIndex (currentPort + 1)
     else (0, False))"
  by pat_completeness auto
termination
proof (relation "measure (\<lambda>(usedPorts, maxPort, i, c). unat maxPort - unat c)", goal_cases)
  case (2 usedPorts maxPort i c)
  then show ?case
    using unat_Suc_word [of c maxPort] by (simp add: word_less_nat_alt)
next
  case (3 usedPorts maxPort i c)
  then show ?case
    using unat_Suc_word [of c maxPort] by (simp add: word_less_nat_alt)
qed simp

definition findUnusedPort :: "PortNumber list \<Rightarrow> PortNumber \<Rightarrow> PortNumber \<Rightarrow> PortNumber \<times> bool" where
  "findUnusedPort usedPorts minPort maxPort =
    portLoop usedPorts maxPort (skipPorts usedPorts minPort 0) minPort"

declare skipPorts.simps [simp del] portLoop.simps [simp del]

text \<open>\<open>slaveMaxNumberOfMongods\<close>: \<open>None\<close> is the panic.\<close>

definition slaveMaxNumberOfMongods :: "Slave \<Rightarrow> PortNumber option" where
  "slaveMaxNumberOfMongods s =
    (let res = Slave_MongodPortRangeEnd s - Slave_MongodPortRangeBegin s
     in if res \<le> 0 then None else Some res)"

text \<open>\<open>slaveUsage\<close> and \<open>slaveBusyRate\<close>, for a slave with the given loaded \<open>Mongods\<close>.\<close>

definition slaveUsage :: "Slave \<Rightarrow> Mongod list \<Rightarrow> (nat \<times> nat) option" where
  "slaveUsage s ms =
    (case slaveMaxNumberOfMongods s of None \<Rightarrow> None | Some k \<Rightarrow> Some (length ms, unat k))"

definition slaveBusyRate :: "Slave \<Rightarrow> Mongod list \<Rightarrow> rat option" where
  "slaveBusyRate s ms =
    (case slaveUsage s ms of None \<Rightarrow> None
     | Some (runningMongods, maxMongods) \<Rightarrow> Some (of_nat runningMongods / of_nat maxMongods))"

section \<open>The contract of a port search\<close>

lemma card_word_interval: "card {a..<b :: PortNumber} = unat b - unat a"
proof -
  have "unat ` {a..<b} = {unat a..<unat b}"
  proof (intro equalityI subsetI)
    fix k assume k: "k \<in> {unat a..<unat b}"
    have "unat b < 2 ^ LENGTH(16)"
      by (rule unsigned_less)
    with k have "k < 2 ^ 16"
      by simp
    then have "unat (of_nat k :: PortNumber) = k"
      by (simp add: unat_of_nat)
    with k show "k \<in> unat ` {a..<b}"
      by (intro image_eqI [of _ _ "of_nat k"]) (auto simp: word_le_nat_alt word_less_nat_alt)
  qed (auto simp: word_le_nat_alt word_less_nat_alt)
  moreover have "card (unat ` {a..<b}) = card {a..<b}"
    by (rule card_image) (meson inj_onI word_unat_eq_iff)
  ultimately show ?thesis by simp
qed

text \<open>
  What a caller may rely on: over the sorted list of used ports, a port that is found lies in the
  range and is free; over a list that is moreover free of duplicates, failing means that the
  whole range is in use, and the port found is the lowest free one.
\<close>

locale port_search =
  fixes search :: "PortNumber list \<Rightarrow> PortNumber \<Rightarrow> PortNumber \<Rightarrow> PortNumber \<times> bool"
  assumes found_free:
      "sorted used \<Longrightarrow> search used a b = (p, True) \<Longrightarrow> a \<le> p \<and> p < b \<and> p \<notin> set used"
    and found_lowest:
      "sorted used \<Longrightarrow> distinct used \<Longrightarrow> search used a b = (p, True) \<Longrightarrow> {a..<p} \<subseteq> set used"
    and not_found_full:
      "sorted used \<Longrightarrow> distinct used \<Longrightarrow> search used a b = (p, False) \<Longrightarrow> {a..<b} \<subseteq> set used"
begin

text \<open>With fewer used ports than the range is wide, the search succeeds.\<close>

lemma found_if_room:
  assumes "sorted used" and "distinct used" and "length used < unat b - unat a"
  shows "\<exists>p. search used a b = (p, True)"
proof (rule ccontr)
  assume "\<nexists>p. search used a b = (p, True)"
  then obtain p where "search used a b = (p, False)"
    by (metis (full_types) surj_pair)
  then have "{a..<b} \<subseteq> set used"
    by (rule not_found_full [OF assms(1,2)])
  then have "card {a..<b} \<le> length used"
    by (meson card_length card_mono finite_set le_trans)
  with assms(3) show False by (simp add: card_word_interval)
qed

lemma found_iff_free:
  assumes "sorted used" and "distinct used"
  shows "snd (search used a b) \<longleftrightarrow> (\<exists>q. a \<le> q \<and> q < b \<and> q \<notin> set used)"
proof (cases "search used a b")
  case (Pair p f)
  show ?thesis
  proof (cases f)
    case True
    with Pair show ?thesis using found_free [OF assms(1), of a b p] by auto
  next
    case False
    with Pair show ?thesis using not_found_full [OF assms, of a b p] by (auto simp: subset_eq)
  qed
qed

end

section \<open>findUnusedPort meets the contract\<close>

text \<open>After the first loop exactly the used ports below the range are behind the index.\<close>

lemma skipPorts_spec:
  assumes "i \<le> length used" and "\<forall>j < i. used ! j < a"
  shows "skipPorts used a i \<le> length used \<and> (\<forall>j < skipPorts used a i. used ! j < a) \<and>
    (skipPorts used a i < length used \<longrightarrow> a \<le> used ! skipPorts used a i)"
  using assms
proof (induction used a i rule: skipPorts.induct)
  case (1 used a i)
  show ?case
  proof (cases "i < length used \<and> \<not> a \<le> used ! i")
    case True
    then have "\<forall>j < Suc i. used ! j < a"
      using "1.prems" by (auto simp: less_Suc_eq not_le)
    with "1.IH" True show ?thesis by (simp add: skipPorts.simps [of used a i])
  next
    case False
    with "1.prems" show ?thesis by (auto simp: skipPorts.simps [of used a i])
  qed
qed

text \<open>
  The loop invariant of the comment in the code, in three parts: the ports behind the index are
  below \<open>currentPort\<close>, the port at the index is not (this is what duplicates break), and the
  ports between \<open>minPort\<close> and \<open>currentPort\<close> are all used.
\<close>

lemma nth_bound_Suc:
  assumes "\<forall>j < i. j < length used \<longrightarrow> used ! j < (c :: PortNumber)" and "c < b"
  shows "\<forall>j < i. j < length used \<longrightarrow> used ! j < c + 1"
    and "used ! i = c \<Longrightarrow> \<forall>j < Suc i. j < length used \<longrightarrow> used ! j < c + 1"
proof -
  have "x < c \<Longrightarrow> x < c + 1" and "c < c + 1" for x
    using assms(2) by unat_arith+
  with assms(1) show "\<forall>j < i. j < length used \<longrightarrow> used ! j < c + 1"
    and "used ! i = c \<Longrightarrow> \<forall>j < Suc i. j < length used \<longrightarrow> used ! j < c + 1"
    by (auto simp: less_Suc_eq)
qed

lemma notin_sorted_gap:
  assumes "sorted used" and "\<forall>j < i. j < length used \<longrightarrow> used ! j < c"
    and "i < length used \<Longrightarrow> c < used ! i"
  shows "(c :: PortNumber) \<notin> set used"
proof
  assume "c \<in> set used"
  then obtain j where j: "j < length used" "used ! j = c"
    by (auto simp: in_set_conv_nth)
  show False
  proof (cases "j < i")
    case True
    with assms(2) j show False by auto
  next
    case False
    then have "i < length used" and "used ! i \<le> used ! j"
      using j assms(1) by (auto intro: sorted_nth_mono)
    with assms(3) j show False by simp
  qed
qed

text \<open>One pass of the loop, by cases.\<close>

lemma portLoop_end: "\<not> c < b \<Longrightarrow> portLoop used b i c = (0, False)"
  by (simp add: portLoop.simps [of used b i c])

lemma portLoop_stop:
  "c < b \<Longrightarrow> length used \<le> i \<or> c < used ! i \<Longrightarrow> portLoop used b i c = (c, True)"
  by (auto simp: portLoop.simps [of used b i c])

lemma portLoop_hit:
  "c < b \<Longrightarrow> i < length used \<Longrightarrow> used ! i = c \<Longrightarrow>
    portLoop used b i c = portLoop used b (Suc i) (c + 1)"
  by (simp add: portLoop.simps [of used b i c])

lemma portLoop_miss:
  "c < b \<Longrightarrow> i < length used \<Longrightarrow> used ! i < c \<Longrightarrow> portLoop used b i c = portLoop used b i (c + 1)"
  by (auto simp: portLoop.simps [of used b i c])

lemma portLoop_cases:
  obtains (out) "\<not> c < b"
  | (stop) "c < b" "length used \<le> i \<or> c < used ! i"
  | (hit) "c < b" "i < length used" "used ! i = c"
  | (miss) "c < b" "i < length used" "used ! i < (c :: PortNumber)"
  by (meson linorder_less_linear not_le)

lemma portLoop_found:
  assumes "sorted used" and "\<forall>j < i. j < length used \<longrightarrow> used ! j < c"
    and "portLoop used b i c = (p, True)"
  shows "c \<le> p \<and> p < b \<and> p \<notin> set used"
  using assms
proof (induction used b i c rule: portLoop.induct)
  case (1 used b i c)
  have trans: "c + 1 \<le> p \<Longrightarrow> c \<le> p" if "c < b"
    using that by unat_arith
  show ?case
  proof (cases rule: portLoop_cases [where c = c and b = b and used = used and i = i])
    case out
    with "1.prems"(3) show ?thesis by (simp add: portLoop_end)
  next
    case stop
    moreover have "c \<notin> set used"
      using "1.prems"(1,2) by (rule notin_sorted_gap) (use stop in auto)
    ultimately show ?thesis using "1.prems"(3) by (simp add: portLoop_stop)
  next
    case hit
    then have "c + 1 \<le> p \<and> p < b \<and> p \<notin> set used"
      using "1.IH"(1) "1.prems" nth_bound_Suc(2) [OF "1.prems"(2)] by (simp add: portLoop_hit)
    with hit trans show ?thesis by simp
  next
    case miss
    then have "c + 1 \<le> p \<and> p < b \<and> p \<notin> set used"
      using "1.IH"(2) "1.prems" nth_bound_Suc(1) [OF "1.prems"(2)] by (simp add: portLoop_miss)
    with miss trans show ?thesis by simp
  qed
qed

text \<open>Over a strictly ascending list the port at the index never falls behind, and every port the
  loop has passed was in use.\<close>

lemma portLoop_passed:
  assumes "sorted_wrt (<) used" and "i < length used \<longrightarrow> c \<le> used ! i" and "{a..<c} \<subseteq> set used"
    and "a \<le> c" and "portLoop used b i c = (p, f)"
  shows "{a..<(if f then p else b)} \<subseteq> set used"
  using assms
proof (induction used b i c rule: portLoop.induct)
  case (1 used b i c)
  show ?case
  proof (cases rule: portLoop_cases [where c = c and b = b and used = used and i = i])
    case out
    then have "{a..<b} \<subseteq> set used"
      using "1.prems"(3) by (meson atLeastLessThan_iff less_le_trans linorder_not_less subset_eq)
    with out "1.prems"(5) show ?thesis by (simp add: portLoop_end split: if_splits)
  next
    case stop
    with "1.prems" show ?thesis by (auto simp: portLoop_stop)
  next
    case hit
    have *: "x < c + 1 \<Longrightarrow> x \<le> c" "c < x \<Longrightarrow> c + 1 \<le> x" "x \<le> c \<Longrightarrow> x \<le> c + 1" for x
      using hit(1) by unat_arith+
    have "c \<in> set used"
      using hit by (metis nth_mem)
    moreover have "{a..<c + 1} \<subseteq> insert c {a..<c}"
      using *(1) by force
    ultimately have "{a..<c + 1} \<subseteq> set used"
      using "1.prems"(3) by blast
    moreover have "Suc i < length used \<longrightarrow> c + 1 \<le> used ! Suc i"
      using "1.prems"(1) hit *(2) by (metis lessI sorted_wrt_nth_less)
    ultimately show ?thesis
      using "1.IH"(1) "1.prems" hit *(3) by (simp add: portLoop_hit)
  next
    case miss
    with "1.prems"(2) show ?thesis by simp
  qed
qed

lemma findUnusedPort_start:
  shows "\<forall>j < skipPorts used a 0. j < length used \<longrightarrow> used ! j < a"
    and "skipPorts used a 0 < length used \<longrightarrow> a \<le> used ! skipPorts used a 0"
  using skipPorts_spec [of 0 used a] by simp_all

interpretation fup: port_search findUnusedPort
proof (unfold_locales, goal_cases)
  case (1 used a b p)
  then show ?case
    unfolding findUnusedPort_def by (rule portLoop_found [OF _ findUnusedPort_start(1)])
next
  case (2 used a b p)
  then show ?case
    using portLoop_passed [OF _ findUnusedPort_start(2), of used a a b p True]
    by (simp add: findUnusedPort_def strict_sorted_iff)
next
  case (3 used a b p)
  then show ?case
    using portLoop_passed [OF _ findUnusedPort_start(2), of used a a b p False]
    by (simp add: findUnusedPort_def strict_sorted_iff)
qed

section \<open>Properties\<close>

text \<open>C18: for the strictly ascending list of the ports in use, \<open>findUnusedPort\<close> reports
  success exactly if the range \<open>[minPort, maxPort)\<close> has a free port, and then returns the lowest
  free port of the range.\<close>

theorem findUnusedPort_correct:
  assumes "sorted usedPorts" and "distinct usedPorts"
  shows "case findUnusedPort usedPorts minPort maxPort of (p, found) \<Rightarrow>
    (found \<longleftrightarrow> (\<exists>q. minPort \<le> q \<and> q < maxPort \<and> q \<notin> set usedPorts)) \<and>
    (found \<longrightarrow> minPort \<le> p \<and> p < maxPort \<and> p \<notin> set usedPorts \<and>
      (\<forall>q. minPort \<le> q \<and> q < p \<longrightarrow> q \<in> set usedPorts))"
proof (cases "findUnusedPort usedPorts minPort maxPort")
  case (Pair p found)
  have "found \<longleftrightarrow> (\<exists>q. minPort \<le> q \<and> q < maxPort \<and> q \<notin> set usedPorts)"
    using fup.found_iff_free [OF assms, of minPort maxPort] Pair by simp
  with Pair show ?thesis
    using fup.found_free [OF assms(1), of minPort maxPort p]
      fup.found_lowest [OF assms, of minPort maxPort p]
    by (auto simp: subset_eq)
qed

theorem findUnusedPort_correct_witness:
  "findUnusedPort [2, 3, 5] 2 6 = (4, True) \<and>
   (\<exists>q. (2 :: PortNumber) \<le> q \<and> q < 6 \<and> q \<notin> set [2, 3, 5])"
proof -
  have "findUnusedPort [2, 3, 5] 2 6 = (4, True)"
    by (simp add: findUnusedPort_def skipPorts.simps portLoop.simps)
  with findUnusedPort_correct [of "[2, 3, 5]" 2 6] show ?thesis
    by simp
qed

text \<open>The comment asks only for an ascending list, but with a port listed twice the
  search gives up although the range has free ports: the index stops at the second copy, which
  is below \<open>currentPort\<close> from then on.\<close>

theorem findUnusedPort_duplicates:
  "sorted [2, 2 :: PortNumber] \<and> findUnusedPort [2, 2] 2 5 = (0, False) \<and>
   (3 :: PortNumber) \<notin> set [2, 2]"
  by (simp add: findUnusedPort_def skipPorts.simps portLoop.simps)

end
