(* ===== verification/Database.thy ===== *)
theory Database
  imports Ports
begin

text \<open>
  The database behind the master: the tables and views of \<open>src/model/sql/mamid_postgresql.sql\<close>,
  and statements that run inside a transaction.

  The Go code talks to PostgreSQL through gorm.  A statement is translated by what SQL says it
  does to the tables; gorm's \<open>First\<close>, \<open>Create\<close>, \<open>Update\<close>, \<open>Save\<close>, \<open>Delete\<close> and \<open>Related\<close> are the
  \<open>SELECT\<close>, \<open>INSERT\<close>, \<open>UPDATE\<close> and \<open>DELETE\<close> they issue.  What the database decides on its own is a
  parameter, the record \<open>dbms\<close>: whether a statement fails, the value of a fresh \<open>BIGSERIAL\<close> key,
  the order of rows that the query leaves open, and the time.  Each decision may differ from
  statement to statement, so it takes the number of the statement.
\<close>

section \<open>Tables\<close>

record DB =
  risk_groups :: "RiskGroup list"
  replica_sets :: "ReplicaSet list"
  msp_errors :: "MSPError list"
  slaves :: "Slave list"
  mongod_states :: "MongodStateRow list"
  mongods :: "Mongod list"
  problems :: "Problem list"
  mongod_keyfiles :: "MongodKeyfile list"
  mongodb_root_credentials :: "MongodbCredential list"

definition empty_DB :: DB where
  "empty_DB = \<lparr>risk_groups = [], replica_sets = [], msp_errors = [], slaves = [], mongod_states = [],
     mongods = [], problems = [], mongod_keyfiles = [], mongodb_root_credentials = []\<rparr>"

abbreviation lookup_slave :: "DB \<Rightarrow> ID \<Rightarrow> Slave option" where
  "lookup_slave db i \<equiv> find_row Slave_ID i (slaves db)"
abbreviation lookup_mongod :: "DB \<Rightarrow> ID \<Rightarrow> Mongod option" where
  "lookup_mongod db i \<equiv> find_row Mongod_ID i (mongods db)"
abbreviation lookup_state :: "DB \<Rightarrow> ID \<Rightarrow> MongodStateRow option" where
  "lookup_state db i \<equiv> find_row State_ID i (mongod_states db)"
abbreviation lookup_replica_set :: "DB \<Rightarrow> ID \<Rightarrow> ReplicaSet option" where
  "lookup_replica_set db i \<equiv> find_row ReplicaSet_ID i (replica_sets db)"
abbreviation lookup_risk_group :: "DB \<Rightarrow> ID \<Rightarrow> RiskGroup option" where
  "lookup_risk_group db i \<equiv> find_row RiskGroup_ID i (risk_groups db)"

section \<open>Views\<close>

type_synonym member_row = "ID \<times> ID \<times> bool"

text \<open>The view \<open>replica_set_effective_members\<close>: replica set, Mongod, persistence of the slave.\<close>

definition replica_set_effective_members :: "DB \<Rightarrow> member_row list" where
  "replica_set_effective_members db =
    [(ReplicaSet_ID r, Mongod_ID m, Slave_PersistentStorage s).
       r \<leftarrow> replica_sets db,
       m \<leftarrow> mongods db, Mongod_ReplicaSetID m = Some (ReplicaSet_ID r),
       s \<leftarrow> slaves db, Slave_ID s = Mongod_ParentSlaveID m,
       observed \<leftarrow> mongod_states db, Mongod_ObservedStateID m = Some (State_ID observed),
       desired \<leftarrow> mongod_states db, State_ID desired = Mongod_DesiredStateID m,
       MongodExecutionState_num (State_ExecutionState observed) = 6 \<and>
       MongodExecutionState_num (State_ExecutionState desired) = 6]"

definition replica_set_effective_members_for_monitoring :: "DB \<Rightarrow> member_row list" where
  "replica_set_effective_members_for_monitoring db =
    [(ReplicaSet_ID r, Mongod_ID m, Slave_PersistentStorage s).
       r \<leftarrow> replica_sets db,
       m \<leftarrow> mongods db, Mongod_ReplicaSetID m = Some (ReplicaSet_ID r),
       s \<leftarrow> slaves db, Slave_ID s = Mongod_ParentSlaveID m,
       observed \<leftarrow> mongod_states db, Mongod_ObservedStateID m = Some (State_ID observed),
       desired \<leftarrow> mongod_states db, State_ID desired = Mongod_DesiredStateID m,
       (MongodExecutionState_num (State_ExecutionState observed) = 6 \<and>
        Slave_ObservationErrorID s = None) \<and>
       MongodExecutionState_num (State_ExecutionState desired) = 6]"

definition replica_set_configured_members :: "DB \<Rightarrow> member_row list" where
  "replica_set_configured_members db =
    [(ReplicaSet_ID r, Mongod_ID m, Slave_PersistentStorage s).
       r \<leftarrow> replica_sets db,
       m \<leftarrow> mongods db, Mongod_ReplicaSetID m = Some (ReplicaSet_ID r),
       desired_state \<leftarrow> mongod_states db, State_ID desired_state = Mongod_DesiredStateID m,
       s \<leftarrow> slaves db, Slave_ID s = Mongod_ParentSlaveID m,
       SlaveState_num (Slave_ConfiguredState s) \<noteq> 3 \<and>
       MongodExecutionState_num (State_ExecutionState desired_state) \<notin> {3, 2, 1}]"

text \<open>\<open>SELECT COUNT(*) FROM view WHERE replica_set_id = ... AND persistent_storage = ...\<close>, and the
  same with \<open>COUNT(DISTINCT mongod_id)\<close>.\<close>

definition count_members :: "member_row list \<Rightarrow> ID \<Rightarrow> bool \<Rightarrow> nat" where
  "count_members view rid p = length (filter (\<lambda>(r, m, ps). r = rid \<and> ps = p) view)"

definition count_distinct_members :: "member_row list \<Rightarrow> ID \<Rightarrow> bool \<Rightarrow> nat" where
  "count_distinct_members view rid p =
    length (remdups (map (\<lambda>(r, m, ps). m) (filter (\<lambda>(r, m, ps). r = rid \<and> ps = p) view)))"

text \<open>The execution states reached from a Mongod over its two references; an outer join that finds no
  row gives \<open>NULL\<close>, which equals nothing.\<close>

definition desired_exec :: "DB \<Rightarrow> Mongod \<Rightarrow> MongodExecutionState option" where
  "desired_exec db m = map_option State_ExecutionState (lookup_state db (Mongod_DesiredStateID m))"

definition observed_exec :: "DB \<Rightarrow> Mongod \<Rightarrow> MongodExecutionState option" where
  "observed_exec db m =
    (case Mongod_ObservedStateID m of None \<Rightarrow> None
     | Some i \<Rightarrow> map_option State_ExecutionState (lookup_state db i))"

text \<open>The view \<open>slave_utilization\<close>; its quotient is exact here.\<close>

record utilization_row =
  SU_slave :: Slave
  SU_max_mongods :: int
  SU_current_mongods :: int
  SU_utilization :: rat
  SU_free_mongods :: int

definition mongods_on_slave :: "DB \<Rightarrow> ID \<Rightarrow> Mongod list" where
  "mongods_on_slave db sid = filter (\<lambda>m. Mongod_ParentSlaveID m = sid) (mongods db)"

definition slave_utilization_of :: "DB \<Rightarrow> Slave \<Rightarrow> utilization_row" where
  "slave_utilization_of db s =
    (let max_mongods = int (unat (Slave_MongodPortRangeEnd s)) - int (unat (Slave_MongodPortRangeBegin s));
         current_mongods = int (length (remdups (map Mongod_ID (mongods_on_slave db (Slave_ID s)))))
     in \<lparr>SU_slave = s, SU_max_mongods = max_mongods, SU_current_mongods = current_mongods,
         SU_utilization = (if max_mongods = 0 then 1 else of_int current_mongods / of_int max_mongods),
         SU_free_mongods = max_mongods - current_mongods\<rparr>)"

definition slave_utilization :: "DB \<Rightarrow> utilization_row list" where
  "slave_utilization db = map (slave_utilization_of db) (slaves db)"

section \<open>Statements\<close>

datatype DBError = IntegrityConstraintViolation string | ErrInvalidTransaction | OtherDBError string

datatype err = ErrDB DBError | ErrMsg string

text \<open>How a Go function may end other than by returning a result: with an error value, or in a
  panic.  \<open>OutOfFuel\<close> belongs to the model, it marks a loop cut off at its bound.\<close>

datatype failure = Failed err | Panic err | OutOfFuel

record dbms =
  dbFault :: "nat \<Rightarrow> DBError option"
  newID :: "nat \<Rightarrow> ID list \<Rightarrow> ID"
  scanOrder :: "nat \<Rightarrow> nat \<Rightarrow> nat list"
  clock :: "nat \<Rightarrow> int"

text \<open>What PostgreSQL documents about its choices: a \<open>BIGSERIAL\<close> key starts at 1 and is not given out
  twice, and a query returns each of its rows once.\<close>

definition dbms_ok :: "dbms \<Rightarrow> bool" where
  "dbms_ok D \<longleftrightarrow>
    (\<forall>n ids. 0 < newID D n ids \<and> newID D n ids \<notin> set ids) \<and>
    (\<forall>n k. mset (scanOrder D n k) = mset [0..<k])"

definition fault_free :: "dbms \<Rightarrow> bool" where
  "fault_free D \<longleftrightarrow> (\<forall>n. dbFault D n = None)"

text \<open>A database that never fails, numbers rows upwards and scans tables in insertion order.\<close>

definition plain_dbms :: dbms where
  "plain_dbms = \<lparr>dbFault = (\<lambda>_. None), newID = (\<lambda>_ ids. 1 + foldr max ids 0),
     scanOrder = (\<lambda>_ k. [0..<k]), clock = (\<lambda>n. int n)\<rparr>"

text \<open>The rows of a query in the order the database returns them.\<close>

definition scan :: "dbms \<Rightarrow> nat \<Rightarrow> 'r list \<Rightarrow> 'r list" where
  "scan D n rows = permute (scanOrder D n (length rows)) rows"

definition order_by :: "dbms \<Rightarrow> nat \<Rightarrow> ('r \<Rightarrow> 'k :: linorder) \<Rightarrow> 'r list \<Rightarrow> 'r list" where
  "order_by D n key rows = sort_key key (scan D n rows)"

definition limit1 :: "'r list \<Rightarrow> 'r option" where
  "limit1 rows = (case rows of [] \<Rightarrow> None | r # _ \<Rightarrow> Some r)"

text \<open>The state inside a transaction: the tables as this transaction sees them, the number of
  statements issued, and what has been written to the bus.\<close>

record tx =
  txDB :: DB
  txCalls :: nat
  txBus :: "StatusMessage list"

type_synonym 'a action = "(tx, failure, 'a) sem"

definition begin_tx :: "DB \<Rightarrow> tx" where
  "begin_tx db = \<lparr>txDB = db, txCalls = 0, txBus = []\<rparr>"

definition tick :: "tx \<Rightarrow> tx" where
  "tick s = s\<lparr>txCalls := Suc (txCalls s)\<rparr>"

definition sql_stmt :: "dbms \<Rightarrow> (nat \<Rightarrow> DB \<Rightarrow> DBError + 'a \<times> DB) \<Rightarrow> 'a action" where
  "sql_stmt D f = (\<lambda>s.
    case dbFault D (txCalls s) of
      Some e \<Rightarrow> (Inl (Failed (ErrDB e)), tick s)
    | None \<Rightarrow> (case f (txCalls s) (txDB s) of
        Inl e \<Rightarrow> (Inl (Failed (ErrDB e)), tick s)
      | Inr (x, db) \<Rightarrow> (Inr x, (tick s)\<lparr>txDB := db\<rparr>)))"

definition sql_query :: "dbms \<Rightarrow> (nat \<Rightarrow> DB \<Rightarrow> 'a) \<Rightarrow> 'a action" where
  "sql_query D q = sql_stmt D (\<lambda>n db. Inr (q n db, db))"

definition sql_exec :: "dbms \<Rightarrow> (DB \<Rightarrow> DB) \<Rightarrow> unit action" where
  "sql_exec D u = sql_stmt D (\<lambda>n db. Inr ((), u db))"

text \<open>\<open>if err != nil { panic(err) }\<close>.\<close>

definition orPanic :: "'a action \<Rightarrow> 'a action" where
  "orPanic m = catchM m (\<lambda>e. case e of Failed x \<Rightarrow> raiseM (Panic x) | _ \<Rightarrow> raiseM e)"

text \<open>\<open>fmt.Errorf(prefix + "%s", err)\<close>: the error a call returns is wrapped; a panic passes.\<close>

definition wrapErr :: "(err \<Rightarrow> string) \<Rightarrow> string \<Rightarrow> 'a action \<Rightarrow> 'a action" where
  "wrapErr show_err prefix m = catchM m (\<lambda>f. case f of
     Failed e \<Rightarrow> raiseM (Failed (ErrMsg (prefix @ show_err e))) | _ \<Rightarrow> raiseM f)"

text \<open>\<open>if err := m(); err != nil { ... }\<close>: the error becomes a value; a panic passes.\<close>

definition attempt :: "'a action \<Rightarrow> (err + 'a) action" where
  "attempt m = catchM (bindM m (\<lambda>x. returnM (Inr x)))
    (\<lambda>f. case f of Failed e \<Rightarrow> returnM (Inl e) | _ \<Rightarrow> raiseM f)"

text \<open>The end of a transaction that began in the given tables.  A commit is a statement: if it fails,
  the tables are as they were.\<close>

definition rollback :: "DB \<Rightarrow> unit action" where
  "rollback db0 = modifyM (\<lambda>s. s\<lparr>txDB := db0\<rparr>)"

text \<open>The foreign keys of the schema, all of them \<open>DEFERRABLE INITIALLY DEFERRED\<close>: the commit checks them.\<close>

definition refers :: "ID option \<Rightarrow> ID list \<Rightarrow> bool" where
  "refers r ids = (case r of None \<Rightarrow> True | Some i \<Rightarrow> i \<in> set ids)"

definition slave_keys_ok :: "DB \<Rightarrow> Slave \<Rightarrow> bool" where
  "slave_keys_ok db s \<longleftrightarrow> refers (Slave_RiskGroupID s) (map RiskGroup_ID (risk_groups db)) \<and>
     refers (Slave_ObservationErrorID s) (map MSPError_ID (msp_errors db))"

definition mongod_keys_ok :: "DB \<Rightarrow> Mongod \<Rightarrow> bool" where
  "mongod_keys_ok db m \<longleftrightarrow> refers (Mongod_ObservationErrorID m) (map MSPError_ID (msp_errors db)) \<and>
     refers (Mongod_LastEstablishStateErrorID m) (map MSPError_ID (msp_errors db)) \<and>
     refers (Some (Mongod_ParentSlaveID m)) (map Slave_ID (slaves db)) \<and>
     refers (Mongod_ReplicaSetID m) (map ReplicaSet_ID (replica_sets db)) \<and>
     refers (Some (Mongod_DesiredStateID m)) (map State_ID (mongod_states db)) \<and>
     refers (Mongod_ObservedStateID m) (map State_ID (mongod_states db))"

definition problem_keys_ok :: "DB \<Rightarrow> Problem \<Rightarrow> bool" where
  "problem_keys_ok db p \<longleftrightarrow> refers (Problem_SlaveID p) (map Slave_ID (slaves db)) \<and>
     refers (Problem_ReplicaSetID p) (map ReplicaSet_ID (replica_sets db)) \<and>
     refers (Problem_MongodID p) (map Mongod_ID (mongods db))"

definition foreign_keys_ok :: "DB \<Rightarrow> bool" where
  "foreign_keys_ok db \<longleftrightarrow> (\<forall>s \<in> set (slaves db). slave_keys_ok db s) \<and>
     (\<forall>m \<in> set (mongods db). mongod_keys_ok db m) \<and>
     (\<forall>st \<in> set (mongod_states db). refers (Some (State_ParentMongodID st)) (map Mongod_ID (mongods db))) \<and>
     (\<forall>p \<in> set (problems db). problem_keys_ok db p)"

definition commit :: "dbms \<Rightarrow> DB \<Rightarrow> unit action" where
  "commit D db0 = catchM
     (sql_stmt D (\<lambda>n db. if foreign_keys_ok db then Inr ((), db)
        else Inl (IntegrityConstraintViolation ''violates foreign key constraint'')))
     (\<lambda>f. bindM (rollback db0) (\<lambda>_. raiseM f))"

definition send :: "StatusMessage \<Rightarrow> unit action" where
  "send msg = modifyM (\<lambda>s. s\<lparr>txBus := txBus s @ [msg]\<rparr>)"

subsection \<open>Row operations\<close>

definition insert_msp_error :: "dbms \<Rightarrow> MSPError \<Rightarrow> MSPError action" where
  "insert_msp_error D e = sql_stmt D (\<lambda>n db.
    let e' = e\<lparr>MSPError_ID := newID D n (map MSPError_ID (msp_errors db))\<rparr>
    in Inr (e', db\<lparr>msp_errors := msp_errors db @ [e']\<rparr>))"

definition update_msp_error :: "ID \<Rightarrow> (MSPError \<Rightarrow> MSPError) \<Rightarrow> DB \<Rightarrow> DB" where
  "update_msp_error i f db =
    db\<lparr>msp_errors := map (\<lambda>e. if MSPError_ID e = i then f e else e) (msp_errors db)\<rparr>"

definition update_slave :: "ID \<Rightarrow> (Slave \<Rightarrow> Slave) \<Rightarrow> DB \<Rightarrow> DB" where
  "update_slave i f db = db\<lparr>slaves := map (\<lambda>s. if Slave_ID s = i then f s else s) (slaves db)\<rparr>"

text \<open>\<open>DELETE FROM msp_errors WHERE id = i\<close>: every reference to the row becomes \<open>NULL\<close>.\<close>

definition unref :: "ID \<Rightarrow> ID option \<Rightarrow> ID option" where
  "unref i r = (if r = Some i then None else r)"

definition delete_msp_error :: "ID \<Rightarrow> DB \<Rightarrow> DB" where
  "delete_msp_error i db =
    db\<lparr>msp_errors := filter (\<lambda>e. MSPError_ID e \<noteq> i) (msp_errors db),
       slaves := map (\<lambda>s. s\<lparr>Slave_ObservationErrorID := unref i (Slave_ObservationErrorID s)\<rparr>) (slaves db),
       mongods := map (\<lambda>m. m\<lparr>Mongod_ObservationErrorID := unref i (Mongod_ObservationErrorID m),
         Mongod_LastEstablishStateErrorID := unref i (Mongod_LastEstablishStateErrorID m)\<rparr>) (mongods db)\<rparr>"

definition insert_mongod :: "dbms \<Rightarrow> Mongod \<Rightarrow> Mongod action" where
  "insert_mongod D m = sql_stmt D (\<lambda>n db.
    let m' = m\<lparr>Mongod_ID := newID D n (map Mongod_ID (mongods db))\<rparr>
    in Inr (m', db\<lparr>mongods := mongods db @ [m']\<rparr>))"

definition insert_state :: "dbms \<Rightarrow> MongodStateRow \<Rightarrow> MongodStateRow action" where
  "insert_state D st = sql_stmt D (\<lambda>n db.
    let st' = st\<lparr>State_ID := newID D n (map State_ID (mongod_states db))\<rparr>
    in Inr (st', db\<lparr>mongod_states := mongod_states db @ [st']\<rparr>))"

text \<open>\<open>UPDATE mongods SET ... WHERE id = i\<close> and \<open>UPDATE mongod_states SET ... WHERE id = i\<close>.\<close>

definition update_mongod :: "ID \<Rightarrow> (Mongod \<Rightarrow> Mongod) \<Rightarrow> DB \<Rightarrow> DB" where
  "update_mongod i f db = db\<lparr>mongods := map (\<lambda>m. if Mongod_ID m = i then f m else m) (mongods db)\<rparr>"

definition update_state :: "ID \<Rightarrow> (MongodStateRow \<Rightarrow> MongodStateRow) \<Rightarrow> DB \<Rightarrow> DB" where
  "update_state i f db =
    db\<lparr>mongod_states := map (\<lambda>st. if State_ID st = i then f st else st) (mongod_states db)\<rparr>"

text \<open>
  \<open>DELETE FROM mongods\<close> with the referential actions of the schema: the states of a deleted Mongod
  go (\<open>mongod_states.parent_mongod_id ON DELETE CASCADE\<close>), a Mongod whose desired state goes is
  deleted in turn (\<open>desired_state_id ON DELETE CASCADE\<close>), a reference to an observed state that
  goes becomes \<open>NULL\<close>, and the problems of a deleted Mongod go.  Each round of the cascade that
  changes anything deletes another Mongod, so as many rounds as there are Mongods suffice.
\<close>

definition cascade_round :: "DB \<Rightarrow> ID list \<Rightarrow> ID list" where
  "cascade_round db ids =
    [Mongod_ID m. m \<leftarrow> mongods db,
       Mongod_ID m \<in> set ids \<or>
       (\<exists>st \<in> set (mongod_states db).
          State_ParentMongodID st \<in> set ids \<and> State_ID st = Mongod_DesiredStateID m)]"

definition delete_mongods :: "ID list \<Rightarrow> DB \<Rightarrow> DB" where
  "delete_mongods ids0 db =
    (let ids = (cascade_round db ^^ length (mongods db)) ids0;
         states = [State_ID st. st \<leftarrow> mongod_states db, State_ParentMongodID st \<in> set ids]
     in db\<lparr>mongods := map (\<lambda>m. case Mongod_ObservedStateID m of
                None \<Rightarrow> m
              | Some i \<Rightarrow> if i \<in> set states then m\<lparr>Mongod_ObservedStateID := None\<rparr> else m)
              (filter (\<lambda>m. Mongod_ID m \<notin> set ids) (mongods db)),
           mongod_states := filter (\<lambda>st. State_ID st \<notin> set states) (mongod_states db),
           problems := filter (\<lambda>p. case Problem_MongodID p of None \<Rightarrow> True | Some i \<Rightarrow> i \<notin> set ids)
              (problems db)\<rparr>)"

end
