(* ===== verification/Allocator.thy ===== *)
theory Allocator
  imports Database
begin

text \<open>
  The cluster allocator, \<open>src/master/cluster_allocator.go\<close>: \<open>CompileMongodLayout\<close> with its steps in
  the order of the code, \<open>spawnMongodOnSlave\<close>, and \<open>InitializeGlobalSecrets\<close>.  Every database call
  may fail; the code then panics.
\<close>

datatype persistence = Persistent | Volatile

fun PersistentStorage :: "persistence \<Rightarrow> bool" where
  "PersistentStorage Persistent = True"
| "PersistentStorage Volatile = False"

fun persistence_String :: "persistence \<Rightarrow> string" where
  "persistence_String Persistent = ''persistent''"
| "persistence_String Volatile = ''volatile''"

definition slavePersistence :: "Slave \<Rightarrow> persistence" where
  "slavePersistence s = (if Slave_PersistentStorage s then Persistent else Volatile)"

text \<open>The column \<open>memberCountColumnName\<close> stands for.\<close>

definition memberCount :: "persistence \<Rightarrow> ReplicaSet \<Rightarrow> nat" where
  "memberCount p r =
    (if PersistentStorage p then unat (ReplicaSet_PersistentMemberCount r)
     else unat (ReplicaSet_VolatileMemberCount r))"

section \<open>Clean-up\<close>

text \<open>Orphaned Mongods, whose replica set has been deleted, are to be destroyed.\<close>

definition mark_orphaned :: "DB \<Rightarrow> DB" where
  "mark_orphaned db = db\<lparr>mongod_states := map (\<lambda>st.
     if State_ID st \<in> set [Mongod_DesiredStateID m. m \<leftarrow> mongods db, Mongod_ReplicaSetID m = None]
     then st\<lparr>State_ExecutionState := MongodExecutionStateForceDestroyed\<rparr> else st)
     (mongod_states db)\<rparr>"

text \<open>The subquery of the \<open>DELETE\<close>.\<close>

definition destroyed_mongod_ids :: "DB \<Rightarrow> ID list" where
  "destroyed_mongod_ids db =
    [Mongod_ID m. m \<leftarrow> mongods db,
       (desired_exec db m = Some MongodExecutionStateDestroyed \<or>
        desired_exec db m = Some MongodExecutionStateForceDestroyed) \<and>
       (observed_exec db m = Some MongodExecutionStateDestroyed \<and>
        Mongod_ObservationErrorID m = None)]"

definition remove_destroyed :: "DB \<Rightarrow> DB" where
  "remove_destroyed db = delete_mongods (destroyed_mongod_ids db) db"

section \<open>Removing excess members\<close>

text \<open>Replica set, deletable persistent members, deletable volatile members.\<close>

type_synonym excessMongodsRow = "ID \<times> int \<times> int"

definition excess_query :: "dbms \<Rightarrow> nat \<Rightarrow> DB \<Rightarrow> excessMongodsRow list" where
  "excess_query D n db =
    map (\<lambda>r. (ReplicaSet_ID r,
        int (count_members (replica_set_effective_members db) (ReplicaSet_ID r) True)
          - int (memberCount Persistent r),
        int (count_members (replica_set_effective_members db) (ReplicaSet_ID r) False)
          - int (memberCount Volatile r)))
      (scan D n (replica_sets db))"

definition deletable_candidates :: "DB \<Rightarrow> ID \<Rightarrow> bool \<Rightarrow> (Mongod \<times> Slave \<times> utilization_row) list" where
  "deletable_candidates db rid ps =
    [(m, s, su).
       r \<leftarrow> replica_sets db, ReplicaSet_ID r = rid,
       m \<leftarrow> mongods db, Mongod_ReplicaSetID m = Some (ReplicaSet_ID r),
       s \<leftarrow> slaves db, Slave_ID s = Mongod_ParentSlaveID m,
       su \<leftarrow> slave_utilization db, Slave_ID s = Slave_ID (SU_slave su),
       Slave_PersistentStorage s = ps \<and> Slave_ConfiguredState s \<noteq> SlaveStateMaintenance]"

definition deletable_mongods :: "dbms \<Rightarrow> nat \<Rightarrow> DB \<Rightarrow> ID \<Rightarrow> bool \<Rightarrow> int \<Rightarrow> Mongod list" where
  "deletable_mongods D n db rid ps limit =
    map fst (take (nat limit) (order_by D n
      (\<lambda>(m, s, su). (if Slave_ConfiguredState s = SlaveStateDisabled then 1 else 2 :: int,
         - (if Slave_ObservationErrorID s = None then 0 else 1 :: int), - SU_utilization su))
      (deletable_candidates db rid ps)))"

definition mark_destroyed :: "dbms \<Rightarrow> Mongod \<Rightarrow> unit action" where
  "mark_destroyed D m = orPanic (sql_exec D (update_state (Mongod_DesiredStateID m)
     (\<lambda>st. st\<lparr>State_ExecutionState := MongodExecutionStateDestroyed\<rparr>)))"

definition remove_excess_of :: "dbms \<Rightarrow> ID \<Rightarrow> persistence \<Rightarrow> int \<Rightarrow> unit action" where
  "remove_excess_of D rid p deletable_count =
    (if deletable_count \<le> 0 then returnM ()
     else bindM (orPanic (sql_query D (\<lambda>n db.
            deletable_mongods D n db rid (PersistentStorage p) deletable_count)))
       (\<lambda>ms. forM ms (mark_destroyed D)))"

definition remove_excess_row :: "dbms \<Rightarrow> excessMongodsRow \<Rightarrow> unit action" where
  "remove_excess_row D row = (case row of (rid, deletable_persistent, deletable_volatile) \<Rightarrow>
    forM [Persistent, Volatile] (\<lambda>p. remove_excess_of D rid p
      (if PersistentStorage p then deletable_persistent else deletable_volatile)))"

definition remove_excess :: "dbms \<Rightarrow> unit action" where
  "remove_excess D =
    bindM (orPanic (sql_query D (excess_query D))) (\<lambda>rows. forM rows (remove_excess_row D))"

section \<open>Adding members\<close>

text \<open>The head of the queue of degraded replica sets.  The quotient of the two counts in the
  \<open>ORDER BY\<close> is an integer division, as both columns are integers.\<close>

definition configured_count :: "DB \<Rightarrow> persistence \<Rightarrow> ReplicaSet \<Rightarrow> nat" where
  "configured_count db p r =
    count_distinct_members (replica_set_configured_members db) (ReplicaSet_ID r) (PersistentStorage p)"

definition degraded_replica_sets :: "DB \<Rightarrow> persistence \<Rightarrow> ID list \<Rightarrow> ReplicaSet list" where
  "degraded_replica_sets db p unsat =
    filter (\<lambda>r. memberCount p r \<noteq> 0 \<and> ReplicaSet_ID r \<notin> set unsat \<and>
      configured_count db p r < memberCount p r) (replica_sets db)"

definition degraded_head :: "dbms \<Rightarrow> nat \<Rightarrow> DB \<Rightarrow> persistence \<Rightarrow> ID list \<Rightarrow> ReplicaSet option" where
  "degraded_head D n db p unsat =
    limit1 (order_by D n (\<lambda>r. configured_count db p r div memberCount p r)
      (degraded_replica_sets db p unsat))"

text \<open>The least busy slave that can host a further member of the replica set.\<close>

definition member_risk_groups :: "DB \<Rightarrow> ID \<Rightarrow> ID option list" where
  "member_risk_groups db rid =
    [Slave_RiskGroupID s. m \<leftarrow> mongods db,
       s \<leftarrow> slaves db, Mongod_ParentSlaveID m = Slave_ID s, Mongod_ReplicaSetID m = Some rid]"

definition member_hosts :: "DB \<Rightarrow> ID \<Rightarrow> ID list" where
  "member_hosts db rid = [Mongod_ParentSlaveID m. m \<leftarrow> mongods db, Mongod_ReplicaSetID m = Some rid]"

definition suitable :: "DB \<Rightarrow> persistence \<Rightarrow> ID \<Rightarrow> utilization_row \<Rightarrow> bool" where
  "suitable db p rid su \<longleftrightarrow>
    (let s = SU_slave su in
      Slave_PersistentStorage s = PersistentStorage p \<and>
      SU_free_mongods su > 0 \<and>
      Slave_ConfiguredState s = SlaveStateActive \<and>
      sql_or (sql_not_in (Slave_RiskGroupID s) (member_risk_groups db rid))
        (sql_is_null (Slave_RiskGroupID s)) = Some True \<and>
      Slave_ID s \<notin> set (member_hosts db rid))"

definition leastBusySuitableSlave :: "dbms \<Rightarrow> nat \<Rightarrow> DB \<Rightarrow> persistence \<Rightarrow> ID \<Rightarrow> Slave option" where
  "leastBusySuitableSlave D n db p rid =
    map_option SU_slave (limit1 (order_by D n
      (\<lambda>su. (if Slave_ObservationErrorID (SU_slave su) = None then 0 else 1 :: int, SU_utilization su))
      (filter (suitable db p rid) (slave_utilization db))))"

text \<open>\<open>spawnMongodOnSlave\<close>: the port search, and the rows it inserts once it has a port.\<close>

definition insert_spawned :: "dbms \<Rightarrow> Slave \<Rightarrow> ReplicaSet \<Rightarrow> PortNumber \<Rightarrow> Mongod action" where
  "insert_spawned D s r unusedPort =
    bindM (orPanic (insert_mongod D
      \<lparr>Mongod_ID = 0, Mongod_Port = unusedPort, Mongod_ReplSetName = ReplicaSet_Name r,
       Mongod_ObservationErrorID = None, Mongod_LastEstablishStateErrorID = None,
       Mongod_ParentSlaveID = Slave_ID s, Mongod_ReplicaSetID = Some (ReplicaSet_ID r),
       Mongod_DesiredStateID = 0, Mongod_ObservedStateID = None\<rparr>)) (\<lambda>m.
    bindM (orPanic (insert_state D
      \<lparr>State_ID = 0, State_ParentMongodID = Mongod_ID m,
       State_ShardingRole = ReplicaSet_ShardingRole r,
       State_ExecutionState = MongodExecutionStateRunning\<rparr>)) (\<lambda>desiredState.
    bindM (orPanic (sql_exec D (update_mongod (Mongod_ID m)
      (\<lambda>m. m\<lparr>Mongod_DesiredStateID := State_ID desiredState\<rparr>)))) (\<lambda>_.
    returnM (m\<lparr>Mongod_DesiredStateID := State_ID desiredState\<rparr>))))"

definition spawnMongodOnSlave :: "dbms \<Rightarrow> Slave \<Rightarrow> ReplicaSet \<Rightarrow> Mongod action" where
  "spawnMongodOnSlave D s r =
    bindM (orPanic (sql_query D (\<lambda>n db. sort (map Mongod_Port (mongods_on_slave db (Slave_ID s))))))
     (\<lambda>usedPorts.
       case findUnusedPort usedPorts (Slave_MongodPortRangeBegin s) (Slave_MongodPortRangeEnd s) of
         (unusedPort, found) \<Rightarrow>
           if \<not> found then raiseM (Failed (ErrMsg
             (''could not spawn Mongod: no free port on slave `'' @ Slave_Hostname s @ ''`'')))
           else insert_spawned D s r unusedPort)"

text \<open>
  The unbounded \<open>for\<close> loop of one persistence, with its two lists of unsatisfiable replica sets: the
  one of this persistence, which starts as \<open>[0]\<close>, and the overall one.  The fuel bounds the
  iterations; \<open>loop_bound\<close> is enough.
\<close>

primrec add_members_loop ::
  "dbms \<Rightarrow> persistence \<Rightarrow> nat \<Rightarrow> ID list \<Rightarrow> ID list \<Rightarrow> (ID list) action" where
  "add_members_loop D p 0 unsat_p unsat = raiseM OutOfFuel"
| "add_members_loop D p (Suc fuel) unsat_p unsat =
    bindM (orPanic (sql_query D (\<lambda>n db. degraded_head D n db p unsat_p)))
     (\<lambda>head. case head of
        None \<Rightarrow> returnM unsat
      | Some r \<Rightarrow>
          bindM (orPanic (sql_query D (\<lambda>n db. leastBusySuitableSlave D n db p (ReplicaSet_ID r))))
           (\<lambda>slave. case slave of
              None \<Rightarrow> add_members_loop D p fuel (unsat_p @ [ReplicaSet_ID r]) (unsat @ [ReplicaSet_ID r])
            | Some s \<Rightarrow> bindM (orPanic (spawnMongodOnSlave D s r))
                (\<lambda>_. add_members_loop D p fuel unsat_p unsat)))"

definition loop_bound :: "persistence \<Rightarrow> DB \<Rightarrow> nat" where
  "loop_bound p db = Suc (sum_list (map (\<lambda>r. Suc (memberCount p r)) (replica_sets db)))"

definition add_members_of :: "dbms \<Rightarrow> persistence \<Rightarrow> ID list \<Rightarrow> (ID list) action" where
  "add_members_of D p unsat =
    bindM (getM (\<lambda>s. loop_bound p (txDB s))) (\<lambda>fuel. add_members_loop D p fuel [0] unsat)"

definition add_members :: "dbms \<Rightarrow> (ID list) action" where
  "add_members D = foldM (add_members_of D) [Persistent, Volatile] []"

section \<open>Status messages\<close>

definition constraint_status :: "DB \<Rightarrow> ID list \<Rightarrow> ReplicaSet \<Rightarrow> DesiredReplicaSetConstraintStatus" where
  "constraint_status db unsat r =
    \<lparr>Desired_Unsatisfied = foldl (\<lambda>unsatisfied i. unsatisfied \<or> i = ReplicaSet_ID r) False unsat,
     Desired_ReplicaSet = r,
     Desired_ConfiguredVolatileCount =
       count_members (replica_set_configured_members db) (ReplicaSet_ID r) False,
     Desired_ConfiguredPersistentCount =
       count_members (replica_set_configured_members db) (ReplicaSet_ID r) True\<rparr>"

definition send_constraint_status :: "dbms \<Rightarrow> bool \<Rightarrow> ID list \<Rightarrow> unit action" where
  "send_constraint_status D hasBus unsat =
    (if hasBus then
       bindM (orPanic (sql_query D (\<lambda>n db. map (constraint_status db unsat) (scan D n (replica_sets db)))))
         (\<lambda>msgs. forM msgs (\<lambda>msg. send (DesiredConstraintMsg msg)))
     else returnM ())"

section \<open>CompileMongodLayout\<close>

definition compile_body :: "dbms \<Rightarrow> bool \<Rightarrow> unit action" where
  "compile_body D hasBus =
    bindM (orPanic (sql_exec D mark_orphaned)) (\<lambda>_.
    bindM (orPanic (sql_exec D remove_destroyed)) (\<lambda>_.
    bindM (remove_excess D) (\<lambda>_.
    bindM (add_members D) (\<lambda>unsat.
    send_constraint_status D hasBus unsat))))"

text \<open>
  The deferred function: \<open>switch r\<close> compares the recovered value with the \<^emph>\<open>value\<close> of each case
  expression, and the case expressions are comparisons, that is booleans.  A Go interface value is
  nil, an error or, here, a boolean.  The result is the panic that goes on, or the error the
  function returns.
\<close>

datatype iface = INil | IError err | IBool bool

definition recover_layout :: "iface \<Rightarrow> iface + err option" where
  "recover_layout r =
    (if r = INil then Inr None
     else if r = IBool (r = INil) then Inr None
     else if r = IBool (r = IError (ErrDB ErrInvalidTransaction)) then
       (case r of IError e \<Rightarrow> Inr (Some e) | _ \<Rightarrow> Inl (IError (ErrMsg ''interface conversion'')))
     else Inl r)"

definition CompileMongodLayout :: "dbms \<Rightarrow> bool \<Rightarrow> unit action" where
  "CompileMongodLayout D hasBus = catchM (compile_body D hasBus)
    (\<lambda>f. case f of
       Panic e \<Rightarrow> (case recover_layout (IError e) of
           Inl (IError e') \<Rightarrow> raiseM (Panic e')
         | Inl _ \<Rightarrow> raiseM f
         | Inr None \<Rightarrow> returnM ()
         | Inr (Some e') \<Rightarrow> raiseM (Failed e'))
     | _ \<Rightarrow> raiseM f)"

end
