(* ===== verification/Tables.thy ===== *)
theory Tables
  imports Allocator
begin

text \<open>
  The invariant of the database, the meaning of the views in terms of it, and the rules for
  statements.  The invariant says what the schema's keys say, and that a state row belongs to
  the one Mongod that refers to it.
\<close>

section \<open>The invariant\<close>

definition keys_ok :: "DB \<Rightarrow> bool" where
  "keys_ok db \<longleftrightarrow>
    distinct (map Slave_ID (slaves db)) \<and> distinct (map Mongod_ID (mongods db)) \<and>
    distinct (map State_ID (mongod_states db)) \<and> distinct (map ReplicaSet_ID (replica_sets db)) \<and>
    (\<forall>r \<in> set (replica_sets db). 0 < ReplicaSet_ID r)"

text \<open>A state row exists and belongs to the Mongod.\<close>

definition owns_state :: "DB \<Rightarrow> Mongod \<Rightarrow> ID \<Rightarrow> bool" where
  "owns_state db m i \<longleftrightarrow>
    (case lookup_state db i of None \<Rightarrow> False | Some st \<Rightarrow> State_ParentMongodID st = Mongod_ID m)"

definition mongod_ok :: "DB \<Rightarrow> Mongod \<Rightarrow> bool" where
  "mongod_ok db m \<longleftrightarrow>
    lookup_slave db (Mongod_ParentSlaveID m) \<noteq> None \<and>
    (case Mongod_ReplicaSetID m of None \<Rightarrow> True | Some r \<Rightarrow> lookup_replica_set db r \<noteq> None) \<and>
    owns_state db m (Mongod_DesiredStateID m) \<and>
    (case Mongod_ObservedStateID m of None \<Rightarrow> True
     | Some i \<Rightarrow> i \<noteq> Mongod_DesiredStateID m \<and> owns_state db m i)"

definition db_wf :: "DB \<Rightarrow> bool" where
  "db_wf db \<longleftrightarrow> keys_ok db \<and> (\<forall>m \<in> set (mongods db). mongod_ok db m)"

text \<open>No two Mongods of a slave share a port.\<close>

definition ports_distinct :: "DB \<Rightarrow> bool" where
  "ports_distinct db \<longleftrightarrow> distinct (map (\<lambda>m. (Mongod_ParentSlaveID m, Mongod_Port m)) (mongods db))"

text \<open>The members of a replica set are on different slaves, and on slaves that share no risk
  group.\<close>

definition risk_group_of :: "DB \<Rightarrow> Mongod \<Rightarrow> ID option" where
  "risk_group_of db m =
    (case lookup_slave db (Mongod_ParentSlaveID m) of None \<Rightarrow> None | Some s \<Rightarrow> Slave_RiskGroupID s)"

definition members_apart :: "DB \<Rightarrow> Mongod \<Rightarrow> Mongod \<Rightarrow> bool" where
  "members_apart db m m' \<longleftrightarrow>
    Mongod_ReplicaSetID m = None \<or> Mongod_ReplicaSetID m \<noteq> Mongod_ReplicaSetID m' \<or>
    (Mongod_ParentSlaveID m \<noteq> Mongod_ParentSlaveID m' \<and>
     (risk_group_of db m = None \<or> risk_group_of db m \<noteq> risk_group_of db m'))"

definition risk_separated :: "DB \<Rightarrow> bool" where
  "risk_separated db \<longleftrightarrow>
    (\<forall>m \<in> set (mongods db). \<forall>m' \<in> set (mongods db).
       Mongod_ID m \<noteq> Mongod_ID m' \<longrightarrow> members_apart db m m')"

lemma db_wf_keys:
  assumes "db_wf db"
  shows "distinct (map Slave_ID (slaves db))" and "distinct (map Mongod_ID (mongods db))"
    and "distinct (map State_ID (mongod_states db))"
    and "distinct (map ReplicaSet_ID (replica_sets db))"
    and "r \<in> set (replica_sets db) \<Longrightarrow> 0 < ReplicaSet_ID r"
  using assms by (auto simp: db_wf_def keys_ok_def)

lemma db_wf_mongod_ok: "db_wf db \<Longrightarrow> m \<in> set (mongods db) \<Longrightarrow> mongod_ok db m"
  by (simp add: db_wf_def)

lemma mongod_ok_slave:
  assumes "mongod_ok db m"
  obtains s where "lookup_slave db (Mongod_ParentSlaveID m) = Some s" and "s \<in> set (slaves db)"
    and "Slave_ID s = Mongod_ParentSlaveID m"
  using assms by (auto simp: mongod_ok_def dest: find_row_SomeD)

lemma owns_stateE:
  assumes "owns_state db m i"
  obtains st where "lookup_state db i = Some st" and "State_ParentMongodID st = Mongod_ID m"
  using assms by (auto simp: owns_state_def split: option.splits)

text \<open>A desired state belongs to one Mongod only.\<close>

lemma desired_state_inj:
  assumes "db_wf db" and "m \<in> set (mongods db)" and "m' \<in> set (mongods db)"
    and "Mongod_DesiredStateID m = Mongod_DesiredStateID m'"
  shows "m = m'"
proof -
  have "owns_state db m (Mongod_DesiredStateID m)" and "owns_state db m' (Mongod_DesiredStateID m)"
    using assms by (auto simp: db_wf_def mongod_ok_def)
  then have "Mongod_ID m = Mongod_ID m'"
    by (auto simp: owns_state_def split: option.splits)
  then show ?thesis
    using assms db_wf_keys(2) by (metis find_row_unique option.inject)
qed

lemma observed_not_desired:
  assumes "db_wf db" and "m \<in> set (mongods db)" and "m' \<in> set (mongods db)"
  shows "Mongod_ObservedStateID m \<noteq> Some (Mongod_DesiredStateID m')"
proof
  assume obs: "Mongod_ObservedStateID m = Some (Mongod_DesiredStateID m')"
  have "owns_state db m (Mongod_DesiredStateID m')" and "owns_state db m' (Mongod_DesiredStateID m')"
    using assms obs by (auto simp: db_wf_def mongod_ok_def)
  then have "Mongod_ID m = Mongod_ID m'"
    by (auto simp: owns_state_def split: option.splits)
  then have "m = m'"
    using assms db_wf_keys(2) by (metis find_row_unique option.inject)
  with obs assms show False
    by (auto simp: db_wf_def mongod_ok_def)
qed

section \<open>Foreign keys\<close>

text \<open>What the foreign keys ask for beyond the invariant.\<close>

definition refs_ok :: "DB \<Rightarrow> bool" where
  "refs_ok db \<longleftrightarrow> (\<forall>s \<in> set (slaves db). slave_keys_ok db s) \<and>
     (\<forall>m \<in> set (mongods db). refers (Mongod_ObservationErrorID m) (map MSPError_ID (msp_errors db)) \<and>
       refers (Mongod_LastEstablishStateErrorID m) (map MSPError_ID (msp_errors db))) \<and>
     (\<forall>st \<in> set (mongod_states db). State_ParentMongodID st \<in> Mongod_ID ` set (mongods db)) \<and>
     (\<forall>p \<in> set (problems db). problem_keys_ok db p)"

lemma refers_find_row: "find_row key i xs \<noteq> None \<Longrightarrow> refers (Some i) (map key xs)"
  by (auto simp: refers_def dest: find_row_SomeD)

lemma refers_None [simp]: "refers None ids"
  by (simp add: refers_def)

lemma refers_Some [simp]: "refers (Some i) ids \<longleftrightarrow> i \<in> set ids"
  by (simp add: refers_def)

lemma refers_mono: "refers r ids \<Longrightarrow> set ids \<subseteq> set ids' \<Longrightarrow> refers r ids'"
  by (auto simp: refers_def split: option.splits)

lemma refers_append: "refers r ids \<Longrightarrow> refers r (ids @ ids')"
  by (rule refers_mono) auto

lemma owns_state_refers: "owns_state db m i \<Longrightarrow> i \<in> State_ID ` set (mongod_states db)"
  using refers_find_row [of State_ID i "mongod_states db"] by (auto simp: owns_state_def split: option.splits)

lemma mongod_ok_keys:
  assumes "mongod_ok db m"
  shows "mongod_keys_ok db m \<longleftrightarrow> refers (Mongod_ObservationErrorID m) (map MSPError_ID (msp_errors db)) \<and>
    refers (Mongod_LastEstablishStateErrorID m) (map MSPError_ID (msp_errors db))"
  using assms refers_find_row [of Slave_ID "Mongod_ParentSlaveID m" "slaves db"]
    refers_find_row [of ReplicaSet_ID "the (Mongod_ReplicaSetID m)" "replica_sets db"]
  by (auto simp: mongod_ok_def mongod_keys_ok_def owns_state_refers split: option.splits)

lemma foreign_keys_ok_iff: "db_wf db \<Longrightarrow> foreign_keys_ok db \<longleftrightarrow> refs_ok db"
  unfolding foreign_keys_ok_def refs_ok_def by (auto simp: mongod_ok_keys db_wf_mongod_ok)

text \<open>Only keys and references matter.\<close>

lemma foreign_keys_ok_same:
  assumes "slaves db' = slaves db" and "mongods db' = mongods db" and "problems db' = problems db"
    and "risk_groups db' = risk_groups db" and "msp_errors db' = msp_errors db"
    and "map ReplicaSet_ID (replica_sets db') = map ReplicaSet_ID (replica_sets db)"
    and "map State_ID (mongod_states db') = map State_ID (mongod_states db)"
    and "map State_ParentMongodID (mongod_states db') = map State_ParentMongodID (mongod_states db)"
  shows "foreign_keys_ok db' = foreign_keys_ok db"
proof -
  have parents: "(\<forall>st \<in> set (mongod_states d). refers (Some (State_ParentMongodID st)) ids) \<longleftrightarrow>
      list_all (\<lambda>i. i \<in> set ids) (map State_ParentMongodID (mongod_states d))" for d :: DB and ids
    by (simp add: list_all_iff)
  show ?thesis
    unfolding foreign_keys_ok_def slave_keys_ok_def mongod_keys_ok_def problem_keys_ok_def parents assms ..
qed

section \<open>What the views count\<close>

text \<open>A Mongod is an effective, or a configured, member of a replica set on storage of the given
  kind.\<close>

definition on_storage :: "DB \<Rightarrow> bool \<Rightarrow> Mongod \<Rightarrow> bool" where
  "on_storage db ps m \<longleftrightarrow>
    (case lookup_slave db (Mongod_ParentSlaveID m) of None \<Rightarrow> False
     | Some s \<Rightarrow> Slave_PersistentStorage s = ps)"

definition effective :: "DB \<Rightarrow> ID \<Rightarrow> bool \<Rightarrow> Mongod \<Rightarrow> bool" where
  "effective db rid ps m \<longleftrightarrow>
    Mongod_ReplicaSetID m = Some rid \<and> on_storage db ps m \<and>
    observed_exec db m = Some MongodExecutionStateRunning \<and>
    desired_exec db m = Some MongodExecutionStateRunning"

definition host_enabled :: "DB \<Rightarrow> Mongod \<Rightarrow> bool" where
  "host_enabled db m \<longleftrightarrow>
    (case lookup_slave db (Mongod_ParentSlaveID m) of None \<Rightarrow> False
     | Some s \<Rightarrow> Slave_ConfiguredState s \<noteq> SlaveStateDisabled)"

definition meant_to_run :: "DB \<Rightarrow> Mongod \<Rightarrow> bool" where
  "meant_to_run db m \<longleftrightarrow>
    (case desired_exec db m of None \<Rightarrow> False
     | Some e \<Rightarrow> e \<notin> {MongodExecutionStateNotRunning, MongodExecutionStateDestroyed,
                      MongodExecutionStateForceDestroyed})"

definition configured :: "DB \<Rightarrow> ID \<Rightarrow> bool \<Rightarrow> Mongod \<Rightarrow> bool" where
  "configured db rid ps m \<longleftrightarrow>
    Mongod_ReplicaSetID m = Some rid \<and> on_storage db ps m \<and> host_enabled db m \<and> meant_to_run db m"

lemma SlaveState_num_3: "SlaveState_num e \<noteq> 3 \<longleftrightarrow> e \<noteq> SlaveStateDisabled"
  by (cases e) simp_all

lemma MongodExecutionState_num_123:
  "MongodExecutionState_num e \<notin> {3, 2, 1} \<longleftrightarrow>
    e \<notin> {MongodExecutionStateNotRunning, MongodExecutionStateDestroyed,
         MongodExecutionStateForceDestroyed}"
  by (cases e) simp_all

lemma join_primary_key_option:
  assumes "distinct (map key xs)"
  shows "concat (map (\<lambda>x. if k = Some (key x) then g x else []) xs) =
    (case k of None \<Rightarrow> [] | Some i \<Rightarrow> (case find_row key i xs of None \<Rightarrow> [] | Some x \<Rightarrow> g x))"
proof (cases k)
  case (Some i)
  have "concat (map (\<lambda>x. if k = Some (key x) then g x else []) xs) =
      concat (map (\<lambda>x. if key x = i then g x else []) xs)"
    using Some by (intro arg_cong [where f = concat] map_cong) auto
  with Some show ?thesis
    using join_primary_key [OF assms, of i g] by simp
qed simp

lemma concat_map_cond:
  assumes "\<And>x. x \<in> set xs \<Longrightarrow> h x = (if c x then [f x] else [])"
  shows "concat (map h xs) = map f (filter c xs)"
  using assms by (induction xs) auto

text \<open>The shape all member views have: per replica set, the Mongods that satisfy a condition.\<close>

definition member_view :: "(ID \<Rightarrow> Mongod \<Rightarrow> bool) \<Rightarrow> DB \<Rightarrow> member_row list" where
  "member_view c db = concat (map (\<lambda>r. map (\<lambda>m. (ReplicaSet_ID r, Mongod_ID m, on_storage db True m))
     (filter (c (ReplicaSet_ID r)) (mongods db))) (replica_sets db))"

lemma effective_view:
  assumes "db_wf db"
  shows "replica_set_effective_members db =
    member_view (\<lambda>rid m. effective db rid True m \<or> effective db rid False m) db"
  unfolding replica_set_effective_members_def member_view_def
  by (intro arg_cong [where f = concat] map_cong refl concat_map_cond)
    (auto simp: join_primary_key join_primary_key_option db_wf_keys [OF assms] effective_def
      on_storage_def observed_exec_def desired_exec_def split: option.splits)

lemma configured_view:
  assumes "db_wf db"
  shows "replica_set_configured_members db =
    member_view (\<lambda>rid m. configured db rid True m \<or> configured db rid False m) db"
  unfolding replica_set_configured_members_def member_view_def
    SlaveState_num_3 MongodExecutionState_num_123
  by (intro arg_cong [where f = concat] map_cong refl concat_map_cond)
    (auto simp: join_primary_key db_wf_keys [OF assms] configured_def on_storage_def
      host_enabled_def meant_to_run_def desired_exec_def split: option.splits)

lemma member_view_rows:
  assumes "db_wf db" and "r \<in> set (replica_sets db)"
  shows "filter (\<lambda>(i, m, ps). i = ReplicaSet_ID r \<and> ps = p) (member_view c db) =
    map (\<lambda>m. (ReplicaSet_ID r, Mongod_ID m, p))
      (filter (\<lambda>m. c (ReplicaSet_ID r) m \<and> on_storage db True m = p) (mongods db))"
proof -
  let ?g = "\<lambda>q. map (\<lambda>m. (ReplicaSet_ID q, Mongod_ID m, p))
      (filter (\<lambda>m. c (ReplicaSet_ID q) m \<and> on_storage db True m = p) (mongods db))"
  have "filter (\<lambda>(i, m, ps). i = ReplicaSet_ID r \<and> ps = p) (member_view c db) =
      concat (map (\<lambda>q. if ReplicaSet_ID q = ReplicaSet_ID r then ?g q else []) (replica_sets db))"
    unfolding member_view_def filter_concat map_map
    by (intro arg_cong [where f = concat] map_cong refl)
      (auto simp: filter_map_swap comp_def intro!: map_cong)
  also have "\<dots> = ?g r"
    using join_primary_key [OF db_wf_keys(4) [OF assms(1)], of "ReplicaSet_ID r" ?g]
      find_row_unique [OF db_wf_keys(4) [OF assms(1)] assms(2)] by simp
  finally show ?thesis .
qed

lemma effective_split:
  "(effective db rid True m \<or> effective db rid False m) \<and> on_storage db True m = p \<longleftrightarrow>
    effective db rid p m"
  by (cases p) (auto simp: effective_def on_storage_def split: option.splits)

lemma configured_split:
  "(configured db rid True m \<or> configured db rid False m) \<and> on_storage db True m = p \<longleftrightarrow>
    configured db rid p m"
  by (cases p) (auto simp: configured_def on_storage_def split: option.splits)

lemma count_effective:
  assumes "db_wf db" and "r \<in> set (replica_sets db)"
  shows "count_members (replica_set_effective_members db) (ReplicaSet_ID r) p =
    length (filter (effective db (ReplicaSet_ID r) p) (mongods db))"
  by (simp only: count_members_def effective_view [OF assms(1)] member_view_rows [OF assms]
      effective_split length_map)

lemma count_configured:
  assumes "db_wf db" and "r \<in> set (replica_sets db)"
  shows "count_members (replica_set_configured_members db) (ReplicaSet_ID r) p =
    length (filter (configured db (ReplicaSet_ID r) p) (mongods db))"
  by (simp only: count_members_def configured_view [OF assms(1)] member_view_rows [OF assms]
      configured_split length_map)

text \<open>Mongods have distinct ids, so counting distinct ids counts Mongods.\<close>

lemma configured_count_eq:
  assumes "db_wf db" and "r \<in> set (replica_sets db)"
  shows "configured_count db p r =
    length (filter (configured db (ReplicaSet_ID r) (PersistentStorage p)) (mongods db))"
proof -
  let ?ms = "filter (configured db (ReplicaSet_ID r) (PersistentStorage p)) (mongods db)"
  have "map (\<lambda>(i, m, ps). m) (filter (\<lambda>(i, m, ps). i = ReplicaSet_ID r \<and> ps = PersistentStorage p)
      (replica_set_configured_members db)) = map Mongod_ID ?ms"
    unfolding configured_view [OF assms(1)] member_view_rows [OF assms] configured_split
    by simp
  moreover have "distinct (map Mongod_ID ?ms)"
    by (rule distinct_map_filter_key) (rule db_wf_keys(2) [OF assms(1)])
  ultimately show ?thesis
    by (simp only: configured_count_def count_distinct_members_def distinct_remdups_id length_map)
qed

lemma free_mongods_eq:
  assumes "db_wf db"
  shows "SU_free_mongods (slave_utilization_of db s) =
    int (unat (Slave_MongodPortRangeEnd s)) - int (unat (Slave_MongodPortRangeBegin s))
      - int (length (mongods_on_slave db (Slave_ID s)))"
proof -
  have "distinct (map Mongod_ID (mongods_on_slave db (Slave_ID s)))"
    unfolding mongods_on_slave_def
    by (rule distinct_map_filter_key) (rule db_wf_keys(2) [OF assms])
  then show ?thesis
    by (simp add: slave_utilization_of_def Let_def distinct_remdups_id)
qed

section \<open>Rules for statements\<close>

lemma tick_simps [simp]: "txDB (tick s) = txDB s" "txBus (tick s) = txBus s"
  by (simp_all add: tick_def)

lemma tick_same: "(tick s)\<lparr>txDB := txDB s\<rparr> = tick s"
  by (cases s) (simp add: tick_def)

lemma begin_tx_simps [simp]: "txDB (begin_tx db) = db" "txBus (begin_tx db) = []"
  by (simp_all add: begin_tx_def)

lemma run_orPanic:
  "run (orPanic m) Q R s =
    run m Q (\<lambda>e s'. case e of Failed x \<Rightarrow> R (Panic x) s' | _ \<Rightarrow> R e s') s"
proof -
  have "(\<lambda>e. run (case e of Failed x \<Rightarrow> raiseM (Panic x) | _ \<Rightarrow> raiseM e) Q R) =
      (\<lambda>e s'. case e of Failed x \<Rightarrow> R (Panic x) s' | _ \<Rightarrow> R e s')"
    by (intro ext) (simp add: run_simps split: failure.split)
  then show ?thesis by (simp only: orPanic_def run_catchM)
qed

lemma run_sql_stmt:
  assumes "\<And>e. dbFault D (txCalls s) = Some e \<Longrightarrow> R (Failed (ErrDB e)) (tick s)"
    and "\<And>e. f (txCalls s) (txDB s) = Inl e \<Longrightarrow> R (Failed (ErrDB e)) (tick s)"
    and "\<And>x db. f (txCalls s) (txDB s) = Inr (x, db) \<Longrightarrow> Q x ((tick s)\<lparr>txDB := db\<rparr>)"
  shows "run (sql_stmt D f) Q R s"
  using assms by (auto simp: run_def sql_stmt_def split: option.split sum.split prod.split)

text \<open>Rules for a database that does not fail.\<close>

lemma run_wrapErr_total:
  assumes "run m Q (\<lambda>_ _. False) s"
  shows "run (wrapErr show_err prefix m) Q (\<lambda>_ _. False) s"
  using assms unfolding wrapErr_def run_catchM by (rule run_mono) simp_all

lemma run_query_total:
  assumes "fault_free D" and "Q (q (txCalls s) (txDB s)) (tick s)"
  shows "run (sql_query D q) Q (\<lambda>_ _. False) s"
  using assms unfolding sql_query_def by (intro run_sql_stmt) (auto simp: fault_free_def tick_same)

lemma run_attempt:
  "run (attempt m) Q R s = run m (\<lambda>x. Q (Inr x)) (\<lambda>f s'. case f of Failed e \<Rightarrow> Q (Inl e) s' | _ \<Rightarrow> R f s') s"
  by (simp add: attempt_def run_def catchM_def bindM_def returnM_def raiseM_def
      split: prod.split sum.split failure.split)

lemma run_attempt_total:
  assumes "run m (\<lambda>x. Q (Inr x)) (\<lambda>_ _. False) s"
  shows "run (attempt m) Q (\<lambda>_ _. False) s"
  unfolding attempt_def run_catchM run_bindM
  by (rule run_mono [OF assms]) (simp_all add: run_simps)

lemma run_exec_total:
  assumes "fault_free D" and "Q () ((tick s)\<lparr>txDB := u (txDB s)\<rparr>)"
  shows "run (sql_exec D u) Q (\<lambda>_ _. False) s"
  using assms unfolding sql_exec_def by (intro run_sql_stmt) (auto simp: fault_free_def)

lemma run_exec_any:
  assumes "Q () ((tick s)\<lparr>txDB := u (txDB s)\<rparr>)" and "\<And>e. R (Failed e) (tick s)"
  shows "run (sql_exec D u) Q R s"
  unfolding sql_exec_def by (rule run_sql_stmt) (use assms in auto)

lemma run_insert_state_total:
  assumes "fault_free D"
    and "\<And>st'. st' = st\<lparr>State_ID := newID D (txCalls s) (map State_ID (mongod_states (txDB s)))\<rparr> \<Longrightarrow>
      Q st' ((tick s)\<lparr>txDB := (txDB s)\<lparr>mongod_states := mongod_states (txDB s) @ [st']\<rparr>\<rparr>)"
  shows "run (insert_state D st) Q (\<lambda>_ _. False) s"
  using assms unfolding insert_state_def by (intro run_sql_stmt) (auto simp: fault_free_def Let_def)

lemma run_commit:
  assumes "foreign_keys_ok (txDB s) \<Longrightarrow> Q () (tick s)" and "\<And>e. R (Failed e) ((tick s)\<lparr>txDB := db0\<rparr>)"
  shows "run (commit D db0) Q R s"
  unfolding commit_def run_catchM
  by (rule run_sql_stmt) (use assms in \<open>auto simp: run_simps rollback_def tick_same split: if_splits\<close>)

lemma run_commit_total:
  assumes "fault_free D" and "foreign_keys_ok (txDB s)" and "Q () (tick s)"
  shows "run (commit D db0) Q (\<lambda>_ _. False) s"
  unfolding commit_def run_catchM
  by (rule run_sql_stmt) (use assms in \<open>auto simp: fault_free_def tick_same\<close>)

lemma run_rollback [run_simps]: "run (rollback db0) Q R s = Q () (s\<lparr>txDB := db0\<rparr>)"
  by (simp add: rollback_def run_simps)

lemma run_wrapErr_any:
  assumes "run m Q R s" and "\<And>e e' s'. R (Failed e) s' \<Longrightarrow> R (Failed e') s'"
  shows "run (wrapErr show_err prefix m) Q R s"
  using assms(1) unfolding wrapErr_def run_catchM
  by (rule run_mono) (auto simp: run_simps assms(2) split: failure.split)

text \<open>
  The proofs track failure by a flag: with \<open>calm\<close>, which implies that the database does not fail, no
  error may occur; without it an error or a panic is allowed, but never that a loop runs out of
  fuel.  One proof thus gives partial correctness, the absence of errors and termination.
\<close>

definition tolerated :: "bool \<Rightarrow> failure \<Rightarrow> tx \<Rightarrow> bool" where
  "tolerated calm e s \<longleftrightarrow> \<not> calm \<and> e \<noteq> OutOfFuel"

lemma run_orPanic_tolerated [run_simps]:
  "run (orPanic m) Q (tolerated calm) s = run m Q (tolerated calm) s"
proof -
  have "(\<lambda>e s'. case e of Failed x \<Rightarrow> tolerated calm (Panic x) s' | _ \<Rightarrow> tolerated calm e s') =
      tolerated calm"
    by (intro ext) (simp add: tolerated_def split: failure.split)
  then show ?thesis by (simp only: run_orPanic)
qed

lemma run_query_calm:
  assumes "calm \<Longrightarrow> fault_free D" and "Q (q (txCalls s) (txDB s)) (tick s)"
  shows "run (sql_query D q) Q (tolerated calm) s"
  using assms unfolding sql_query_def
  by (intro run_sql_stmt) (auto simp: fault_free_def tolerated_def tick_same)

lemma run_exec_calm:
  assumes "calm \<Longrightarrow> fault_free D" and "Q () ((tick s)\<lparr>txDB := u (txDB s)\<rparr>)"
  shows "run (sql_exec D u) Q (tolerated calm) s"
  using assms unfolding sql_exec_def
  by (intro run_sql_stmt) (auto simp: fault_free_def tolerated_def)

lemma run_insert_mongod_calm:
  assumes "calm \<Longrightarrow> fault_free D"
    and "\<And>m'. m' = m\<lparr>Mongod_ID := newID D (txCalls s) (map Mongod_ID (mongods (txDB s)))\<rparr> \<Longrightarrow>
      Q m' ((tick s)\<lparr>txDB := (txDB s)\<lparr>mongods := mongods (txDB s) @ [m']\<rparr>\<rparr>)"
  shows "run (insert_mongod D m) Q (tolerated calm) s"
  using assms unfolding insert_mongod_def
  by (intro run_sql_stmt) (auto simp: fault_free_def tolerated_def Let_def)

lemma run_insert_state_calm:
  assumes "calm \<Longrightarrow> fault_free D"
    and "\<And>st'. st' = st\<lparr>State_ID := newID D (txCalls s) (map State_ID (mongod_states (txDB s)))\<rparr> \<Longrightarrow>
      Q st' ((tick s)\<lparr>txDB := (txDB s)\<lparr>mongod_states := mongod_states (txDB s) @ [st']\<rparr>\<rparr>)"
  shows "run (insert_state D st) Q (tolerated calm) s"
  using assms unfolding insert_state_def
  by (intro run_sql_stmt) (auto simp: fault_free_def tolerated_def Let_def)

lemma run_send [run_simps]: "run (send msg) Q R s = Q () (s\<lparr>txBus := txBus s @ [msg]\<rparr>)"
  by (simp add: send_def run_simps)

lemma run_send_all:
  "run (forM xs (\<lambda>x. send (f x))) Q R s = Q () (s\<lparr>txBus := txBus s @ map f xs\<rparr>)"
  by (induction xs arbitrary: s) (simp_all add: run_simps)

subsection \<open>Row order\<close>

lemma mset_scan: "dbms_ok D \<Longrightarrow> mset (scan D n rows) = mset rows"
  unfolding scan_def by (rule mset_permute) (simp add: dbms_ok_def)

lemma set_scan: "dbms_ok D \<Longrightarrow> set (scan D n rows) = set rows"
  by (metis mset_scan set_mset_mset)

lemma mset_order_by: "dbms_ok D \<Longrightarrow> mset (order_by D n key rows) = mset rows"
  by (simp add: order_by_def mset_scan)

lemma set_order_by: "dbms_ok D \<Longrightarrow> set (order_by D n key rows) = set rows"
  by (metis mset_order_by set_mset_mset)

lemma limit1_None [simp]: "limit1 xs = None \<longleftrightarrow> xs = []"
  by (cases xs) (simp_all add: limit1_def)

lemma limit1_SomeD: "limit1 xs = Some x \<Longrightarrow> x \<in> set xs"
  by (cases xs) (simp_all add: limit1_def)

lemma order_by_Nil: "dbms_ok D \<Longrightarrow> order_by D n key rows = [] \<longleftrightarrow> rows = []"
  by (metis mset_order_by mset_zero_iff)

lemma limit1_order_by_None: "dbms_ok D \<Longrightarrow> limit1 (order_by D n key rows) = None \<longleftrightarrow> rows = []"
  by (simp add: order_by_Nil)

lemma limit1_order_by_Some: "dbms_ok D \<Longrightarrow> limit1 (order_by D n key rows) = Some x \<Longrightarrow> x \<in> set rows"
  by (metis limit1_SomeD set_order_by)

lemma limit1_order_by_least:
  assumes "dbms_ok D" and "limit1 (order_by D n key rows) = Some x" and "y \<in> set rows"
  shows "key x \<le> key y"
proof -
  obtain ys where "sort_key key (scan D n rows) = x # ys"
    using assms(2) by (cases "order_by D n key rows") (auto simp: limit1_def order_by_def)
  then show ?thesis
    by (rule sort_key_head_least) (simp add: set_scan [OF assms(1)] assms(3))
qed

lemma foldr_max_ge: "x \<in> set ids \<Longrightarrow> x \<le> foldr max ids (0 :: ID)" "0 \<le> foldr max ids (0 :: ID)"
  by (induction ids) (auto simp: le_max_iff_disj)

lemma plain_dbms_ok [simp]: "dbms_ok plain_dbms"
proof -
  have "1 + foldr max ids 0 \<notin> set ids" for ids :: "ID list"
    using foldr_max_ge(1) [of "1 + foldr max ids 0" ids] by auto
  then show ?thesis
    using foldr_max_ge(2) by (simp add: dbms_ok_def plain_dbms_def add_pos_nonneg)
qed

lemma plain_dbms_fault_free [simp]: "fault_free plain_dbms"
  by (simp add: fault_free_def plain_dbms_def)

end
