(* ===== verification/AllocSteps.thy ===== *)
theory AllocSteps
  imports Tables
begin

text \<open>
  The allocator as a state machine: what its statements do to well-formed tables, the step relation
  \<open>alloc_step\<close> a run goes through, the invariants it keeps (by rule induction), and how each step
  changes the numbers of effective and of configured members.
\<close>

section \<open>Deleting Mongods\<close>

lemma cascade_round_wf:
  assumes "db_wf db"
  shows "cascade_round db ids = map Mongod_ID (filter (\<lambda>m. Mongod_ID m \<in> set ids) (mongods db))"
proof -
  have "Mongod_ID m \<in> set ids"
    if "m \<in> set (mongods db)" and "st \<in> set (mongod_states db)"
      and "State_ParentMongodID st \<in> set ids" and "State_ID st = Mongod_DesiredStateID m" for m st
  proof -
    have "lookup_state db (Mongod_DesiredStateID m) = Some st"
      using find_row_unique [OF db_wf_keys(3) [OF assms] that(2)] that(4) by simp
    then show ?thesis
      using db_wf_mongod_ok [OF assms that(1)] that(3) by (simp add: mongod_ok_def owns_state_def)
  qed
  then show ?thesis
    unfolding cascade_round_def concat_map_if_singleton
    by (intro arg_cong [where f = "map Mongod_ID"] filter_cong) auto
qed

lemma cascade_wf:
  assumes "db_wf db" and "set ids \<subseteq> Mongod_ID ` set (mongods db)"
  shows "set ((cascade_round db ^^ n) ids) = set ids"
  using assms(2) by (induction n) (auto simp: cascade_round_wf [OF assms(1)])

lemma delete_mongods_wf:
  assumes wf: "db_wf db" and ids: "set ids \<subseteq> Mongod_ID ` set (mongods db)"
  shows "delete_mongods ids db = db\<lparr>mongods := filter (\<lambda>m. Mongod_ID m \<notin> set ids) (mongods db),
    mongod_states := filter (\<lambda>st. State_ParentMongodID st \<notin> set ids) (mongod_states db),
    problems := filter (\<lambda>p. case Problem_MongodID p of None \<Rightarrow> True | Some i \<Rightarrow> i \<notin> set ids)
      (problems db)\<rparr>"
proof -
  let ?states = "[State_ID st. st \<leftarrow> mongod_states db, State_ParentMongodID st \<in> set ids]"
  have gone: "State_ID st \<in> set ?states \<longleftrightarrow> State_ParentMongodID st \<in> set ids"
    if "st \<in> set (mongod_states db)" for st
    using that db_wf_keys(3) [OF wf] by (auto simp: distinct_map inj_on_def)
  have "(case Mongod_ObservedStateID m of None \<Rightarrow> m
      | Some i \<Rightarrow> if i \<in> set ?states then m\<lparr>Mongod_ObservedStateID := None\<rparr> else m) = m"
    if "m \<in> set (mongods db)" and "Mongod_ID m \<notin> set ids" for m
  proof (cases "Mongod_ObservedStateID m")
    case (Some i)
    then have "owns_state db m i"
      using db_wf_mongod_ok [OF wf that(1)] by (simp add: mongod_ok_def)
    then obtain st where "lookup_state db i = Some st" and "State_ParentMongodID st = Mongod_ID m"
      by (rule owns_stateE)
    then have "i \<notin> set ?states"
      using gone [of st] that(2) by (auto dest: find_row_SomeD)
    with Some show ?thesis by simp
  qed simp
  then have "map (\<lambda>m. case Mongod_ObservedStateID m of None \<Rightarrow> m
        | Some i \<Rightarrow> if i \<in> set ?states then m\<lparr>Mongod_ObservedStateID := None\<rparr> else m)
      (filter (\<lambda>m. Mongod_ID m \<notin> set ids) (mongods db)) = filter (\<lambda>m. Mongod_ID m \<notin> set ids) (mongods db)"
    by (intro map_idI) auto
  moreover have "filter (\<lambda>st. State_ID st \<notin> set ?states) (mongod_states db) =
      filter (\<lambda>st. State_ParentMongodID st \<notin> set ids) (mongod_states db)"
    using gone by (intro filter_cong) auto
  ultimately show ?thesis
    unfolding delete_mongods_def Let_def cascade_wf [OF wf ids] by simp
qed

text \<open>What a deletion keeps of the state look-ups of the Mongods that stay.\<close>

lemma delete_keeps_owned:
  assumes "db_wf db" and "Mongod_ID m \<notin> set ids" and "owns_state db m i"
  shows "find_row State_ID i (filter (\<lambda>st. State_ParentMongodID st \<notin> set ids) (mongod_states db)) =
    lookup_state db i"
  using assms(2,3) by (auto simp: find_row_filter [OF db_wf_keys(3) [OF assms(1)]] owns_state_def
      split: option.splits)

lemma delete_mongods_db_wf:
  assumes wf: "db_wf db" and ids: "set ids \<subseteq> Mongod_ID ` set (mongods db)"
  shows "db_wf (delete_mongods ids db)"
proof -
  let ?db = "delete_mongods ids db"
  have "mongod_ok ?db m" if "m \<in> set (mongods db)" and "Mongod_ID m \<notin> set ids" for m
    using db_wf_mongod_ok [OF wf that(1)] delete_keeps_owned [OF wf that(2)]
    by (auto simp: mongod_ok_def owns_state_def delete_mongods_wf [OF wf ids] split: option.splits)
  moreover have "keys_ok ?db"
    using wf by (auto simp: db_wf_def keys_ok_def delete_mongods_wf [OF wf ids]
        intro: distinct_map_filter_key)
  ultimately show ?thesis
    by (simp add: db_wf_def delete_mongods_wf [OF wf ids])
qed

lemma destroyed_mongod_ids_set:
  "set (destroyed_mongod_ids db) = Mongod_ID ` {m \<in> set (mongods db).
     (desired_exec db m = Some MongodExecutionStateDestroyed \<or>
      desired_exec db m = Some MongodExecutionStateForceDestroyed) \<and>
     observed_exec db m = Some MongodExecutionStateDestroyed \<and> Mongod_ObservationErrorID m = None}"
  unfolding destroyed_mongod_ids_def concat_map_if_singleton by auto

lemma remove_destroyed_wf:
  assumes "db_wf db"
  shows "remove_destroyed db = db\<lparr>
    mongods := filter (\<lambda>m. Mongod_ID m \<notin> set (destroyed_mongod_ids db)) (mongods db),
    mongod_states := filter (\<lambda>st. State_ParentMongodID st \<notin> set (destroyed_mongod_ids db))
      (mongod_states db),
    problems := filter (\<lambda>p. case Problem_MongodID p of None \<Rightarrow> True
      | Some i \<Rightarrow> i \<notin> set (destroyed_mongod_ids db)) (problems db)\<rparr>"
  unfolding remove_destroyed_def
  by (rule delete_mongods_wf [OF assms]) (auto simp: destroyed_mongod_ids_set)

lemma remove_destroyed_db_wf: "db_wf db \<Longrightarrow> db_wf (remove_destroyed db)"
  unfolding remove_destroyed_def by (rule delete_mongods_db_wf) (auto simp: destroyed_mongod_ids_set)

section \<open>Updating states\<close>

text \<open>A statement that only changes execution states of existing rows keeps the invariant: it keeps
  every key and reference.\<close>

definition set_exec :: "(MongodStateRow \<Rightarrow> bool) \<Rightarrow> MongodExecutionState \<Rightarrow> DB \<Rightarrow> DB" where
  "set_exec c e db = db\<lparr>mongod_states := map (\<lambda>st. if c st then st\<lparr>State_ExecutionState := e\<rparr> else st)
     (mongod_states db)\<rparr>"

lemma mark_orphaned_eq:
  "mark_orphaned db = set_exec (\<lambda>st. State_ID st \<in> Mongod_DesiredStateID `
     {m \<in> set (mongods db). Mongod_ReplicaSetID m = None}) MongodExecutionStateForceDestroyed db"
  unfolding mark_orphaned_def set_exec_def concat_map_if_singleton by simp

lemma set_exec_simps [simp]:
  "mongods (set_exec c e db) = mongods db" "slaves (set_exec c e db) = slaves db"
  "replica_sets (set_exec c e db) = replica_sets db" "risk_groups (set_exec c e db) = risk_groups db"
  by (simp_all add: set_exec_def)

lemma lookup_state_set_exec:
  "lookup_state (set_exec c e db) i =
    map_option (\<lambda>st. if c st then st\<lparr>State_ExecutionState := e\<rparr> else st) (lookup_state db i)"
  unfolding set_exec_def by (simp add: find_row_map)

lemma set_exec_db_wf:
  assumes "db_wf db"
  shows "db_wf (set_exec c e db)"
proof -
  have keys: "map State_ID (mongod_states (set_exec c e db)) = map State_ID (mongod_states db)"
    by (simp add: set_exec_def)
  have owns: "owns_state (set_exec c e db) = owns_state db"
    by (intro ext) (simp add: owns_state_def lookup_state_set_exec split: option.split)
  show ?thesis
    using assms unfolding db_wf_def keys_ok_def mongod_ok_def set_exec_simps keys owns by simp
qed

section \<open>Spawning\<close>

definition new_mongod :: "ID \<Rightarrow> ID \<Rightarrow> PortNumber \<Rightarrow> Slave \<Rightarrow> ReplicaSet \<Rightarrow> Mongod" where
  "new_mongod mid stid port s r =
    \<lparr>Mongod_ID = mid, Mongod_Port = port, Mongod_ReplSetName = ReplicaSet_Name r,
     Mongod_ObservationErrorID = None, Mongod_LastEstablishStateErrorID = None,
     Mongod_ParentSlaveID = Slave_ID s, Mongod_ReplicaSetID = Some (ReplicaSet_ID r),
     Mongod_DesiredStateID = stid, Mongod_ObservedStateID = None\<rparr>"

definition new_state :: "ID \<Rightarrow> ID \<Rightarrow> ReplicaSet \<Rightarrow> MongodStateRow" where
  "new_state mid stid r =
    \<lparr>State_ID = stid, State_ParentMongodID = mid, State_ShardingRole = ReplicaSet_ShardingRole r,
     State_ExecutionState = MongodExecutionStateRunning\<rparr>"

definition spawn_db :: "ID \<Rightarrow> ID \<Rightarrow> PortNumber \<Rightarrow> Slave \<Rightarrow> ReplicaSet \<Rightarrow> DB \<Rightarrow> DB" where
  "spawn_db mid stid port s r db = db\<lparr>mongods := mongods db @ [new_mongod mid stid port s r],
     mongod_states := mongod_states db @ [new_state mid stid r]\<rparr>"

definition fresh_ids :: "ID \<Rightarrow> ID \<Rightarrow> DB \<Rightarrow> bool" where
  "fresh_ids mid stid db \<longleftrightarrow> 0 < mid \<and> 0 < stid \<and>
    mid \<notin> Mongod_ID ` set (mongods db) \<and> stid \<notin> State_ID ` set (mongod_states db)"

definition port_free :: "PortNumber \<Rightarrow> Slave \<Rightarrow> DB \<Rightarrow> bool" where
  "port_free port s db \<longleftrightarrow>
    Slave_MongodPortRangeBegin s \<le> port \<and> port < Slave_MongodPortRangeEnd s \<and>
    port \<notin> Mongod_Port ` set (mongods_on_slave db (Slave_ID s))"

lemma new_mongod_simps [simp]:
  "Mongod_ID (new_mongod mid stid port s r) = mid"
  "Mongod_Port (new_mongod mid stid port s r) = port"
  "Mongod_ParentSlaveID (new_mongod mid stid port s r) = Slave_ID s"
  "Mongod_ReplicaSetID (new_mongod mid stid port s r) = Some (ReplicaSet_ID r)"
  "Mongod_DesiredStateID (new_mongod mid stid port s r) = stid"
  "Mongod_ObservedStateID (new_mongod mid stid port s r) = None"
  by (simp_all add: new_mongod_def)

lemma new_state_simps [simp]:
  "State_ID (new_state mid stid r) = stid" "State_ParentMongodID (new_state mid stid r) = mid"
  "State_ExecutionState (new_state mid stid r) = MongodExecutionStateRunning"
  by (simp_all add: new_state_def)

lemma spawn_db_simps [simp]:
  "slaves (spawn_db mid stid port s r db) = slaves db"
  "replica_sets (spawn_db mid stid port s r db) = replica_sets db"
  "risk_groups (spawn_db mid stid port s r db) = risk_groups db"
  "mongods (spawn_db mid stid port s r db) = mongods db @ [new_mongod mid stid port s r]"
  by (simp_all add: spawn_db_def)

lemma lookup_state_spawn_db:
  assumes "fresh_ids mid stid db"
  shows "lookup_state (spawn_db mid stid port s r db) i =
    (if i = stid then Some (new_state mid stid r) else lookup_state db i)"
proof -
  have "lookup_state db stid = None"
    using assms by (simp add: fresh_ids_def find_row_None_iff)
  then show ?thesis
    by (auto simp: spawn_db_def find_row_append split: option.splits)
qed

lemma spawn_keeps_owned:
  assumes "fresh_ids mid stid db" and "owns_state db m i"
  shows "i \<noteq> stid" and "owns_state (spawn_db mid stid port s r db) m i"
proof -
  show "i \<noteq> stid"
    using assms by (auto simp: fresh_ids_def owns_state_def find_row_None_iff [symmetric] image_iff
        split: option.splits dest: find_row_SomeD)
  then show "owns_state (spawn_db mid stid port s r db) m i"
    using assms by (simp add: owns_state_def lookup_state_spawn_db)
qed

lemma spawn_db_wf:
  assumes wf: "db_wf db" and fresh: "fresh_ids mid stid db"
    and s: "s \<in> set (slaves db)" and r: "r \<in> set (replica_sets db)"
  shows "db_wf (spawn_db mid stid port s r db)"
proof -
  let ?db = "spawn_db mid stid port s r db"
  have "keys_ok ?db"
    using wf fresh by (auto simp: db_wf_def keys_ok_def fresh_ids_def spawn_db_def)
  moreover have "mongod_ok ?db m" if "m \<in> set (mongods db)" for m
    using db_wf_mongod_ok [OF wf that] spawn_keeps_owned(2) [OF fresh, of m]
    by (auto simp: mongod_ok_def split: option.splits)
  moreover have "mongod_ok ?db (new_mongod mid stid port s r)"
    using s r by (auto simp: mongod_ok_def owns_state_def lookup_state_spawn_db [OF fresh]
        find_row_None_iff)
  ultimately show ?thesis by (auto simp: db_wf_def)
qed

lemma spawn_ports_distinct:
  assumes "ports_distinct db" and "port_free port s db"
  shows "ports_distinct (spawn_db mid stid port s r db)"
  using assms by (auto simp: ports_distinct_def port_free_def mongods_on_slave_def)

lemma set_member_hosts:
  "set (member_hosts db rid) =
    Mongod_ParentSlaveID ` {m \<in> set (mongods db). Mongod_ReplicaSetID m = Some rid}"
  unfolding member_hosts_def concat_map_if_singleton by auto

lemma set_member_risk_groups:
  assumes "db_wf db"
  shows "set (member_risk_groups db rid) =
    risk_group_of db ` {m \<in> set (mongods db). Mongod_ReplicaSetID m = Some rid}"
proof -
  have "concat (map (\<lambda>s. if Mongod_ParentSlaveID m = Slave_ID s then
        (if Mongod_ReplicaSetID m = Some rid then [Slave_RiskGroupID s] else []) else []) (slaves db)) =
      (if Mongod_ReplicaSetID m = Some rid then [risk_group_of db m] else [])"
    if m: "m \<in> set (mongods db)" for m
  proof -
    obtain s where "lookup_slave db (Mongod_ParentSlaveID m) = Some s"
      using mongod_ok_slave [OF db_wf_mongod_ok [OF assms m]] by metis
    then show ?thesis
      unfolding eq_commute [of "Mongod_ParentSlaveID m"]
        join_primary_key [OF db_wf_keys(1) [OF assms]]
      by (simp add: risk_group_of_def)
  qed
  then have "member_risk_groups db rid =
      map (risk_group_of db) (filter (\<lambda>m. Mongod_ReplicaSetID m = Some rid) (mongods db))"
    unfolding member_risk_groups_def by (intro concat_map_cond) simp
  then show ?thesis by auto
qed

text \<open>What the slave query accepts, in terms of the members the replica set has.\<close>

lemma suitable_apart:
  assumes wf: "db_wf db" and s: "s \<in> set (slaves db)"
    and ok: "suitable db p rid (slave_utilization_of db s)"
    and m: "m \<in> set (mongods db)" "Mongod_ReplicaSetID m = Some rid"
  shows "Mongod_ParentSlaveID m \<noteq> Slave_ID s"
    and "Slave_RiskGroupID s = None \<or> risk_group_of db m \<noteq> Slave_RiskGroupID s"
proof -
  have "SU_slave (slave_utilization_of db s) = s"
    by (simp add: slave_utilization_of_def Let_def)
  then have "Slave_ID s \<notin> set (member_hosts db rid)"
    and "sql_or (sql_not_in (Slave_RiskGroupID s) (member_risk_groups db rid))
        (sql_is_null (Slave_RiskGroupID s)) = Some True"
    using ok by (simp_all add: suitable_def Let_def)
  moreover have "Mongod_ParentSlaveID m \<in> set (member_hosts db rid)"
    and "risk_group_of db m \<in> set (member_risk_groups db rid)"
    using m by (auto simp: set_member_hosts set_member_risk_groups [OF wf])
  ultimately show "Mongod_ParentSlaveID m \<noteq> Slave_ID s"
    and "Slave_RiskGroupID s = None \<or> risk_group_of db m \<noteq> Slave_RiskGroupID s"
    by (auto simp: sql_or_True sql_not_in_True sql_is_null_def)
qed

lemma spawn_risk_separated:
  assumes wf: "db_wf db" and sep: "risk_separated db" and s: "s \<in> set (slaves db)"
    and ok: "suitable db p (ReplicaSet_ID r) (slave_utilization_of db s)"
  shows "risk_separated (spawn_db mid stid port s r db)"
proof -
  let ?db = "spawn_db mid stid port s r db" and ?n = "new_mongod mid stid port s r"
  have same: "risk_group_of ?db m = risk_group_of db m" for m
    by (simp add: risk_group_of_def)
  have new: "risk_group_of db ?n = Slave_RiskGroupID s"
    using find_row_unique [OF db_wf_keys(1) [OF wf] s] by (simp add: risk_group_of_def)
  have "members_apart ?db m ?n \<and> members_apart ?db ?n m" if "m \<in> set (mongods db)" for m
    using suitable_apart [OF wf s ok that] by (auto simp: members_apart_def same new)
  moreover have "members_apart ?db m m' = members_apart db m m'" for m m'
    by (simp add: members_apart_def same)
  ultimately show ?thesis
    using sep by (auto simp: risk_separated_def)
qed

section \<open>The step relation\<close>

text \<open>
  What a run of the allocator may do to the tables: mark orphans, delete Mongods that are gone,
  mark a member of a replica set with excess members, and spawn a member of a deficient replica
  set on a suitable slave.  The guards are the conditions of the queries.
\<close>

definition effective_count :: "DB \<Rightarrow> persistence \<Rightarrow> ReplicaSet \<Rightarrow> nat" where
  "effective_count db p r =
    length (filter (effective db (ReplicaSet_ID r) (PersistentStorage p)) (mongods db))"

definition in_maintenance :: "DB \<Rightarrow> Mongod \<Rightarrow> bool" where
  "in_maintenance db m \<longleftrightarrow>
    (case lookup_slave db (Mongod_ParentSlaveID m) of None \<Rightarrow> False
     | Some s \<Rightarrow> Slave_ConfiguredState s = SlaveStateMaintenance)"

definition mark_db :: "Mongod \<Rightarrow> DB \<Rightarrow> DB" where
  "mark_db m db = set_exec (\<lambda>st. State_ID st = Mongod_DesiredStateID m) MongodExecutionStateDestroyed db"

definition deficient :: "DB \<Rightarrow> persistence \<Rightarrow> ReplicaSet \<Rightarrow> bool" where
  "deficient db p r \<longleftrightarrow> configured_count db p r < memberCount p r"

definition can_host :: "DB \<Rightarrow> persistence \<Rightarrow> ReplicaSet \<Rightarrow> Slave \<Rightarrow> bool" where
  "can_host db p r s \<longleftrightarrow> suitable db p (ReplicaSet_ID r) (slave_utilization_of db s)"

inductive mark_step :: "DB \<Rightarrow> DB \<Rightarrow> bool" where
  mark: "\<lbrakk>r \<in> set (replica_sets db); m \<in> set (mongods db);
     Mongod_ReplicaSetID m = Some (ReplicaSet_ID r); on_storage db (PersistentStorage p) m;
     \<not> in_maintenance db m; memberCount p r < effective_count db p r\<rbrakk>
   \<Longrightarrow> mark_step db (mark_db m db)"

inductive spawn_step :: "DB \<Rightarrow> DB \<Rightarrow> bool" where
  spawn: "\<lbrakk>r \<in> set (replica_sets db); s \<in> set (slaves db); deficient db p r; can_host db p r s;
     fresh_ids mid stid db; port_free port s db\<rbrakk>
   \<Longrightarrow> spawn_step db (spawn_db mid stid port s r db)"

inductive alloc_step :: "DB \<Rightarrow> DB \<Rightarrow> bool" where
  orphans: "alloc_step db (mark_orphaned db)"
| remove: "alloc_step db (remove_destroyed db)"
| excess: "mark_step db db' \<Longrightarrow> alloc_step db db'"
| add: "spawn_step db db' \<Longrightarrow> alloc_step db db'"

lemma update_state_mark:
  "update_state (Mongod_DesiredStateID m)
    (\<lambda>st. st\<lparr>State_ExecutionState := MongodExecutionStateDestroyed\<rparr>) db = mark_db m db"
  by (simp add: update_state_def mark_db_def set_exec_def)

lemma mark_db_simps [simp]:
  "mongods (mark_db m db) = mongods db" "slaves (mark_db m db) = slaves db"
  "replica_sets (mark_db m db) = replica_sets db" "risk_groups (mark_db m db) = risk_groups db"
  by (simp_all add: mark_db_def)

lemma remove_destroyed_simps [simp]:
  "slaves (remove_destroyed db) = slaves db" "replica_sets (remove_destroyed db) = replica_sets db"
  "risk_groups (remove_destroyed db) = risk_groups db"
  by (simp_all add: remove_destroyed_def delete_mongods_def Let_def)

lemma mark_orphaned_simps [simp]:
  "mongods (mark_orphaned db) = mongods db" "slaves (mark_orphaned db) = slaves db"
  "replica_sets (mark_orphaned db) = replica_sets db" "risk_groups (mark_orphaned db) = risk_groups db"
  by (simp_all add: mark_orphaned_eq)

subsection \<open>Invariants\<close>

text \<open>Removing Mongods and changing states keeps what is said of pairs of Mongods.\<close>

lemma risk_separated_subset:
  assumes "risk_separated db" and "set (mongods db') \<subseteq> set (mongods db)" and "slaves db' = slaves db"
  shows "risk_separated db'"
proof -
  have "members_apart db' = members_apart db"
    by (intro ext) (simp add: members_apart_def risk_group_of_def assms(3))
  with assms show ?thesis by (auto simp: risk_separated_def subset_eq)
qed

definition inv :: "DB \<Rightarrow> bool" where
  "inv db \<longleftrightarrow> db_wf db \<and> ports_distinct db \<and> risk_separated db"

lemma mark_step_tables:
  assumes "mark_step db db'"
  shows "mongods db' = mongods db" and "slaves db' = slaves db"
    and "replica_sets db' = replica_sets db" and "risk_groups db' = risk_groups db"
  using assms by (auto elim!: mark_step.cases)

lemma spawn_step_tables:
  assumes "spawn_step db db'"
  shows "slaves db' = slaves db" and "replica_sets db' = replica_sets db"
    and "risk_groups db' = risk_groups db"
  using assms by (auto elim!: spawn_step.cases)

lemma alloc_step_tables:
  assumes "alloc_step db db'"
  shows "slaves db' = slaves db" and "replica_sets db' = replica_sets db"
    and "risk_groups db' = risk_groups db"
  using assms by (auto elim!: alloc_step.cases simp: mark_step_tables spawn_step_tables)

lemma mark_step_db_wf: "mark_step db db' \<Longrightarrow> db_wf db \<Longrightarrow> db_wf db'"
  by (auto elim!: mark_step.cases simp: mark_db_def set_exec_db_wf)

lemma spawn_step_db_wf: "spawn_step db db' \<Longrightarrow> db_wf db \<Longrightarrow> db_wf db'"
  by (auto elim!: spawn_step.cases simp: spawn_db_wf)

lemma alloc_step_db_wf: "alloc_step db db' \<Longrightarrow> db_wf db \<Longrightarrow> db_wf db'"
  by (auto elim!: alloc_step.cases
      simp: mark_orphaned_eq set_exec_db_wf remove_destroyed_db_wf mark_step_db_wf spawn_step_db_wf)

text \<open>No step leaves a reference to a row that is gone.\<close>

lemma delete_mongods_refs:
  assumes "db_wf db" and "set ids \<subseteq> Mongod_ID ` set (mongods db)" and "refs_ok db"
  shows "refs_ok (delete_mongods ids db)"
  using assms(3)
  by (fastforce simp: refs_ok_def delete_mongods_wf [OF assms(1,2)] slave_keys_ok_def problem_keys_ok_def refers_def
      split: option.splits)

lemma set_exec_refs: "refs_ok db \<Longrightarrow> refs_ok (set_exec c e db)"
  by (auto simp: refs_ok_def set_exec_def slave_keys_ok_def problem_keys_ok_def)

lemma spawn_db_refs: "refs_ok db \<Longrightarrow> refs_ok (spawn_db mid stid port s r db)"
  by (auto simp: refs_ok_def spawn_db_def new_mongod_def new_state_def slave_keys_ok_def problem_keys_ok_def
      intro: refers_append)

lemma alloc_step_refs: "alloc_step db db' \<Longrightarrow> db_wf db \<Longrightarrow> refs_ok db \<Longrightarrow> refs_ok db'"
  by (auto elim!: alloc_step.cases mark_step.cases spawn_step.cases
      simp: mark_orphaned_eq set_exec_refs mark_db_def spawn_db_refs remove_destroyed_def destroyed_mongod_ids_set
      intro!: delete_mongods_refs)

lemma spawn_step_inv: "spawn_step db db' \<Longrightarrow> inv db \<Longrightarrow> inv db'"
  by (auto elim!: spawn_step.cases simp: inv_def can_host_def spawn_db_wf spawn_ports_distinct
      intro: spawn_risk_separated)

lemma ports_distinct_filter:
  "ports_distinct db \<Longrightarrow> mongods db' = filter P (mongods db) \<Longrightarrow> ports_distinct db'"
  by (simp add: ports_distinct_def distinct_map_filter_key)

lemma alloc_step_ports_distinct:
  assumes "alloc_step db db'" and "db_wf db" and "ports_distinct db"
  shows "ports_distinct db'"
  using assms(1)
proof cases
  case orphans
  with assms(3) show ?thesis by (simp add: ports_distinct_def)
next
  case remove
  then show ?thesis
    using ports_distinct_filter [OF assms(3)] by (simp add: remove_destroyed_wf [OF assms(2)])
next
  case excess
  with assms(3) show ?thesis by (simp add: ports_distinct_def mark_step_tables)
next
  case add
  then show ?thesis
    using assms(3) by (auto elim!: spawn_step.cases simp: spawn_ports_distinct)
qed

lemma alloc_step_risk_separated:
  assumes "alloc_step db db'" and "db_wf db" and "risk_separated db"
  shows "risk_separated db'"
  using assms(1)
proof cases
  case add
  then show ?thesis
    using assms(2,3) by (auto elim!: spawn_step.cases simp: can_host_def intro: spawn_risk_separated)
qed (use assms(2,3) in \<open>auto simp: mark_step_tables remove_destroyed_wf
    intro: risk_separated_subset\<close>)

lemma alloc_step_inv: "alloc_step db db' \<Longrightarrow> inv db \<Longrightarrow> inv db'"
  by (simp add: inv_def alloc_step_db_wf alloc_step_ports_distinct alloc_step_risk_separated)

lemma alloc_steps_inv: "alloc_step\<^sup>*\<^sup>* db db' \<Longrightarrow> inv db \<Longrightarrow> inv db'"
  by (induction rule: rtranclp_induct) (auto intro: alloc_step_inv)

lemma alloc_steps_db_wf: "alloc_step\<^sup>*\<^sup>* db db' \<Longrightarrow> db_wf db \<Longrightarrow> db_wf db'"
  by (induction rule: rtranclp_induct) (auto intro: alloc_step_db_wf)

lemma alloc_steps_foreign_keys:
  assumes "alloc_step\<^sup>*\<^sup>* db db'" and "db_wf db" and "foreign_keys_ok db"
  shows "foreign_keys_ok db'"
proof -
  have "refs_ok db'"
    using assms by (induction rule: rtranclp_induct) (auto simp: foreign_keys_ok_iff intro: alloc_step_refs alloc_steps_db_wf)
  then show ?thesis
    using assms(1,2) by (simp add: foreign_keys_ok_iff alloc_steps_db_wf)
qed

lemma alloc_steps_ports_distinct:
  "alloc_step\<^sup>*\<^sup>* db db' \<Longrightarrow> db_wf db \<Longrightarrow> ports_distinct db \<Longrightarrow> ports_distinct db'"
  by (induction rule: rtranclp_induct) (auto intro: alloc_step_ports_distinct alloc_steps_db_wf)

lemma alloc_steps_risk_separated:
  "alloc_step\<^sup>*\<^sup>* db db' \<Longrightarrow> db_wf db \<Longrightarrow> risk_separated db \<Longrightarrow> risk_separated db'"
  by (induction rule: rtranclp_induct) (auto intro: alloc_step_risk_separated alloc_steps_db_wf)

lemma alloc_steps_tables:
  assumes "alloc_step\<^sup>*\<^sup>* db db'"
  shows "slaves db' = slaves db" and "replica_sets db' = replica_sets db"
    and "risk_groups db' = risk_groups db"
  using assms by (induction rule: rtranclp_induct) (auto simp: alloc_step_tables)

subsection \<open>Spawning and the counts\<close>

lemma spawn_keeps_exec:
  assumes "db_wf db" and "fresh_ids mid stid db" and "m \<in> set (mongods db)"
  shows "desired_exec (spawn_db mid stid port s r db) m = desired_exec db m"
    and "observed_exec (spawn_db mid stid port s r db) m = observed_exec db m"
proof -
  have ok: "mongod_ok db m"
    using assms by (simp add: db_wf_mongod_ok)
  then have "Mongod_DesiredStateID m \<noteq> stid"
    using spawn_keeps_owned(1) [OF assms(2)] by (auto simp: mongod_ok_def)
  then show "desired_exec (spawn_db mid stid port s r db) m = desired_exec db m"
    by (simp add: desired_exec_def lookup_state_spawn_db [OF assms(2)])
  have "Mongod_ObservedStateID m \<noteq> Some stid"
    using ok spawn_keeps_owned(1) [OF assms(2), of m stid] by (auto simp: mongod_ok_def)
  then show "observed_exec (spawn_db mid stid port s r db) m = observed_exec db m"
    by (auto simp: observed_exec_def lookup_state_spawn_db [OF assms(2)] split: option.split)
qed

lemma suitable_slave:
  assumes "can_host db p r s"
  shows "Slave_PersistentStorage s = PersistentStorage p" and "Slave_ConfiguredState s = SlaveStateActive"
    and "0 < SU_free_mongods (slave_utilization_of db s)"
  using assms by (simp_all add: can_host_def suitable_def slave_utilization_of_def Let_def)

lemma PersistentStorage_inj: "PersistentStorage p = PersistentStorage q \<longleftrightarrow> p = q"
  by (cases p; cases q) simp_all

lemma spawn_configured_count:
  assumes wf: "db_wf db" and fresh: "fresh_ids mid stid db" and s: "s \<in> set (slaves db)"
    and r: "r \<in> set (replica_sets db)" and host: "can_host db p r s" and q: "q \<in> set (replica_sets db)"
  shows "configured_count (spawn_db mid stid port s r db) p' q =
    configured_count db p' q + (if q = r \<and> p' = p then 1 else 0)"
proof -
  let ?db = "spawn_db mid stid port s r db" and ?n = "new_mongod mid stid port s r"
  have old: "configured ?db i b m = configured db i b m" if "m \<in> set (mongods db)" for i b m
    by (simp add: configured_def on_storage_def host_enabled_def meant_to_run_def
        spawn_keeps_exec [OF wf fresh that])
  have sid: "lookup_slave db (Slave_ID s) = Some s"
    using find_row_unique [OF db_wf_keys(1) [OF wf] s] .
  have "ReplicaSet_ID r = ReplicaSet_ID q \<longleftrightarrow> q = r"
    using db_wf_keys(4) [OF wf] r q by (auto simp: distinct_map inj_on_def)
  then have new: "configured ?db (ReplicaSet_ID q) (PersistentStorage p') ?n \<longleftrightarrow> q = r \<and> p' = p"
    using suitable_slave [OF host]
    by (auto simp: configured_def on_storage_def host_enabled_def meant_to_run_def desired_exec_def
        sid lookup_state_spawn_db [OF fresh] PersistentStorage_inj)
  have "db_wf ?db"
    by (rule spawn_db_wf [OF wf fresh s r])
  moreover have "filter (configured ?db (ReplicaSet_ID q) (PersistentStorage p')) (mongods db) =
      filter (configured db (ReplicaSet_ID q) (PersistentStorage p')) (mongods db)"
    by (intro filter_cong refl old)
  ultimately show ?thesis
    using wf q by (simp add: configured_count_eq new)
qed

lemma sql_not_in_append:
  "sql_not_in x (ys @ zs) = Some True \<Longrightarrow> sql_not_in x ys = Some True"
  by (auto simp: sql_not_in_True)

lemma spawn_can_host:
  assumes wf: "db_wf db" and fresh: "fresh_ids mid stid db" and s: "s \<in> set (slaves db)"
    and r: "r \<in> set (replica_sets db)" and host: "can_host (spawn_db mid stid port s r db) p q t"
  shows "can_host db p q t"
proof -
  let ?db = "spawn_db mid stid port s r db"
  have wf': "db_wf ?db"
    by (rule spawn_db_wf [OF wf fresh s r])
  have "SU_free_mongods (slave_utilization_of ?db t) \<le> SU_free_mongods (slave_utilization_of db t)"
    by (simp add: free_mongods_eq [OF wf] free_mongods_eq [OF wf'] mongods_on_slave_def)
  moreover have "\<exists>zs. member_risk_groups ?db (ReplicaSet_ID q) = member_risk_groups db (ReplicaSet_ID q) @ zs"
    by (simp add: member_risk_groups_def)
  moreover have "\<exists>zs. member_hosts ?db (ReplicaSet_ID q) = member_hosts db (ReplicaSet_ID q) @ zs"
    by (simp add: member_hosts_def)
  ultimately show ?thesis
    using host by (auto simp: can_host_def suitable_def Let_def sql_or_True slave_utilization_of_def
        dest: sql_not_in_append)
qed

text \<open>A replica set is starved of a kind of member if it lacks one and no slave can host it.\<close>

definition starved :: "DB \<Rightarrow> persistence \<Rightarrow> ReplicaSet \<Rightarrow> bool" where
  "starved db p r \<longleftrightarrow> deficient db p r \<and> (\<forall>s \<in> set (slaves db). \<not> can_host db p r s)"

lemma spawn_step_starved:
  assumes "spawn_step db db'" and "db_wf db" and "q \<in> set (replica_sets db)" and "starved db p' q"
  shows "starved db' p' q"
  using assms(1)
proof cases
  case (spawn r s p mid stid port)
  have "q \<noteq> r \<or> p' \<noteq> p"
    using spawn assms(4) by (auto simp: starved_def)
  then have "deficient db' p' q"
    using spawn assms(2-4) by (auto simp: starved_def deficient_def spawn_configured_count)
  moreover have "\<not> can_host db' p' q t" if "t \<in> set (slaves db')" for t
    using spawn assms(2,4) that spawn_can_host [OF assms(2)] by (auto simp: starved_def)
  ultimately show ?thesis by (simp add: starved_def)
qed

lemma spawn_steps_starved:
  assumes "spawn_step\<^sup>*\<^sup>* db db'" and "db_wf db" and "q \<in> set (replica_sets db)" and "starved db p q"
  shows "starved db' p q \<and> db_wf db' \<and> q \<in> set (replica_sets db')"
  using assms by (induction rule: rtranclp_induct)
    (auto simp: spawn_step_starved spawn_step_db_wf spawn_step_tables)

subsection \<open>Marking, deleting and the counts\<close>

lemma set_exec_exec:
  assumes "db_wf db" and "m' \<in> set (mongods db)" and "S \<subseteq> set (mongods db)"
  shows "desired_exec (set_exec (\<lambda>st. State_ID st \<in> Mongod_DesiredStateID ` S) e db) m' =
      (if m' \<in> S then Some e else desired_exec db m')"
    and "observed_exec (set_exec (\<lambda>st. State_ID st \<in> Mongod_DesiredStateID ` S) e db) m' =
      observed_exec db m'"
proof -
  have "owns_state db m' (Mongod_DesiredStateID m')"
    using db_wf_mongod_ok [OF assms(1,2)] by (simp add: mongod_ok_def)
  then obtain st where "lookup_state db (Mongod_DesiredStateID m') = Some st"
    and "State_ID st = Mongod_DesiredStateID m'"
    by (metis owns_stateE find_row_key)
  moreover have "Mongod_DesiredStateID m' \<in> Mongod_DesiredStateID ` S \<longleftrightarrow> m' \<in> S"
    using desired_state_inj [OF assms(1,2)] assms(3) by blast
  ultimately show "desired_exec (set_exec (\<lambda>st. State_ID st \<in> Mongod_DesiredStateID ` S) e db) m' =
      (if m' \<in> S then Some e else desired_exec db m')"
    by (simp add: desired_exec_def lookup_state_set_exec)
  have "State_ID st \<notin> Mongod_DesiredStateID ` S"
    if obs: "Mongod_ObservedStateID m' = Some i" and st: "lookup_state db i = Some st" for i st
  proof
    assume "State_ID st \<in> Mongod_DesiredStateID ` S"
    then obtain x where "x \<in> S" and "i = Mongod_DesiredStateID x"
      using find_row_key [OF st] by auto
    then show False
      using observed_not_desired [OF assms(1,2), of x] assms(3) obs by auto
  qed
  then show "observed_exec (set_exec (\<lambda>st. State_ID st \<in> Mongod_DesiredStateID ` S) e db) m' =
      observed_exec db m'"
    by (auto simp: observed_exec_def lookup_state_set_exec option.map_comp intro!: map_option_cong
        split: option.split)
qed

lemma mark_exec:
  assumes "db_wf db" and "m \<in> set (mongods db)" and "m' \<in> set (mongods db)"
  shows "desired_exec (mark_db m db) m' =
      (if m' = m then Some MongodExecutionStateDestroyed else desired_exec db m')"
    and "observed_exec (mark_db m db) m' = observed_exec db m'"
  using set_exec_exec [OF assms(1,3), of "{m}" MongodExecutionStateDestroyed] assms(2)
  by (simp_all add: mark_db_def)

lemma mark_effective:
  assumes "db_wf db" and "m \<in> set (mongods db)" and "m' \<in> set (mongods db)"
  shows "effective (mark_db m db) rid b m' \<longleftrightarrow> effective db rid b m' \<and> m' \<noteq> m"
  by (auto simp: effective_def on_storage_def mark_exec [OF assms])

lemma mark_configured:
  assumes "db_wf db" and "m \<in> set (mongods db)" and "m' \<in> set (mongods db)"
  shows "configured (mark_db m db) rid b m' \<longleftrightarrow> configured db rid b m' \<and> m' \<noteq> m"
  by (auto simp: configured_def on_storage_def host_enabled_def meant_to_run_def mark_exec [OF assms])

lemma mark_effective_count:
  assumes "db_wf db" and "m \<in> set (mongods db)"
  shows "effective_count db p q \<le> effective_count (mark_db m db) p q + 1"
    and "\<not> effective db (ReplicaSet_ID q) (PersistentStorage p) m \<Longrightarrow>
      effective_count (mark_db m db) p q = effective_count db p q"
proof -
  have "effective (mark_db m db) (ReplicaSet_ID q) (PersistentStorage p) x"
    if "x \<in> set (mongods db)" "effective db (ReplicaSet_ID q) (PersistentStorage p) x"
      "Mongod_ID x \<noteq> Mongod_ID m" for x
    using that mark_effective [OF assms that(1)] by auto
  then show "effective_count db p q \<le> effective_count (mark_db m db) p q + 1"
    unfolding effective_count_def mark_db_simps
    by (rule length_filter_all_but_one [OF db_wf_keys(2) [OF assms(1)]])
  show "effective_count (mark_db m db) p q = effective_count db p q"
    if "\<not> effective db (ReplicaSet_ID q) (PersistentStorage p) m"
    unfolding effective_count_def mark_db_simps
    using mark_effective [OF assms] that by (intro arg_cong [where f = length] filter_cong) auto
qed

lemma mark_step_effective_count:
  assumes "mark_step db db'" and "db_wf db" and "q \<in> set (replica_sets db)"
  shows "min (memberCount p' q) (effective_count db p' q) \<le> effective_count db' p' q"
  using assms(1)
proof cases
  case (mark r m p)
  show ?thesis
  proof (cases "effective db (ReplicaSet_ID q) (PersistentStorage p') m")
    case True
    then have "ReplicaSet_ID r = ReplicaSet_ID q" and "p' = p"
      using mark by (auto simp: effective_def on_storage_def PersistentStorage_inj split: option.splits)
    then have "q = r"
      using db_wf_keys(4) [OF assms(2)] assms(3) mark by (auto simp: distinct_map inj_on_def)
    with \<open>p' = p\<close> mark mark_effective_count(1) [OF assms(2), of m p r] show ?thesis by simp
  next
    case False
    with mark mark_effective_count(2) [OF assms(2)] show ?thesis by simp
  qed
qed

lemma mark_step_configured_count:
  assumes "mark_step db db'" and "db_wf db" and "q \<in> set (replica_sets db)"
  shows "configured_count db' p' q \<le> configured_count db p' q"
  using assms(1)
proof cases
  case (mark r m p)
  have "db_wf db'"
    using assms(1,2) by (rule mark_step_db_wf)
  with mark assms show ?thesis
    by (auto simp: configured_count_eq mark_configured intro: length_filter_le_if)
qed

text \<open>Orphans belong to no replica set, and a Mongod that is deleted was not meant to run.\<close>

lemma orphan_counts:
  assumes "db_wf db" and "q \<in> set (replica_sets db)"
  shows "effective_count (mark_orphaned db) p q = effective_count db p q"
    and "configured_count (mark_orphaned db) p q = configured_count db p q"
proof -
  let ?S = "{m \<in> set (mongods db). Mongod_ReplicaSetID m = None}"
  have "effective (mark_orphaned db) (ReplicaSet_ID q) b m = effective db (ReplicaSet_ID q) b m"
    and "configured (mark_orphaned db) (ReplicaSet_ID q) b m = configured db (ReplicaSet_ID q) b m"
    if "m \<in> set (mongods db)" for b m
    using set_exec_exec [OF assms(1) that, of ?S MongodExecutionStateForceDestroyed]
    by (auto simp: effective_def configured_def on_storage_def host_enabled_def meant_to_run_def
        mark_orphaned_eq)
  then have "filter (effective (mark_orphaned db) (ReplicaSet_ID q) b) (mongods db) =
        filter (effective db (ReplicaSet_ID q) b) (mongods db)"
    and "filter (configured (mark_orphaned db) (ReplicaSet_ID q) b) (mongods db) =
        filter (configured db (ReplicaSet_ID q) b) (mongods db)" for b
    by (auto intro: filter_cong)
  moreover have "db_wf (mark_orphaned db)"
    using assms(1) by (simp add: mark_orphaned_eq set_exec_db_wf)
  ultimately show "effective_count (mark_orphaned db) p q = effective_count db p q"
    and "configured_count (mark_orphaned db) p q = configured_count db p q"
    using assms by (simp_all add: effective_count_def configured_count_eq)
qed

lemma remove_exec:
  assumes "db_wf db" and "m \<in> set (mongods (remove_destroyed db))"
  shows "desired_exec (remove_destroyed db) m = desired_exec db m"
    and "observed_exec (remove_destroyed db) m = observed_exec db m"
proof -
  have m: "m \<in> set (mongods db)" "Mongod_ID m \<notin> set (destroyed_mongod_ids db)"
    using assms by (simp_all add: remove_destroyed_wf)
  have "lookup_state (remove_destroyed db) i = lookup_state db i" if "owns_state db m i" for i
    using delete_keeps_owned [OF assms(1) m(2) that] by (simp add: remove_destroyed_wf [OF assms(1)])
  then show "desired_exec (remove_destroyed db) m = desired_exec db m"
    and "observed_exec (remove_destroyed db) m = observed_exec db m"
    using db_wf_mongod_ok [OF assms(1) m(1)]
    by (simp_all add: desired_exec_def observed_exec_def mongod_ok_def split: option.splits)
qed

lemma remove_counts:
  assumes "db_wf db" and "q \<in> set (replica_sets db)"
  shows "effective_count (remove_destroyed db) p q = effective_count db p q"
    and "configured_count (remove_destroyed db) p q = configured_count db p q"
proof -
  let ?db = "remove_destroyed db" and ?b = "PersistentStorage p" and ?q = "ReplicaSet_ID q"
  have kept: "mongods ?db = filter (\<lambda>m. Mongod_ID m \<notin> set (destroyed_mongod_ids db)) (mongods db)"
    by (simp add: remove_destroyed_wf [OF assms(1)])
  have same: "effective ?db ?q ?b m = effective db ?q ?b m" "configured ?db ?q ?b m = configured db ?q ?b m"
    if "m \<in> set (mongods ?db)" for m
    using remove_exec [OF assms(1) that]
    by (simp_all add: effective_def configured_def on_storage_def host_enabled_def meant_to_run_def)
  have "\<not> effective db ?q ?b m" and "\<not> configured db ?q ?b m"
    if "m \<in> set (mongods db)" "Mongod_ID m \<in> set (destroyed_mongod_ids db)" for m
  proof -
    have "desired_exec db m = Some MongodExecutionStateDestroyed \<or>
        desired_exec db m = Some MongodExecutionStateForceDestroyed"
      using that db_wf_keys(2) [OF assms(1)]
      by (auto simp: destroyed_mongod_ids_set distinct_map inj_on_def)
    then show "\<not> effective db ?q ?b m" and "\<not> configured db ?q ?b m"
      by (auto simp: effective_def configured_def meant_to_run_def)
  qed
  then have "filter (effective ?db ?q ?b) (mongods ?db) = filter (effective db ?q ?b) (mongods db)"
    and "filter (configured ?db ?q ?b) (mongods ?db) = filter (configured db ?q ?b) (mongods db)"
    using same by (auto simp: kept intro!: filter_cong)
  then show "effective_count ?db p q = effective_count db p q"
    and "configured_count ?db p q = configured_count db p q"
    using assms remove_destroyed_db_wf [OF assms(1)]
    by (simp_all add: effective_count_def configured_count_eq)
qed

lemma spawn_effective_count:
  assumes "spawn_step db db'" and "db_wf db"
  shows "effective_count db' p q = effective_count db p q"
  using assms(1)
proof cases
  case (spawn r s p' mid stid port)
  have "effective db' i b m = effective db i b m" if "m \<in> set (mongods db)" for i b m
    using spawn spawn_keeps_exec [OF assms(2) _ that]
    by (simp add: effective_def on_storage_def)
  moreover have "\<not> effective db' i b (new_mongod mid stid port s r)" for i b
    by (simp add: effective_def observed_exec_def)
  ultimately show ?thesis
    unfolding spawn(1) effective_count_def spawn_db_simps
    by (auto simp: spawn(1) intro!: arg_cong [where f = length] filter_cong)
qed

text \<open>The two bounds a run keeps, for every step.\<close>

lemma alloc_step_effective_count:
  assumes "alloc_step db db'" and "db_wf db" and "q \<in> set (replica_sets db)"
  shows "min (memberCount p q) (effective_count db p q) \<le> effective_count db' p q"
  using assms(1)
  by cases (auto simp: orphan_counts remove_counts assms mark_step_effective_count
      spawn_effective_count)

lemma alloc_step_configured_count:
  assumes "alloc_step db db'" and "db_wf db" and "q \<in> set (replica_sets db)"
  shows "configured_count db' p q \<le> max (memberCount p q) (configured_count db p q)"
  using assms(1)
proof cases
  case add
  then show ?thesis
  proof cases
    case (spawn r s p' mid stid port)
    then show ?thesis
      using assms by (auto simp: spawn_configured_count deficient_def)
  qed
qed (auto simp: orphan_counts remove_counts assms dest: mark_step_configured_count [OF _ assms(2,3), of _ p])

lemma alloc_steps_counts:
  assumes "alloc_step\<^sup>*\<^sup>* db db'" and "db_wf db" and "q \<in> set (replica_sets db)"
  shows "min (memberCount p q) (effective_count db p q) \<le> effective_count db' p q \<and>
    configured_count db' p q \<le> max (memberCount p q) (configured_count db p q)"
  using assms(1)
proof (induction rule: rtranclp_induct)
  case base
  then show ?case by simp
next
  case (step y z)
  have "db_wf y" and "q \<in> set (replica_sets y)"
    using step.hyps(1) assms by (auto simp: alloc_steps_db_wf alloc_steps_tables)
  then show ?case
    using step.IH alloc_step_effective_count [OF step.hyps(2)] alloc_step_configured_count [OF step.hyps(2)]
    by (meson le_max_iff_disj min_le_iff_disj order_trans max.bounded_iff min.bounded_iff)
qed

end
