(* ===== verification/AllocRun.thy ===== *)
theory AllocRun
  imports AllocSteps
begin

text \<open>
  The runs of \<open>CompileMongodLayout\<close>: each phase computes steps of the state machine of
  \<open>AllocSteps\<close>, the loop that adds members ends, and a run leaves a layout that satisfies every
  replica set or has no slave left for it.  The properties of the allocator close the theory.
\<close>

section \<open>Spawning\<close>

lemma used_ports:
  "set (map Mongod_Port (mongods_on_slave db i)) = Mongod_Port ` set (mongods_on_slave db i)"
  "length (sort (map Mongod_Port (mongods_on_slave db i))) = length (mongods_on_slave db i)"
  by simp_all

lemma used_ports_distinct:
  assumes "ports_distinct db"
  shows "distinct (sort (map Mongod_Port (mongods_on_slave db i)))"
proof -
  have "distinct (map (\<lambda>m. (Mongod_ParentSlaveID m, Mongod_Port m)) (mongods_on_slave db i))"
    unfolding mongods_on_slave_def
    by (rule distinct_map_filter_key) (use assms in \<open>simp add: ports_distinct_def\<close>)
  moreover have "inj_on Mongod_Port (set (mongods_on_slave db i))"
    if "inj_on (\<lambda>m. (Mongod_ParentSlaveID m, Mongod_Port m)) (set (mongods_on_slave db i))"
    using that by (auto simp: inj_on_def mongods_on_slave_def)
  ultimately show ?thesis by (simp add: distinct_map)
qed

text \<open>The slave query returned a slave with room, so the port search cannot fail while no two Mongods
  of the slave share a port.\<close>

lemma free_port_found:
  assumes "db_wf db" and "ports_distinct db" and "0 < SU_free_mongods (slave_utilization_of db s)"
  shows "snd (findUnusedPort (sort (map Mongod_Port (mongods_on_slave db (Slave_ID s))))
      (Slave_MongodPortRangeBegin s) (Slave_MongodPortRangeEnd s))"
proof -
  let ?used = "sort (map Mongod_Port (mongods_on_slave db (Slave_ID s)))"
  have "length ?used < unat (Slave_MongodPortRangeEnd s) - unat (Slave_MongodPortRangeBegin s)"
    using assms(3) unfolding free_mongods_eq [OF assms(1)] used_ports(2) by linarith
  then have "\<exists>p. findUnusedPort ?used (Slave_MongodPortRangeBegin s) (Slave_MongodPortRangeEnd s) = (p, True)"
    by (intro fup.found_if_room used_ports_distinct [OF assms(2)]) simp_all
  then show ?thesis by auto
qed

lemma found_port_free:
  assumes "findUnusedPort (sort (map Mongod_Port (mongods_on_slave db (Slave_ID s))))
      (Slave_MongodPortRangeBegin s) (Slave_MongodPortRangeEnd s) = (port, True)"
  shows "port_free port s db"
  using fup.found_free [OF _ assms] by (simp add: port_free_def)

lemma dbms_ok_newID: "dbms_ok D \<Longrightarrow> newID D n ids \<notin> set ids"
  by (simp add: dbms_ok_def)

lemma dbms_ok_newID_pos: "dbms_ok D \<Longrightarrow> 0 < newID D n ids"
  by (simp add: dbms_ok_def)

lemma update_appended_mongod:
  assumes "Mongod_ID m \<notin> Mongod_ID ` set ms"
  shows "map (\<lambda>x. if Mongod_ID x = Mongod_ID m then f x else x) (ms @ [m]) = ms @ [f m]"
proof -
  have "map (\<lambda>x. if Mongod_ID x = Mongod_ID m then f x else x) ms = ms"
    using assms by (intro map_idI) (auto simp: image_iff)
  then show ?thesis by simp
qed

lemma run_insert_spawned:
  assumes D: "dbms_ok D" and calm: "calm \<Longrightarrow> fault_free D"
  shows "run (insert_spawned D s r port) (\<lambda>m st'. \<exists>mid stid. fresh_ids mid stid (txDB st) \<and>
      txBus st' = txBus st \<and> txDB st' = spawn_db mid stid port s r (txDB st)) (tolerated calm) st"
  unfolding insert_spawned_def run_bindM run_orPanic_tolerated
proof (intro run_insert_mongod_calm run_insert_state_calm run_exec_calm calm)
  fix m d
  let ?db = "txDB st" and ?n = "txCalls st" and ?k = "txCalls (tick st)"
  assume m: "m = \<lparr>Mongod_ID = 0, Mongod_Port = port, Mongod_ReplSetName = ReplicaSet_Name r,
       Mongod_ObservationErrorID = None, Mongod_LastEstablishStateErrorID = None,
       Mongod_ParentSlaveID = Slave_ID s, Mongod_ReplicaSetID = Some (ReplicaSet_ID r),
       Mongod_DesiredStateID = 0, Mongod_ObservedStateID = None\<rparr>
      \<lparr>Mongod_ID := newID D ?n (map Mongod_ID (mongods ?db))\<rparr>"
  let ?st1 = "(tick st)\<lparr>txDB := ?db\<lparr>mongods := mongods ?db @ [m]\<rparr>\<rparr>"
  assume d: "d = \<lparr>State_ID = 0, State_ParentMongodID = Mongod_ID m,
       State_ShardingRole = ReplicaSet_ShardingRole r,
       State_ExecutionState = MongodExecutionStateRunning\<rparr>
      \<lparr>State_ID := newID D (txCalls ?st1) (map State_ID (mongod_states (txDB ?st1)))\<rparr>"
  let ?st2 = "(tick ?st1)\<lparr>txDB := (txDB ?st1)\<lparr>mongod_states := mongod_states (txDB ?st1) @ [d]\<rparr>\<rparr>"
  let ?f = "\<lambda>m. m\<lparr>Mongod_DesiredStateID := State_ID d\<rparr>"
  let ?st3 = "(tick ?st2)\<lparr>txDB := update_mongod (Mongod_ID m) ?f (txDB ?st2)\<rparr>"
  have fresh: "fresh_ids (Mongod_ID m) (State_ID d) ?db"
    using dbms_ok_newID [OF D, of ?n "map Mongod_ID (mongods ?db)"]
      dbms_ok_newID [OF D, of "txCalls ?st1" "map State_ID (mongod_states ?db)"]
    by (simp add: m d fresh_ids_def dbms_ok_newID_pos [OF D])
  have "map (\<lambda>x. if Mongod_ID x = Mongod_ID m then ?f x else x) (mongods ?db @ [m]) = mongods ?db @ [?f m]"
    by (rule update_appended_mongod) (use fresh in \<open>simp add: fresh_ids_def\<close>)
  moreover have "?f m = new_mongod (Mongod_ID m) (State_ID d) port s r"
    and "d = new_state (Mongod_ID m) (State_ID d) r"
    by (simp_all add: m d new_mongod_def new_state_def)
  ultimately have "txDB ?st3 = spawn_db (Mongod_ID m) (State_ID d) port s r ?db"
    by (simp add: update_mongod_def spawn_db_def)
  with fresh show "run (returnM (?f m)) (\<lambda>m st'. \<exists>mid stid. fresh_ids mid stid (txDB st) \<and>
      txBus st' = txBus st \<and> txDB st' = spawn_db mid stid port s r (txDB st)) (tolerated calm) ?st3"
    unfolding run_returnM by (intro exI conjI) simp_all
qed

lemma run_spawn:
  assumes D: "dbms_ok D" and calm: "calm \<Longrightarrow> fault_free D" "calm \<Longrightarrow> ports_distinct (txDB st)"
    and wf: "db_wf (txDB st)" and room: "0 < SU_free_mongods (slave_utilization_of (txDB st) s)"
  shows "run (spawnMongodOnSlave D s r) (\<lambda>m st'. \<exists>mid stid port.
      fresh_ids mid stid (txDB st) \<and> port_free port s (txDB st) \<and> txBus st' = txBus st \<and>
      txDB st' = spawn_db mid stid port s r (txDB st)) (tolerated calm) st"
proof -
  let ?used = "sort (map Mongod_Port (mongods_on_slave (txDB st) (Slave_ID s)))"
  obtain port found where search: "findUnusedPort ?used (Slave_MongodPortRangeBegin s)
      (Slave_MongodPortRangeEnd s) = (port, found)"
    by fastforce
  have "calm \<Longrightarrow> found"
    using free_port_found [OF wf calm(2) room] search by simp
  moreover have "found \<Longrightarrow> port_free port s (txDB st)"
    using found_port_free search by simp
  moreover have "run (insert_spawned D s r port) (\<lambda>m st'. \<exists>mid stid. fresh_ids mid stid (txDB st) \<and>
      txBus st' = txBus st \<and> txDB st' = spawn_db mid stid port s r (txDB st)) (tolerated calm) (tick st)"
    using run_insert_spawned [OF D calm(1), where st = "tick st"] by simp
  ultimately show ?thesis
    unfolding spawnMongodOnSlave_def run_bindM run_orPanic_tolerated
    by (intro run_query_calm calm(1))
      (auto simp: search run_simps tolerated_def [of calm "Failed _"] elim!: run_mono)
qed

section \<open>Adding members\<close>

lemma sum_list_less:
  fixes f g :: "'a \<Rightarrow> nat"
  assumes "\<And>x. x \<in> set xs \<Longrightarrow> g x \<le> f x" and "y \<in> set xs" and "g y < f y"
  shows "sum_list (map g xs) < sum_list (map f xs)"
  using assms
proof (induction xs)
  case (Cons x xs)
  have le: "sum_list (map g xs) \<le> sum_list (map f xs)"
    using Cons.prems(1) by (intro sum_list_mono) simp
  show ?case
  proof (cases "y = x")
    case True
    with Cons.prems(3) le show ?thesis by simp
  next
    case False
    with Cons show ?thesis by (simp add: add_le_less_mono)
  qed
qed simp

text \<open>The work left in the loop: a bound on the spawns and on the replica sets to give up.\<close>

definition work :: "DB \<Rightarrow> persistence \<Rightarrow> ID list \<Rightarrow> nat" where
  "work db p unsat = sum_list (map (\<lambda>r. if ReplicaSet_ID r \<in> set unsat then 0
     else Suc (memberCount p r - configured_count db p r)) (replica_sets db))"

lemma work_give_up:
  assumes "r \<in> set (replica_sets db)" and "ReplicaSet_ID r \<notin> set unsat"
  shows "work db p (unsat @ [ReplicaSet_ID r]) < work db p unsat"
  unfolding work_def by (rule sum_list_less [OF _ assms(1)]) (use assms(2) in auto)

lemma work_spawn:
  assumes wf: "db_wf db" and fresh: "fresh_ids mid stid db" and s: "s \<in> set (slaves db)"
    and r: "r \<in> set (replica_sets db)" and host: "can_host db p r s" and d: "deficient db p r"
    and unsat: "ReplicaSet_ID r \<notin> set unsat"
  shows "work (spawn_db mid stid port s r db) p unsat < work db p unsat"
  unfolding work_def spawn_db_simps
  by (rule sum_list_less [OF _ r])
    (use unsat d in \<open>auto simp: spawn_configured_count [OF wf fresh s r host] r deficient_def\<close>)

lemma work_start: "work db p unsat < loop_bound p db"
proof -
  have "work db p unsat \<le> sum_list (map (\<lambda>r. Suc (memberCount p r)) (replica_sets db))"
    unfolding work_def by (rule sum_list_mono) auto
  then show ?thesis by (simp add: loop_bound_def)
qed

lemma degraded_set:
  "r \<in> set (degraded_replica_sets db p unsat) \<longleftrightarrow>
    r \<in> set (replica_sets db) \<and> ReplicaSet_ID r \<notin> set unsat \<and> deficient db p r"
  by (auto simp: degraded_replica_sets_def deficient_def)

lemma degraded_head_cases:
  assumes "dbms_ok D"
  shows "degraded_head D n db p unsat = None \<Longrightarrow> r \<in> set (replica_sets db) \<Longrightarrow> deficient db p r \<Longrightarrow>
      ReplicaSet_ID r \<in> set unsat"
    and "degraded_head D n db p unsat = Some r \<Longrightarrow>
      r \<in> set (replica_sets db) \<and> ReplicaSet_ID r \<notin> set unsat \<and> deficient db p r"
  using degraded_set [of r db p unsat]
  by (auto simp: degraded_head_def limit1_order_by_None [OF assms] simp del: limit1_None
      dest: limit1_order_by_Some [OF assms])

lemma leastBusy_cases:
  assumes "dbms_ok D"
  shows "leastBusySuitableSlave D n db p (ReplicaSet_ID r) = None \<Longrightarrow> s \<in> set (slaves db) \<Longrightarrow>
      \<not> can_host db p r s"
    and "leastBusySuitableSlave D n db p (ReplicaSet_ID r) = Some s \<Longrightarrow>
      s \<in> set (slaves db) \<and> can_host db p r s"
proof -
  show "\<not> can_host db p r s"
    if "leastBusySuitableSlave D n db p (ReplicaSet_ID r) = None" and "s \<in> set (slaves db)"
    using that by (auto simp: leastBusySuitableSlave_def limit1_order_by_None [OF assms]
        slave_utilization_def filter_empty_conv can_host_def simp del: limit1_None)
  show "s \<in> set (slaves db) \<and> can_host db p r s"
    if found: "leastBusySuitableSlave D n db p (ReplicaSet_ID r) = Some s"
  proof -
    obtain su where su: "s = SU_slave su" "su \<in> set (filter (suitable db p (ReplicaSet_ID r)) (slave_utilization db))"
      using found by (auto simp: leastBusySuitableSlave_def dest: limit1_order_by_Some [OF assms])
    then obtain t where "t \<in> set (slaves db)" and "su = slave_utilization_of db t"
      by (auto simp: slave_utilization_def)
    with su show ?thesis
      by (simp add: can_host_def slave_utilization_of_def Let_def)
  qed
qed

text \<open>What the loop leaves behind: for the replica sets it gave up and for no others, a kind of member
  is missing, and no slave can host it.\<close>

definition filled :: "DB \<Rightarrow> persistence \<Rightarrow> ID list \<Rightarrow> bool" where
  "filled db p given_up \<longleftrightarrow> (\<forall>r \<in> set (replica_sets db).
     (ReplicaSet_ID r \<in> set given_up \<longrightarrow> starved db p r) \<and>
     (deficient db p r \<longrightarrow> ReplicaSet_ID r \<in> set given_up))"

definition gave_up :: "DB \<Rightarrow> persistence \<Rightarrow> ID list \<Rightarrow> bool" where
  "gave_up db p ids \<longleftrightarrow> (\<forall>r \<in> set (replica_sets db). ReplicaSet_ID r \<in> set ids \<longrightarrow> starved db p r)"

lemma spawn_step_gave_up:
  "spawn_step db db' \<Longrightarrow> db_wf db \<Longrightarrow> gave_up db p ids \<Longrightarrow> gave_up db' p ids"
  by (auto simp: gave_up_def spawn_step_tables intro: spawn_step_starved)

text \<open>One round of the loop, by what the two queries find.\<close>

lemma run_add_members_round:
  assumes D: "dbms_ok D" and calm: "calm \<Longrightarrow> fault_free D" "calm \<Longrightarrow> ports_distinct (txDB st)"
    and wf: "db_wf (txDB st)"
    and finish: "(\<And>r. r \<in> set (replica_sets (txDB st)) \<Longrightarrow> deficient (txDB st) p r \<Longrightarrow>
      ReplicaSet_ID r \<in> set unsat_p) \<Longrightarrow> Q unsat (tick st)"
    and give_up: "\<And>r st'. \<lbrakk>r \<in> set (replica_sets (txDB st)); ReplicaSet_ID r \<notin> set unsat_p;
      starved (txDB st) p r; txDB st' = txDB st; txBus st' = txBus st\<rbrakk> \<Longrightarrow>
      run (add_members_loop D p fuel (unsat_p @ [ReplicaSet_ID r]) (unsat @ [ReplicaSet_ID r]))
        Q (tolerated calm) st'"
    and spawn: "\<And>r s mid stid port st'. \<lbrakk>r \<in> set (replica_sets (txDB st));
      ReplicaSet_ID r \<notin> set unsat_p; deficient (txDB st) p r; s \<in> set (slaves (txDB st));
      can_host (txDB st) p r s; fresh_ids mid stid (txDB st); port_free port s (txDB st);
      txDB st' = spawn_db mid stid port s r (txDB st); txBus st' = txBus st\<rbrakk> \<Longrightarrow>
      run (add_members_loop D p fuel unsat_p unsat) Q (tolerated calm) st'"
  shows "run (add_members_loop D p (Suc fuel) unsat_p unsat) Q (tolerated calm) st"
proof -
  let ?db = "txDB st" and ?loop = "add_members_loop D p fuel" and ?st = "tick (tick st)"
  have host: "run (case leastBusySuitableSlave D n ?db p (ReplicaSet_ID r) of
        None \<Rightarrow> ?loop (unsat_p @ [ReplicaSet_ID r]) (unsat @ [ReplicaSet_ID r])
      | Some s \<Rightarrow> bindM (orPanic (spawnMongodOnSlave D s r)) (\<lambda>_. ?loop unsat_p unsat))
      Q (tolerated calm) ?st"
    if r: "r \<in> set (replica_sets ?db)" "ReplicaSet_ID r \<notin> set unsat_p" "deficient ?db p r" for r n
  proof (cases "leastBusySuitableSlave D n ?db p (ReplicaSet_ID r)")
    case None
    then have "starved ?db p r"
      using leastBusy_cases(1) [OF D] r by (simp add: starved_def)
    with None show ?thesis by (simp add: give_up r)
  next
    case (Some s)
    then have s: "s \<in> set (slaves ?db)" "can_host ?db p r s"
      using leastBusy_cases(2) [OF D] by auto
    have "run (orPanic (spawnMongodOnSlave D s r)) (\<lambda>m st'. \<exists>mid stid port.
        fresh_ids mid stid ?db \<and> port_free port s ?db \<and> txBus st' = txBus st \<and>
        txDB st' = spawn_db mid stid port s r ?db) (tolerated calm) ?st"
      using run_spawn [OF D calm(1), where st = ?st and s = s and r = r] calm(2) wf
        suitable_slave(3) [OF s(2)] by (simp add: run_orPanic_tolerated)
    then have "run (bindM (orPanic (spawnMongodOnSlave D s r)) (\<lambda>_. ?loop unsat_p unsat))
        Q (tolerated calm) ?st"
      by (rule run_bind_seq) (use spawn [OF r s] in blast)
    with Some show ?thesis by simp
  qed
  show ?thesis
    unfolding add_members_loop.simps run_bindM run_orPanic_tolerated
  proof (rule run_query_calm [OF calm(1)], assumption)
    show "run (case degraded_head D (txCalls st) ?db p unsat_p of None \<Rightarrow> returnM unsat
        | Some r \<Rightarrow> bindM (orPanic (sql_query D (\<lambda>n db. leastBusySuitableSlave D n db p (ReplicaSet_ID r))))
           (\<lambda>slave. case slave of
              None \<Rightarrow> ?loop (unsat_p @ [ReplicaSet_ID r]) (unsat @ [ReplicaSet_ID r])
            | Some s \<Rightarrow> bindM (orPanic (spawnMongodOnSlave D s r)) (\<lambda>_. ?loop unsat_p unsat)))
        Q (tolerated calm) (tick st)"
    proof (cases "degraded_head D (txCalls st) ?db p unsat_p")
      case None
      then show ?thesis
        using finish degraded_head_cases(1) [OF D None] by (simp add: run_simps)
    next
      case (Some r)
      then have "r \<in> set (replica_sets ?db)" "ReplicaSet_ID r \<notin> set unsat_p" "deficient ?db p r"
        using degraded_head_cases(2) [OF D] by auto
      from host [OF this] Some show ?thesis
        by (simp add: run_bindM run_orPanic_tolerated run_query_calm calm(1))
    qed
  qed
qed

definition loop_post ::
  "persistence \<Rightarrow> ID list \<Rightarrow> ID list \<Rightarrow> DB \<Rightarrow> StatusMessage list \<Rightarrow> ID list \<Rightarrow> tx \<Rightarrow> bool" where
  "loop_post p unsat_p unsat db bus unsat' st \<longleftrightarrow> spawn_step\<^sup>*\<^sup>* db (txDB st) \<and> txBus st = bus \<and>
    (\<exists>new. unsat' = unsat @ new \<and> filled (txDB st) p (unsat_p @ new))"

lemma loop_post_give_up:
  "loop_post p (unsat_p @ [i]) (unsat @ [i]) db bus unsat' st \<Longrightarrow> loop_post p unsat_p unsat db bus unsat' st"
  by (auto simp: loop_post_def)

lemma loop_post_spawn:
  "spawn_step db db' \<Longrightarrow> loop_post p unsat_p unsat db' bus unsat' st \<Longrightarrow>
    loop_post p unsat_p unsat db bus unsat' st"
  by (auto simp: loop_post_def intro: converse_rtranclp_into_rtranclp)

lemma run_add_members_loop:
  assumes D: "dbms_ok D" and calm: "calm \<Longrightarrow> fault_free D" "calm \<Longrightarrow> ports_distinct (txDB st)"
    and wf: "db_wf (txDB st)" and ids: "gave_up (txDB st) p unsat_p" and fuel: "work (txDB st) p unsat_p < fuel"
  shows "run (add_members_loop D p fuel unsat_p unsat) (loop_post p unsat_p unsat (txDB st) (txBus st))
    (tolerated calm) st"
  using calm(2) wf ids fuel
proof (induction fuel arbitrary: st unsat_p unsat)
  case 0
  then show ?case by simp
next
  case (Suc fuel)
  show ?case
  proof (rule run_add_members_round [OF D calm(1) Suc.prems(1,2)])
    assume "\<And>r. r \<in> set (replica_sets (txDB st)) \<Longrightarrow> deficient (txDB st) p r \<Longrightarrow>
      ReplicaSet_ID r \<in> set unsat_p"
    with Suc.prems(3) show "loop_post p unsat_p unsat (txDB st) (txBus st) unsat (tick st)"
      by (auto simp: loop_post_def filled_def gave_up_def)
  next
    fix r and st' :: tx
    assume r: "r \<in> set (replica_sets (txDB st))" "ReplicaSet_ID r \<notin> set unsat_p" "starved (txDB st) p r"
      and st': "txDB st' = txDB st" "txBus st' = txBus st"
    have "gave_up (txDB st) p (unsat_p @ [ReplicaSet_ID r])"
      using Suc.prems(3) r(1,3) db_wf_keys(4) [OF Suc.prems(2)]
      by (auto simp: gave_up_def distinct_map inj_on_def)
    with Suc.IH [of st' "unsat_p @ [ReplicaSet_ID r]" "unsat @ [ReplicaSet_ID r]"]
    show "run (add_members_loop D p fuel (unsat_p @ [ReplicaSet_ID r]) (unsat @ [ReplicaSet_ID r]))
        (loop_post p unsat_p unsat (txDB st) (txBus st)) (tolerated calm) st'"
      using Suc.prems work_give_up [OF r(1,2), of p] st'
      by (auto elim!: run_mono intro: loop_post_give_up)
  next
    fix r s mid stid port and st' :: tx
    assume r: "r \<in> set (replica_sets (txDB st))" "ReplicaSet_ID r \<notin> set unsat_p" "deficient (txDB st) p r"
      and s: "s \<in> set (slaves (txDB st))" "can_host (txDB st) p r s"
      and new: "fresh_ids mid stid (txDB st)" "port_free port s (txDB st)"
      and st': "txDB st' = spawn_db mid stid port s r (txDB st)" "txBus st' = txBus st"
    have step: "spawn_step (txDB st) (txDB st')"
      unfolding st' by (rule spawn_step.spawn [OF r(1) s(1) r(3) s(2) new])
    have "work (txDB st') p unsat_p < fuel"
      using work_spawn [OF Suc.prems(2) new(1) s(1) r(1) s(2) r(3,2), of port] Suc.prems(4) st' by simp
    moreover have "db_wf (txDB st')" and "gave_up (txDB st') p unsat_p"
      by (rule spawn_step_db_wf [OF step Suc.prems(2)], rule spawn_step_gave_up [OF step Suc.prems(2,3)])
    moreover have "calm \<Longrightarrow> ports_distinct (txDB st')"
      using Suc.prems(1) new(2) st'(1) by (simp add: spawn_ports_distinct)
    ultimately have "run (add_members_loop D p fuel unsat_p unsat)
        (loop_post p unsat_p unsat (txDB st') (txBus st')) (tolerated calm) st'"
      by (intro Suc.IH)
    then show "run (add_members_loop D p fuel unsat_p unsat)
        (loop_post p unsat_p unsat (txDB st) (txBus st)) (tolerated calm) st'"
      by (rule run_mono) (use st' loop_post_spawn [OF step] in auto)
  qed
qed

lemma spawn_step_configured_mono:
  assumes "spawn_step db db'" and "db_wf db" and "q \<in> set (replica_sets db)"
  shows "configured_count db p q \<le> configured_count db' p q"
  using assms by (auto elim!: spawn_step.cases simp: spawn_configured_count)

lemma filled_spawn_steps:
  assumes "spawn_step\<^sup>*\<^sup>* db db'" and "db_wf db" and "filled db p ids"
  shows "filled db' p ids \<and> db_wf db'"
  using assms(1)
proof (induction rule: rtranclp_induct)
  case (step y z)
  have "deficient y p r" if "r \<in> set (replica_sets y)" "deficient z p r" for r
    using spawn_step_configured_mono [OF step.hyps(2), of r p] step.IH that by (simp add: deficient_def)
  then have "filled z p ids"
    using spawn_step_starved [OF step.hyps(2)] step.IH
    by (simp add: filled_def spawn_step_tables(2) [OF step.hyps(2)])
  with step show ?case by (simp add: spawn_step_db_wf)
qed (use assms in simp)

lemma spawn_steps_alloc: "spawn_step\<^sup>*\<^sup>* db db' \<Longrightarrow> alloc_step\<^sup>*\<^sup>* db db'"
  by (rule rtranclp_mono [THEN predicate2D]) (auto intro: alloc_step.add)

lemma mark_steps_alloc: "mark_step\<^sup>*\<^sup>* db db' \<Longrightarrow> alloc_step\<^sup>*\<^sup>* db db'"
  by (rule rtranclp_mono [THEN predicate2D]) (auto intro: alloc_step.excess)

text \<open>What \<open>CompileMongodLayout\<close> knows once it has added members.\<close>

definition settled :: "DB \<Rightarrow> ID list \<Rightarrow> bool" where
  "settled db unsat \<longleftrightarrow> (\<forall>r \<in> set (replica_sets db).
     (ReplicaSet_ID r \<in> set unsat \<longleftrightarrow> (\<exists>p. deficient db p r)) \<and>
     (\<forall>p. deficient db p r \<longrightarrow> starved db p r))"

lemma persistence_all: "(\<forall>p. P p) \<longleftrightarrow> P Persistent \<and> P Volatile"
  by (metis persistence.exhaust)

lemma persistence_ex: "(\<exists>p. P p) \<longleftrightarrow> P Persistent \<or> P Volatile"
  by (metis persistence.exhaust)

lemma filled_settled:
  assumes "db_wf db" and "filled db Persistent (0 # new)" and "filled db Volatile (0 # new')"
  shows "settled db (new @ new')"
  unfolding settled_def persistence_all persistence_ex
proof
  fix r assume r: "r \<in> set (replica_sets db)"
  then have "ReplicaSet_ID r \<noteq> 0"
    using db_wf_keys(5) [OF assms(1)] by force
  with r assms(2,3) show "(ReplicaSet_ID r \<in> set (new @ new') \<longleftrightarrow>
        deficient db Persistent r \<or> deficient db Volatile r) \<and>
      (deficient db Persistent r \<longrightarrow> starved db Persistent r) \<and>
      (deficient db Volatile r \<longrightarrow> starved db Volatile r)"
    by (auto simp: filled_def starved_def)
qed

lemma run_add_members:
  assumes D: "dbms_ok D" and calm: "calm \<Longrightarrow> fault_free D" "calm \<Longrightarrow> ports_distinct (txDB st)"
    and wf: "db_wf (txDB st)"
  shows "run (add_members D) (\<lambda>unsat st'. spawn_step\<^sup>*\<^sup>* (txDB st) (txDB st') \<and> txBus st' = txBus st \<and>
    settled (txDB st') unsat) (tolerated calm) st"
proof -
  have start: "gave_up db p [0]" if "db_wf db" for db p
    using db_wf_keys(5) [OF that] by (force simp: gave_up_def)
  have pass: "run (add_members_of D p unsat) (loop_post p [0] unsat (txDB s) (txBus s)) (tolerated calm) s"
    if "db_wf (txDB s)" "calm \<Longrightarrow> ports_distinct (txDB s)" for p unsat s
    unfolding add_members_of_def run_bindM run_getM
    by (rule run_add_members_loop [OF D calm(1) that(2,1) start [OF that(1)] work_start])
  show ?thesis
    unfolding add_members_def foldM.simps
  proof (rule run_bind_seq [OF pass [OF wf calm(2)]])
    fix unsat s1 assume "loop_post Persistent [0] [] (txDB st) (txBus st) unsat s1"
    then have s1: "spawn_step\<^sup>*\<^sup>* (txDB st) (txDB s1)" "txBus s1 = txBus st" "filled (txDB s1) Persistent (0 # unsat)"
      by (auto simp: loop_post_def)
    have wf1: "db_wf (txDB s1)"
      by (rule alloc_steps_db_wf [OF spawn_steps_alloc [OF s1(1)] wf])
    show "run (bindM (add_members_of D Volatile unsat) (\<lambda>a'. returnM a'))
        (\<lambda>unsat st'. spawn_step\<^sup>*\<^sup>* (txDB st) (txDB st') \<and> txBus st' = txBus st \<and>
          settled (txDB st') unsat) (tolerated calm) s1"
    proof (rule run_bind_seq [OF pass [OF wf1]])
      show "ports_distinct (txDB s1)" if calm
        using alloc_steps_ports_distinct [OF spawn_steps_alloc [OF s1(1)] wf] calm(2) that by simp
    next
      fix unsat' s2 assume "loop_post Volatile [0] unsat (txDB s1) (txBus s1) unsat' s2"
      then obtain new where s2: "spawn_step\<^sup>*\<^sup>* (txDB s1) (txDB s2)" "txBus s2 = txBus s1"
          "unsat' = unsat @ new" "filled (txDB s2) Volatile (0 # new)"
        by (auto simp: loop_post_def)
      then have "settled (txDB s2) unsat'"
        using filled_spawn_steps [OF s2(1) wf1 s1(3)] filled_settled by simp
      with s1 s2 show "run (returnM unsat') (\<lambda>unsat st'. spawn_step\<^sup>*\<^sup>* (txDB st) (txDB st') \<and>
          txBus st' = txBus st \<and> settled (txDB st') unsat) (tolerated calm) s2"
        by (auto simp: run_simps)
    qed
  qed
qed

section \<open>Removing excess members\<close>

lemma run_mark_destroyed:
  assumes "calm \<Longrightarrow> fault_free D" and "Q () ((tick s)\<lparr>txDB := mark_db m (txDB s)\<rparr>)"
  shows "run (mark_destroyed D m) Q (tolerated calm) s"
  unfolding mark_destroyed_def run_orPanic_tolerated
  by (rule run_exec_calm [OF assms(1)]) (simp_all add: update_state_mark assms(2))

definition excess_member :: "DB \<Rightarrow> persistence \<Rightarrow> ReplicaSet \<Rightarrow> Mongod \<Rightarrow> bool" where
  "excess_member db p r m \<longleftrightarrow> m \<in> set (mongods db) \<and> Mongod_ReplicaSetID m = Some (ReplicaSet_ID r) \<and>
    on_storage db (PersistentStorage p) m \<and> \<not> in_maintenance db m"

text \<open>Marking members of one kind leaves the effective members of every other kind.\<close>

definition marked_only :: "persistence \<Rightarrow> ReplicaSet \<Rightarrow> DB \<Rightarrow> DB \<Rightarrow> bool" where
  "marked_only p r db db' \<longleftrightarrow> mark_step\<^sup>*\<^sup>* db db' \<and>
    (\<forall>q \<in> set (replica_sets db). \<forall>p'. q \<noteq> r \<or> p' \<noteq> p \<longrightarrow>
      effective_count db' p' q = effective_count db p' q)"

lemma marked_only_step:
  assumes wf: "db_wf db" and r: "r \<in> set (replica_sets db)" and m: "excess_member db p r m"
    and count: "memberCount p r < effective_count db p r"
    and rest: "marked_only p r (mark_db m db) db'"
  shows "marked_only p r db db'"
proof -
  have "mark_step db (mark_db m db)"
    using m count r by (intro mark_step.mark) (auto simp: excess_member_def)
  moreover have "effective_count (mark_db m db) p' q = effective_count db p' q"
    if q: "q \<in> set (replica_sets db)" "q \<noteq> r \<or> p' \<noteq> p" for q p'
  proof (rule mark_effective_count(2) [OF wf])
    have "ReplicaSet_ID q = ReplicaSet_ID r \<Longrightarrow> q = r"
      using db_wf_keys(4) [OF wf] q(1) r by (auto simp: distinct_map inj_on_def)
    then show "\<not> effective db (ReplicaSet_ID q) (PersistentStorage p') m"
      using m q(2) by (auto simp: effective_def excess_member_def on_storage_def PersistentStorage_inj
          split: option.splits)
  qed (use m in \<open>simp add: excess_member_def\<close>)
  ultimately show ?thesis
    using rest by (auto simp: marked_only_def intro: converse_rtranclp_into_rtranclp)
qed

lemma run_marks:
  assumes calm: "calm \<Longrightarrow> fault_free D" and wf: "db_wf (txDB s)" and r: "r \<in> set (replica_sets (txDB s))"
    and ms: "\<And>m. m \<in> set ms \<Longrightarrow> excess_member (txDB s) p r m"
    and count: "memberCount p r + length ms \<le> effective_count (txDB s) p r"
  shows "run (forM ms (mark_destroyed D)) (\<lambda>_ s'. marked_only p r (txDB s) (txDB s') \<and> txBus s' = txBus s)
    (tolerated calm) s"
  using wf r ms count
proof (induction ms arbitrary: s)
  case Nil
  then show ?case by (simp add: run_simps marked_only_def)
next
  case (Cons m ms)
  let ?s = "(tick s)\<lparr>txDB := mark_db m (txDB s)\<rparr>"
  have m: "excess_member (txDB s) p r m" and mem: "m \<in> set (mongods (txDB s))"
    using Cons.prems(3) [of m] by (simp_all add: excess_member_def)
  have "run (forM ms (mark_destroyed D)) (\<lambda>_ s'. marked_only p r (txDB ?s) (txDB s') \<and> txBus s' = txBus ?s)
      (tolerated calm) ?s"
  proof (rule Cons.IH)
    show "excess_member (txDB ?s) p r x" if "x \<in> set ms" for x
      using Cons.prems(3) [of x] that by (simp add: excess_member_def on_storage_def in_maintenance_def)
    show "memberCount p r + length ms \<le> effective_count (txDB ?s) p r"
      using mark_effective_count(1) [OF Cons.prems(1) mem, of p r] Cons.prems(4) by simp
  qed (use Cons.prems in \<open>simp_all add: mark_db_def set_exec_db_wf\<close>)
  moreover have "memberCount p r < effective_count (txDB s) p r"
    using Cons.prems(4) by simp
  ultimately have "run (forM ms (mark_destroyed D)) (\<lambda>_ s'. marked_only p r (txDB s) (txDB s') \<and>
      txBus s' = txBus s) (tolerated calm) ?s"
    using marked_only_step [OF Cons.prems(1,2) m] by (auto elim!: run_mono)
  then show ?case
    by (intro run_forM_Cons run_mark_destroyed calm)
qed

lemma deletable_candidate:
  assumes wf: "db_wf db"
    and m: "(m, t, su) \<in> set (deletable_candidates db (ReplicaSet_ID r) (PersistentStorage p))"
  shows "excess_member db p r m"
proof -
  obtain s where "m \<in> set (mongods db)" and "Mongod_ReplicaSetID m = Some (ReplicaSet_ID r)"
    and s: "s \<in> set (slaves db)" "Slave_ID s = Mongod_ParentSlaveID m"
    and "Slave_PersistentStorage s = PersistentStorage p" "Slave_ConfiguredState s \<noteq> SlaveStateMaintenance"
    using m by (auto simp: deletable_candidates_def split: if_splits)
  moreover have "lookup_slave db (Mongod_ParentSlaveID m) = Some s"
    using find_row_unique [OF db_wf_keys(1) [OF wf] s(1)] s(2) by simp
  ultimately show ?thesis
    by (simp add: excess_member_def on_storage_def in_maintenance_def)
qed

lemma deletable_mongods_ok:
  assumes "dbms_ok D" and "db_wf db"
  shows "m \<in> set (deletable_mongods D n db (ReplicaSet_ID r) (PersistentStorage p) k) \<Longrightarrow>
      excess_member db p r m"
    and "length (deletable_mongods D n db rid ps k) \<le> nat k"
  by (auto simp: deletable_mongods_def set_order_by [OF assms(1)]
      dest!: in_set_takeD intro: deletable_candidate [OF assms(2)])

lemma run_remove_excess_of:
  assumes D: "dbms_ok D" and calm: "calm \<Longrightarrow> fault_free D" and wf: "db_wf (txDB s)"
    and r: "r \<in> set (replica_sets (txDB s))"
    and count: "k \<le> int (effective_count (txDB s) p r) - int (memberCount p r)"
  shows "run (remove_excess_of D (ReplicaSet_ID r) p k)
    (\<lambda>_ s'. marked_only p r (txDB s) (txDB s') \<and> txBus s' = txBus s) (tolerated calm) s"
proof (cases "k \<le> 0")
  case True
  then show ?thesis by (simp add: remove_excess_of_def run_simps marked_only_def)
next
  case False
  let ?ms = "deletable_mongods D (txCalls s) (txDB s) (ReplicaSet_ID r) (PersistentStorage p) k"
  have "run (forM ?ms (mark_destroyed D)) (\<lambda>_ s'. marked_only p r (txDB (tick s)) (txDB s') \<and>
      txBus s' = txBus (tick s)) (tolerated calm) (tick s)"
  proof (rule run_marks [OF calm])
    show "memberCount p r + length ?ms \<le> effective_count (txDB (tick s)) p r"
      using count False deletable_mongods_ok(2) [OF D wf, of "txCalls s" "ReplicaSet_ID r" "PersistentStorage p" k]
      by simp
  qed (use wf r deletable_mongods_ok(1) [OF D wf] in auto)
  with False show ?thesis
    unfolding remove_excess_of_def by (simp add: run_bindM run_orPanic_tolerated run_query_calm calm)
qed

text \<open>A row of the first query stays right while members of other replica sets are marked.\<close>

definition row_ok :: "DB \<Rightarrow> excessMongodsRow \<Rightarrow> bool" where
  "row_ok db row \<longleftrightarrow> (\<exists>r \<in> set (replica_sets db). fst row = ReplicaSet_ID r \<and>
     fst (snd row) \<le> int (effective_count db Persistent r) - int (memberCount Persistent r) \<and>
     snd (snd row) \<le> int (effective_count db Volatile r) - int (memberCount Volatile r))"

definition marked_in :: "ID \<Rightarrow> DB \<Rightarrow> DB \<Rightarrow> bool" where
  "marked_in rid db db' \<longleftrightarrow> mark_step\<^sup>*\<^sup>* db db' \<and>
    (\<forall>q \<in> set (replica_sets db). ReplicaSet_ID q \<noteq> rid \<longrightarrow>
      (\<forall>p'. effective_count db' p' q = effective_count db p' q))"

lemma mark_steps_tables:
  assumes "mark_step\<^sup>*\<^sup>* db db'"
  shows "replica_sets db' = replica_sets db"
  by (rule alloc_steps_tables(2) [OF mark_steps_alloc [OF assms]])

lemma marked_in_row_ok:
  assumes "marked_in rid db db'" and "row_ok db row" and "fst row \<noteq> rid"
  shows "row_ok db' row"
  using assms by (auto simp: row_ok_def marked_in_def mark_steps_tables)

lemma marked_only_both:
  assumes "marked_only p r db db1" and "marked_only p' r db1 db2"
  shows "marked_in (ReplicaSet_ID r) db db2"
proof -
  have steps: "mark_step\<^sup>*\<^sup>* db db1" "mark_step\<^sup>*\<^sup>* db1 db2"
    using assms by (simp_all add: marked_only_def)
  moreover have "effective_count db2 k q = effective_count db k q"
    if "q \<in> set (replica_sets db)" "ReplicaSet_ID q \<noteq> ReplicaSet_ID r" for q k
  proof -
    have "q \<noteq> r" using that by auto
    then show ?thesis
      using assms that(1) by (simp add: marked_only_def mark_steps_tables [OF steps(1)])
  qed
  ultimately show ?thesis by (auto simp: marked_in_def)
qed

lemma run_remove_excess_row:
  assumes D: "dbms_ok D" and calm: "calm \<Longrightarrow> fault_free D" and wf: "db_wf (txDB s)"
    and row: "row_ok (txDB s) row"
  shows "run (remove_excess_row D row)
    (\<lambda>_ s'. marked_in (fst row) (txDB s) (txDB s') \<and> txBus s' = txBus s) (tolerated calm) s"
proof -
  obtain r dp dv where r: "r \<in> set (replica_sets (txDB s))" and row_eq: "row = (ReplicaSet_ID r, dp, dv)"
    and dp: "dp \<le> int (effective_count (txDB s) Persistent r) - int (memberCount Persistent r)"
    and dv: "dv \<le> int (effective_count (txDB s) Volatile r) - int (memberCount Volatile r)"
    using row by (cases row) (auto simp: row_ok_def)
  let ?db = "txDB s" and ?id = "ReplicaSet_ID r"
  have both: "run (remove_excess_of D ?id Volatile dv)
      (\<lambda>_ s'. marked_in ?id ?db (txDB s') \<and> txBus s' = txBus s) (tolerated calm) s1"
    if s1: "marked_only Persistent r ?db (txDB s1)" "txBus s1 = txBus s" for s1
  proof -
    have steps: "mark_step\<^sup>*\<^sup>* ?db (txDB s1)" and same: "replica_sets (txDB s1) = replica_sets ?db"
      using s1 by (simp_all add: marked_only_def mark_steps_tables)
    have "dv \<le> int (effective_count (txDB s1) Volatile r) - int (memberCount Volatile r)"
      using dv s1 r by (simp add: marked_only_def)
    then have "run (remove_excess_of D ?id Volatile dv)
        (\<lambda>_ s'. marked_only Volatile r (txDB s1) (txDB s') \<and> txBus s' = txBus s1) (tolerated calm) s1"
      using r same alloc_steps_db_wf [OF mark_steps_alloc [OF steps] wf]
      by (intro run_remove_excess_of [OF D calm]) simp_all
    then show ?thesis
      by (rule run_mono) (use s1 same in \<open>auto intro: marked_only_both\<close>)
  qed
  show ?thesis
    unfolding row_eq remove_excess_row_def prod.case fst_conv
    by (intro run_forM_Cons run_mono [OF run_remove_excess_of [OF D calm wf r]])
      (auto simp: run_simps dp intro!: run_mono [OF both])
qed

lemma run_remove_excess_rows:
  assumes D: "dbms_ok D" and calm: "calm \<Longrightarrow> fault_free D" and wf: "db_wf (txDB s)"
    and rows: "\<And>row. row \<in> set rows \<Longrightarrow> row_ok (txDB s) row" and dist: "distinct (map fst rows)"
  shows "run (forM rows (remove_excess_row D))
    (\<lambda>_ s'. mark_step\<^sup>*\<^sup>* (txDB s) (txDB s') \<and> txBus s' = txBus s) (tolerated calm) s"
  using wf rows dist
proof (induction rows arbitrary: s)
  case Nil
  then show ?case by (simp add: run_simps)
next
  case (Cons row rows)
  have rest: "run (forM rows (remove_excess_row D))
      (\<lambda>_ s'. mark_step\<^sup>*\<^sup>* (txDB s) (txDB s') \<and> txBus s' = txBus s) (tolerated calm) s1"
    if s1: "marked_in (fst row) (txDB s) (txDB s1) \<and> txBus s1 = txBus s" for s1
  proof -
    have steps: "mark_step\<^sup>*\<^sup>* (txDB s) (txDB s1)"
      using s1 by (simp add: marked_in_def)
    have "run (forM rows (remove_excess_row D))
        (\<lambda>_ s'. mark_step\<^sup>*\<^sup>* (txDB s1) (txDB s') \<and> txBus s' = txBus s1) (tolerated calm) s1"
    proof (rule Cons.IH)
      show "row_ok (txDB s1) x" if "x \<in> set rows" for x
      proof (rule marked_in_row_ok [of "fst row" "txDB s"])
        show "fst x \<noteq> fst row"
          using Cons.prems(3) that by (auto simp: image_iff)
      qed (use s1 Cons.prems(2) that in simp_all)
    qed (use Cons.prems alloc_steps_db_wf [OF mark_steps_alloc [OF steps]] in auto)
    then show ?thesis
      by (rule run_mono) (use steps s1 in auto)
  qed
  show ?case
    by (intro run_forM_Cons run_mono [OF run_remove_excess_row [OF D calm Cons.prems(1)]])
      (use rest Cons.prems(2) in auto)
qed

lemma run_remove_excess:
  assumes D: "dbms_ok D" and calm: "calm \<Longrightarrow> fault_free D" and wf: "db_wf (txDB s)"
  shows "run (remove_excess D)
    (\<lambda>_ s'. mark_step\<^sup>*\<^sup>* (txDB s) (txDB s') \<and> txBus s' = txBus s) (tolerated calm) s"
proof -
  let ?rows = "excess_query D (txCalls s) (txDB s)"
  have "mset (map fst ?rows) = mset (map ReplicaSet_ID (replica_sets (txDB s)))"
    by (simp add: excess_query_def comp_def mset_scan [OF D])
  then have "distinct (map fst ?rows)"
    using db_wf_keys(4) [OF wf] mset_eq_imp_distinct_iff by blast
  moreover have "row_ok (txDB s) row" if "row \<in> set ?rows" for row
    using that by (auto simp: excess_query_def row_ok_def set_scan [OF D] count_effective [OF wf]
        effective_count_def)
  ultimately have "run (forM ?rows (remove_excess_row D))
      (\<lambda>_ s'. mark_step\<^sup>*\<^sup>* (txDB (tick s)) (txDB s') \<and> txBus s' = txBus (tick s)) (tolerated calm) (tick s)"
    by (intro run_remove_excess_rows [OF D calm]) (simp_all add: wf)
  then show ?thesis
    unfolding remove_excess_def run_bindM run_orPanic_tolerated
    by (intro run_query_calm calm) (simp_all only: tick_simps)
qed

section \<open>The whole run\<close>

lemma recover_layout_repanics: "recover_layout (IError e) = Inl (IError e)"
  by (simp add: recover_layout_def)

lemma CompileMongodLayout_eq: "CompileMongodLayout D hasBus = compile_body D hasBus"
proof -
  have "(\<lambda>f. case f of Panic e \<Rightarrow> (case recover_layout (IError e) of
           Inl (IError e') \<Rightarrow> raiseM (Panic e') | Inl _ \<Rightarrow> raiseM f
         | Inr None \<Rightarrow> returnM () | Inr (Some e') \<Rightarrow> raiseM (Failed e'))
       | _ \<Rightarrow> raiseM f) = (raiseM :: failure \<Rightarrow> unit action)"
    by (intro ext) (simp add: recover_layout_repanics split: failure.split)
  then show ?thesis
    unfolding CompileMongodLayout_def
    by (auto simp: catchM_def raiseM_def fun_eq_iff split: prod.split sum.split)
qed

definition layout_post :: "dbms \<Rightarrow> bool \<Rightarrow> tx \<Rightarrow> tx \<Rightarrow> bool" where
  "layout_post D hasBus st st' \<longleftrightarrow>
    (\<exists>db2 unsat n. mark_step\<^sup>*\<^sup>* (remove_destroyed (mark_orphaned (txDB st))) db2 \<and>
      spawn_step\<^sup>*\<^sup>* db2 (txDB st') \<and> settled (txDB st') unsat \<and>
      txBus st' = txBus st @ (if hasBus then map (\<lambda>r. DesiredConstraintMsg
        (constraint_status (txDB st') unsat r)) (scan D n (replica_sets (txDB st'))) else []))"

lemma layout_postI:
  assumes "mark_step\<^sup>*\<^sup>* (remove_destroyed (mark_orphaned (txDB st))) db2"
    and "spawn_step\<^sup>*\<^sup>* db2 (txDB st')" and "settled (txDB st') unsat"
    and "txBus st' = txBus st @ (if hasBus then map (\<lambda>r. DesiredConstraintMsg
        (constraint_status (txDB st') unsat r)) (scan D n (replica_sets (txDB st'))) else [])"
  shows "layout_post D hasBus st st'"
  unfolding layout_post_def using assms by blast

lemma run_send_constraint_status:
  assumes "calm \<Longrightarrow> fault_free D"
  shows "run (send_constraint_status D hasBus unsat) (\<lambda>_ st'. txDB st' = txDB st \<and>
    (\<exists>n. txBus st' = txBus st @ (if hasBus then map (\<lambda>r. DesiredConstraintMsg
        (constraint_status (txDB st) unsat r)) (scan D n (replica_sets (txDB st))) else [])))
    (tolerated calm) st"
  unfolding send_constraint_status_def run_if run_bindM run_orPanic_tolerated
  by (auto simp: run_simps run_send_all comp_def intro!: run_query_calm assms)

lemma run_CompileMongodLayout:
  assumes D: "dbms_ok D" and calm: "calm \<Longrightarrow> fault_free D" "calm \<Longrightarrow> ports_distinct (txDB st)"
    and wf: "db_wf (txDB st)"
  shows "run (CompileMongodLayout D hasBus) (\<lambda>_. layout_post D hasBus st) (tolerated calm) st"
proof -
  let ?db0 = "mark_orphaned (txDB st)"
  let ?db1 = "remove_destroyed ?db0"
  have steps: "alloc_step\<^sup>*\<^sup>* (txDB st) ?db1"
    by (meson alloc_step.orphans alloc_step.remove converse_rtranclp_into_rtranclp rtranclp.rtrancl_refl)
  have add: "run (bindM (add_members D) (send_constraint_status D hasBus)) (\<lambda>_. layout_post D hasBus st)
      (tolerated calm) s2"
    if s2: "mark_step\<^sup>*\<^sup>* ?db1 (txDB s2)" "txBus s2 = txBus st" for s2
  proof -
    have all: "alloc_step\<^sup>*\<^sup>* (txDB st) (txDB s2)"
      using steps mark_steps_alloc [OF s2(1)] by simp
    have "run (add_members D) (\<lambda>unsat s3. spawn_step\<^sup>*\<^sup>* (txDB s2) (txDB s3) \<and> txBus s3 = txBus s2 \<and>
        settled (txDB s3) unsat) (tolerated calm) s2"
      using calm wf alloc_steps_db_wf [OF all] alloc_steps_ports_distinct [OF all]
      by (intro run_add_members [OF D]) auto
    then show ?thesis
    proof (rule run_bind_seq, goal_cases)
      case (1 unsat s3)
      show ?case
        by (rule run_mono [OF run_send_constraint_status [OF calm(1)]])
          (use 1 s2 in \<open>auto intro!: layout_postI [where unsat = unsat] simp del: if_split\<close>)
    qed
  qed
  have "run (bindM (remove_excess D) (\<lambda>_. bindM (add_members D) (send_constraint_status D hasBus)))
      (\<lambda>_. layout_post D hasBus st) (tolerated calm) s1"
    if "txDB s1 = ?db1" "txBus s1 = txBus st" for s1
  proof (rule run_bind_seq [OF run_remove_excess [OF D calm(1)]])
    show "db_wf (txDB s1)"
      using that alloc_steps_db_wf [OF steps wf] by simp
  qed (use add that in auto)
  then show ?thesis
    unfolding CompileMongodLayout_eq compile_body_def run_bindM run_orPanic_tolerated
    by (intro run_exec_calm calm(1)) (simp_all add: run_bindM)
qed

lemma layout_post_steps:
  assumes "layout_post D hasBus st st'"
  shows "alloc_step\<^sup>*\<^sup>* (txDB st) (txDB st')"
proof -
  obtain db2 where "mark_step\<^sup>*\<^sup>* (remove_destroyed (mark_orphaned (txDB st))) db2"
    and "spawn_step\<^sup>*\<^sup>* db2 (txDB st')"
    using assms by (auto simp: layout_post_def)
  then have "alloc_step\<^sup>*\<^sup>* (remove_destroyed (mark_orphaned (txDB st))) (txDB st')"
    using mark_steps_alloc spawn_steps_alloc by (meson rtranclp_trans)
  then show ?thesis
    by (meson alloc_step.orphans alloc_step.remove converse_rtranclp_into_rtranclp)
qed

lemma CompileMongodLayout_post:
  assumes "dbms_ok D" and "db_wf db" and "CompileMongodLayout D hasBus (begin_tx db) = (Inr (), st')"
  shows "layout_post D hasBus (begin_tx db) st'"
  by (rule run_InrD [OF run_CompileMongodLayout [where calm = False] assms(3)])
    (use assms in simp_all)

lemma CompileMongodLayout_steps:
  assumes "dbms_ok D" and "db_wf db" and "CompileMongodLayout D hasBus (begin_tx db) = (Inr (), st')"
  shows "alloc_step\<^sup>*\<^sup>* db (txDB st')"
  using layout_post_steps [OF CompileMongodLayout_post [OF assms]] by simp

lemma CompileMongodLayout_total:
  assumes "dbms_ok D" and "fault_free D" and "db_wf db" and "ports_distinct db"
  shows "\<exists>st'. CompileMongodLayout D hasBus (begin_tx db) = (Inr (), st')"
proof -
  have "run (CompileMongodLayout D hasBus) (\<lambda>_. layout_post D hasBus (begin_tx db)) (tolerated True)
      (begin_tx db)"
    by (rule run_CompileMongodLayout) (use assms in simp_all)
  then have "run (CompileMongodLayout D hasBus) (\<lambda>_ _. True) (\<lambda>_ _. False) (begin_tx db)"
    by (rule run_mono) (simp_all add: tolerated_def)
  from run_total [OF this] show ?thesis by auto
qed

text \<open>Facts on the single phases that the properties below need.\<close>

lemma foldl_or_mem: "foldl (\<lambda>b i. b \<or> i = x) c xs \<longleftrightarrow> c \<or> x \<in> set xs"
  by (induction xs arbitrary: c) auto

lemma mark_steps_mongods: "mark_step\<^sup>*\<^sup>* db db' \<Longrightarrow> mongods db' = mongods db"
  by (induction rule: rtranclp_induct) (simp_all add: mark_step_tables)

lemma destroyed_mongod_ids_mem:
  assumes "db_wf db" and "m \<in> set (mongods db)"
  shows "Mongod_ID m \<in> set (destroyed_mongod_ids db) \<longleftrightarrow>
    (desired_exec db m = Some MongodExecutionStateDestroyed \<or>
     desired_exec db m = Some MongodExecutionStateForceDestroyed) \<and>
    observed_exec db m = Some MongodExecutionStateDestroyed \<and> Mongod_ObservationErrorID m = None"
proof -
  have "inj_on Mongod_ID (set (mongods db))"
    using db_wf_keys(2) [OF assms(1)] by (simp add: distinct_map)
  then show ?thesis
    unfolding destroyed_mongod_ids_set by (subst inj_on_image_mem_iff) (use assms(2) in auto)
qed

lemma destroyed_after_orphans:
  assumes "db_wf db" and "m \<in> set (mongods db)"
  shows "Mongod_ID m \<in> set (destroyed_mongod_ids (mark_orphaned db)) \<longleftrightarrow>
    (Mongod_ReplicaSetID m = None \<or> desired_exec db m = Some MongodExecutionStateDestroyed \<or>
     desired_exec db m = Some MongodExecutionStateForceDestroyed) \<and>
    observed_exec db m = Some MongodExecutionStateDestroyed \<and> Mongod_ObservationErrorID m = None"
proof -
  let ?S = "{m \<in> set (mongods db). Mongod_ReplicaSetID m = None}"
  have "desired_exec (mark_orphaned db) m = (if Mongod_ReplicaSetID m = None
      then Some MongodExecutionStateForceDestroyed else desired_exec db m)"
    and "observed_exec (mark_orphaned db) m = observed_exec db m"
    using set_exec_exec [OF assms, of ?S MongodExecutionStateForceDestroyed] assms(2)
    by (simp_all add: mark_orphaned_eq)
  moreover have "db_wf (mark_orphaned db)"
    using assms(1) by (simp add: mark_orphaned_eq set_exec_db_wf)
  ultimately show ?thesis
    using destroyed_mongod_ids_mem [of "mark_orphaned db" m] assms(2)
    by (cases "Mongod_ReplicaSetID m") simp_all
qed

lemma spawn_steps_mongods:
  assumes "spawn_step\<^sup>*\<^sup>* db db'" and "db_wf db"
  shows "\<exists>new. mongods db' = mongods db @ new \<and>
    (\<forall>m \<in> set new. desired_exec db' m = Some MongodExecutionStateRunning)"
  using assms(1)
proof (induction rule: rtranclp_induct)
  case (step y z)
  obtain new where new: "mongods y = mongods db @ new"
    "\<forall>m \<in> set new. desired_exec y m = Some MongodExecutionStateRunning"
    using step.IH by blast
  have wf: "db_wf y"
    by (rule alloc_steps_db_wf [OF spawn_steps_alloc [OF step.hyps(1)] assms(2)])
  from step.hyps(2) show ?case
  proof cases
    case (spawn r s p mid stid port)
    have "desired_exec z m = Some MongodExecutionStateRunning" if "m \<in> set new" for m
      using spawn_keeps_exec(1) [OF wf spawn(6), of m] new that by (simp add: spawn(1))
    moreover have "desired_exec z (new_mongod mid stid port s r) = Some MongodExecutionStateRunning"
      by (simp add: spawn(1) desired_exec_def lookup_state_spawn_db [OF spawn(6)])
    ultimately show ?thesis
      using new(1) by (intro exI [of _ "new @ [new_mongod mid stid port s r]"]) (auto simp: spawn(1))
  qed
qed simp

section \<open>Properties\<close>

text \<open>A small cluster the properties are tried on: two slaves, the first with persistent storage, one
  replica set that wants a member of each kind, and one Mongod that has been destroyed.\<close>

definition example_slave :: "ID \<Rightarrow> bool \<Rightarrow> Slave" where
  "example_slave i persistent = \<lparr>Slave_ID = i, Slave_Hostname = ''host'', Slave_Port = 8081,
     Slave_MongodPortRangeBegin = 18080, Slave_MongodPortRangeEnd = 18081,
     Slave_PersistentStorage = persistent, Slave_ConfiguredState = SlaveStateActive,
     Slave_RiskGroupID = None, Slave_ObservationErrorID = None\<rparr>"

definition example_set :: ReplicaSet where
  "example_set = \<lparr>ReplicaSet_ID = 1, ReplicaSet_Name = ''repl1'', ReplicaSet_PersistentMemberCount = 1,
     ReplicaSet_VolatileMemberCount = 1, ReplicaSet_ShardingRole = ShardingRoleNone,
     ReplicaSet_Initiated = False\<rparr>"

definition example_mongod :: Mongod where
  "example_mongod = \<lparr>Mongod_ID = 1, Mongod_Port = 18080, Mongod_ReplSetName = ''repl1'',
     Mongod_ObservationErrorID = None, Mongod_LastEstablishStateErrorID = None,
     Mongod_ParentSlaveID = 1, Mongod_ReplicaSetID = Some 1, Mongod_DesiredStateID = 1,
     Mongod_ObservedStateID = Some 2\<rparr>"

definition example_state :: "ID \<Rightarrow> MongodStateRow" where
  "example_state i = \<lparr>State_ID = i, State_ParentMongodID = 1, State_ShardingRole = ShardingRoleNone,
     State_ExecutionState = MongodExecutionStateDestroyed\<rparr>"

definition example_db :: DB where
  "example_db = empty_DB\<lparr>replica_sets := [example_set],
     slaves := [example_slave 1 True, example_slave 2 False],
     mongods := [example_mongod], mongod_states := [example_state 1, example_state 2]\<rparr>"

lemmas example_defs = example_db_def empty_DB_def example_slave_def example_set_def example_mongod_def
  example_state_def

lemma example_db_wf: "db_wf example_db"
  by (simp add: db_wf_def keys_ok_def mongod_ok_def owns_state_def example_defs)

lemma example_db_foreign_keys: "foreign_keys_ok example_db"
  by (simp add: example_defs foreign_keys_ok_def slave_keys_ok_def mongod_keys_ok_def)

lemma example_db_inv: "ports_distinct example_db" "risk_separated example_db"
  by (simp_all add: ports_distinct_def risk_separated_def example_defs)

lemma example_run: "\<exists>st'. CompileMongodLayout plain_dbms True (begin_tx example_db) = (Inr (), st')"
  by (rule CompileMongodLayout_total) (simp_all add: example_db_wf example_db_inv)

lemma example_set_in: "example_set \<in> set (replica_sets example_db)"
  by (simp add: example_db_def)

text \<open>C3: while no two Mongods of a slave share a port, and the database neither
  fails nor breaks its own promises, \<open>CompileMongodLayout\<close> runs to its end: none of its panics is
  reached, in particular not the one for a slave without a free port, and its two unbounded
  loops end.\<close>

theorem CompileMongodLayout_succeeds:
  assumes "dbms_ok D" and "fault_free D" and "db_wf db" and "ports_distinct db"
  shows "\<exists>st'. CompileMongodLayout D hasBus (begin_tx db) = (Inr (), st')"
  by (rule CompileMongodLayout_total [OF assms])

theorem CompileMongodLayout_succeeds_witness:
  "\<exists>st'. CompileMongodLayout plain_dbms True (begin_tx example_db) = (Inr (), st')"
  by (rule CompileMongodLayout_succeeds) (simp_all add: example_db_wf example_db_inv)

text \<open>C17: whatever the database does, \<open>CompileMongodLayout\<close> ends: its loops never need
  more iterations than the model grants them.\<close>

theorem CompileMongodLayout_terminates:
  assumes "dbms_ok D" and "db_wf db"
  shows "fst (CompileMongodLayout D hasBus (begin_tx db)) \<noteq> Inl OutOfFuel"
proof -
  have "run (CompileMongodLayout D hasBus) (\<lambda>_. layout_post D hasBus (begin_tx db)) (tolerated False)
      (begin_tx db)"
    by (rule run_CompileMongodLayout) (use assms in simp_all)
  then show ?thesis
    by (auto simp: run_def tolerated_def split: prod.splits sum.splits)
qed

theorem CompileMongodLayout_terminates_witness:
  "fst (CompileMongodLayout plain_dbms True (begin_tx example_db)) \<noteq> Inl OutOfFuel"
  by (rule CompileMongodLayout_terminates) (simp_all add: example_db_wf)

text \<open>C16: every successful run is a sequence of steps of the state machine: it marks
  orphans, deletes destroyed Mongods, marks members in excess and spawns members that are
  missing, each under the guard of its step.\<close>

theorem CompileMongodLayout_refines:
  assumes "dbms_ok D" and "db_wf db" and "CompileMongodLayout D hasBus (begin_tx db) = (Inr (), st')"
  shows "alloc_step\<^sup>*\<^sup>* db (txDB st')"
  by (rule CompileMongodLayout_steps [OF assms])

theorem CompileMongodLayout_refines_witness:
  "\<exists>st'. CompileMongodLayout plain_dbms True (begin_tx example_db) = (Inr (), st') \<and>
    alloc_step\<^sup>*\<^sup>* example_db (txDB st')"
  using example_run CompileMongodLayout_refines [OF plain_dbms_ok example_db_wf] by blast

text \<open>A run keeps the tables well-formed and leaves the slaves, the replica sets and the
  risk groups alone.\<close>

theorem CompileMongodLayout_wf:
  assumes "dbms_ok D" and "db_wf db" and "CompileMongodLayout D hasBus (begin_tx db) = (Inr (), st')"
  shows "db_wf (txDB st') \<and> slaves (txDB st') = slaves db \<and>
    replica_sets (txDB st') = replica_sets db \<and> risk_groups (txDB st') = risk_groups db"
  using CompileMongodLayout_steps [OF assms] assms(2)
  by (simp add: alloc_steps_db_wf alloc_steps_tables)

theorem CompileMongodLayout_wf_witness:
  "\<exists>st'. CompileMongodLayout plain_dbms True (begin_tx example_db) = (Inr (), st') \<and>
    db_wf (txDB st') \<and> slaves (txDB st') = slaves example_db"
  using example_run CompileMongodLayout_wf [OF plain_dbms_ok example_db_wf] by blast

text \<open>A run never gives two Mongods of a slave the same port.\<close>

theorem CompileMongodLayout_ports:
  assumes "dbms_ok D" and "db_wf db" and "ports_distinct db"
    and "CompileMongodLayout D hasBus (begin_tx db) = (Inr (), st')"
  shows "ports_distinct (txDB st')"
  using CompileMongodLayout_steps [OF assms(1,2,4)] assms(2,3) by (rule alloc_steps_ports_distinct)

theorem CompileMongodLayout_ports_witness:
  "\<exists>st'. CompileMongodLayout plain_dbms True (begin_tx example_db) = (Inr (), st') \<and> ports_distinct (txDB st')"
  using example_run CompileMongodLayout_ports [OF plain_dbms_ok example_db_wf example_db_inv(1)] by blast

text \<open>C4: a run never puts two members of a replica set on one slave or on slaves
  of one risk group.\<close>

theorem CompileMongodLayout_risk_groups:
  assumes "dbms_ok D" and "db_wf db" and "risk_separated db"
    and "CompileMongodLayout D hasBus (begin_tx db) = (Inr (), st')"
  shows "risk_separated (txDB st')"
  using CompileMongodLayout_steps [OF assms(1,2,4)] assms(2,3) by (rule alloc_steps_risk_separated)

theorem CompileMongodLayout_risk_groups_witness:
  "\<exists>st'. CompileMongodLayout plain_dbms True (begin_tx example_db) = (Inr (), st') \<and> risk_separated (txDB st')"
  using example_run CompileMongodLayout_risk_groups [OF plain_dbms_ok example_db_wf example_db_inv(2)] by blast

text \<open>What makes a slave able to take another member of a replica set, in terms of the tables: it is active
  and of the right kind, it has fewer Mongods than ports, no member of the replica set runs on it, and, if it is in a
  risk group, none runs in that risk group.\<close>

definition can_take_member :: "DB \<Rightarrow> persistence \<Rightarrow> ReplicaSet \<Rightarrow> Slave \<Rightarrow> bool" where
  "can_take_member db p r s \<longleftrightarrow> Slave_ConfiguredState s = SlaveStateActive \<and>
     (Slave_PersistentStorage s \<longleftrightarrow> p = Persistent) \<and>
     length (mongods_on_slave db (Slave_ID s)) + unat (Slave_MongodPortRangeBegin s) < unat (Slave_MongodPortRangeEnd s) \<and>
     (\<forall>m \<in> set (mongods db). Mongod_ReplicaSetID m = Some (ReplicaSet_ID r) \<longrightarrow>
       Mongod_ParentSlaveID m \<noteq> Slave_ID s \<and>
       (Slave_RiskGroupID s = None \<or> risk_group_of db m \<noteq> Slave_RiskGroupID s))"

lemma slave_utilization_slave: "SU_slave (slave_utilization_of db s) = s"
  by (simp add: slave_utilization_of_def Let_def)

lemma suitable_unless_null:
  assumes "db_wf db" and "can_take_member db p r s"
    and "Slave_RiskGroupID s = None \<or> (\<forall>m \<in> set (mongods db). Mongod_ReplicaSetID m = Some (ReplicaSet_ID r) \<longrightarrow> risk_group_of db m \<noteq> None)"
  shows "suitable db p (ReplicaSet_ID r) (slave_utilization_of db s)"
proof -
  have "distinct (map Mongod_ID (mongods_on_slave db (Slave_ID s)))"
    using assms(1) by (simp add: db_wf_def keys_ok_def mongods_on_slave_def distinct_map_filter)
  moreover have "int (length (mongods_on_slave db (Slave_ID s))) + int (unat (Slave_MongodPortRangeBegin s)) <
      int (unat (Slave_MongodPortRangeEnd s))"
    using assms(2) unfolding of_nat_add [symmetric] of_nat_less_iff by (simp add: can_take_member_def)
  ultimately have "SU_free_mongods (slave_utilization_of db s) > 0"
    by (simp add: slave_utilization_of_def Let_def distinct_remdups_id)
  moreover have "PersistentStorage p = (p = Persistent)"
    by (cases p) simp_all
  moreover have "Slave_ID s \<notin> set (member_hosts db (ReplicaSet_ID r))"
    using assms(2) by (auto simp: can_take_member_def member_hosts_def)
  moreover have "sql_or (sql_not_in (Slave_RiskGroupID s) (member_risk_groups db (ReplicaSet_ID r)))
      (sql_is_null (Slave_RiskGroupID s)) = Some True"
    using assms(2,3) by (auto simp: can_take_member_def sql_or_True sql_not_in_True sql_is_null_def set_member_risk_groups [OF assms(1)])
  ultimately show ?thesis
    using assms(2) by (simp add: suitable_def Let_def can_take_member_def slave_utilization_slave)
qed

lemma passed_over:
  assumes "db_wf db" and "can_take_member db p r s" and "\<not> suitable db p (ReplicaSet_ID r) (slave_utilization_of db s)"
  shows "Slave_RiskGroupID s \<noteq> None \<and> (\<exists>m \<in> set (mongods db). Mongod_ReplicaSetID m = Some (ReplicaSet_ID r) \<and>
    risk_group_of db m = None)"
proof -
  have "\<not> (Slave_RiskGroupID s = None \<or> (\<forall>m \<in> set (mongods db).
      Mongod_ReplicaSetID m = Some (ReplicaSet_ID r) \<longrightarrow> risk_group_of db m \<noteq> None))"
    using suitable_unless_null [OF assms(1,2)] assms(3) by argo
  then show ?thesis by auto
qed

text \<open>C2: after a run every replica set has as many configured members of each kind as it wants, or
  no slave is left that could take another one, that is, no active slave of the kind with fewer Mongods than
  ports that shares neither itself nor a risk group with a member.  The one exception is a slave with a
  risk group, if a member of the replica set is on a slave without one: the code passes over such slaves
  although they could take a member, as \<open>null_risk_group_blocks\<close> shows.\<close>

theorem CompileMongodLayout_satisfies:
  assumes "dbms_ok D" and "db_wf db" and "CompileMongodLayout D hasBus (begin_tx db) = (Inr (), st')"
    and "r \<in> set (replica_sets db)"
  shows "memberCount p r \<le> configured_count (txDB st') p r \<or>
    (\<forall>s \<in> set (slaves db). can_take_member (txDB st') p r s \<longrightarrow> Slave_RiskGroupID s \<noteq> None \<and>
      (\<exists>m \<in> set (mongods (txDB st')). Mongod_ReplicaSetID m = Some (ReplicaSet_ID r) \<and> risk_group_of (txDB st') m = None))"
proof -
  have steps: "alloc_step\<^sup>*\<^sup>* db (txDB st')"
    by (rule CompileMongodLayout_steps [OF assms(1-3)])
  then have r: "r \<in> set (replica_sets (txDB st'))" and slaves: "slaves (txDB st') = slaves db" and wf: "db_wf (txDB st')"
    using assms(2,4) by (simp_all add: alloc_steps_tables alloc_steps_db_wf)
  then have "deficient (txDB st') p r \<Longrightarrow> starved (txDB st') p r"
    using CompileMongodLayout_post [OF assms(1-3)] by (auto simp: layout_post_def settled_def)
  then have "\<not> suitable (txDB st') p (ReplicaSet_ID r) (slave_utilization_of (txDB st') s)"
    if "s \<in> set (slaves db)" "configured_count (txDB st') p r < memberCount p r" for s
    using that by (simp add: deficient_def starved_def can_host_def slaves)
  then show ?thesis
    using passed_over [OF wf] not_less by metis
qed

theorem CompileMongodLayout_satisfies_witness:
  "\<exists>st'. CompileMongodLayout plain_dbms True (begin_tx example_db) = (Inr (), st') \<and>
    (memberCount Persistent example_set \<le> configured_count (txDB st') Persistent example_set \<or>
     (\<forall>s \<in> set (slaves example_db). \<not> can_take_member (txDB st') Persistent example_set s))"
proof -
  obtain st' where st': "CompileMongodLayout plain_dbms True (begin_tx example_db) = (Inr (), st')"
    using example_run by blast
  moreover have "\<forall>s \<in> set (slaves example_db). Slave_RiskGroupID s = None"
    by (simp add: example_defs)
  ultimately show ?thesis
    using CompileMongodLayout_satisfies [OF plain_dbms_ok example_db_wf st' example_set_in, of Persistent] by blast
qed

text \<open>With a bus, a run sends one constraint status for each replica set and
  nothing else.  The status reports the replica set as unsatisfied exactly if it has fewer
  configured members of some kind than it wants, and carries the two numbers of configured
  members.\<close>

theorem CompileMongodLayout_messages:
  assumes "dbms_ok D" and "db_wf db" and "CompileMongodLayout D True (begin_tx db) = (Inr (), st')"
  shows "mset (txBus st') = image_mset (\<lambda>r. DesiredConstraintMsg
    \<lparr>Desired_Unsatisfied = (\<exists>p. configured_count (txDB st') p r < memberCount p r),
     Desired_ReplicaSet = r,
     Desired_ConfiguredVolatileCount = configured_count (txDB st') Volatile r,
     Desired_ConfiguredPersistentCount = configured_count (txDB st') Persistent r\<rparr>)
    (mset (replica_sets db))"
proof -
  have steps: "alloc_step\<^sup>*\<^sup>* db (txDB st')"
    by (rule CompileMongodLayout_steps [OF assms])
  then have same: "replica_sets (txDB st') = replica_sets db" and wf: "db_wf (txDB st')"
    using assms(2) by (simp_all add: alloc_steps_tables alloc_steps_db_wf)
  obtain unsat n where unsat: "settled (txDB st') unsat"
    and bus: "txBus st' = map (\<lambda>r. DesiredConstraintMsg (constraint_status (txDB st') unsat r))
      (scan D n (replica_sets db))"
    using CompileMongodLayout_post [OF assms] by (auto simp: layout_post_def same)
  have "mset (txBus st') = image_mset (\<lambda>r. DesiredConstraintMsg (constraint_status (txDB st') unsat r))
      (mset (replica_sets db))"
    by (simp add: bus mset_scan [OF assms(1)])
  also have "\<dots> = image_mset (\<lambda>r. DesiredConstraintMsg
    \<lparr>Desired_Unsatisfied = (\<exists>p. configured_count (txDB st') p r < memberCount p r),
     Desired_ReplicaSet = r,
     Desired_ConfiguredVolatileCount = configured_count (txDB st') Volatile r,
     Desired_ConfiguredPersistentCount = configured_count (txDB st') Persistent r\<rparr>)
    (mset (replica_sets db))"
  proof (rule image_mset_cong)
    fix r assume "r \<in># mset (replica_sets db)"
    then have r: "r \<in> set (replica_sets (txDB st'))"
      by (simp add: same)
    have "ReplicaSet_ID r \<in> set unsat \<longleftrightarrow> (\<exists>p. configured_count (txDB st') p r < memberCount p r)"
      using unsat r by (simp add: settled_def deficient_def)
    then show "DesiredConstraintMsg (constraint_status (txDB st') unsat r) = DesiredConstraintMsg
      \<lparr>Desired_Unsatisfied = (\<exists>p. configured_count (txDB st') p r < memberCount p r),
       Desired_ReplicaSet = r,
       Desired_ConfiguredVolatileCount = configured_count (txDB st') Volatile r,
       Desired_ConfiguredPersistentCount = configured_count (txDB st') Persistent r\<rparr>"
      using count_configured [OF wf r] configured_count_eq [OF wf r]
      by (simp add: constraint_status_def foldl_or_mem)
  qed
  finally show ?thesis .
qed

theorem CompileMongodLayout_messages_witness:
  "\<exists>st'. CompileMongodLayout plain_dbms True (begin_tx example_db) = (Inr (), st') \<and>
    size (mset (txBus st')) = 1"
proof -
  obtain st' where run: "CompileMongodLayout plain_dbms True (begin_tx example_db) = (Inr (), st')"
    using example_run by blast
  from CompileMongodLayout_messages [OF plain_dbms_ok example_db_wf run]
  have "size (mset (txBus st')) = size (mset (replica_sets example_db))"
    by (simp only: size_image_mset)
  with run show ?thesis by (simp add: example_db_def)
qed

text \<open>C5: a run deletes a Mongod exactly if its destruction has been observed without
  an error and it is an orphan or was meant to be destroyed.  It keeps every other Mongod as it
  is and appends the new ones.\<close>

theorem CompileMongodLayout_deletes:
  assumes "dbms_ok D" and "db_wf db" and "CompileMongodLayout D hasBus (begin_tx db) = (Inr (), st')"
  shows "\<exists>new. mongods (txDB st') = filter (\<lambda>m. \<not> (
      (Mongod_ReplicaSetID m = None \<or> desired_exec db m = Some MongodExecutionStateDestroyed \<or>
       desired_exec db m = Some MongodExecutionStateForceDestroyed) \<and>
      observed_exec db m = Some MongodExecutionStateDestroyed \<and> Mongod_ObservationErrorID m = None))
      (mongods db) @ new \<and>
    (\<forall>m \<in> set new. desired_exec (txDB st') m = Some MongodExecutionStateRunning)"
proof -
  let ?db0 = "mark_orphaned db"
  obtain db2 where marks: "mark_step\<^sup>*\<^sup>* (remove_destroyed ?db0) db2" and spawns: "spawn_step\<^sup>*\<^sup>* db2 (txDB st')"
    using CompileMongodLayout_post [OF assms] by (auto simp: layout_post_def)
  have wf0: "db_wf ?db0"
    using assms(2) by (simp add: mark_orphaned_eq set_exec_db_wf)
  then have wf2: "db_wf db2"
    using alloc_steps_db_wf [OF mark_steps_alloc [OF marks]] by (simp add: remove_destroyed_db_wf)
  have "mongods db2 = filter (\<lambda>m. Mongod_ID m \<notin> set (destroyed_mongod_ids ?db0)) (mongods db)"
    using mark_steps_mongods [OF marks] by (simp add: remove_destroyed_wf [OF wf0])
  also have "\<dots> = filter (\<lambda>m. \<not> (
      (Mongod_ReplicaSetID m = None \<or> desired_exec db m = Some MongodExecutionStateDestroyed \<or>
       desired_exec db m = Some MongodExecutionStateForceDestroyed) \<and>
      observed_exec db m = Some MongodExecutionStateDestroyed \<and> Mongod_ObservationErrorID m = None))
      (mongods db)"
    by (intro filter_cong refl arg_cong [where f = Not] destroyed_after_orphans [OF assms(2)])
  finally show ?thesis
    using spawn_steps_mongods [OF spawns wf2] by auto
qed

theorem CompileMongodLayout_deletes_witness:
  "\<exists>st'. CompileMongodLayout plain_dbms True (begin_tx example_db) = (Inr (), st') \<and>
    (\<forall>m \<in> set (mongods (txDB st')). desired_exec (txDB st') m = Some MongodExecutionStateRunning)"
proof -
  obtain st' where run: "CompileMongodLayout plain_dbms True (begin_tx example_db) = (Inr (), st')"
    using example_run by blast
  have "mongods example_db = [example_mongod]"
      "desired_exec example_db example_mongod = Some MongodExecutionStateDestroyed"
      "observed_exec example_db example_mongod = Some MongodExecutionStateDestroyed"
      "Mongod_ObservationErrorID example_mongod = None"
    by (simp_all add: desired_exec_def observed_exec_def example_defs)
  with run CompileMongodLayout_deletes [OF plain_dbms_ok example_db_wf run] show ?thesis
    by auto
qed

text \<open>C14: removing excess members never takes a replica set below the number of
  running members it wants: the number of effective members after a run is at least the smaller
  of the number before and the number wanted.\<close>

theorem CompileMongodLayout_keeps_effective:
  assumes "dbms_ok D" and "db_wf db" and "CompileMongodLayout D hasBus (begin_tx db) = (Inr (), st')"
    and "r \<in> set (replica_sets db)"
  shows "min (memberCount p r)
      (count_members (replica_set_effective_members db) (ReplicaSet_ID r) (PersistentStorage p)) \<le>
    count_members (replica_set_effective_members (txDB st')) (ReplicaSet_ID r) (PersistentStorage p)"
proof -
  have steps: "alloc_step\<^sup>*\<^sup>* db (txDB st')"
    by (rule CompileMongodLayout_steps [OF assms(1-3)])
  have "db_wf (txDB st')" and "r \<in> set (replica_sets (txDB st'))"
    using steps assms(2,4) by (simp_all add: alloc_steps_tables alloc_steps_db_wf)
  then show ?thesis
    using alloc_steps_counts [OF steps assms(2,4), of p]
    by (simp add: count_effective assms(2,4) effective_count_def)
qed

theorem CompileMongodLayout_keeps_effective_witness:
  "\<exists>st'. CompileMongodLayout plain_dbms True (begin_tx example_db) = (Inr (), st') \<and>
    min (memberCount Volatile example_set)
      (count_members (replica_set_effective_members example_db) (ReplicaSet_ID example_set) (PersistentStorage Volatile)) \<le>
    count_members (replica_set_effective_members (txDB st')) (ReplicaSet_ID example_set) (PersistentStorage Volatile)"
  using example_run CompileMongodLayout_keeps_effective [OF plain_dbms_ok example_db_wf] example_set_in by blast

text \<open>C15: a run never configures more members of a kind than the replica set wants,
  beyond those it had before.\<close>

theorem CompileMongodLayout_no_excess:
  assumes "dbms_ok D" and "db_wf db" and "CompileMongodLayout D hasBus (begin_tx db) = (Inr (), st')"
    and "r \<in> set (replica_sets db)"
  shows "configured_count (txDB st') p r \<le> max (memberCount p r) (configured_count db p r)"
  using alloc_steps_counts [OF CompileMongodLayout_steps [OF assms(1-3)] assms(2,4)] by blast

theorem CompileMongodLayout_no_excess_witness:
  "\<exists>st'. CompileMongodLayout plain_dbms True (begin_tx example_db) = (Inr (), st') \<and>
    configured_count (txDB st') Volatile example_set \<le> 1"
proof -
  obtain st' where run: "CompileMongodLayout plain_dbms True (begin_tx example_db) = (Inr (), st')"
    using example_run by blast
  have "memberCount Volatile example_set = 1" and "configured_count example_db Volatile example_set = 0"
    by (simp_all add: memberCount_def configured_count_eq [OF example_db_wf example_set_in])
      (simp_all add: example_defs configured_def meant_to_run_def desired_exec_def)
  with run CompileMongodLayout_no_excess [OF plain_dbms_ok example_db_wf run example_set_in, of Volatile]
  show ?thesis by auto
qed

text \<open>The deferred function of \<open>CompileMongodLayout\<close> is meant to turn a panic with
  \<open>gorm.ErrInvalidTransaction\<close> into an error.  Its \<open>switch r\<close> compares the recovered value with
  booleans, so no error matches a case: every panic goes on, that one too.\<close>

theorem recover_never_recovers:
  "recover_layout (IError e) = Inl (IError e) \<and> CompileMongodLayout D hasBus = compile_body D hasBus"
  by (simp add: recover_layout_repanics CompileMongodLayout_eq)

text \<open>The queue of degraded replica sets is to be ordered by the share of configured
  members.  Both counts are integers and the \<open>HAVING\<close> clause keeps only replica sets with fewer
  configured members than wanted, so the quotient is 0 for every row: the query does not
  prioritise at all.\<close>

theorem degraded_order_constant:
  "map (\<lambda>r. configured_count db p r div memberCount p r) (degraded_replica_sets db p unsat) =
    replicate (length (degraded_replica_sets db p unsat)) 0"
  by (simp add: degraded_replica_sets_def flip: map_replicate_const)

text \<open>If a replica set has a member on a slave without a risk group, the subquery
  returns a \<open>NULL\<close> and \<open>NOT IN\<close> is never true: from then on no slave that has a risk group can host a
  member of the replica set, even if its risk group hosts none.\<close>

theorem null_risk_group_blocks:
  assumes "db_wf db" and "m \<in> set (mongods db)" and "Mongod_ReplicaSetID m = Some (ReplicaSet_ID r)"
    and "risk_group_of db m = None" and "Slave_RiskGroupID s \<noteq> None"
  shows "\<not> suitable db p (ReplicaSet_ID r) (slave_utilization_of db s)"
proof -
  have "None \<in> set (member_risk_groups db (ReplicaSet_ID r))"
    unfolding set_member_risk_groups [OF assms(1)] using assms(2-4) by force
  then show ?thesis
    using assms(5) by (auto simp: suitable_def Let_def slave_utilization_of_def sql_or_True
        sql_not_in_True sql_is_null_def)
qed

theorem null_risk_group_blocks_witness:
  "\<not> suitable example_db Persistent (ReplicaSet_ID example_set)
    (slave_utilization_of example_db (example_slave 3 True\<lparr>Slave_RiskGroupID := Some 1\<rparr>))"
proof (rule null_risk_group_blocks [OF example_db_wf, of example_mongod])
  show "risk_group_of example_db example_mongod = None"
    by (simp add: risk_group_of_def example_defs)
qed (simp_all add: example_defs)

end
