(* ===== verification/Periodic.thy ===== *)
theory Periodic
  imports AllocRun
begin

text \<open>
  The periodic runs of the allocator, \<open>Run\<close> of \<open>src/master/cluster_allocator.go\<close>: each tick of the timer
  begins a transaction, computes the layout in it and commits it.
\<close>

section \<open>One tick\<close>

text \<open>How a tick ends.  An error of the allocator is logged, and the transaction is left open: its changes
  are not seen by anyone.  A panic is not recovered in the goroutine and ends the process.\<close>

datatype tick_outcome = Allocated | AllocationFailed err | CommitFailed err | Crashed err

definition commit_tick :: "dbms \<Rightarrow> DB \<Rightarrow> tick_outcome action" where
  "commit_tick D db0 = catchM (bindM (commit D db0) (\<lambda>_. returnM Allocated))
     (\<lambda>f. case f of Failed e \<Rightarrow> returnM (CommitFailed e) | _ \<Rightarrow> raiseM f)"

definition failed_tick :: "DB \<Rightarrow> failure \<Rightarrow> tick_outcome action" where
  "failed_tick db0 f = (case f of
     Failed e \<Rightarrow> bindM (rollback db0) (\<lambda>_. returnM (AllocationFailed e))
   | Panic e \<Rightarrow> bindM (rollback db0) (\<lambda>_. returnM (Crashed e))
   | OutOfFuel \<Rightarrow> raiseM f)"

definition allocator_tick :: "dbms \<Rightarrow> bool \<Rightarrow> tick_outcome action" where
  "allocator_tick D hasBus =
    bindM (getM txDB) (\<lambda>db0.
    catchM (bindM (CompileMongodLayout D hasBus) (\<lambda>_. commit_tick D db0)) (failed_tick db0))"

primrec allocator_ticks :: "dbms \<Rightarrow> bool \<Rightarrow> nat \<Rightarrow> tick_outcome list action" where
  "allocator_ticks D hasBus 0 = returnM []"
| "allocator_ticks D hasBus (Suc n) =
    bindM (allocator_tick D hasBus) (\<lambda>outcome. case outcome of
      Crashed _ \<Rightarrow> returnM [outcome]
    | _ \<Rightarrow> bindM (allocator_ticks D hasBus n) (\<lambda>outcomes. returnM (outcome # outcomes)))"

section \<open>Every error of a run is a panic\<close>

definition not_failed :: "failure \<Rightarrow> bool" where
  "not_failed f \<longleftrightarrow> (\<forall>e. f \<noteq> Failed e)"

definition panics :: "'a action \<Rightarrow> bool" where
  "panics m \<longleftrightarrow> (\<forall>s. run m (\<lambda>_ _. True) (\<lambda>f _. not_failed f) s)"

named_theorems panicking \<open>computations without an error value\<close>

lemma panics_run: "panics m \<Longrightarrow> run m (\<lambda>_ _. True) (\<lambda>f _. not_failed f) s"
  by (simp add: panics_def)

lemma panics_orPanic [panicking]: "panics (orPanic m)"
  unfolding panics_def orPanic_def run_catchM
  by (intro allI run_mono [OF run_trivial [of m]]) (simp_all add: run_simps not_failed_def split: failure.split)

lemma panics_bindM [panicking]:
  assumes "panics m" and "\<And>x. panics (f x)"
  shows "panics (bindM m f)"
  unfolding panics_def run_bindM
  by (intro allI run_mono [OF panics_run [OF assms(1)]]) (simp_all add: panics_run [OF assms(2)])

lemma panics_basic [panicking]:
  "panics (returnM x)" "panics (getM g)" "panics (raiseM OutOfFuel)" "panics (send msg)"
  by (simp_all add: panics_def run_simps not_failed_def)

lemma panics_if [panicking]: "(b \<Longrightarrow> panics m) \<Longrightarrow> (\<not> b \<Longrightarrow> panics m') \<Longrightarrow> panics (if b then m else m')"
  by simp

lemma panics_case_option [panicking]:
  "panics m \<Longrightarrow> (\<And>x. panics (f x)) \<Longrightarrow> panics (case r of None \<Rightarrow> m | Some x \<Rightarrow> f x)"
  by (cases r) simp_all

lemma panics_case_prod [panicking]: "(\<And>x y. panics (f x y)) \<Longrightarrow> panics (case r of (x, y) \<Rightarrow> f x y)"
  by (cases r) simp

interpretation panicking_loop: loop_body f "\<lambda>_. \<forall>x. panics (f x)" "\<lambda>_ :: tx. True" not_failed
  for f :: "'x \<Rightarrow> unit action"
  by unfold_locales (simp add: panics_def)

lemma panics_forM [panicking]: "(\<And>x. panics (f x)) \<Longrightarrow> panics (forM xs f)"
  using panicking_loop.forM_keeps [of xs f] by (simp add: panics_def)

lemma panics_foldM [panicking]: "(\<And>x a. panics (f x a)) \<Longrightarrow> panics (foldM f xs a)"
  by (induction xs arbitrary: a) (simp_all add: panicking)

lemma panics_add_members_loop [panicking]: "panics (add_members_loop D p fuel unsat_p unsat)"
  by (induction fuel arbitrary: unsat_p unsat) (simp, intro panicking, simp, intro panicking)

lemma panics_CompileMongodLayout: "panics (CompileMongodLayout D hasBus)"
  unfolding CompileMongodLayout_eq compile_body_def remove_excess_def remove_excess_row_def remove_excess_of_def
    mark_destroyed_def add_members_def add_members_of_def send_constraint_status_def
  by (intro panicking)

section \<open>Periodic runs\<close>

definition layout_inv :: "DB \<Rightarrow> DB \<Rightarrow> bool" where
  "layout_inv db0 db \<longleftrightarrow> db_wf db \<and> ports_distinct db \<and> risk_separated db \<and> foreign_keys_ok db \<and> slaves db = slaves db0 \<and>
     replica_sets db = replica_sets db0 \<and> risk_groups db = risk_groups db0"

lemma layout_inv_steps:
  assumes "layout_inv db0 db" and "alloc_step\<^sup>*\<^sup>* db db'"
  shows "layout_inv db0 db'"
  using assms alloc_steps_tables [OF assms(2)] unfolding layout_inv_def
  by (auto intro: alloc_steps_db_wf alloc_steps_ports_distinct alloc_steps_risk_separated alloc_steps_foreign_keys)

text \<open>An outcome that can occur; with a database that does not fail only the first.\<close>

definition expected :: "bool \<Rightarrow> tick_outcome \<Rightarrow> bool" where
  "expected calm outcome \<longleftrightarrow> (if calm then outcome = Allocated else \<forall>e. outcome \<noteq> AllocationFailed e)"

lemma run_allocator_tick:
  assumes "dbms_ok D" and "calm \<Longrightarrow> fault_free D" and "layout_inv db0 (txDB s)"
  shows "run (allocator_tick D hasBus) (\<lambda>outcome s'. layout_inv db0 (txDB s') \<and> expected calm outcome) (\<lambda>_ _. False) s"
proof -
  have wf: "db_wf (txDB s)" and ports: "ports_distinct (txDB s)"
    using assms(3) by (simp_all add: layout_inv_def)
  have compile: "run (CompileMongodLayout D hasBus) (\<lambda>_ s'. layout_inv db0 (txDB s'))
      (\<lambda>f _. \<not> calm \<and> f \<noteq> OutOfFuel \<and> not_failed f) s"
    by (rule run_mono [OF run_conj [OF run_CompileMongodLayout [OF assms(1), where calm = calm] panics_run [OF panics_CompileMongodLayout]]])
      (use assms wf ports in \<open>auto simp: tolerated_def intro: layout_inv_steps layout_post_steps\<close>)
  have commit: "run (commit_tick D (txDB s))
      (\<lambda>outcome s'. layout_inv db0 (txDB s') \<and> expected calm outcome) (\<lambda>_ _. False) s2"
    if "layout_inv db0 (txDB s2)" for s2
  proof (cases calm)
    case True
    have "run (commit D (txDB s)) (\<lambda>_ s'. layout_inv db0 (txDB s')) (\<lambda>_ _. False) s2"
      by (rule run_commit_total) (use assms(2) True that in \<open>simp_all add: tick_same layout_inv_def\<close>)
    then show ?thesis
      unfolding commit_tick_def run_catchM run_bindM by (rule run_mono) (use True in \<open>simp_all add: run_simps expected_def\<close>)
  next
    case False
    have "run (commit D (txDB s)) (\<lambda>_ s'. layout_inv db0 (txDB s')) (\<lambda>f s'. layout_inv db0 (txDB s') \<and> (\<exists>e. f = Failed e)) s2"
      by (rule run_commit) (use assms(3) that in \<open>simp_all add: tick_same\<close>)
    then show ?thesis
      unfolding commit_tick_def run_catchM run_bindM
      by (rule run_mono) (use False in \<open>auto simp: run_simps expected_def\<close>)
  qed
  have failed: "run (failed_tick (txDB s) f) (\<lambda>outcome s'. layout_inv db0 (txDB s') \<and> expected calm outcome) (\<lambda>_ _. False) s2"
    if "\<not> calm \<and> f \<noteq> OutOfFuel \<and> not_failed f" for f s2
    using that assms(3) by (cases f) (simp_all add: failed_tick_def run_simps expected_def not_failed_def)
  show ?thesis
    unfolding allocator_tick_def run_bindM run_getM run_catchM
    by (rule run_mono [OF compile]) (rule run_mono [OF commit], simp, assumption, simp, rule failed)
qed

lemma run_allocator_ticks:
  assumes "dbms_ok D" and "calm \<Longrightarrow> fault_free D" and "layout_inv db0 (txDB s)"
  shows "run (allocator_ticks D hasBus n)
    (\<lambda>outcomes s'. layout_inv db0 (txDB s') \<and> list_all (expected calm) outcomes \<and> (calm \<longrightarrow> length outcomes = n))
    (\<lambda>_ _. False) s"
  using assms(3)
proof (induction n arbitrary: s)
  case 0
  then show ?case by (simp add: run_simps)
next
  case (Suc n)
  show ?case
    unfolding allocator_ticks.simps
  proof (rule run_bind_seq [OF run_allocator_tick [OF assms(1,2) Suc.prems]], assumption)
    fix outcome and s1 :: tx
    assume outcome: "layout_inv db0 (txDB s1) \<and> expected calm outcome"
    have "run (bindM (allocator_ticks D hasBus n) (\<lambda>outcomes. returnM (outcome # outcomes)))
        (\<lambda>outcomes s'. layout_inv db0 (txDB s') \<and> list_all (expected calm) outcomes \<and> (calm \<longrightarrow> length outcomes = Suc n))
        (\<lambda>_ _. False) s1"
      by (rule run_bind_seq [OF Suc.IH]) (use outcome in \<open>auto simp: run_returnM\<close>)
    then show "run (case outcome of Crashed _ \<Rightarrow> returnM [outcome]
        | _ \<Rightarrow> bindM (allocator_ticks D hasBus n) (\<lambda>outcomes. returnM (outcome # outcomes)))
      (\<lambda>outcomes s'. layout_inv db0 (txDB s') \<and> list_all (expected calm) outcomes \<and> (calm \<longrightarrow> length outcomes = Suc n))
      (\<lambda>_ _. False) s1"
      using outcome by (cases outcome) (auto simp: run_returnM expected_def)
  qed
qed

text \<open>C8: any number of periodic runs keeps the stored tables well-formed, the ports of each slave
  distinct, the risk groups of each replica set separated and the foreign keys satisfied, and does not touch slaves, replica
  sets and risk groups; if the database never fails, all runs commit.  The branch that logs an error of
  the allocator is never taken: an error of the database during a run ends the master instead.\<close>

theorem periodic_allocation:
  assumes "dbms_ok D" and "db_wf (txDB s)" and "ports_distinct (txDB s)" and "risk_separated (txDB s)"
    and "foreign_keys_ok (txDB s)"
  shows "\<exists>outcomes s'. allocator_ticks D hasBus n s = (Inr outcomes, s') \<and>
    db_wf (txDB s') \<and> ports_distinct (txDB s') \<and> risk_separated (txDB s') \<and> foreign_keys_ok (txDB s') \<and> slaves (txDB s') = slaves (txDB s) \<and>
    replica_sets (txDB s') = replica_sets (txDB s) \<and> risk_groups (txDB s') = risk_groups (txDB s) \<and>
    (\<forall>e. AllocationFailed e \<notin> set outcomes) \<and>
    (fault_free D \<longrightarrow> outcomes = replicate n Allocated)"
proof -
  have inv: "layout_inv (txDB s) (txDB s)"
    using assms by (simp add: layout_inv_def)
  have "run (allocator_ticks D hasBus n) (\<lambda>outcomes s'. layout_inv (txDB s) (txDB s') \<and>
      list_all (expected (fault_free D)) outcomes \<and> (fault_free D \<longrightarrow> length outcomes = n)) (\<lambda>_ _. False) s"
    by (rule run_allocator_ticks [OF assms(1) _ inv])
  from run_total [OF this] obtain outcomes s' where "allocator_ticks D hasBus n s = (Inr outcomes, s')"
    and "layout_inv (txDB s) (txDB s')" and expected: "list_all (expected (fault_free D)) outcomes"
    and "fault_free D \<longrightarrow> length outcomes = n"
    by blast
  moreover have "fault_free D \<longrightarrow> outcomes = replicate (length outcomes) Allocated"
    using expected by (auto simp: expected_def list_all_iff intro: replicate_eqI)
  moreover have "AllocationFailed e \<notin> set outcomes" for e
    using expected by (auto simp: expected_def list_all_iff split: if_splits)
  ultimately show ?thesis
    unfolding layout_inv_def by metis
qed

theorem periodic_allocation_witness:
  "\<exists>s'. allocator_ticks plain_dbms True 2 (begin_tx example_db) = (Inr [Allocated, Allocated], s') \<and> db_wf (txDB s')"
  using periodic_allocation [OF plain_dbms_ok, of "begin_tx example_db" True 2] example_db_wf example_db_inv
    plain_dbms_fault_free example_db_foreign_keys by (auto simp: numeral_2_eq_2)

end
