(* ===== verification/Migration.thy ===== *)
theory Migration
  imports Database
begin

text \<open>
  Opening the database: \<open>InitializeDB\<close>, \<open>migrate\<close> and the metadata of \<open>src/model/db.go\<close>, which create the
  schema in an empty database and refuse one of another version; and the helpers for numbers
  that can be \<open>NULL\<close>.

  Whether a statement fails, whether the embedded schema file is found and whether the connection
  is made are parameters.  The schema file is one transaction, so it creates all tables or none.
\<close>

section \<open>State and environment\<close>

type_synonym metadata_rows = "(string \<times> string) list"

record store =
  st_schema :: "(DB \<times> metadata_rows) option"
  st_calls :: nat

record db_opening =
  op_open :: "string option"
  op_asset :: "string option"
  op_fault :: "nat \<Rightarrow> string option"

type_synonym 'a store_action = "(store, string, 'a) sem"

definition store_call :: "db_opening \<Rightarrow> (store \<Rightarrow> string + 'a \<times> store) \<Rightarrow> 'a store_action" where
  "store_call E f = (\<lambda>s.
    let s1 = s\<lparr>st_calls := Suc (st_calls s)\<rparr> in
    case op_fault E (st_calls s) of
      Some err \<Rightarrow> (Inl err, s1)
    | None \<Rightarrow> (case f s1 of Inl err \<Rightarrow> (Inl err, s1) | Inr (x, s2) \<Rightarrow> (Inr x, s2)))"

definition prefixed :: "string \<Rightarrow> 'a store_action \<Rightarrow> 'a store_action" where
  "prefixed pre m = catchM m (\<lambda>err. raiseM (pre @ err))"

section \<open>Metadata\<close>

definition SCHEMA_VERSION :: string where "SCHEMA_VERSION = ''0.0.1''"

text \<open>A query that fails is answered with the empty value and no error: the code returns the named result
  \<open>err\<close>, which is nil there, and not the error of the query.\<close>

definition metadata :: "db_opening \<Rightarrow> string \<Rightarrow> string store_action" where
  "metadata E key = catchM
    (store_call E (\<lambda>s. case st_schema s of
       None \<Rightarrow> Inl ''relation does not exist''
     | Some (_, rows) \<Rightarrow> (case map_of rows key of
         None \<Rightarrow> Inl ''record not found'' | Some v \<Rightarrow> Inr (v, s))))
    (\<lambda>_. returnM [])"

text \<open>The struct has no primary key for gorm, so \<open>Save\<close> inserts.\<close>

definition setMetadata :: "db_opening \<Rightarrow> string \<Rightarrow> string \<Rightarrow> unit store_action" where
  "setMetadata E key val = store_call E (\<lambda>s. case st_schema s of
       None \<Rightarrow> Inl ''relation does not exist''
     | Some (db, rows) \<Rightarrow>
         if key \<in> fst ` set rows then Inl ''duplicate key value violates unique constraint''
         else Inr ((), s\<lparr>st_schema := Some (db, rows @ [(key, val)])\<rparr>))"

definition schemaVersion :: "db_opening \<Rightarrow> string store_action" where
  "schemaVersion E = metadata E ''schema_version''"

section \<open>Migration\<close>

text \<open>\<open>HasTable\<close> has no error: a query that fails counts no table.\<close>

definition HasTable :: "db_opening \<Rightarrow> bool store_action" where
  "HasTable E = catchM (store_call E (\<lambda>s. Inr (st_schema s \<noteq> None, s))) (\<lambda>_. returnM False)"

definition run_ddl :: "db_opening \<Rightarrow> unit store_action" where
  "run_ddl E = store_call E (\<lambda>s.
    if st_schema s \<noteq> None then Inl ''relation already exists''
    else Inr ((), s\<lparr>st_schema := Some (empty_DB, [])\<rparr>))"

definition migrate :: "db_opening \<Rightarrow> unit store_action" where
  "migrate E =
    bindM (HasTable E) (\<lambda>has_table.
    if \<not> has_table then
      (case op_asset E of
         Some err \<Rightarrow> raiseM (''sql DDL data not found: '' @ err)
       | None \<Rightarrow>
           bindM (prefixed ''error running DDL statements: '' (run_ddl E)) (\<lambda>_.
           prefixed ''error setting schema version: '' (setMetadata E ''schema_version'' SCHEMA_VERSION)))
    else
      bindM (prefixed ''error determining schema version: '' (schemaVersion E)) (\<lambda>version.
      if version \<noteq> SCHEMA_VERSION
      then raiseM ''the database has already been populated, migrations are not supported''
      else returnM ()))"

definition InitializeDB :: "db_opening \<Rightarrow> unit store_action" where
  "InitializeDB E = (case op_open E of
     Some err \<Rightarrow> raiseM err
   | None \<Rightarrow> prefixed ''could not migrate database: '' (migrate E))"

section \<open>Properties\<close>

definition sound :: "db_opening \<Rightarrow> bool" where
  "sound E \<longleftrightarrow> op_open E = None \<and> op_asset E = None \<and> (\<forall>n. op_fault E n = None)"

lemmas migration_defs = InitializeDB_def migrate_def HasTable_def run_ddl_def schemaVersion_def metadata_def
  setMetadata_def prefixed_def store_call_def sound_def bindM_def catchM_def returnM_def raiseM_def Let_def

definition current_version :: "DB \<times> metadata_rows \<Rightarrow> bool" where
  "current_version schema \<longleftrightarrow> map_of (snd schema) ''schema_version'' = Some SCHEMA_VERSION"

lemma InitializeDB_existing:
  assumes "sound E" and "st_schema s = Some schema"
  shows "InitializeDB E s = (if current_version schema then Inr ()
      else Inl ''could not migrate database: the database has already been populated, migrations are not supported'',
    s\<lparr>st_calls := Suc (Suc (st_calls s))\<rparr>)"
  using assms by (cases schema) (auto simp: migration_defs current_version_def SCHEMA_VERSION_def split: option.split)

lemma InitializeDB_fresh:
  assumes "sound E" and "st_schema s = None"
  shows "InitializeDB E s = (Inr (), s\<lparr>st_calls := Suc (Suc (Suc (st_calls s))),
    st_schema := Some (empty_DB, [(''schema_version'', SCHEMA_VERSION)])\<rparr>)"
  using assms by (simp add: migration_defs)

text \<open>When nothing fails, an empty database gets the schema and its version, and opening it again
  changes nothing; a database that has the tables is never changed, and it is accepted exactly if
  it carries the version of the program.\<close>

theorem InitializeDB_correct:
  assumes "sound E"
  shows "case st_schema s of
    None \<Rightarrow> \<exists>s'. InitializeDB E s = (Inr (), s') \<and> st_schema s' = Some (empty_DB, [(''schema_version'', SCHEMA_VERSION)]) \<and>
      fst (InitializeDB E s') = Inr () \<and> st_schema (snd (InitializeDB E s')) = st_schema s'
  | Some schema \<Rightarrow> st_schema (snd (InitializeDB E s)) = Some schema \<and>
      (fst (InitializeDB E s) = Inr () \<longleftrightarrow> current_version schema)"
  using InitializeDB_existing [OF assms] InitializeDB_fresh [OF assms]
  by (auto simp: current_version_def split: option.split)

definition example_opening :: db_opening where
  "example_opening = \<lparr>op_open = None, op_asset = None, op_fault = \<lambda>_. None\<rparr>"

theorem InitializeDB_correct_witness:
  "\<exists>s'. InitializeDB example_opening \<lparr>st_schema = None, st_calls = 0\<rparr> = (Inr (), s') \<and>
    st_schema s' = Some (empty_DB, [(''schema_version'', SCHEMA_VERSION)])"
  using InitializeDB_correct [of example_opening "\<lparr>st_schema = None, st_calls = 0\<rparr>"]
  by (auto simp: sound_def example_opening_def)

text \<open>The schema and its version are written in two transactions.  If the second fails, the database
  has tables without a version, and no later start accepts it.\<close>

theorem interrupted_migration_final:
  assumes "st_schema s = None" and "op_open E = None" and "op_asset E = None"
    and "op_fault E (st_calls s) = None" and "op_fault E (Suc (st_calls s)) = None"
    and "op_fault E (Suc (Suc (st_calls s))) = Some err" and "sound E'"
  shows "\<exists>e s'. InitializeDB E s = (Inl e, s') \<and> (\<exists>e'. fst (InitializeDB E' s') = Inl e')"
proof -
  have "\<exists>e s'. InitializeDB E s = (Inl e, s') \<and> st_schema s' = Some (empty_DB, [])"
    using assms(1-6) by (simp add: migration_defs)
  then obtain e s' where fail: "InitializeDB E s = (Inl e, s')" "st_schema s' = Some (empty_DB, [])"
    by blast
  have "\<not> current_version (empty_DB, [])"
    by (simp add: current_version_def)
  then have "\<exists>e'. fst (InitializeDB E' s') = Inl e'"
    using InitializeDB_existing [OF assms(7) fail(2)] by simp
  with fail(1) show ?thesis
    by blast
qed

theorem interrupted_migration_final_witness:
  "\<exists>e s'. InitializeDB (example_opening\<lparr>op_fault := \<lambda>n. if n = 2 then Some ''timeout'' else None\<rparr>)
      \<lparr>st_schema = None, st_calls = 0\<rparr> = (Inl e, s') \<and> (\<exists>e'. fst (InitializeDB example_opening s') = Inl e')"
  by (rule interrupted_migration_final [where err = "''timeout''"]) (simp_all add: example_opening_def sound_def)

section \<open>Numbers that can be NULL\<close>

record NullInt64 =
  Int64 :: "64 word"
  Valid :: bool

definition NullIntValue :: "64 word \<Rightarrow> NullInt64" where
  "NullIntValue val = \<lparr>Int64 = val, Valid = True\<rparr>"

definition NullInt :: NullInt64 where
  "NullInt = \<lparr>Int64 = 0, Valid = False\<rparr>"

definition NullIntToPtr :: "NullInt64 \<Rightarrow> 64 word option" where
  "NullIntToPtr nullint = (if Valid nullint then Some (Int64 nullint) else None)"

definition PtrToNullInt :: "64 word option \<Rightarrow> NullInt64" where
  "PtrToNullInt val = (case val of Some v \<Rightarrow> NullIntValue v | None \<Rightarrow> NullInt)"

lemma NullInt_roundtrip: "NullIntToPtr (PtrToNullInt p) = p"
  by (simp add: NullIntToPtr_def PtrToNullInt_def NullIntValue_def NullInt_def split: option.split)

end
