(* ===== verification/Secrets.thy ===== *)
theory Secrets
  imports Tables
begin

text \<open>
  The global secrets, \<open>InitializeGlobalSecrets\<close> and \<open>randomBase64\<close> of
  \<open>src/master/cluster_allocator.go\<close>: the keyfile all Mongods share and the credential of the
  management user are created once.  The bytes of \<open>crypto/rand\<close> are a parameter; Go's standard base64
  encoding is modelled.
\<close>

abbreviation MamidManagementUsername :: string where "MamidManagementUsername \<equiv> ''mamid''"

section \<open>Base64\<close>

definition base64_alphabet :: string where
  "base64_alphabet =
    ''ABCDEFGHIJKLMNOPQRSTUVWXYZabcdefghijklmnopqrstuvwxyz0123456789+/''"

definition base64_char :: "nat \<Rightarrow> char" where
  "base64_char k = base64_alphabet ! (k mod 64)"

text \<open>\<open>base64.StdEncoding.EncodeToString\<close>: three bytes give four characters, a last group of one or
  two bytes is padded.\<close>

fun base64_encode :: "8 word list \<Rightarrow> string" where
  "base64_encode (a # b # c # bs) =
    (let v = unat a * 65536 + unat b * 256 + unat c
     in base64_char (v div 262144) # base64_char (v div 4096) # base64_char (v div 64) # base64_char v #
        base64_encode bs)"
| "base64_encode [a, b] =
    (let v = unat a * 65536 + unat b * 256
     in [base64_char (v div 262144), base64_char (v div 4096), base64_char (v div 64), CHR ''=''])"
| "base64_encode [a] =
    (let v = unat a * 65536 in [base64_char (v div 262144), base64_char (v div 4096), CHR ''='', CHR ''=''])"
| "base64_encode [] = []"

text \<open>\<open>randomBase64\<close>: the slice \<open>[:len]\<close> panics when the string is shorter.\<close>

type_synonym entropy = "nat \<Rightarrow> nat \<Rightarrow> string + 8 word list"

definition randomBase64 :: "entropy \<Rightarrow> nat \<Rightarrow> string action" where
  "randomBase64 rand len =
    bindM (getM (\<lambda>s. rand (txCalls s) len)) (\<lambda>r. case r of
      Inl err \<Rightarrow> raiseM (Failed (ErrMsg (''error reading random bytes: '' @ err)))
    | Inr randBytes \<Rightarrow>
        (let str = base64_encode randBytes
         in if length str < len then raiseM (Panic (ErrMsg ''slice bounds out of range''))
            else returnM (take len str)))"

section \<open>InitializeGlobalSecrets\<close>

definition create_keyfile :: "dbms \<Rightarrow> string \<Rightarrow> unit action" where
  "create_keyfile D content = sql_stmt D (\<lambda>n db. Inr ((), db\<lparr>mongod_keyfiles := mongod_keyfiles db @
     [\<lparr>Keyfile_ID = newID D n (map Keyfile_ID (mongod_keyfiles db)), Keyfile_Content = content\<rparr>]\<rparr>))"

definition create_root_credential :: "dbms \<Rightarrow> string \<Rightarrow> string \<Rightarrow> unit action" where
  "create_root_credential D username password = sql_stmt D (\<lambda>n db. Inr ((),
     db\<lparr>mongodb_root_credentials := mongodb_root_credentials db @
     [\<lparr>MongodbCredential_ID = newID D n (map MongodbCredential_ID (mongodb_root_credentials db)),
       MongodbCredential_Username = username, MongodbCredential_Password = password\<rparr>]\<rparr>))"

definition ensure_keyfile :: "dbms \<Rightarrow> (err \<Rightarrow> string) \<Rightarrow> entropy \<Rightarrow> unit action" where
  "ensure_keyfile D show_err rand =
    bindM (sql_query D (\<lambda>n db. limit1 (order_by D n Keyfile_ID (mongod_keyfiles db)))) (\<lambda>keyfile.
    case keyfile of
      Some _ \<Rightarrow> returnM ()
    | None \<Rightarrow>
        bindM (wrapErr show_err ''could not generate keyfile contents: '' (randomBase64 rand 1024)) (\<lambda>content.
        wrapErr show_err ''could not create keyfile contents: error inserting into database: ''
          (create_keyfile D content)))"

definition ensure_root_credential :: "dbms \<Rightarrow> (err \<Rightarrow> string) \<Rightarrow> entropy \<Rightarrow> unit action" where
  "ensure_root_credential D show_err rand =
    bindM (sql_query D (\<lambda>n db. limit1 (order_by D n MongodbCredential_ID (mongodb_root_credentials db))))
      (\<lambda>rootCredential. case rootCredential of
        Some _ \<Rightarrow> returnM ()
      | None \<Rightarrow>
          bindM (wrapErr show_err ''could not generate management user passphrase: '' (randomBase64 rand 40))
            (\<lambda>password.
          wrapErr show_err ''could not create MongoDB root credential: ''
            (create_root_credential D MamidManagementUsername password)))"

definition InitializeGlobalSecrets :: "dbms \<Rightarrow> (err \<Rightarrow> string) \<Rightarrow> entropy \<Rightarrow> unit action" where
  "InitializeGlobalSecrets D show_err rand =
    bindM (ensure_keyfile D show_err rand) (\<lambda>_. ensure_root_credential D show_err rand)"

section \<open>Properties\<close>

lemma base64_char_alphabet: "base64_char k \<in> set base64_alphabet"
  unfolding base64_char_def by (rule nth_mem) (simp add: base64_alphabet_def)

text \<open>The encoding is at least as long as its input, and the characters up to that length are not
  padding.\<close>

lemma base64_encode_prefix:
  "length bs \<le> length (base64_encode bs) \<and>
    set (take (length bs) (base64_encode bs)) \<subseteq> set base64_alphabet"
proof (induction bs rule: base64_encode.induct)
  case (1 a b c bs)
  have "set (take k (z # xs)) \<subseteq> insert z (set (take k xs))" for k and z :: char and xs
    using set_take_subset_set_take [of "k - 1" k xs] by (cases k) auto
  then show ?case
    using 1 by (fastforce simp: Let_def base64_char_alphabet)
qed (simp_all add: Let_def base64_char_alphabet)

definition base64_secret :: "nat \<Rightarrow> string \<Rightarrow> bool" where
  "base64_secret n s \<longleftrightarrow> length s = n \<and> set s \<subseteq> set base64_alphabet"

lemma run_randomBase64:
  assumes "rand (txCalls s) len = Inr bs" and "length bs = len"
    and "\<And>x. base64_secret len x \<Longrightarrow> Q x s"
  shows "run (randomBase64 rand len) Q R s"
  using base64_encode_prefix [of bs] assms
  by (simp add: randomBase64_def run_simps Let_def base64_secret_def)

lemma run_create_keyfile:
  assumes "fault_free D" and "\<And>i. Q () ((tick s)\<lparr>txDB := (txDB s)\<lparr>mongod_keyfiles :=
      mongod_keyfiles (txDB s) @ [\<lparr>Keyfile_ID = i, Keyfile_Content = c\<rparr>]\<rparr>\<rparr>)"
  shows "run (create_keyfile D c) Q (\<lambda>_ _. False) s"
  using assms unfolding create_keyfile_def by (intro run_sql_stmt) (auto simp: fault_free_def)

lemma run_create_root_credential:
  assumes "fault_free D" and "\<And>i. Q () ((tick s)\<lparr>txDB := (txDB s)\<lparr>mongodb_root_credentials :=
      mongodb_root_credentials (txDB s) @ [\<lparr>MongodbCredential_ID = i, MongodbCredential_Username = u,
        MongodbCredential_Password = p\<rparr>]\<rparr>\<rparr>)"
  shows "run (create_root_credential D u p) Q (\<lambda>_ _. False) s"
  using assms unfolding create_root_credential_def by (intro run_sql_stmt) (auto simp: fault_free_def)

definition keyfile_post :: "DB \<Rightarrow> DB \<Rightarrow> bool" where
  "keyfile_post db db' \<longleftrightarrow>
    (if mongod_keyfiles db = []
     then \<exists>k. mongod_keyfiles db' = [k] \<and> base64_secret 1024 (Keyfile_Content k)
     else mongod_keyfiles db' = mongod_keyfiles db)"

definition credential_post :: "DB \<Rightarrow> DB \<Rightarrow> bool" where
  "credential_post db db' \<longleftrightarrow>
    (if mongodb_root_credentials db = []
     then \<exists>c. mongodb_root_credentials db' = [c] \<and> MongodbCredential_Username c = MamidManagementUsername \<and>
       base64_secret 40 (MongodbCredential_Password c)
     else mongodb_root_credentials db' = mongodb_root_credentials db)"

definition entropy_total :: "entropy \<Rightarrow> bool" where
  "entropy_total rand \<longleftrightarrow> (\<forall>n len. \<exists>bs. rand n len = Inr bs \<and> length bs = len)"

lemma run_randomBase64_total:
  assumes "entropy_total rand" and "\<And>x. base64_secret len x \<Longrightarrow> Q x s"
  shows "run (randomBase64 rand len) Q R s"
  using assms run_randomBase64 [of rand s len _ Q R] by (auto simp: entropy_total_def)

lemma case_limit1_order_by:
  assumes "dbms_ok D"
  shows "(case limit1 (order_by D n key xs) of None \<Rightarrow> a | Some x \<Rightarrow> b) = (if xs = [] then a else b)"
  using limit1_order_by_None [OF assms, of n key xs] by (auto split: option.split simp del: limit1_None)

lemma run_ensure_keyfile:
  assumes D: "dbms_ok D" "fault_free D" and rand: "entropy_total rand"
  shows "run (ensure_keyfile D show_err rand) (\<lambda>_ s'. keyfile_post (txDB s) (txDB s') \<and>
    mongodb_root_credentials (txDB s') = mongodb_root_credentials (txDB s)) (\<lambda>_ _. False) s"
  unfolding ensure_keyfile_def run_bindM
  by (intro run_query_total D(2))
    (auto simp: case_limit1_order_by [OF D(1)] keyfile_post_def run_simps
      intro!: run_wrapErr_total run_randomBase64_total [OF rand] run_create_keyfile [OF D(2)])

lemma run_ensure_root_credential:
  assumes D: "dbms_ok D" "fault_free D" and rand: "entropy_total rand"
  shows "run (ensure_root_credential D show_err rand) (\<lambda>_ s'. credential_post (txDB s) (txDB s') \<and>
    mongod_keyfiles (txDB s') = mongod_keyfiles (txDB s)) (\<lambda>_ _. False) s"
  unfolding ensure_root_credential_def run_bindM
  by (intro run_query_total D(2))
    (auto simp: case_limit1_order_by [OF D(1)] credential_post_def run_simps
      intro!: run_wrapErr_total run_randomBase64_total [OF rand] run_create_root_credential [OF D(2)])

text \<open>Nothing but the two tables of secrets is changed, whatever fails.\<close>

definition same_cluster :: "DB \<Rightarrow> DB \<Rightarrow> bool" where
  "same_cluster db db' \<longleftrightarrow> risk_groups db' = risk_groups db \<and> replica_sets db' = replica_sets db \<and>
     msp_errors db' = msp_errors db \<and> slaves db' = slaves db \<and> mongod_states db' = mongod_states db \<and>
     mongods db' = mongods db \<and> problems db' = problems db"

lemma same_cluster_eq:
  assumes "same_cluster db db'"
  shows "foreign_keys_ok db' = foreign_keys_ok db" and "db_wf db' = db_wf db"
proof -
  show "foreign_keys_ok db' = foreign_keys_ok db"
    by (rule foreign_keys_ok_same) (use assms in \<open>simp_all add: same_cluster_def\<close>)
  show "db_wf db' = db_wf db"
    using assms by (simp add: same_cluster_def db_wf_def keys_ok_def mongod_ok_def owns_state_def cong: option.case_cong)
qed

lemma run_randomBase64_any:
  assumes "\<And>x. Q x s"
  shows "run (wrapErr show_err pre (randomBase64 rand len)) Q (\<lambda>_ _. True) s"
  by (rule run_wrapErr_any) (auto simp: randomBase64_def run_simps Let_def assms split: sum.split)

lemma run_InitializeGlobalSecrets_any:
  "run (InitializeGlobalSecrets D show_err rand) (\<lambda>_ s'. same_cluster (txDB s) (txDB s')) (\<lambda>_ _. True) s"
proof -
  have keyfile: "run (ensure_keyfile D show_err rand) (\<lambda>_ s'. same_cluster (txDB s) (txDB s')) (\<lambda>_ _. True) s" for s
    unfolding ensure_keyfile_def run_bindM sql_query_def create_keyfile_def
    by (intro run_sql_stmt)
      (auto simp: run_simps same_cluster_def split: option.split intro!: run_randomBase64_any run_wrapErr_any run_sql_stmt)
  have credential: "run (ensure_root_credential D show_err rand) (\<lambda>_ s'. same_cluster (txDB s) (txDB s')) (\<lambda>_ _. True) s" for s
    unfolding ensure_root_credential_def run_bindM sql_query_def create_root_credential_def
    by (intro run_sql_stmt)
      (auto simp: run_simps same_cluster_def split: option.split intro!: run_randomBase64_any run_wrapErr_any run_sql_stmt)
  show ?thesis
    unfolding InitializeGlobalSecrets_def
  proof (rule run_bind_seq [OF keyfile])
    fix u and s1 :: tx assume "same_cluster (txDB s) (txDB s1)"
    then show "run (ensure_root_credential D show_err rand) (\<lambda>_ s'. same_cluster (txDB s) (txDB s')) (\<lambda>_ _. True) s1"
      by (intro run_mono [OF credential]) (simp_all add: same_cluster_def)
  qed
qed

text \<open>With a database and a random source that do not fail,
  \<open>InitializeGlobalSecrets\<close> succeeds.  It leaves a keyfile and a root credential that exist as they
  are; where there is none it creates exactly one, the keyfile with 1024 characters and the
  password of the management user with 40, all of the base64 alphabet and without padding.\<close>

theorem InitializeGlobalSecrets_correct:
  assumes "dbms_ok D" and "fault_free D" and "entropy_total rand"
  shows "\<exists>s'. InitializeGlobalSecrets D show_err rand s = (Inr (), s') \<and>
    keyfile_post (txDB s) (txDB s') \<and> credential_post (txDB s) (txDB s')"
proof -
  have "run (InitializeGlobalSecrets D show_err rand)
      (\<lambda>_ s'. keyfile_post (txDB s) (txDB s') \<and> credential_post (txDB s) (txDB s')) (\<lambda>_ _. False) s"
    unfolding InitializeGlobalSecrets_def
    by (rule run_bind_seq [OF run_ensure_keyfile [OF assms]])
      (auto intro!: run_mono [OF run_ensure_root_credential [OF assms]] simp: keyfile_post_def credential_post_def)
  from run_total [OF this] show ?thesis by simp
qed

theorem InitializeGlobalSecrets_correct_witness:
  "\<exists>s'. InitializeGlobalSecrets plain_dbms (\<lambda>_. []) (\<lambda>n len. Inr (replicate len 0)) (begin_tx empty_DB) =
      (Inr (), s') \<and> length (mongod_keyfiles (txDB s')) = 1"
proof -
  have "entropy_total (\<lambda>n len. Inr (replicate len 0))"
    by (simp add: entropy_total_def)
  from InitializeGlobalSecrets_correct [OF plain_dbms_ok plain_dbms_fault_free this,
      of "\<lambda>_. []" "begin_tx empty_DB"]
  show ?thesis by (auto simp: keyfile_post_def empty_DB_def)
qed

end
