(* ===== verification/Members.thy ===== *)
theory Members
  imports AllocRun
begin

text \<open>
  The members a replica set is to be configured with,
  \<open>DesiredMSPReplicaSetMembersForReplicaSetID\<close> of \<open>src/master/cluster_allocator.go\<close>: who votes, with
  which priority, and which Mongod initiates the replica set.
\<close>

definition ReplicaSetMemberPriorityVolatile :: rat where "ReplicaSetMemberPriorityVolatile = 500"
definition ReplicaSetMemberPriorityPersistent :: rat where "ReplicaSetMemberPriorityPersistent = 10"
definition ReplicaSetMemberPriorityToBeRemoved :: rat where "ReplicaSetMemberPriorityToBeRemoved = 1"

lemmas priority_defs = ReplicaSetMemberPriorityVolatile_def ReplicaSetMemberPriorityPersistent_def
  ReplicaSetMemberPriorityToBeRemoved_def

text \<open>The Mongods of the query with the slaves they run on.\<close>

definition desired_members :: "DB \<Rightarrow> ID \<Rightarrow> (Mongod \<times> Slave) list" where
  "desired_members db rid =
    [(m, s).
       m \<leftarrow> mongods db,
       r \<leftarrow> replica_sets db, Mongod_ReplicaSetID m = Some (ReplicaSet_ID r),
       desired_state \<leftarrow> mongod_states db, State_ID desired_state = Mongod_DesiredStateID m,
       s \<leftarrow> slaves db, Slave_ID s = Mongod_ParentSlaveID m,
       ReplicaSet_ID r = rid \<and> State_ExecutionState desired_state = MongodExecutionStateRunning]"

definition member_priority :: "Slave \<Rightarrow> rat" where
  "member_priority s =
    (if Slave_ConfiguredState s = SlaveStateDisabled then ReplicaSetMemberPriorityToBeRemoved
     else if \<not> Slave_PersistentStorage s then ReplicaSetMemberPriorityVolatile
     else ReplicaSetMemberPriorityPersistent)"

definition member_order :: "Mongod \<times> Slave \<Rightarrow> int \<times> SlaveState \<times> ID" where
  "member_order = (\<lambda>(m, s). (if Slave_ObservationErrorID s = None then 0 else 1,
     Slave_ConfiguredState s, Mongod_ID m))"

text \<open>The loop over the rows; \<open>i\<close> is its index.\<close>

primrec vote_loop :: "nat \<Rightarrow> (Mongod \<times> Slave) list \<Rightarrow> ReplicaSetMember list" where
  "vote_loop i [] = []"
| "vote_loop i (row # rows) = (case row of (m, s) \<Rightarrow>
    \<lparr>Member_HostPort = \<lparr>HostPort_Hostname = Slave_Hostname s, HostPort_Port = Mongod_Port m\<rparr>,
     Member_Priority = (if i < 7 then member_priority s else 0),
     Member_Votes = (if i < 7 then 1 else 0)\<rparr> # vote_loop (Suc i) rows)"

definition initiatorId :: "(Mongod \<times> Slave) list \<Rightarrow> ID" where
  "initiatorId rows = (case rows of [] \<Rightarrow> 0 | (m, s) # _ \<Rightarrow> Mongod_ID m)"

definition DesiredMSPReplicaSetMembersForReplicaSetID ::
  "dbms \<Rightarrow> (err \<Rightarrow> string) \<Rightarrow> ID \<Rightarrow> (ReplicaSetMember list \<times> Mongod) action" where
  "DesiredMSPReplicaSetMembersForReplicaSetID D show_err replicaSetID =
    bindM (wrapErr show_err
        (''could not fetch ReplicaSetMembers for ReplicaSet.ID `'' @ show_int replicaSetID @ ''`: '')
        (sql_query D (\<lambda>n db. order_by D n member_order (desired_members db replicaSetID)))) (\<lambda>rows.
    bindM (sql_query D (\<lambda>n db. lookup_mongod db (initiatorId rows))) (\<lambda>initiator.
    returnM (vote_loop 0 rows, case initiator of None \<Rightarrow> zeroMongod | Some m \<Rightarrow> m)))"

section \<open>What the query selects\<close>

definition is_desired_member :: "DB \<Rightarrow> ID \<Rightarrow> Mongod \<Rightarrow> bool" where
  "is_desired_member db rid m \<longleftrightarrow>
    Mongod_ReplicaSetID m = Some rid \<and> desired_exec db m = Some MongodExecutionStateRunning"

definition host_of :: "DB \<Rightarrow> Mongod \<Rightarrow> Slave" where
  "host_of db m = (case lookup_slave db (Mongod_ParentSlaveID m) of Some s \<Rightarrow> s | None \<Rightarrow> undefined)"

lemma desired_members_eq:
  assumes "db_wf db"
  shows "desired_members db rid = map (\<lambda>m. (m, host_of db m)) (filter (is_desired_member db rid) (mongods db))"
  unfolding desired_members_def
proof (rule concat_map_cond)
  fix m assume m: "m \<in> set (mongods db)"
  obtain s where s: "lookup_slave db (Mongod_ParentSlaveID m) = Some s"
    using mongod_ok_slave [OF db_wf_mongod_ok [OF assms m]] by metis
  show "concat (map (\<lambda>r. if Mongod_ReplicaSetID m = Some (ReplicaSet_ID r) then
        concat (map (\<lambda>desired_state. if State_ID desired_state = Mongod_DesiredStateID m then
          concat (map (\<lambda>s. if Slave_ID s = Mongod_ParentSlaveID m then
            if ReplicaSet_ID r = rid \<and> State_ExecutionState desired_state = MongodExecutionStateRunning
            then [(m, s)] else [] else []) (slaves db)) else []) (mongod_states db)) else []) (replica_sets db)) =
      (if is_desired_member db rid m then [(m, host_of db m)] else [])"
    using db_wf_mongod_ok [OF assms m] s
    by (auto simp: join_primary_key join_primary_key_option db_wf_keys [OF assms] is_desired_member_def
        mongod_ok_def owns_state_def desired_exec_def host_of_def split: option.splits dest: find_row_key)
qed

lemma vote_loop_hosts:
  "map Member_HostPort (vote_loop i rows) =
    map (\<lambda>(m, s). \<lparr>HostPort_Hostname = Slave_Hostname s, HostPort_Port = Mongod_Port m\<rparr>) rows"
  by (induction rows arbitrary: i) auto

lemma length_vote_loop [simp]: "length (vote_loop i rows) = length rows"
  by (induction rows arbitrary: i) (auto split: prod.split)

lemma vote_loop_nth:
  "k < length rows \<Longrightarrow> vote_loop i rows ! k = (case rows ! k of (m, s) \<Rightarrow>
    \<lparr>Member_HostPort = \<lparr>HostPort_Hostname = Slave_Hostname s, HostPort_Port = Mongod_Port m\<rparr>,
     Member_Priority = (if i + k < 7 then member_priority s else 0),
     Member_Votes = (if i + k < 7 then 1 else 0)\<rparr>)"
  by (induction rows arbitrary: i k) (auto simp: nth_Cons' split: prod.split)

text \<open>The order ends with the identifier of the Mongod, so the database has no choice: two evaluations of the
  query over the same tables give the same members.\<close>

lemma order_by_distinct:
  assumes "dbms_ok D" and "distinct (map key rows)"
  shows "order_by D n key rows = sort_key key rows"
proof (rule map_sorted_distinct_set_unique)
  have mset: "mset (order_by D n key rows) = mset rows"
    by (rule mset_order_by [OF assms(1)])
  then have "mset (map key (order_by D n key rows)) = mset (map key rows)"
    by simp
  then show "distinct (map key (order_by D n key rows))"
    using assms(2) by (metis mset_eq_imp_distinct_iff)
  show "distinct (map key (sort_key key rows))"
    using assms(2) mset_eq_imp_distinct_iff [of "map key (sort_key key rows)" "map key rows"] by simp
  have "inj_on key (set rows)"
    using assms(2) by (simp add: distinct_map)
  then show "inj_on key (set (order_by D n key rows) \<union> set (sort_key key rows))"
    using mset_eq_setD [OF mset] by simp
  show "set (order_by D n key rows) = set (sort_key key rows)"
    using mset_eq_setD [OF mset] by simp
  show "sorted (map key (order_by D n key rows))" "sorted (map key (sort_key key rows))"
    by (simp_all add: order_by_def)
qed

lemma distinct_member_order:
  assumes "db_wf db"
  shows "distinct (map member_order (desired_members db rid))"
proof -
  have "distinct (map Mongod_ID (filter (is_desired_member db rid) (mongods db)))"
    by (rule distinct_map_filter_key [OF db_wf_keys(2) [OF assms]])
  then have "distinct (map (snd \<circ> snd) (map member_order (desired_members db rid)))"
    by (simp add: desired_members_eq [OF assms] member_order_def comp_def)
  then show ?thesis
    by (simp only: distinct_map)
qed

definition wanted_members :: "DB \<Rightarrow> ID \<Rightarrow> ReplicaSetMember list" where
  "wanted_members db rid = vote_loop 0 (sort_key member_order (desired_members db rid))"

lemma vote_loop_wanted:
  "dbms_ok D \<Longrightarrow> db_wf db \<Longrightarrow> vote_loop 0 (order_by D n member_order (desired_members db rid)) = wanted_members db rid"
  by (simp add: wanted_members_def order_by_distinct distinct_member_order)

section \<open>Properties\<close>

lemma run_DesiredMembers:
  assumes D: "fault_free D"
    and Q: "\<And>s'. txDB s' = txDB s \<Longrightarrow> txBus s' = txBus s \<Longrightarrow>
      Q (vote_loop 0 (order_by D (txCalls s) member_order (desired_members (txDB s) rid)),
        case lookup_mongod (txDB s) (initiatorId (order_by D (txCalls s) member_order (desired_members (txDB s) rid)))
        of None \<Rightarrow> zeroMongod | Some m \<Rightarrow> m) s'"
  shows "run (DesiredMSPReplicaSetMembersForReplicaSetID D show_err rid) Q (\<lambda>_ _. False) s"
  unfolding DesiredMSPReplicaSetMembersForReplicaSetID_def run_bindM
  by (intro run_wrapErr_total run_query_total D) (simp add: run_simps Q)

text \<open>C19: over well-formed tables and without a database error the function returns the
  members in the order of slave health, slave state and age, one for each Mongod of the replica
  set that is to run, addressed by the host name of its slave and its port.  The first seven
  vote and have a positive priority, all others neither vote nor have a priority; the initiator
  is the first member, so it votes.\<close>

theorem DesiredMembers_correct:
  assumes "dbms_ok D" and "fault_free D" and "db_wf (txDB s)"
  shows "\<exists>members initiator s' rows.
    DesiredMSPReplicaSetMembersForReplicaSetID D show_err rid s = (Inr (members, initiator), s') \<and>
    mset rows = image_mset (\<lambda>m. (m, host_of (txDB s) m))
      (mset (filter (is_desired_member (txDB s) rid) (mongods (txDB s)))) \<and>
    sorted (map member_order rows) \<and>
    map Member_HostPort members = map (\<lambda>(m, h).
      \<lparr>HostPort_Hostname = Slave_Hostname h, HostPort_Port = Mongod_Port m\<rparr>) rows \<and>
    (\<forall>k < length members. Member_Votes (members ! k) = (if k < 7 then 1 else 0) \<and>
      (if k < 7 then 0 < Member_Priority (members ! k) else Member_Priority (members ! k) = 0)) \<and>
    (rows \<noteq> [] \<longrightarrow> initiator = fst (rows ! 0))"
proof -
  let ?rows = "order_by D (txCalls s) member_order (desired_members (txDB s) rid)"
  have rows: "mset ?rows = image_mset (\<lambda>m. (m, host_of (txDB s) m))
      (mset (filter (is_desired_member (txDB s) rid) (mongods (txDB s))))"
    by (simp add: mset_order_by [OF assms(1)] desired_members_eq [OF assms(3)])
  have sorted: "sorted (map member_order ?rows)"
    by (simp add: order_by_def)
  have votes: "Member_Votes (vote_loop 0 ?rows ! k) = (if k < 7 then 1 else 0) \<and>
      (if k < 7 then 0 < Member_Priority (vote_loop 0 ?rows ! k)
       else Member_Priority (vote_loop 0 ?rows ! k) = 0)" if "k < length (vote_loop 0 ?rows)" for k
    using that by (simp add: vote_loop_nth member_priority_def priority_defs split: prod.split)
  have initiator: "lookup_mongod (txDB s) (initiatorId ?rows) = Some (fst (?rows ! 0))" if "?rows \<noteq> []"
  proof -
    have "?rows ! 0 \<in> set ?rows"
      using that by (intro nth_mem) simp
    then have "fst (?rows ! 0) \<in> set (mongods (txDB s))"
      by (auto simp: set_order_by [OF assms(1)] desired_members_eq [OF assms(3)])
    moreover have "initiatorId ?rows = Mongod_ID (fst (?rows ! 0))"
      using that by (cases ?rows) (auto simp: initiatorId_def)
    ultimately show ?thesis
      using find_row_unique [OF db_wf_keys(2) [OF assms(3)]] by simp
  qed
  have "run (DesiredMSPReplicaSetMembersForReplicaSetID D show_err rid) (\<lambda>(members, ini) s'.
      members = vote_loop 0 ?rows \<and> (?rows \<noteq> [] \<longrightarrow> ini = fst (?rows ! 0))) (\<lambda>_ _. False) s"
    by (rule run_DesiredMembers [OF assms(2)]) (simp add: initiator)
  from run_total [OF this] rows sorted votes vote_loop_hosts [of 0 ?rows] show ?thesis
    by (fastforce simp del: length_vote_loop)
qed

definition running_db :: DB where
  "running_db = example_db\<lparr>mongod_states :=
     map (\<lambda>i. (example_state i)\<lparr>State_ExecutionState := MongodExecutionStateRunning\<rparr>) [1, 2]\<rparr>"

lemma running_db_wf: "db_wf running_db"
  by (simp add: db_wf_def keys_ok_def mongod_ok_def owns_state_def running_db_def example_defs)

theorem DesiredMembers_correct_witness:
  "\<exists>members initiator s'. DesiredMSPReplicaSetMembersForReplicaSetID plain_dbms (\<lambda>_. []) 1
    (begin_tx running_db) = (Inr (members, initiator), s') \<and>
    map Member_HostPort members = [\<lparr>HostPort_Hostname = ''host'', HostPort_Port = 18080\<rparr>] \<and>
    initiator = example_mongod"
proof -
  have rows: "filter (is_desired_member running_db 1) (mongods running_db) = [example_mongod]"
    and host: "Slave_Hostname (host_of running_db example_mongod) = ''host''"
    by (simp_all add: is_desired_member_def desired_exec_def host_of_def running_db_def example_defs)
  have wf: "db_wf (txDB (begin_tx running_db))"
    by (simp add: running_db_wf)
  have "Mongod_Port example_mongod = 18080"
    by (simp add: example_mongod_def)
  with DesiredMembers_correct [OF plain_dbms_ok plain_dbms_fault_free wf, of "\<lambda>_. []" 1] rows host
  show ?thesis by auto
qed

end
