(* ===== verification/Projections.thy ===== *)
theory Projections
  imports Tables
begin

text \<open>
  The conversions between the representations of one thing: database model, master-slave protocol
  (\<open>src/master/projections.go\<close>) and JSON objects of the master's API
  (\<open>src/master/masterapi/model_projections*.go\<close>).  A conversion that can fail returns its message on
  the left.  The locales state what makes a pair of conversions a faithful pair.
\<close>

section \<open>Model and protocol\<close>

definition ProjectModelShardingRoleToMSPShardingRole :: "ShardingRole \<Rightarrow> string + ShardingRole" where
  "ProjectModelShardingRoleToMSPShardingRole r =
    (if r = ShardingRoleNone then Inr ShardingRoleNone
     else if r = ShardingRoleShardServer then Inr ShardingRoleShardServer
     else if r = ShardingRoleConfigServer then Inr ShardingRoleConfigServer
     else Inl (''cannot convert unknown model.ShardingRole `'' @ r @ ''`''))"

definition ProjectMSPShardingRoleToModelShardingRole :: "ShardingRole \<Rightarrow> string + ShardingRole" where
  "ProjectMSPShardingRoleToModelShardingRole r =
    (if r = ShardingRoleNone then Inr ShardingRoleNone
     else if r = ShardingRoleShardServer then Inr ShardingRoleShardServer
     else if r = ShardingRoleConfigServer then Inr ShardingRoleConfigServer
     else Inl (''cannot convert unknown msp.ShardingRole `'' @ r @ ''`''))"

fun mspMongodStateFromExecutionState :: "MongodExecutionState \<Rightarrow> string + MongodState" where
  "mspMongodStateFromExecutionState MongodExecutionStateDestroyed = Inr MongodStateDestroyed"
| "mspMongodStateFromExecutionState MongodExecutionStateNotRunning = Inr MongodStateNotRunning"
| "mspMongodStateFromExecutionState MongodExecutionStateRecovering = Inr MongodStateRecovering"
| "mspMongodStateFromExecutionState MongodExecutionStateRunning = Inr MongodStateRunning"
| "mspMongodStateFromExecutionState MongodExecutionStateForceDestroyed = Inr MongodStateForceDestroyed"
| "mspMongodStateFromExecutionState s = Inl (''deployer: unable to map `'' @
     dec (MongodExecutionState_num s) @ ''` from model.ExecutionState to msp.MongodState'')"

definition ProjectModelMongodbCredentialToMSPMongodCredential ::
  "MongodbCredential \<Rightarrow> MongodCredential" where
  "ProjectModelMongodbCredentialToMSPMongodCredential m =
    \<lparr>Credential_Username = MongodbCredential_Username m, Credential_Password = MongodbCredential_Password m\<rparr>"

section \<open>Objects of the API\<close>

text \<open>A Go \<open>uint\<close> has 64 bits; a pointer that may be nil is an option.\<close>

record api_Slave =
  aSlave_ID :: ID
  aSlave_Hostname :: string
  aSlave_Port :: "64 word"
  aSlave_MongodPortRangeBegin :: "64 word"
  aSlave_MongodPortRangeEnd :: "64 word"
  aSlave_PersistentStorage :: bool
  aSlave_ConfiguredState :: string
  aSlave_ConfiguredStateTransitioning :: bool
  aSlave_RiskGroupID :: "ID option"

record api_ReplicaSet =
  aReplicaSet_ID :: ID
  aReplicaSet_Name :: string
  aReplicaSet_PersistentNodeCount :: "64 word"
  aReplicaSet_VolatileNodeCount :: "64 word"
  aReplicaSet_ShardingRole :: string

record api_RiskGroup =
  aRiskGroup_ID :: ID
  aRiskGroup_Name :: string

record api_Problem =
  aProblem_ID :: ID
  aProblem_Description :: string
  aProblem_LongDescription :: string
  aProblem_FirstOccurred :: int
  aProblem_LastUpdated :: int
  aProblem_SlaveId :: "ID option"
  aProblem_ReplicaSetId :: "ID option"

record api_Mongod =
  aMongod_ID :: ID
  aMongod_Port :: "64 word"
  aMongod_ReplicaSetID :: ID
  aMongod_ParentSlaveID :: ID
  aMongod_ObservedExecutionState :: string

subsection \<open>Mongods and problems\<close>

fun ModelExecutionStateToApiMongodState :: "MongodExecutionState \<Rightarrow> MongodState" where
  "ModelExecutionStateToApiMongodState MongodExecutionStateDestroyed = MongodStateDestroyed"
| "ModelExecutionStateToApiMongodState MongodExecutionStateNotRunning = MongodStateNotRunning"
| "ModelExecutionStateToApiMongodState MongodExecutionStateRecovering = MongodStateRecovering"
| "ModelExecutionStateToApiMongodState MongodExecutionStateRunning = MongodStateRunning"
| "ModelExecutionStateToApiMongodState MongodExecutionStateForceDestroyed = MongodStateForceDestroyed"
| "ModelExecutionStateToApiMongodState MongodExecutionStateUninitiated = MongodStateUninitialized"
| "ModelExecutionStateToApiMongodState MongodExecutionStateInvalid = ''invalid''"

text \<open>The observed state is the one the caller has loaded; the zero value if there was none.\<close>

definition ProjectModelMongodToMongod :: "Mongod \<Rightarrow> MongodExecutionState \<Rightarrow> api_Mongod" where
  "ProjectModelMongodToMongod m observed =
    \<lparr>aMongod_ID = Mongod_ID m, aMongod_Port = ucast (Mongod_Port m),
     aMongod_ReplicaSetID = (case Mongod_ReplicaSetID m of None \<Rightarrow> 0 | Some i \<Rightarrow> i),
     aMongod_ParentSlaveID = Mongod_ParentSlaveID m,
     aMongod_ObservedExecutionState =
       (if Mongod_ObservedStateID m \<noteq> None then ModelExecutionStateToApiMongodState observed
        else ''unobserved'')\<rparr>"

definition ProjectModelProblemToProblem :: "Problem \<Rightarrow> api_Problem" where
  "ProjectModelProblemToProblem m =
    \<lparr>aProblem_ID = Problem_ID m, aProblem_Description = Problem_Description m,
     aProblem_LongDescription = Problem_LongDescription m,
     aProblem_FirstOccurred = Problem_FirstOccurred m, aProblem_LastUpdated = Problem_LastUpdated m,
     aProblem_SlaveId = Problem_SlaveID m, aProblem_ReplicaSetId = Problem_ReplicaSetID m\<rparr>"

subsection \<open>Replica sets and risk groups\<close>

definition ProjectShardingRoleToModelShardingRole :: "string \<Rightarrow> string + ShardingRole" where
  "ProjectShardingRoleToModelShardingRole api =
    (if api = ''none'' then Inr ShardingRoleNone
     else if api = ''shardsvr'' then Inr ShardingRoleShardServer
     else if api = ''configsvr'' then Inr ShardingRoleConfigServer
     else Inl (''cannot convert unknown model.ShardingRole `'' @ api @ ''`''))"

definition ProjectModelShardingRoleToShardingRole :: "ShardingRole \<Rightarrow> string + string" where
  "ProjectModelShardingRoleToShardingRole modelRole =
    (if modelRole = ShardingRoleNone then Inr ''none''
     else if modelRole = ShardingRoleShardServer then Inr ''shardsvr''
     else if modelRole = ShardingRoleConfigServer then Inr ''configsvr''
     else Inl (''cannot convert unknown masterapi.ShardingRole `'' @ modelRole @ ''`''))"

text \<open>The forward projection panics on an unknown role; the message of the panic is on the left.\<close>

definition ProjectModelReplicaSetToReplicaSet :: "ReplicaSet \<Rightarrow> string + api_ReplicaSet" where
  "ProjectModelReplicaSetToReplicaSet m =
    (case ProjectModelShardingRoleToShardingRole (ReplicaSet_ShardingRole m) of
       Inl err \<Rightarrow> Inl err
     | Inr role \<Rightarrow> Inr
         \<lparr>aReplicaSet_ID = ReplicaSet_ID m, aReplicaSet_Name = ReplicaSet_Name m,
          aReplicaSet_PersistentNodeCount = ReplicaSet_PersistentMemberCount m,
          aReplicaSet_VolatileNodeCount = ReplicaSet_VolatileMemberCount m,
          aReplicaSet_ShardingRole = role\<rparr>)"

definition ProjectReplicaSetToModelReplicaSet :: "api_ReplicaSet \<Rightarrow> string + ReplicaSet" where
  "ProjectReplicaSetToModelReplicaSet r =
    (if aReplicaSet_Name r = [] then Inl ''Replica set name may not be empty''
     else case ProjectShardingRoleToModelShardingRole (aReplicaSet_ShardingRole r) of
       Inl err \<Rightarrow> Inl err
     | Inr role \<Rightarrow> Inr
         \<lparr>ReplicaSet_ID = aReplicaSet_ID r, ReplicaSet_Name = aReplicaSet_Name r,
          ReplicaSet_PersistentMemberCount = aReplicaSet_PersistentNodeCount r,
          ReplicaSet_VolatileMemberCount = aReplicaSet_VolatileNodeCount r,
          ReplicaSet_ShardingRole = role, ReplicaSet_Initiated = False\<rparr>)"

definition ProjectModelRiskGroupToRiskGroup :: "RiskGroup \<Rightarrow> api_RiskGroup" where
  "ProjectModelRiskGroupToRiskGroup m =
    \<lparr>aRiskGroup_ID = RiskGroup_ID m, aRiskGroup_Name = RiskGroup_Name m\<rparr>"

definition ProjectRiskGroupToModelRiskGroup :: "api_RiskGroup \<Rightarrow> string + RiskGroup" where
  "ProjectRiskGroupToModelRiskGroup r =
    (if aRiskGroup_Name r = [] then Inl ''Risk group name may not be empty''
     else Inr \<lparr>RiskGroup_ID = aRiskGroup_ID r, RiskGroup_Name = aRiskGroup_Name r\<rparr>)"

subsection \<open>Slaves\<close>

definition concatErrors :: "string \<Rightarrow> string \<Rightarrow> string" where
  "concatErrors err1 err2 = err1 @ '': '' @ err2"

definition PortNumberMin :: "64 word" where "PortNumberMin = 1"
definition PortNumberMax :: "64 word" where "PortNumberMax = 65535"

definition assertIsPortNumber :: "64 word \<Rightarrow> string option" where
  "assertIsPortNumber u =
    (if u < PortNumberMin \<or> u > PortNumberMax
     then Some (''a port number must be in ['' @ dec (unat PortNumberMin) @ '', '' @ dec (unat PortNumberMax) @ '']'')
     else None)"

definition SlaveJSONRepresentationToStruct :: "string \<Rightarrow> string + SlaveState" where
  "SlaveJSONRepresentationToStruct s =
    (if s = ''active'' then Inr SlaveStateActive
     else if s = ''disabled'' then Inr SlaveStateDisabled
     else if s = ''maintenance'' then Inr SlaveStateMaintenance
     else Inl (''cannot convert JSON slave state representation '' @ [CHR 0x27] @ s @ [CHR 0x27] @
       '' to internal value''))"

fun SlaveStateToJSONRepresentation :: "SlaveState \<Rightarrow> string" where
  "SlaveStateToJSONRepresentation SlaveStateActive = ''active''"
| "SlaveStateToJSONRepresentation SlaveStateDisabled = ''disabled''"
| "SlaveStateToJSONRepresentation SlaveStateMaintenance = ''maintenance''"
| "SlaveStateToJSONRepresentation SlaveStateInvalid = ''undefined''"

text \<open>The first error of the loop over the three ports.\<close>

primrec first_port_error :: "64 word list \<Rightarrow> string option" where
  "first_port_error [] = None"
| "first_port_error (u # us) =
    (case assertIsPortNumber u of Some err \<Rightarrow> Some err | None \<Rightarrow> first_port_error us)"

definition ProjectSlaveToModelSlave :: "api_Slave \<Rightarrow> string + Slave" where
  "ProjectSlaveToModelSlave s =
    (let genericErr = ''Could not map slave representation to internal representation'' in
     case first_port_error [aSlave_Port s, aSlave_MongodPortRangeBegin s, aSlave_MongodPortRangeEnd s] of
       Some err \<Rightarrow> Inl (concatErrors genericErr err)
     | None \<Rightarrow>
         if aSlave_Hostname s = [] then Inl (concatErrors genericErr ''Slaves hostname may not be empty'')
         else if aSlave_MongodPortRangeBegin s > aSlave_MongodPortRangeEnd s
         then Inl (concatErrors genericErr ''Port range end may not be smaller than port range begin'')
         else case SlaveJSONRepresentationToStruct (aSlave_ConfiguredState s) of
           Inl stateErr \<Rightarrow> Inl (concatErrors genericErr stateErr)
         | Inr state \<Rightarrow> Inr
             \<lparr>Slave_ID = aSlave_ID s, Slave_Hostname = aSlave_Hostname s,
              Slave_Port = ucast (aSlave_Port s),
              Slave_MongodPortRangeBegin = ucast (aSlave_MongodPortRangeBegin s),
              Slave_MongodPortRangeEnd = ucast (aSlave_MongodPortRangeEnd s),
              Slave_PersistentStorage = aSlave_PersistentStorage s, Slave_ConfiguredState = state,
              Slave_RiskGroupID = aSlave_RiskGroupID s, Slave_ObservationErrorID = None\<rparr>)"

text \<open>\<open>SlaveConfiguredStateTransitioning\<close> counts the Mongods of a disabled slave.\<close>

definition SlaveConfiguredStateTransitioning :: "dbms \<Rightarrow> Slave \<Rightarrow> bool action" where
  "SlaveConfiguredStateTransitioning D s =
    (case Slave_ConfiguredState s of
       SlaveStateDisabled \<Rightarrow>
         bindM (sql_query D (\<lambda>n db. length (mongods_on_slave db (Slave_ID s))))
           (\<lambda>count. if count = 0 then returnM False else returnM True)
     | _ \<Rightarrow> returnM False)"

definition project_slave_fields :: "Slave \<Rightarrow> bool \<Rightarrow> api_Slave" where
  "project_slave_fields m transitioning =
    \<lparr>aSlave_ID = Slave_ID m, aSlave_Hostname = Slave_Hostname m, aSlave_Port = ucast (Slave_Port m),
     aSlave_MongodPortRangeBegin = ucast (Slave_MongodPortRangeBegin m),
     aSlave_MongodPortRangeEnd = ucast (Slave_MongodPortRangeEnd m),
     aSlave_PersistentStorage = Slave_PersistentStorage m,
     aSlave_ConfiguredState = SlaveStateToJSONRepresentation (Slave_ConfiguredState m),
     aSlave_ConfiguredStateTransitioning = transitioning, aSlave_RiskGroupID = Slave_RiskGroupID m\<rparr>"

definition ProjectModelSlaveToSlave :: "dbms \<Rightarrow> Slave \<Rightarrow> api_Slave action" where
  "ProjectModelSlaveToSlave D m =
    bindM (SlaveConfiguredStateTransitioning D m) (\<lambda>transitioning.
    returnM (project_slave_fields m transitioning))"

section \<open>Faithful pairs\<close>

text \<open>What is accepted by a conversion comes back unchanged; hence nothing is confused.  If the
  inverse accepts nothing else, the two are inverse to each other.\<close>

locale projection =
  fixes project :: "'a \<Rightarrow> string + 'b" and inject :: "'b \<Rightarrow> string + 'a"
  assumes back_project: "project a = Inr b \<Longrightarrow> inject b = Inr a"
begin

lemma project_inj: "project a = Inr c \<Longrightarrow> project b = Inr c \<Longrightarrow> a = b"
  using back_project by (metis sum.inject(2))

end

locale inverse_projection = projection +
  assumes project_back: "inject b = Inr a \<Longrightarrow> project a = Inr b"
begin

lemma project_iff: "project a = Inr b \<longleftrightarrow> inject b = Inr a"
  using back_project project_back by blast

end

lemmas role_defs = ProjectModelShardingRoleToMSPShardingRole_def
  ProjectMSPShardingRoleToModelShardingRole_def ProjectShardingRoleToModelShardingRole_def
  ProjectModelShardingRoleToShardingRole_def

interpretation msp_role: inverse_projection ProjectModelShardingRoleToMSPShardingRole
  ProjectMSPShardingRoleToModelShardingRole
  by unfold_locales (auto simp: role_defs split: if_splits)

interpretation api_role: inverse_projection ProjectShardingRoleToModelShardingRole
  ProjectModelShardingRoleToShardingRole
  by unfold_locales (auto simp: role_defs split: if_splits)

interpretation api_replica_set: projection ProjectReplicaSetToModelReplicaSet
  ProjectModelReplicaSetToReplicaSet
  by unfold_locales (auto simp: ProjectReplicaSetToModelReplicaSet_def ProjectModelReplicaSetToReplicaSet_def
      api_role.project_iff split: if_splits sum.splits)

interpretation api_risk_group: projection ProjectRiskGroupToModelRiskGroup
  "\<lambda>m. Inr (ProjectModelRiskGroupToRiskGroup m)"
  by unfold_locales (auto simp: ProjectRiskGroupToModelRiskGroup_def ProjectModelRiskGroupToRiskGroup_def
      split: if_splits)

lemma port_roundtrip:
  assumes "assertIsPortNumber u = None"
  shows "unat (ucast u :: PortNumber) = unat u" and "ucast (ucast u :: PortNumber) = u"
    and "0 < unat u"
proof -
  have u: "1 \<le> unat u" "unat u \<le> 65535"
    using assms by (auto simp: assertIsPortNumber_def PortNumberMin_def PortNumberMax_def
        word_less_nat_alt word_le_nat_alt split: if_splits)
  then show *: "unat (ucast u :: PortNumber) = unat u"
    by (simp add: unsigned_ucast_eq unsigned_take_bit_eq take_bit_nat_eq_self)
  show "0 < unat u"
    using u by simp
  have "unat (ucast (ucast u :: PortNumber) :: 64 word) = unat u"
    using * u by (simp add: unsigned_ucast_eq unsigned_take_bit_eq take_bit_nat_eq_self)
  then show "ucast (ucast u :: PortNumber) = u"
    by (simp add: word_unat_eq_iff)
qed

lemma first_port_error_None: "first_port_error us = None \<longleftrightarrow> (\<forall>u \<in> set us. assertIsPortNumber u = None)"
  by (induction us) (auto split: option.splits)

lemma SlaveState_roundtrip:
  "SlaveJSONRepresentationToStruct s = Inr st \<Longrightarrow> SlaveStateToJSONRepresentation st = s"
  by (auto simp: SlaveJSONRepresentationToStruct_def split: if_splits)

lemma slave_projection_back:
  assumes "ProjectSlaveToModelSlave s = Inr m"
  shows "project_slave_fields m (aSlave_ConfiguredStateTransitioning s) = s \<and>
    Slave_Hostname m \<noteq> [] \<and> 0 < unat (Slave_Port m) \<and> 0 < unat (Slave_MongodPortRangeBegin m) \<and>
    Slave_MongodPortRangeBegin m \<le> Slave_MongodPortRangeEnd m"
proof -
  have ports: "assertIsPortNumber (aSlave_Port s) = None"
      "assertIsPortNumber (aSlave_MongodPortRangeBegin s) = None"
      "assertIsPortNumber (aSlave_MongodPortRangeEnd s) = None"
    and host: "aSlave_Hostname s \<noteq> []"
    and range: "aSlave_MongodPortRangeBegin s \<le> aSlave_MongodPortRangeEnd s"
    using assms first_port_error_None
      [of "[aSlave_Port s, aSlave_MongodPortRangeBegin s, aSlave_MongodPortRangeEnd s]"]
    by (auto simp: ProjectSlaveToModelSlave_def Let_def split: option.splits if_splits)
  obtain st where st: "SlaveJSONRepresentationToStruct (aSlave_ConfiguredState s) = Inr st"
    and m: "m = \<lparr>Slave_ID = aSlave_ID s, Slave_Hostname = aSlave_Hostname s,
        Slave_Port = ucast (aSlave_Port s),
        Slave_MongodPortRangeBegin = ucast (aSlave_MongodPortRangeBegin s),
        Slave_MongodPortRangeEnd = ucast (aSlave_MongodPortRangeEnd s),
        Slave_PersistentStorage = aSlave_PersistentStorage s, Slave_ConfiguredState = st,
        Slave_RiskGroupID = aSlave_RiskGroupID s, Slave_ObservationErrorID = None\<rparr>"
    using assms by (auto simp: ProjectSlaveToModelSlave_def Let_def split: option.splits if_splits sum.splits)
  show ?thesis
    using ports host range SlaveState_roundtrip [OF st]
    by (simp add: m project_slave_fields_def port_roundtrip word_le_nat_alt)
qed

section \<open>Properties\<close>

text \<open>A slave that \<open>ProjectSlaveToModelSlave\<close> accepts has port numbers that fit a
  16-bit port without truncation, a host name, and a port range in order.  Projecting the result
  back gives the same object, up to the field that tells whether its state is in transition.\<close>

theorem slave_projection_roundtrip:
  assumes "ProjectSlaveToModelSlave s = Inr m"
  shows "project_slave_fields m (aSlave_ConfiguredStateTransitioning s) = s \<and>
    Slave_Hostname m \<noteq> [] \<and> 0 < unat (Slave_Port m) \<and> 0 < unat (Slave_MongodPortRangeBegin m) \<and>
    Slave_MongodPortRangeBegin m \<le> Slave_MongodPortRangeEnd m"
  by (rule slave_projection_back [OF assms])

definition example_api_slave :: api_Slave where
  "example_api_slave = \<lparr>aSlave_ID = 0, aSlave_Hostname = ''host1'', aSlave_Port = 8081,
     aSlave_MongodPortRangeBegin = 18080, aSlave_MongodPortRangeEnd = 18081,
     aSlave_PersistentStorage = True, aSlave_ConfiguredState = ''active'',
     aSlave_ConfiguredStateTransitioning = False, aSlave_RiskGroupID = None\<rparr>"

theorem slave_projection_roundtrip_witness:
  "\<exists>m. ProjectSlaveToModelSlave example_api_slave = Inr m \<and>
    project_slave_fields m False = example_api_slave"
proof -
  obtain m where m: "ProjectSlaveToModelSlave example_api_slave = Inr m"
    by (simp add: ProjectSlaveToModelSlave_def example_api_slave_def assertIsPortNumber_def PortNumberMin_def
        PortNumberMax_def SlaveJSONRepresentationToStruct_def)
  moreover have "aSlave_ConfiguredStateTransitioning example_api_slave = False"
    by (simp add: example_api_slave_def)
  ultimately show ?thesis
    using slave_projection_roundtrip [OF m] by auto
qed

text \<open>C28: replica sets, risk groups and sharding roles that the API accepts come back
  unchanged when they are read again, and the sharding roles of the API, the database and the
  protocol correspond one to one.\<close>

theorem api_projections_faithful:
  "(ProjectReplicaSetToModelReplicaSet r = Inr mr \<longrightarrow> ProjectModelReplicaSetToReplicaSet mr = Inr r) \<and>
   (ProjectRiskGroupToModelRiskGroup g = Inr mg \<longrightarrow> ProjectModelRiskGroupToRiskGroup mg = g) \<and>
   (ProjectShardingRoleToModelShardingRole a = Inr b \<longleftrightarrow> ProjectModelShardingRoleToShardingRole b = Inr a) \<and>
   (ProjectModelShardingRoleToMSPShardingRole b = Inr c \<longleftrightarrow>
      ProjectMSPShardingRoleToModelShardingRole c = Inr b)"
  using api_replica_set.back_project api_risk_group.back_project api_role.project_iff msp_role.project_iff
  by auto

theorem api_projections_faithful_witness:
  "ProjectModelReplicaSetToReplicaSet \<lparr>ReplicaSet_ID = 1, ReplicaSet_Name = ''rs'',
     ReplicaSet_PersistentMemberCount = 1, ReplicaSet_VolatileMemberCount = 2,
     ReplicaSet_ShardingRole = ShardingRoleNone, ReplicaSet_Initiated = False\<rparr> =
   Inr \<lparr>aReplicaSet_ID = 1, aReplicaSet_Name = ''rs'', aReplicaSet_PersistentNodeCount = 1,
     aReplicaSet_VolatileNodeCount = 2, aReplicaSet_ShardingRole = ''none''\<rparr>"
proof -
  have "ProjectReplicaSetToModelReplicaSet \<lparr>aReplicaSet_ID = 1, aReplicaSet_Name = ''rs'',
      aReplicaSet_PersistentNodeCount = 1, aReplicaSet_VolatileNodeCount = 2,
      aReplicaSet_ShardingRole = ''none''\<rparr> = Inr \<lparr>ReplicaSet_ID = 1, ReplicaSet_Name = ''rs'',
      ReplicaSet_PersistentMemberCount = 1, ReplicaSet_VolatileMemberCount = 2,
      ReplicaSet_ShardingRole = ShardingRoleNone, ReplicaSet_Initiated = False\<rparr>"
    by (simp add: ProjectReplicaSetToModelReplicaSet_def ProjectShardingRoleToModelShardingRole_def)
  then show ?thesis
    using api_projections_faithful by blast
qed

end
