(* ===== verification/Monitor.thy ===== *)
theory Monitor
  imports Members Projections
begin

text \<open>
  The monitor, \<open>src/master/monitor.go\<close>: what the slaves report is written into the tables and
  compared with what is desired, and the results go to the bus.

  Two behaviours of gorm enter as parameters and documented facts.  A struct as query condition
  ignores fields that hold the zero value.  \<open>Save\<close> of a Mongod also saves the structs it holds, here
  its observed state and its observation error; this call is the parameter \<open>saveMongod\<close>.
\<close>

section \<open>Comparisons\<close>

fun MspMongodStateToModelExecutionState :: "MongodState \<Rightarrow> MongodExecutionState" where
  "MspMongodStateToModelExecutionState e =
    (if e = MongodStateDestroyed then MongodExecutionStateDestroyed
     else if e = MongodStateNotRunning then MongodExecutionStateNotRunning
     else if e = MongodStateRecovering then MongodExecutionStateRecovering
     else if e = MongodStateRunning then MongodExecutionStateRunning
     else if e = MongodStateForceDestroyed then MongodExecutionStateForceDestroyed
     else if e = MongodStateUninitialized then MongodExecutionStateUninitiated
     else MongodExecutionStateInvalid)"

definition mspErrorToModelMSPError :: "mspError \<Rightarrow> MSPError" where
  "mspErrorToModelMSPError e =
    \<lparr>MSPError_ID = 0, MSPError_Identifier = Error_Identifier e, MSPError_Description = Error_Description e,
     MSPError_LongDescription = Error_LongDescription e\<rparr>"

definition MongodStatesEquivalent :: "MongodStateRow \<Rightarrow> MongodStateRow \<Rightarrow> bool" where
  "MongodStatesEquivalent a b \<longleftrightarrow>
    State_ExecutionState a = State_ExecutionState b \<and> State_ShardingRole a = State_ShardingRole b"

definition ReplicaSetMembersEquivalent :: "ReplicaSetMember \<Rightarrow> ReplicaSetMember \<Rightarrow> bool" where
  "ReplicaSetMembersEquivalent a b \<longleftrightarrow> Member_HostPort a = Member_HostPort b \<and>
    Member_Priority a = Member_Priority b \<and> Member_Votes a = Member_Votes b"

definition MSPReplicaSetMembersDeepEqualsIgnoringOrder ::
  "ReplicaSetMember list \<Rightarrow> ReplicaSetMember list \<Rightarrow> bool" where
  "MSPReplicaSetMembersDeepEqualsIgnoringOrder a b =
    (if length a \<noteq> length b then False
     else let seen = foldl (\<lambda>seen m. insert m seen) {} a in list_all (\<lambda>m. m \<in> seen) b)"

definition mongodTuple :: "Slave \<Rightarrow> mspMongod \<Rightarrow> string" where
  "mongodTuple s m = ''('' @ Slave_Hostname s @ ''(id='' @ show_int (Slave_ID s) @ ''),'' @
    dec (unat (mspMongod_Port m)) @ '','' @ Config_ReplicaSetName (mspMongod_ReplicaSetConfig m) @ '')''"

section \<open>Writing observations\<close>

definition slave_address :: "Slave \<Rightarrow> string" where
  "slave_address s = ''slave `'' @ Slave_Hostname s @ '':'' @ dec (unat (Slave_Port s)) @ ''`''"

definition updateSlaveObservationError ::
  "dbms \<Rightarrow> (err \<Rightarrow> string) \<Rightarrow> Slave \<Rightarrow> mspError option \<Rightarrow> unit action" where
  "updateSlaveObservationError D show_err slave slaveObservationError =
    (case slaveObservationError of
       Some e \<Rightarrow>
         wrapErr show_err (''monitor: database error when updating '' @ slave_address slave @
             '' ObservationErrorID field: '')
           (let modelObservationErr = mspErrorToModelMSPError e in
            case Slave_ObservationErrorID slave of
              Some i \<Rightarrow> sql_exec D (update_msp_error i (\<lambda>_. modelObservationErr\<lparr>MSPError_ID := i\<rparr>))
            | None \<Rightarrow> bindM (insert_msp_error D modelObservationErr)
                (\<lambda>e'. sql_exec D (update_slave (Slave_ID slave)
                  (\<lambda>s. s\<lparr>Slave_ObservationErrorID := Some (MSPError_ID e')\<rparr>))))
     | None \<Rightarrow>
         (case Slave_ObservationErrorID slave of
            None \<Rightarrow> returnM ()
          | Some i \<Rightarrow>
              bindM (wrapErr show_err (''monitor: database error when clearing observation error for '' @
                  slave_address slave @ '': '')
                (sql_stmt D (\<lambda>n db. Inr (length (filter (\<lambda>e. MSPError_ID e = i) (msp_errors db)),
                   delete_msp_error i db))))
              (\<lambda>rowsAffected.
                if rowsAffected = 0 then raiseM (Failed (ErrMsg
                  (''monitor: clearing observation error for '' @ slave_address slave @ '' affected 0 rows'')))
                else returnM ())))"

definition is_reported :: "mspMongod list \<Rightarrow> Mongod \<Rightarrow> bool" where
  "is_reported observedMongods modelMongod \<longleftrightarrow>
    list_ex (\<lambda>observedMongod. Mongod_Port modelMongod = mspMongod_Port observedMongod \<and>
      Mongod_ReplSetName modelMongod = Config_ReplicaSetName (mspMongod_ReplicaSetConfig observedMongod))
      observedMongods"

text \<open>A Mongod the slave does not report is observed as destroyed.  The error of the first update is
  dropped by the code; the \<open>%s\<close> of an integer prints as Go prints a wrong verb.\<close>

definition unobserved_mongod :: "dbms \<Rightarrow> (err \<Rightarrow> string) \<Rightarrow> Mongod \<Rightarrow> unit action" where
  "unobserved_mongod D show_err modelMongod =
    bindM (case Mongod_ObservedStateID modelMongod of
        Some i \<Rightarrow>
          bindM (attempt (sql_exec D (update_state i
            (\<lambda>st. st\<lparr>State_ExecutionState := MongodExecutionStateDestroyed\<rparr>)))) (\<lambda>_. returnM ())
      | None \<Rightarrow>
          bindM (wrapErr show_err (''monitor: could not create observed MongodState for observed destroyed Mongod `%!s(int64='' @
              show_int (Mongod_ID modelMongod) @ '')`: '')
            (insert_state D \<lparr>State_ID = 0, State_ParentMongodID = Mongod_ID modelMongod,
               State_ShardingRole = ShardingRoleNone, State_ExecutionState = MongodExecutionStateDestroyed\<rparr>))
          (\<lambda>observedState.
            wrapErr show_err (''monitor: could not create observed MongodState backreference for observed destroyed Mongod `%!s(int64='' @
              show_int (Mongod_ID modelMongod) @ '')`: '')
            (sql_exec D (update_mongod (Mongod_ID modelMongod)
              (\<lambda>m. m\<lparr>Mongod_ObservedStateID := Some (State_ID observedState)\<rparr>))))) (\<lambda>_.
    if Mongod_ObservationErrorID modelMongod \<noteq> None
    then sql_exec D (update_mongod (Mongod_ID modelMongod) (\<lambda>m. m\<lparr>Mongod_ObservationErrorID := None\<rparr>))
    else returnM ())"

definition updateMongodStatesNotObservedOnSlave ::
  "dbms \<Rightarrow> (err \<Rightarrow> string) \<Rightarrow> Slave \<Rightarrow> mspMongod list \<Rightarrow> unit action" where
  "updateMongodStatesNotObservedOnSlave D show_err slave observedMongods =
    bindM (sql_query D (\<lambda>n db. scan D n (mongods_on_slave db (Slave_ID slave)))) (\<lambda>modelMongods.
    forM modelMongods (\<lambda>modelMongod.
      if is_reported observedMongods modelMongod then returnM ()
      else unobserved_mongod D show_err modelMongod))"

text \<open>\<open>First\<close> with a struct as condition.\<close>

definition matches_observed :: "Slave \<Rightarrow> mspMongod \<Rightarrow> Mongod \<Rightarrow> bool" where
  "matches_observed slave om m \<longleftrightarrow>
    (Slave_ID slave = 0 \<or> Mongod_ParentSlaveID m = Slave_ID slave) \<and>
    (mspMongod_Port om = 0 \<or> Mongod_Port m = mspMongod_Port om) \<and>
    (Config_ReplicaSetName (mspMongod_ReplicaSetConfig om) = [] \<or>
     Mongod_ReplSetName m = Config_ReplicaSetName (mspMongod_ReplicaSetConfig om))"

definition find_observed :: "dbms \<Rightarrow> Slave \<Rightarrow> mspMongod \<Rightarrow> (Mongod option) action" where
  "find_observed D slave om = sql_query D (\<lambda>n db.
    limit1 (order_by D n Mongod_ID (filter (matches_observed slave om) (mongods db))))"

definition model_role :: "mspMongod \<Rightarrow> ShardingRole" where
  "model_role om =
    (case ProjectMSPShardingRoleToModelShardingRole (Config_ShardingRole (mspMongod_ReplicaSetConfig om)) of
       Inl _ \<Rightarrow> ShardingRoleNone | Inr role \<Rightarrow> role)"

text \<open>A Mongod that is not in the database is entered as one to be destroyed by force.\<close>

definition create_unknown :: "dbms \<Rightarrow> (err \<Rightarrow> string) \<Rightarrow> Slave \<Rightarrow> mspMongod \<Rightarrow> Mongod action" where
  "create_unknown D show_err slave om =
    bindM (wrapErr show_err (''monitor: could not create database representation for unknown observed Mongod `'' @
        mongodTuple slave om @ ''`: '')
      (insert_mongod D \<lparr>Mongod_ID = 0, Mongod_Port = mspMongod_Port om,
         Mongod_ReplSetName = Config_ReplicaSetName (mspMongod_ReplicaSetConfig om),
         Mongod_ObservationErrorID = None, Mongod_LastEstablishStateErrorID = None,
         Mongod_ParentSlaveID = Slave_ID slave, Mongod_ReplicaSetID = None,
         Mongod_DesiredStateID = 0, Mongod_ObservedStateID = None\<rparr>)) (\<lambda>dbMongod.
    bindM (wrapErr show_err (''monitor: could not create desired MongodState for unknown observed Mongod `'' @
        mongodTuple slave om @ ''`: '')
      (insert_state D \<lparr>State_ID = 0, State_ParentMongodID = Mongod_ID dbMongod,
         State_ShardingRole = model_role om,
         State_ExecutionState = MongodExecutionStateForceDestroyed\<rparr>)) (\<lambda>desiredState.
    bindM (wrapErr show_err (''monitor: could not update DesiredStateID column for unknown observed Mongod `'' @
        mongodTuple slave om @ ''`: '')
      (sql_exec D (update_mongod (Mongod_ID dbMongod)
        (\<lambda>m. m\<lparr>Mongod_DesiredStateID := State_ID desiredState\<rparr>)))) (\<lambda>_.
    returnM (dbMongod\<lparr>Mongod_DesiredStateID := State_ID desiredState\<rparr>))))"

text \<open>\<open>updateObservedState\<close>; the error of the projection is replaced by the role \<open>none\<close>.\<close>

definition updateObservedState :: "mspMongod \<Rightarrow> MongodStateRow \<Rightarrow> MongodStateRow" where
  "updateObservedState om st = st\<lparr>State_ExecutionState := MspMongodStateToModelExecutionState (mspMongod_State om),
     State_ShardingRole := model_role om\<rparr>"

definition zeroState :: MongodStateRow where
  "zeroState = \<lparr>State_ID = 0, State_ParentMongodID = 0, State_ShardingRole = [],
     State_ExecutionState = MongodExecutionStateInvalid\<rparr>"

definition zeroMSPError :: MSPError where
  "zeroMSPError = \<lparr>MSPError_ID = 0, MSPError_Identifier = [], MSPError_Description = [],
     MSPError_LongDescription = []\<rparr>"

text \<open>\<open>tx.Save(&dbMongod)\<close>, with the observed state and the observation error the struct holds.\<close>

type_synonym save_mongod = "Mongod \<Rightarrow> MongodStateRow \<Rightarrow> MSPError \<Rightarrow> nat \<Rightarrow> DB \<Rightarrow> DBError + DB"

definition observe_mongod ::
  "dbms \<Rightarrow> save_mongod \<Rightarrow> (err \<Rightarrow> string) \<Rightarrow> Slave \<Rightarrow> mspMongod \<Rightarrow> (ID \<rightharpoonup> mspMongod) \<Rightarrow> (ID \<rightharpoonup> mspMongod) action"
where
  "observe_mongod D saveMongod show_err slave om modelToObservedMap =
    bindM (wrapErr show_err (''monitor: database error when querying for Mongod corresponding to observed Mongod `'' @
        mongodTuple slave om @ ''`: '') (find_observed D slave om)) (\<lambda>found.
    bindM (case found of Some m \<Rightarrow> returnM m | None \<Rightarrow> create_unknown D show_err slave om) (\<lambda>dbMongod.
    bindM (wrapErr show_err (''monitor: internal inconsistency: could not get desired state for Mongod `'' @
        mongodTuple slave om @ ''`: '') (sql_query D (\<lambda>n db. lookup_state db (Mongod_DesiredStateID dbMongod)))) (\<lambda>_.
    bindM (wrapErr show_err (''monitor: database error when querying for observed state of Mongod `'' @
        mongodTuple slave om @ ''`: '')
      (sql_query D (\<lambda>n db. case Mongod_ObservedStateID dbMongod of None \<Rightarrow> None | Some i \<Rightarrow> lookup_state db i)))
      (\<lambda>observed.
    let observedState = (case observed of None \<Rightarrow> zeroState | Some st \<Rightarrow> st);
        (observedState', observationError) =
          (case mspMongod_StatusError om of
             None \<Rightarrow> (updateObservedState om (observedState\<lparr>State_ParentMongodID := Mongod_ID dbMongod\<rparr>), zeroMSPError)
           | Some e \<Rightarrow> (observedState, mspErrorToModelMSPError e))
    in bindM (wrapErr show_err (''monitor: error persisting updated observed state for mongod `'' @
          mongodTuple slave om @ ''`: '')
        (sql_stmt D (\<lambda>n db. map_sum id (\<lambda>db'. ((), db')) (saveMongod dbMongod observedState' observationError n db))))
        (\<lambda>_. returnM (modelToObservedMap(Mongod_ID dbMongod \<mapsto> om)))))))"

definition updateOrCreateObservedMongodStates ::
  "dbms \<Rightarrow> save_mongod \<Rightarrow> (err \<Rightarrow> string) \<Rightarrow> Slave \<Rightarrow> mspMongod list \<Rightarrow> (ID \<rightharpoonup> mspMongod) action" where
  "updateOrCreateObservedMongodStates D saveMongod show_err slave observedMongods =
    foldM (observe_mongod D saveMongod show_err slave) observedMongods Map.empty"

section \<open>Messages\<close>

definition compareStates ::
  "dbms \<Rightarrow> (err \<Rightarrow> string) \<Rightarrow> (Mongod \<Rightarrow> string) \<Rightarrow> Mongod \<Rightarrow> mspMongod \<Rightarrow> MongodMatchStatus action" where
  "compareStates D show_err show_mongod mongod observedMongod =
    (if Mongod_ObservedStateID mongod = None
     then returnM \<lparr>Match_Mismatch = True, Match_Mongod = mongod\<rparr>
     else
       bindM (wrapErr show_err (''error fetching DesiredState for mongod `'' @ show_mongod mongod @ ''`: '')
         (sql_query D (\<lambda>n db. lookup_state db (Mongod_DesiredStateID mongod)))) (\<lambda>desired.
       case desired of
         None \<Rightarrow> raiseM (Failed (ErrMsg (''error fetching DesiredState for mongod `'' @ show_mongod mongod @
           ''`: record not found'')))
       | Some desiredState \<Rightarrow>
       bindM (wrapErr show_err (''error fetching ObservedState for mongod `'' @ show_mongod mongod @ ''`: '')
         (sql_query D (\<lambda>n db. case Mongod_ObservedStateID mongod of None \<Rightarrow> None | Some i \<Rightarrow> lookup_state db i)))
         (\<lambda>observed.
       case observed of
         None \<Rightarrow> raiseM (Failed (ErrMsg (''error fetching ObservedState for mongod `'' @ show_mongod mongod @
           ''`: record not found'')))
       | Some observedState \<Rightarrow>
       bindM (case Mongod_ReplicaSetID mongod of
           None \<Rightarrow> returnM False
         | Some rid \<Rightarrow>
             bindM (wrapErr show_err ''error computing ReplicaSetMembers: ''
               (DesiredMSPReplicaSetMembersForReplicaSetID D show_err rid)) (\<lambda>(desiredMembers, _).
             returnM (MSPReplicaSetMembersDeepEqualsIgnoringOrder desiredMembers
               (Config_ReplicaSetMembers (mspMongod_ReplicaSetConfig observedMongod))))) (\<lambda>replicaSetMembersEquivalent.
       returnM \<lparr>Match_Mismatch =
           (\<not> (MongodStatesEquivalent desiredState observedState \<and> replicaSetMembersEquivalent)),
         Match_Mongod = mongod\<rparr>))))"

definition sendMongodMismatchStatusToBus ::
  "dbms \<Rightarrow> (err \<Rightarrow> string) \<Rightarrow> (Mongod \<Rightarrow> string) \<Rightarrow> Slave \<Rightarrow> (ID \<rightharpoonup> mspMongod) \<Rightarrow> unit action" where
  "sendMongodMismatchStatusToBus D show_err show_mongod slave modelToObservedMap =
    bindM (sql_query D (\<lambda>n db. scan D n (mongods_on_slave db (Slave_ID slave)))) (\<lambda>modelMongods.
    forM modelMongods (\<lambda>modelMongod.
      bindM (attempt (compareStates D show_err show_mongod modelMongod
        (case modelToObservedMap (Mongod_ID modelMongod) of None \<Rightarrow> zeroMspMongod | Some om \<Rightarrow> om))) (\<lambda>r.
      case r of Inl _ \<Rightarrow> returnM () | Inr busMessage \<Rightarrow> send (MongodMatchStatusMsg busMessage))))"

definition connection_status :: "Slave \<Rightarrow> mspError option \<Rightarrow> ConnectionStatus" where
  "connection_status slave mspErr =
    \<lparr>Connection_Unreachable = (case mspErr of None \<Rightarrow> False | Some e \<Rightarrow> Error_Identifier e = CommunicationError),
     Connection_Slave = slave,
     Connection_CommunicationError = (case mspErr of None \<Rightarrow> zeroMspError | Some e \<Rightarrow> e)\<rparr>"

text \<open>\<open>handleObservation\<close>, and its part after the early return for a slave that could not be observed.  The
  transaction began in \<open>db0\<close>; the second, read-only one is rolled back.\<close>

definition handle_reported ::
  "dbms \<Rightarrow> save_mongod \<Rightarrow> (err \<Rightarrow> string) \<Rightarrow> (Mongod \<Rightarrow> string) \<Rightarrow> DB \<Rightarrow> mspMongod list \<Rightarrow> Slave \<Rightarrow> unit action" where
  "handle_reported D saveMongod show_err show_mongod db0 observedMongods slave =
    bindM (attempt (updateMongodStatesNotObservedOnSlave D show_err slave observedMongods)) (\<lambda>r. case r of
      Inl _ \<Rightarrow> rollback db0
    | Inr _ \<Rightarrow>
    bindM (attempt (updateOrCreateObservedMongodStates D saveMongod show_err slave observedMongods)) (\<lambda>r. case r of
      Inl _ \<Rightarrow> rollback db0
    | Inr modelToObservedMap \<Rightarrow>
    bindM (attempt (commit D db0)) (\<lambda>_.
    bindM (getM txDB) (\<lambda>db1.
    bindM (attempt (sendMongodMismatchStatusToBus D show_err show_mongod slave modelToObservedMap)) (\<lambda>_.
    rollback db1)))))"

definition handleObservation ::
  "dbms \<Rightarrow> save_mongod \<Rightarrow> (err \<Rightarrow> string) \<Rightarrow> (Mongod \<Rightarrow> string) \<Rightarrow>
   mspMongod list \<Rightarrow> mspError option \<Rightarrow> Slave \<Rightarrow> unit action" where
  "handleObservation D saveMongod show_err show_mongod observedMongods mspErr slave =
    bindM (send (ConnectionStatusMsg (connection_status slave mspErr))) (\<lambda>_.
    bindM (getM txDB) (\<lambda>db0.
    bindM (attempt (updateSlaveObservationError D show_err slave mspErr)) (\<lambda>r. case r of
      Inl _ \<Rightarrow> rollback db0
    | Inr _ \<Rightarrow>
        if mspErr \<noteq> None then bindM (attempt (commit D db0)) (\<lambda>_. returnM ())
        else handle_reported D saveMongod show_err show_mongod db0 observedMongods slave)))"

definition observed_status :: "DB \<Rightarrow> ReplicaSet \<Rightarrow> ObservedReplicaSetConstraintStatus" where
  "observed_status db r =
    (let configured = (\<lambda>ps. count_members (replica_set_configured_members db) (ReplicaSet_ID r) ps);
         actual = (\<lambda>ps. count_members (replica_set_effective_members_for_monitoring db) (ReplicaSet_ID r) ps)
     in \<lparr>Observed_Unsatisfied = (configured False > actual False \<or> configured True > actual True),
         Observed_ReplicaSet = r,
         Observed_ConfiguredVolatileCount = configured False, Observed_ConfiguredPersistentCount = configured True,
         Observed_ActualVolatileCount = actual False, Observed_ActualPersistentCount = actual True\<rparr>)"

definition observeReplicaSets :: "dbms \<Rightarrow> unit action" where
  "observeReplicaSets D =
    bindM (attempt (sql_query D (\<lambda>n db. map (\<lambda>r. (observed_status db r, r)) (scan D n (replica_sets db))))) (\<lambda>r.
    case r of
      Inl _ \<Rightarrow> returnM ()
    | Inr rows \<Rightarrow> forM rows (\<lambda>(status, replicaSet).
        bindM (send (ObservedConstraintMsg status)) (\<lambda>_.
        send (InitiationMsg \<lparr>Initiation_Initiated = ReplicaSet_Initiated replicaSet,
          Initiation_ReplicaSet = replicaSet\<rparr>))))"

text \<open>One tick of \<open>Run\<close>.  All slaves are asked at once; \<open>arrival\<close> is the order in which their answers
  come in, and the consumer handles one at a time.\<close>

definition monitor_tick ::
  "dbms \<Rightarrow> save_mongod \<Rightarrow> (err \<Rightarrow> string) \<Rightarrow> (Mongod \<Rightarrow> string) \<Rightarrow>
   (HostPort \<Rightarrow> mspMongod list \<times> mspError option) \<Rightarrow> (Slave list \<Rightarrow> Slave list) \<Rightarrow> unit action" where
  "monitor_tick D saveMongod show_err show_mongod RequestStatus arrival =
    bindM (attempt (sql_query D (\<lambda>n db. scan D n (slaves db)))) (\<lambda>r.
    let found = (case r of Inl _ \<Rightarrow> [] | Inr ss \<Rightarrow> ss) in
    bindM (forM (arrival found) (\<lambda>s.
        case RequestStatus \<lparr>HostPort_Hostname = Slave_Hostname s, HostPort_Port = Slave_Port s\<rparr> of
          (observedMongods, mspErr) \<Rightarrow>
            handleObservation D saveMongod show_err show_mongod observedMongods mspErr s)) (\<lambda>_.
    observeReplicaSets D))"

section \<open>Members compared\<close>

lemma foldl_insert: "foldl (\<lambda>seen m. insert m seen) S xs = S \<union> set xs"
  by (induction xs arbitrary: S) auto

lemma DeepEquals_iff:
  "MSPReplicaSetMembersDeepEqualsIgnoringOrder a b \<longleftrightarrow> length a = length b \<and> set b \<subseteq> set a"
  by (auto simp: MSPReplicaSetMembersDeepEqualsIgnoringOrder_def Let_def foldl_insert list_all_iff)

lemma DeepEquals_distinct:
  assumes "distinct b"
  shows "MSPReplicaSetMembersDeepEqualsIgnoringOrder a b \<longleftrightarrow> mset a = mset b"
proof
  assume "MSPReplicaSetMembersDeepEqualsIgnoringOrder a b"
  then have len: "length a = length b" and sub: "set b \<subseteq> set a"
    by (simp_all add: DeepEquals_iff)
  have "card (set a) \<le> card (set b)"
    using len assms by (metis card_length distinct_card)
  with sub have eq: "set a = set b"
    by (metis card_seteq finite_set)
  then have "distinct a"
    using len assms by (metis card_distinct distinct_card)
  with eq assms show "mset a = mset b"
    by (metis set_eq_iff_mset_eq_distinct)
next
  assume "mset a = mset b"
  then show "MSPReplicaSetMembersDeepEqualsIgnoringOrder a b"
    by (auto simp: DeepEquals_iff dest: mset_eq_setD mset_eq_length)
qed

section \<open>Mongods a slave does not report\<close>

text \<open>The columns an observation never touches.\<close>

definition same_mongod :: "Mongod \<Rightarrow> Mongod \<Rightarrow> bool" where
  "same_mongod m m' \<longleftrightarrow> Mongod_ID m' = Mongod_ID m \<and> Mongod_Port m' = Mongod_Port m \<and>
    Mongod_ReplSetName m' = Mongod_ReplSetName m \<and> Mongod_ParentSlaveID m' = Mongod_ParentSlaveID m \<and>
    Mongod_ReplicaSetID m' = Mongod_ReplicaSetID m \<and> Mongod_DesiredStateID m' = Mongod_DesiredStateID m"

definition observed_gone :: "DB \<Rightarrow> Mongod \<Rightarrow> bool" where
  "observed_gone db m \<longleftrightarrow>
    observed_exec db m = Some MongodExecutionStateDestroyed \<and> Mongod_ObservationErrorID m = None"

text \<open>The Mongods with the given ids are observed as destroyed, nothing else changes.\<close>

definition unobserves :: "ID set \<Rightarrow> DB \<Rightarrow> DB \<Rightarrow> bool" where
  "unobserves ids db db' \<longleftrightarrow>
    db_wf db' \<and> slaves db' = slaves db \<and> replica_sets db' = replica_sets db \<and>
    (\<forall>m \<in> set (mongods db). Mongod_ID m \<notin> ids \<longrightarrow> m \<in> set (mongods db') \<and>
      desired_exec db' m = desired_exec db m \<and> observed_exec db' m = observed_exec db m) \<and>
    (\<forall>m \<in> set (mongods db). Mongod_ID m \<in> ids \<longrightarrow> (\<exists>m' \<in> set (mongods db'). same_mongod m m' \<and>
      desired_exec db' m' = desired_exec db m \<and> observed_gone db' m'))"

lemma unobserves_refl: "db_wf db \<Longrightarrow> unobserves {} db db"
  by (simp add: unobserves_def)

lemma same_mongod_trans: "same_mongod a b \<Longrightarrow> same_mongod b c \<Longrightarrow> same_mongod a c"
  by (simp add: same_mongod_def)

lemma unobserves_trans:
  assumes "unobserves A db db1" and "unobserves B db1 db2" and "A \<inter> B = {}"
  shows "unobserves (A \<union> B) db db2"
proof -
  have "\<exists>m' \<in> set (mongods db2). same_mongod m m' \<and> desired_exec db2 m' = desired_exec db m \<and>
      observed_gone db2 m'" if m: "m \<in> set (mongods db)" "Mongod_ID m \<in> A \<union> B" for m
  proof (cases "Mongod_ID m \<in> A")
    case True
    then obtain m1 where m1: "m1 \<in> set (mongods db1)" "same_mongod m m1"
        "desired_exec db1 m1 = desired_exec db m" "observed_gone db1 m1"
      using assms(1) m(1) unfolding unobserves_def by blast
    moreover have "Mongod_ID m1 \<notin> B"
      using True assms(3) m1(2) by (auto simp: same_mongod_def)
    ultimately show ?thesis
      using assms(2) unfolding unobserves_def observed_gone_def by auto
  next
    case False
    then have "m \<in> set (mongods db1)" and "desired_exec db1 m = desired_exec db m"
      using assms(1) m(1) by (simp_all add: unobserves_def)
    moreover have "Mongod_ID m \<in> B"
      using False m(2) by simp
    ultimately show ?thesis
      using assms(2) unfolding unobserves_def by metis
  qed
  then show ?thesis
    using assms unfolding unobserves_def by simp
qed

lemma mongod_ok_cong:
  assumes "same_mongod m m'" and "Mongod_ObservedStateID m' = Mongod_ObservedStateID m"
  shows "mongod_ok db m' = mongod_ok db m"
  using assms by (simp add: mongod_ok_def same_mongod_def owns_state_def split: option.split)

lemma same_mongod_simps [simp]:
  "same_mongod m m" "same_mongod m (m\<lparr>Mongod_ObservedStateID := i\<rparr>)"
  "same_mongod m (m\<lparr>Mongod_ObservationErrorID := e\<rparr>)"
  by (simp_all add: same_mongod_def)

lemma update_mongod_simps [simp]:
  "slaves (update_mongod i f db) = slaves db" "replica_sets (update_mongod i f db) = replica_sets db"
  "mongod_states (update_mongod i f db) = mongod_states db"
  "mongods (update_mongod i f db) = map (\<lambda>m. if Mongod_ID m = i then f m else m) (mongods db)"
  by (simp_all add: update_mongod_def)

lemma update_mongod_other:
  "m \<in> set (mongods db) \<Longrightarrow> Mongod_ID m \<noteq> i \<Longrightarrow> m \<in> set (mongods (update_mongod i f db))"
  by (auto simp: image_iff)

lemma update_mongod_exec [simp]:
  "desired_exec (update_mongod i f db) m = desired_exec db m"
  "observed_exec (update_mongod i f db) m = observed_exec db m"
  by (simp_all add: desired_exec_def observed_exec_def split: option.split)

lemma exec_error_irrelevant:
  "desired_exec db (m\<lparr>Mongod_ObservationErrorID := e\<rparr>) = desired_exec db m"
  "observed_exec db (m\<lparr>Mongod_ObservationErrorID := e\<rparr>) = observed_exec db m"
  by (simp_all add: desired_exec_def observed_exec_def)

text \<open>An update of one Mongod that leaves its references sound keeps the invariant.\<close>

lemma update_mongod_db_wf:
  assumes wf: "db_wf db" and m: "m \<in> set (mongods db)"
    and f: "\<And>x. Mongod_ID (f x) = Mongod_ID x" "mongod_ok db (f m)"
  shows "db_wf (update_mongod (Mongod_ID m) f db)"
proof -
  let ?db = "update_mongod (Mongod_ID m) f db"
  have "map Mongod_ID (mongods ?db) = map Mongod_ID (mongods db)"
    using f(1) by simp
  then have "keys_ok ?db"
    unfolding keys_ok_def update_mongod_simps(1-3)
    using db_wf_keys [OF wf] by (simp del: update_mongod_simps map_map)
  moreover have "x = m" if "x \<in> set (mongods db)" "Mongod_ID x = Mongod_ID m" for x
    using that m db_wf_keys(2) [OF wf] by (auto simp: distinct_map inj_on_def)
  moreover have "mongod_ok ?db x = mongod_ok db x" for x
    unfolding mongod_ok_def owns_state_def update_mongod_simps(1-3) by (rule refl)
  ultimately show ?thesis
    using wf f(2) by (auto simp: db_wf_def)
qed

text \<open>The three statements, on tables.\<close>

lemma unobserve_existing:
  assumes wf: "db_wf db" and m: "m \<in> set (mongods db)" and i: "Mongod_ObservedStateID m = Some i"
  defines "db' \<equiv> update_state i (\<lambda>st. st\<lparr>State_ExecutionState := MongodExecutionStateDestroyed\<rparr>) db"
  shows "db_wf db'" and "mongods db' = mongods db" and "slaves db' = slaves db"
    and "replica_sets db' = replica_sets db"
    and "observed_exec db' m = Some MongodExecutionStateDestroyed"
    and "x \<in> set (mongods db) \<Longrightarrow> desired_exec db' x = desired_exec db x"
    and "x \<in> set (mongods db) \<Longrightarrow> x \<noteq> m \<Longrightarrow> observed_exec db' x = observed_exec db x"
proof -
  have db': "db' = set_exec (\<lambda>st. State_ID st = i) MongodExecutionStateDestroyed db"
    by (simp add: db'_def update_state_def set_exec_def)
  show "db_wf db'" and "mongods db' = mongods db" and "slaves db' = slaves db"
    and "replica_sets db' = replica_sets db"
    by (simp_all add: db' set_exec_db_wf wf)
  have own: "owns_state db m i"
    using db_wf_mongod_ok [OF wf m] i by (simp add: mongod_ok_def)
  have look: "lookup_state db' j = (if j = i
      then map_option (\<lambda>st. st\<lparr>State_ExecutionState := MongodExecutionStateDestroyed\<rparr>) (lookup_state db i)
      else lookup_state db j)" for j
    unfolding db' lookup_state_set_exec by (cases "lookup_state db j") (auto dest: find_row_key)
  show "observed_exec db' m = Some MongodExecutionStateDestroyed"
    using own i by (auto simp: observed_exec_def look owns_state_def split: option.splits)
  show "desired_exec db' x = desired_exec db x" if "x \<in> set (mongods db)"
    using observed_not_desired [OF wf m that] i by (simp add: desired_exec_def look)
  show "observed_exec db' x = observed_exec db x" if x: "x \<in> set (mongods db)" "x \<noteq> m"
  proof -
    have "Mongod_ObservedStateID x \<noteq> Some i"
    proof
      assume "Mongod_ObservedStateID x = Some i"
      then have "owns_state db x i"
        using db_wf_mongod_ok [OF wf x(1)] by (simp add: mongod_ok_def)
      then have "Mongod_ID x = Mongod_ID m"
        using own by (auto simp: owns_state_def split: option.splits)
      with x m db_wf_keys(2) [OF wf] show False by (auto simp: distinct_map inj_on_def)
    qed
    then show ?thesis by (auto simp: observed_exec_def look split: option.split)
  qed
qed

lemma unobserve_new:
  assumes wf: "db_wf db" and m: "m \<in> set (mongods db)"
    and st: "State_ParentMongodID st = Mongod_ID m" "State_ID st \<notin> State_ID ` set (mongod_states db)"
      "State_ExecutionState st = MongodExecutionStateDestroyed"
  defines "db1 \<equiv> db\<lparr>mongod_states := mongod_states db @ [st]\<rparr>"
  defines "m' \<equiv> m\<lparr>Mongod_ObservedStateID := Some (State_ID st)\<rparr>"
  shows "db_wf db1" and "mongod_ok db1 m'"
    and "x \<in> set (mongods db) \<Longrightarrow> desired_exec db1 x = desired_exec db x"
    and "x \<in> set (mongods db) \<Longrightarrow> observed_exec db1 x = observed_exec db x"
    and "observed_exec db1 m' = Some MongodExecutionStateDestroyed" and "desired_exec db1 m' = desired_exec db m"
proof -
  have fresh: "lookup_state db (State_ID st) = None"
    using st(2) by (simp add: find_row_None_iff)
  have look: "lookup_state db1 j = (if j = State_ID st then Some st else lookup_state db j)" for j
    using fresh by (auto simp: db1_def find_row_append split: option.split)
  have owned: "i \<noteq> State_ID st" if "owns_state db x i" for x i
    using that fresh by (auto simp: owns_state_def)
  have owns: "owns_state db x i \<Longrightarrow> owns_state db1 x i" for x i
    using owned by (simp add: owns_state_def look)
  have ok: "mongod_ok db1 x" if "x \<in> set (mongods db)" for x
    using db_wf_mongod_ok [OF wf that] owns by (auto simp: mongod_ok_def db1_def split: option.splits)
  moreover have "keys_ok db1"
    using wf st(2) by (simp add: db_wf_def keys_ok_def db1_def)
  ultimately show "db_wf db1"
    by (auto simp: db_wf_def db1_def)
  show "mongod_ok db1 m'"
    using ok [OF m] owned db_wf_mongod_ok [OF wf m] st(1)
    by (auto simp: mongod_ok_def m'_def owns_state_def look split: option.splits)
  show *: "desired_exec db1 x = desired_exec db x" if "x \<in> set (mongods db)" for x
    using owned [of x "Mongod_DesiredStateID x"] db_wf_mongod_ok [OF wf that]
    by (simp add: desired_exec_def look mongod_ok_def)
  show "observed_exec db1 x = observed_exec db x" if "x \<in> set (mongods db)"
    using owned [of x] db_wf_mongod_ok [OF wf that]
    by (auto simp: observed_exec_def look mongod_ok_def split: option.splits)
  show "observed_exec db1 m' = Some MongodExecutionStateDestroyed"
    using st(3) by (simp add: observed_exec_def m'_def look)
  show "desired_exec db1 m' = desired_exec db m"
    using * [OF m] by (simp add: desired_exec_def m'_def)
qed

text \<open>After the observed state is set, the Mongod has it; the error is still to be cleared.\<close>

definition state_gone :: "Mongod \<Rightarrow> DB \<Rightarrow> DB \<Rightarrow> bool" where
  "state_gone m db db' \<longleftrightarrow> db_wf db' \<and> slaves db' = slaves db \<and> replica_sets db' = replica_sets db \<and>
    (\<forall>x \<in> set (mongods db). Mongod_ID x \<noteq> Mongod_ID m \<longrightarrow> x \<in> set (mongods db') \<and>
      desired_exec db' x = desired_exec db x \<and> observed_exec db' x = observed_exec db x) \<and>
    (\<exists>m' \<in> set (mongods db'). same_mongod m m' \<and> desired_exec db' m' = desired_exec db m \<and>
      observed_exec db' m' = Some MongodExecutionStateDestroyed \<and>
      Mongod_ObservationErrorID m' = Mongod_ObservationErrorID m)"

lemma unobserves_single:
  assumes wf: "db_wf db" and m: "m \<in> set (mongods db)" and db': "db_wf db'" "slaves db' = slaves db"
      "replica_sets db' = replica_sets db"
    and others: "\<And>x. x \<in> set (mongods db) \<Longrightarrow> Mongod_ID x \<noteq> Mongod_ID m \<Longrightarrow> x \<in> set (mongods db') \<and>
      desired_exec db' x = desired_exec db x \<and> observed_exec db' x = observed_exec db x"
    and m': "m' \<in> set (mongods db')" "same_mongod m m'" "desired_exec db' m' = desired_exec db m"
      "observed_gone db' m'"
  shows "unobserves {Mongod_ID m} db db'"
proof -
  have "x = m" if "x \<in> set (mongods db)" "Mongod_ID x = Mongod_ID m" for x
    using that m db_wf_keys(2) [OF wf] by (auto simp: distinct_map inj_on_def)
  then show ?thesis
    unfolding unobserves_def using db' others m' by blast
qed

lemma state_gone_clear:
  assumes gone: "state_gone m db db1" and wf: "db_wf db" and m: "m \<in> set (mongods db)"
  shows "unobserves {Mongod_ID m} db (if Mongod_ObservationErrorID m \<noteq> None
    then update_mongod (Mongod_ID m) (\<lambda>m. m\<lparr>Mongod_ObservationErrorID := None\<rparr>) db1 else db1)"
proof -
  obtain m1 where m1: "m1 \<in> set (mongods db1)" "same_mongod m m1" "desired_exec db1 m1 = desired_exec db m"
      "observed_exec db1 m1 = Some MongodExecutionStateDestroyed"
      "Mongod_ObservationErrorID m1 = Mongod_ObservationErrorID m"
    and db1: "db_wf db1" "slaves db1 = slaves db" "replica_sets db1 = replica_sets db"
    and others: "\<And>x. x \<in> set (mongods db) \<Longrightarrow> Mongod_ID x \<noteq> Mongod_ID m \<Longrightarrow> x \<in> set (mongods db1) \<and>
      desired_exec db1 x = desired_exec db x \<and> observed_exec db1 x = observed_exec db x"
    using gone by (auto simp: state_gone_def)
  show ?thesis
  proof (cases "Mongod_ObservationErrorID m = None")
    case True
    then show ?thesis
      using unobserves_single [OF wf m db1 others m1(1-3)] m1 by (simp add: observed_gone_def)
  next
    case False
    let ?f = "\<lambda>m. m\<lparr>Mongod_ObservationErrorID := None\<rparr>" and ?i = "Mongod_ID m"
    let ?db = "update_mongod ?i ?f db1"
    have i: "Mongod_ID m1 = ?i"
      using m1(2) by (simp add: same_mongod_def)
    have "mongod_ok db1 (?f m1)"
      using db_wf_mongod_ok [OF db1(1) m1(1)] mongod_ok_cong [of m1 "?f m1"] by simp
    then have "db_wf ?db"
      using update_mongod_db_wf [OF db1(1) m1(1), of ?f] i by simp
    moreover have "?f m1 \<in> set (mongods ?db)"
      using m1(1) i by (auto simp: image_iff)
    moreover have "same_mongod m (?f m1)"
      using m1(2) by (simp add: same_mongod_def)
    moreover have "desired_exec ?db (?f m1) = desired_exec db m" "observed_gone ?db (?f m1)"
      using m1(3,4) by (simp_all add: observed_gone_def exec_error_irrelevant)
    moreover have "x \<in> set (mongods ?db) \<and> desired_exec ?db x = desired_exec db x \<and>
        observed_exec ?db x = observed_exec db x"
      if "x \<in> set (mongods db)" "Mongod_ID x \<noteq> ?i" for x
      using others [OF that] that(2) by (simp add: update_mongod_other del: update_mongod_simps(4))
    ultimately show ?thesis
      using False db1 unobserves_single [OF wf m, of ?db "?f m1"] by (simp del: update_mongod_simps(4))
  qed
qed

lemma run_unobserved_mongod:
  assumes D: "dbms_ok D" "fault_free D" and wf: "db_wf (txDB s)" and m: "m \<in> set (mongods (txDB s))"
  shows "run (unobserved_mongod D show_err m) (\<lambda>_ s'. unobserves {Mongod_ID m} (txDB s) (txDB s') \<and>
    txBus s' = txBus s) (\<lambda>_ _. False) s"
proof -
  have clear: "run (if Mongod_ObservationErrorID m \<noteq> None
      then sql_exec D (update_mongod (Mongod_ID m) (\<lambda>m. m\<lparr>Mongod_ObservationErrorID := None\<rparr>)) else returnM ())
      (\<lambda>_ s'. unobserves {Mongod_ID m} (txDB s) (txDB s') \<and> txBus s' = txBus s) (\<lambda>_ _. False) s1"
    if "state_gone m (txDB s) (txDB s1)" "txBus s1 = txBus s" for s1
    using state_gone_clear [OF that(1) wf m] that(2)
    by (auto simp: run_simps intro!: run_exec_total [OF D(2)])
  show ?thesis
  proof (cases "Mongod_ObservedStateID m")
    case (Some i)
    have "state_gone m (txDB s) (update_state i
        (\<lambda>st. st\<lparr>State_ExecutionState := MongodExecutionStateDestroyed\<rparr>) (txDB s))"
      unfolding state_gone_def
      using unobserve_existing [OF wf m Some] m by (intro conjI ballI impI bexI [of _ m]) auto
    then have "run (bindM (attempt (sql_exec D (update_state i
        (\<lambda>st. st\<lparr>State_ExecutionState := MongodExecutionStateDestroyed\<rparr>)))) (\<lambda>_. returnM ()))
        (\<lambda>_ s1. state_gone m (txDB s) (txDB s1) \<and> txBus s1 = txBus s) (\<lambda>_ _. False) s"
      unfolding run_bindM by (intro run_attempt_total run_exec_total D(2)) (simp add: run_simps)
    then show ?thesis
      unfolding unobserved_mongod_def Some option.case by (rule run_bind_seq) (rule clear, simp_all)
  next
    case None
    let ?st = "\<lparr>State_ID = newID D (txCalls s) (map State_ID (mongod_states (txDB s))),
      State_ParentMongodID = Mongod_ID m, State_ShardingRole = ShardingRoleNone,
      State_ExecutionState = MongodExecutionStateDestroyed\<rparr>"
    let ?db1 = "(txDB s)\<lparr>mongod_states := mongod_states (txDB s) @ [?st]\<rparr>"
    let ?f = "\<lambda>m. m\<lparr>Mongod_ObservedStateID := Some (State_ID ?st)\<rparr>"
    have fresh: "State_ID ?st \<notin> State_ID ` set (mongod_states (txDB s))"
      using dbms_ok_newID [OF D(1), of "txCalls s" "map State_ID (mongod_states (txDB s))"] by simp
    note new = unobserve_new [OF wf m _ fresh, simplified]
    have "db_wf (update_mongod (Mongod_ID m) ?f ?db1)"
      using update_mongod_db_wf [OF new(1), of m ?f] new(2) m by simp
    moreover have "?f m \<in> set (mongods (update_mongod (Mongod_ID m) ?f ?db1))"
      using m by (auto simp: image_iff)
    ultimately have "state_gone m (txDB s) (update_mongod (Mongod_ID m) ?f ?db1)"
      unfolding state_gone_def using new(3-6) update_mongod_other [of _ ?db1 "Mongod_ID m" ?f]
      by (intro conjI ballI impI bexI [of _ "?f m"]) (simp_all del: update_mongod_simps(4))
    then have "run (sql_exec D (update_mongod (Mongod_ID m) ?f))
        (\<lambda>_ s1. state_gone m (txDB s) (txDB s1) \<and> txBus s1 = txBus s) (\<lambda>_ _. False) ((tick s)\<lparr>txDB := ?db1\<rparr>)"
      by (intro run_exec_total D(2)) simp
    then have "run (case Mongod_ObservedStateID m of Some i \<Rightarrow>
          bindM (attempt (sql_exec D (update_state i
            (\<lambda>st. st\<lparr>State_ExecutionState := MongodExecutionStateDestroyed\<rparr>)))) (\<lambda>_. returnM ())
        | None \<Rightarrow> bindM (wrapErr show_err p1 (insert_state D \<lparr>State_ID = 0, State_ParentMongodID = Mongod_ID m,
             State_ShardingRole = ShardingRoleNone, State_ExecutionState = MongodExecutionStateDestroyed\<rparr>))
          (\<lambda>st. wrapErr show_err p2 (sql_exec D (update_mongod (Mongod_ID m)
              (\<lambda>m. m\<lparr>Mongod_ObservedStateID := Some (State_ID st)\<rparr>)))))
        (\<lambda>_ s1. state_gone m (txDB s) (txDB s1) \<and> txBus s1 = txBus s) (\<lambda>_ _. False) s" for p1 p2
      unfolding None option.case run_bindM
      by (intro run_wrapErr_total run_insert_state_total D(2)) simp
    then show ?thesis
      unfolding unobserved_mongod_def by (rule run_bind_seq) (rule clear, simp_all)
  qed
qed

lemma run_unobserved_loop:
  assumes D: "dbms_ok D" "fault_free D" and wf: "db_wf (txDB s)" and ms: "set ms \<subseteq> set (mongods (txDB s))"
    and dist: "distinct (map Mongod_ID ms)"
  shows "run (forM ms (\<lambda>m. if is_reported obs m then returnM () else unobserved_mongod D show_err m))
    (\<lambda>_ s'. unobserves (Mongod_ID ` {m \<in> set ms. \<not> is_reported obs m}) (txDB s) (txDB s') \<and> txBus s' = txBus s)
    (\<lambda>_ _. False) s"
  using wf ms dist
proof (induction ms arbitrary: s)
  case Nil
  then show ?case by (simp add: run_simps unobserves_refl)
next
  case (Cons m ms)
  let ?rest = "Mongod_ID ` {m \<in> set ms. \<not> is_reported obs m}"
  show ?case
  proof (cases "is_reported obs m")
    case True
    then have "{x \<in> set (m # ms). \<not> is_reported obs x} = {x \<in> set ms. \<not> is_reported obs x}"
      by auto
    with True Cons show ?thesis
      by (intro run_forM_Cons) (simp add: run_returnM)
  next
    case False
    have ids: "Mongod_ID ` {x \<in> set (m # ms). \<not> is_reported obs x} = {Mongod_ID m} \<union> ?rest"
      using False by auto
    have "run (forM ms (\<lambda>m. if is_reported obs m then returnM () else unobserved_mongod D show_err m))
        (\<lambda>_ s'. unobserves ({Mongod_ID m} \<union> ?rest) (txDB s) (txDB s') \<and> txBus s' = txBus s) (\<lambda>_ _. False) s1"
      if s1: "unobserves {Mongod_ID m} (txDB s) (txDB s1) \<and> txBus s1 = txBus s" for s1
    proof -
      have "set ms \<subseteq> set (mongods (txDB s1))"
      proof
        fix x assume x: "x \<in> set ms"
        then have "x \<in> set (mongods (txDB s))" and "Mongod_ID x \<notin> {Mongod_ID m}"
          using Cons.prems(2,3) by (auto simp: image_iff)
        then show "x \<in> set (mongods (txDB s1))"
          using s1 by (simp add: unobserves_def)
      qed
      moreover have "db_wf (txDB s1)"
        using s1 by (simp add: unobserves_def)
      moreover have "{Mongod_ID m} \<inter> ?rest = {}"
        using Cons.prems(3) by auto
      ultimately show ?thesis
        using s1 Cons.prems(3) unobserves_trans [of "{Mongod_ID m}" "txDB s" "txDB s1" ?rest]
        by (intro run_mono [OF Cons.IH]) auto
    qed
    then show ?thesis
      unfolding ids using False Cons.prems
      by (intro run_forM_Cons) (simp add: run_mono [OF run_unobserved_mongod [OF D]])
  qed
qed

lemma run_updateMongodStatesNotObservedOnSlave:
  assumes D: "dbms_ok D" "fault_free D" and wf: "db_wf (txDB s)"
  shows "run (updateMongodStatesNotObservedOnSlave D show_err slave obs)
    (\<lambda>_ s'. unobserves (Mongod_ID ` {m \<in> set (mongods (txDB s)). Mongod_ParentSlaveID m = Slave_ID slave \<and>
      \<not> is_reported obs m}) (txDB s) (txDB s') \<and> txBus s' = txBus s) (\<lambda>_ _. False) s"
proof -
  let ?ms = "scan D (txCalls s) (mongods_on_slave (txDB s) (Slave_ID slave))"
  have set_ms: "set ?ms = {m \<in> set (mongods (txDB s)). Mongod_ParentSlaveID m = Slave_ID slave}"
    by (auto simp: set_scan [OF D(1)] mongods_on_slave_def)
  have "mset (map Mongod_ID ?ms) = mset (map Mongod_ID (mongods_on_slave (txDB s) (Slave_ID slave)))"
    by (simp add: mset_scan [OF D(1)])
  moreover have "distinct (map Mongod_ID (mongods_on_slave (txDB s) (Slave_ID slave)))"
    unfolding mongods_on_slave_def by (rule distinct_map_filter_key [OF db_wf_keys(2) [OF wf]])
  ultimately have dist: "distinct (map Mongod_ID ?ms)"
    using mset_eq_imp_distinct_iff by blast
  have "{m \<in> set ?ms. \<not> is_reported obs m} = {m \<in> set (mongods (txDB s)).
      Mongod_ParentSlaveID m = Slave_ID slave \<and> \<not> is_reported obs m}"
    unfolding set_ms by auto
  moreover have "run (forM ?ms (\<lambda>m. if is_reported obs m then returnM () else unobserved_mongod D show_err m))
      (\<lambda>_ s'. unobserves (Mongod_ID ` {m \<in> set ?ms. \<not> is_reported obs m}) (txDB (tick s)) (txDB s') \<and>
        txBus s' = txBus (tick s)) (\<lambda>_ _. False) (tick s)"
    by (rule run_unobserved_loop [OF D]) (use wf set_ms dist in auto)
  ultimately show ?thesis
    unfolding updateMongodStatesNotObservedOnSlave_def run_bindM
    by (intro run_query_total D(2)) (simp only: tick_simps)
qed

text \<open>No reference is left dangling.\<close>

definition keys_kept :: "ID list \<Rightarrow> DB \<Rightarrow> bool" where
  "keys_kept ids db \<longleftrightarrow> foreign_keys_ok db \<and> map Mongod_ID (mongods db) = ids"

lemma keys_kept_update_state:
  "keys_kept ids (update_state i (\<lambda>st. st\<lparr>State_ExecutionState := e\<rparr>) db) = keys_kept ids db"
proof -
  have "foreign_keys_ok (update_state i (\<lambda>st. st\<lparr>State_ExecutionState := e\<rparr>) db) = foreign_keys_ok db"
    by (rule foreign_keys_ok_same) (simp_all add: update_state_def)
  then show ?thesis
    by (simp add: keys_kept_def update_state_def)
qed

lemma keys_kept_insert_state:
  "keys_kept ids db \<Longrightarrow> State_ParentMongodID st \<in> set ids \<Longrightarrow> keys_kept ids (db\<lparr>mongod_states := mongod_states db @ [st]\<rparr>)"
  by (auto simp: keys_kept_def foreign_keys_ok_def mongod_keys_ok_def slave_keys_ok_def problem_keys_ok_def intro: refers_append)

lemma keys_kept_update_mongod:
  assumes "keys_kept ids db" and "\<And>m. m \<in> set (mongods db) \<Longrightarrow> mongod_keys_ok db m \<Longrightarrow> mongod_keys_ok db (f m)"
    and "\<And>m. Mongod_ID (f m) = Mongod_ID m"
  shows "keys_kept ids (update_mongod i f db)"
proof -
  let ?db = "update_mongod i f db"
  have ids: "map Mongod_ID (mongods ?db) = map Mongod_ID (mongods db)"
    using assms(3) by (simp add: update_mongod_def)
  have "slave_keys_ok ?db = slave_keys_ok db" "mongod_keys_ok ?db = mongod_keys_ok db" "problem_keys_ok ?db = problem_keys_ok db"
    unfolding slave_keys_ok_def [abs_def] mongod_keys_ok_def [abs_def] problem_keys_ok_def [abs_def] ids
    by (simp_all add: update_mongod_def)
  then show ?thesis
    using assms(1,2) unfolding keys_kept_def foreign_keys_ok_def ids
    by (auto simp: update_mongod_def)
qed

lemma run_unobserved_keys:
  assumes "keys_kept ids (txDB s)" and "Mongod_ID m \<in> set ids"
  shows "run (unobserved_mongod D show_err m) (\<lambda>_ s'. keys_kept ids (txDB s')) (\<lambda>_ s'. keys_kept ids (txDB s') \<and> True) s"
proof -
  have clear: "run (if Mongod_ObservationErrorID m \<noteq> None
      then sql_exec D (update_mongod (Mongod_ID m) (\<lambda>m. m\<lparr>Mongod_ObservationErrorID := None\<rparr>)) else returnM ())
      (\<lambda>_ s'. keys_kept ids (txDB s')) (\<lambda>_ s'. keys_kept ids (txDB s') \<and> True) s1" if "keys_kept ids (txDB s1)" for s1
    using that by (auto simp: run_simps mongod_keys_ok_def intro!: run_exec_any keys_kept_update_mongod)
  show ?thesis
  proof (cases "Mongod_ObservedStateID m")
    case (Some i)
    show ?thesis
      unfolding unobserved_mongod_def Some option.case run_bindM run_attempt run_returnM
      by (rule run_exec_any; (simp only: failure.case)?; rule clear) (simp_all add: keys_kept_update_state assms(1))
  next
    case None
    have insert: "run (insert_state D st) (\<lambda>st' s'. keys_kept ids (txDB s') \<and> State_ID st' \<in> State_ID ` set (mongod_states (txDB s')))
        (\<lambda>_ s'. keys_kept ids (txDB s') \<and> True) s" if "State_ParentMongodID st = Mongod_ID m" for st
      unfolding insert_state_def
      by (rule run_sql_stmt) (use assms that in \<open>auto simp: Let_def intro: keys_kept_insert_state\<close>)
    have link: "run (sql_exec D (update_mongod (Mongod_ID m) (\<lambda>m. m\<lparr>Mongod_ObservedStateID := Some i\<rparr>)))
        (\<lambda>_ s'. keys_kept ids (txDB s')) (\<lambda>_ s'. keys_kept ids (txDB s') \<and> True) s1"
      if "keys_kept ids (txDB s1) \<and> i \<in> State_ID ` set (mongod_states (txDB s1))" for i s1
      by (rule run_exec_any) (use that in \<open>auto simp: mongod_keys_ok_def intro!: keys_kept_update_mongod\<close>)
    show ?thesis
      unfolding unobserved_mongod_def None option.case
      by (rule run_bind_seq, rule run_bind_seq, rule run_wrapErr_any, rule insert, simp, simp,
          rule run_wrapErr_any, erule link, simp, erule clear)
  qed
qed

interpretation unobserving: loop_body "\<lambda>m. if is_reported obs m then returnM () else unobserved_mongod D show_err m"
  "\<lambda>m. Mongod_ID m \<in> set ids" "\<lambda>s. keys_kept ids (txDB s)" "\<lambda>_. True" for D show_err obs ids
  by unfold_locales (simp add: run_returnM run_unobserved_keys [simplified])

lemma run_unobserved_foreign_keys:
  assumes "dbms_ok D" and "foreign_keys_ok (txDB s)"
  shows "run (updateMongodStatesNotObservedOnSlave D show_err slave obs)
    (\<lambda>_ s'. foreign_keys_ok (txDB s')) (\<lambda>_ _. True) s"
proof -
  let ?ids = "map Mongod_ID (mongods (txDB s))"
  have "run (forM ms (\<lambda>m. if is_reported obs m then returnM () else unobserved_mongod D show_err m))
      (\<lambda>_ s'. foreign_keys_ok (txDB s')) (\<lambda>_ _. True) (tick s)" if "set ms \<subseteq> set (mongods (txDB s))" for ms
    by (rule run_mono [OF unobserving.forM_keeps [where ids = ?ids]]) (use that assms(2) in \<open>auto simp: keys_kept_def\<close>)
  moreover have "set (scan D n (mongods_on_slave (txDB s) (Slave_ID slave))) \<subseteq> set (mongods (txDB s))" for n
    by (auto simp: set_scan [OF assms(1)] mongods_on_slave_def)
  ultimately show ?thesis
    unfolding updateMongodStatesNotObservedOnSlave_def run_bindM sql_query_def
    by (intro run_sql_stmt) (auto simp: tick_same)
qed

section \<open>Properties\<close>

text \<open>What concerns Mongods and replica sets is as in the given tables.\<close>

definition mongods_kept :: "DB \<Rightarrow> DB \<Rightarrow> bool" where
  "mongods_kept db db' \<longleftrightarrow> mongods db' = mongods db \<and> mongod_states db' = mongod_states db \<and>
    replica_sets db' = replica_sets db"

lemma run_stmt_kept:
  assumes "\<And>n db x db'. f n db = Inr (x, db') \<Longrightarrow> mongods_kept db db'" and "mongods_kept db0 (txDB s)"
  shows "run (sql_stmt D f) (\<lambda>_ s'. mongods_kept db0 (txDB s') \<and> txBus s' = txBus s)
    (\<lambda>_ s'. mongods_kept db0 (txDB s') \<and> txBus s' = txBus s) s"
  by (rule run_sql_stmt) (use assms in \<open>auto simp: mongods_kept_def\<close>)

lemma run_updateSlaveObservationError_kept:
  assumes "mongods_kept db0 (txDB s)"
  shows "run (updateSlaveObservationError D show_err slave (Some e))
    (\<lambda>_ s'. mongods_kept db0 (txDB s') \<and> txBus s' = txBus s)
    (\<lambda>_ s'. mongods_kept db0 (txDB s') \<and> txBus s' = txBus s) s"
proof (cases "Slave_ObservationErrorID slave")
  case None
  have "run (insert_msp_error D (mspErrorToModelMSPError e))
      (\<lambda>_ s'. mongods_kept db0 (txDB s') \<and> txBus s' = txBus s)
      (\<lambda>_ s'. mongods_kept db0 (txDB s') \<and> txBus s' = txBus s) s"
    unfolding insert_msp_error_def by (rule run_stmt_kept) (use assms in \<open>auto simp: Let_def mongods_kept_def\<close>)
  then show ?thesis
    unfolding updateSlaveObservationError_def option.case None Let_def
    by (intro run_wrapErr_any, elim run_bind_seq)
      (auto simp: sql_exec_def update_slave_def mongods_kept_def intro!: run_mono [OF run_stmt_kept])
next
  case (Some i)
  then show ?thesis
    unfolding updateSlaveObservationError_def option.case Some Let_def sql_exec_def
    by (intro run_wrapErr_any run_stmt_kept)
      (use assms in \<open>auto simp: update_msp_error_def mongods_kept_def\<close>)
qed

text \<open>C22: over well-formed tables and without database errors,
  \<open>updateMongodStatesNotObservedOnSlave\<close> gives every Mongod of the slave that the slave does not
  report the observed state \<open>destroyed\<close> without observation error, and changes nothing else: not the
  desired states, not the Mongods that are reported, not those of other slaves.\<close>

theorem unreported_mongods_destroyed:
  assumes "dbms_ok D" and "fault_free D" and "db_wf (txDB s)"
  shows "\<exists>s'. updateMongodStatesNotObservedOnSlave D show_err slave obs s = (Inr (), s') \<and>
    unobserves (Mongod_ID ` {m \<in> set (mongods (txDB s)). Mongod_ParentSlaveID m = Slave_ID slave \<and>
      \<not> is_reported obs m}) (txDB s) (txDB s')"
  using run_total [OF run_updateMongodStatesNotObservedOnSlave [OF assms, of show_err slave obs]] by auto

theorem unreported_mongods_destroyed_witness:
  "\<exists>s'. updateMongodStatesNotObservedOnSlave plain_dbms (\<lambda>_. []) (example_slave 1 True) []
      (begin_tx running_db) = (Inr (), s') \<and> (\<exists>m' \<in> set (mongods (txDB s')). observed_gone (txDB s') m')"
proof -
  have m: "example_mongod \<in> set (mongods running_db)" "Mongod_ParentSlaveID example_mongod = Slave_ID (example_slave 1 True)"
    by (simp_all add: running_db_def example_defs)
  have wf: "db_wf (txDB (begin_tx running_db))"
    by (simp add: running_db_wf)
  from unreported_mongods_destroyed [OF plain_dbms_ok plain_dbms_fault_free wf,
      of "\<lambda>_. []" "example_slave 1 True" "[]"] m
  show ?thesis by (fastforce simp: unobserves_def is_reported_def)
qed

text \<open>If the second list holds no member twice,
  \<open>MSPReplicaSetMembersDeepEqualsIgnoringOrder\<close> holds exactly if the lists are equal up to order.\<close>

theorem DeepEquals_correct:
  assumes "distinct b"
  shows "MSPReplicaSetMembersDeepEqualsIgnoringOrder a b \<longleftrightarrow> mset a = mset b"
  by (rule DeepEquals_distinct [OF assms])

definition example_member :: "PortNumber \<Rightarrow> ReplicaSetMember" where
  "example_member p = \<lparr>Member_HostPort = \<lparr>HostPort_Hostname = ''host'', HostPort_Port = p\<rparr>,
     Member_Priority = 10, Member_Votes = 1\<rparr>"

theorem DeepEquals_correct_witness:
  "MSPReplicaSetMembersDeepEqualsIgnoringOrder [example_member 1, example_member 2]
     [example_member 2, example_member 1]"
  by (subst DeepEquals_correct) (simp_all add: example_member_def)

text \<open>With a member listed twice the comparison is not symmetric: it accepts a list
  that lacks a desired member.\<close>

theorem DeepEquals_duplicates:
  "MSPReplicaSetMembersDeepEqualsIgnoringOrder [example_member 1, example_member 2]
     [example_member 1, example_member 1] \<and>
   \<not> MSPReplicaSetMembersDeepEqualsIgnoringOrder [example_member 1, example_member 1]
     [example_member 1, example_member 2]"
  by (simp add: DeepEquals_iff example_member_def)

text \<open>What it is to store an observation error at a slave: a row of \<open>msp_errors\<close>, new or the slave's own, holds
  the error, the row of the slave refers to it, and nothing else in the tables is different.\<close>

definition stores_slave_error :: "Slave \<Rightarrow> mspError \<Rightarrow> DB \<Rightarrow> DB \<Rightarrow> bool" where
  "stores_slave_error slave e db db' \<longleftrightarrow> (\<exists>i. (Slave_ObservationErrorID slave = Some i \<or> i \<notin> MSPError_ID ` set (msp_errors db)) \<and>
     find_row MSPError_ID i (msp_errors db') = Some \<lparr>MSPError_ID = i, MSPError_Identifier = Error_Identifier e,
       MSPError_Description = Error_Description e, MSPError_LongDescription = Error_LongDescription e\<rparr> \<and>
     (\<forall>j. j \<noteq> i \<longrightarrow> find_row MSPError_ID j (msp_errors db') = find_row MSPError_ID j (msp_errors db)) \<and>
     lookup_slave db' (Slave_ID slave) = Some (slave\<lparr>Slave_ObservationErrorID := Some i\<rparr>) \<and>
     (\<forall>j. j \<noteq> Slave_ID slave \<longrightarrow> lookup_slave db' j = lookup_slave db j) \<and>
     db' = db\<lparr>msp_errors := msp_errors db', slaves := slaves db'\<rparr> \<and> length (slaves db') = length (slaves db))"

lemma slave_error_replaced:
  fixes e :: mspError
  assumes "Slave_ObservationErrorID slave = Some i" and "lookup_slave db (Slave_ID slave) = Some slave" and "foreign_keys_ok db"
    and "slave \<in> set (slaves db)"
  defines "db' \<equiv> update_msp_error i (\<lambda>_. (mspErrorToModelMSPError e)\<lparr>MSPError_ID := i\<rparr>) db"
  shows "stores_slave_error slave e db db'" and "foreign_keys_ok db'"
proof -
  let ?f = "\<lambda>r. if MSPError_ID r = i then (mspErrorToModelMSPError e)\<lparr>MSPError_ID := i\<rparr> else r"
  have found: "find_row MSPError_ID j (msp_errors db') = map_option ?f (find_row MSPError_ID j (msp_errors db))" for j
    by (simp add: db'_def update_msp_error_def find_row_map)
  have "i \<in> MSPError_ID ` set (msp_errors db)"
    using assms(1,3,4) by (force simp: foreign_keys_ok_def slave_keys_ok_def refers_def)
  then obtain r where r: "find_row MSPError_ID i (msp_errors db) = Some r"
    by (cases "find_row MSPError_ID i (msp_errors db)") (auto simp: find_row_None_iff)
  have "find_row MSPError_ID j (msp_errors db') = find_row MSPError_ID j (msp_errors db)" if "j \<noteq> i" for j
    using that by (cases "find_row MSPError_ID j (msp_errors db)") (auto simp: found dest: find_row_key)
  then show "stores_slave_error slave e db db'"
    using assms(1,2) found [of i] r find_row_key [OF r] unfolding stores_slave_error_def
    by (intro exI [of _ i] conjI) (auto simp: mspErrorToModelMSPError_def db'_def update_msp_error_def simp del: found)
  have "map MSPError_ID (map ?f (msp_errors db)) = map MSPError_ID (msp_errors db)"
    by simp
  then show "foreign_keys_ok db'"
    using assms(3) by (simp add: db'_def update_msp_error_def foreign_keys_ok_def slave_keys_ok_def mongod_keys_ok_def
        problem_keys_ok_def del: map_map)
qed

lemma slave_error_inserted:
  fixes e :: mspError
  assumes "i \<notin> MSPError_ID ` set (msp_errors db)" and "lookup_slave db (Slave_ID slave) = Some slave" and "foreign_keys_ok db"
  defines "db' \<equiv> update_slave (Slave_ID slave) (\<lambda>q. q\<lparr>Slave_ObservationErrorID := Some i\<rparr>)
    (db\<lparr>msp_errors := msp_errors db @ [(mspErrorToModelMSPError e)\<lparr>MSPError_ID := i\<rparr>]\<rparr>)"
  shows "stores_slave_error slave e db db'" and "foreign_keys_ok db'"
proof -
  have none: "find_row MSPError_ID i (msp_errors db) = None"
    using assms(1) by (simp add: find_row_None_iff)
  have slave: "lookup_slave db' j = map_option (\<lambda>q. if Slave_ID q = Slave_ID slave then q\<lparr>Slave_ObservationErrorID := Some i\<rparr> else q)
      (lookup_slave db j)" for j
    by (simp add: db'_def update_slave_def find_row_map)
  have "find_row MSPError_ID i (msp_errors db') = Some \<lparr>MSPError_ID = i, MSPError_Identifier = Error_Identifier e,
      MSPError_Description = Error_Description e, MSPError_LongDescription = Error_LongDescription e\<rparr>"
    by (simp add: db'_def update_slave_def find_row_append none mspErrorToModelMSPError_def)
  moreover have "find_row MSPError_ID j (msp_errors db') = find_row MSPError_ID j (msp_errors db)" if "j \<noteq> i" for j
    using that by (simp add: db'_def update_slave_def find_row_append mspErrorToModelMSPError_def split: option.split)
  moreover have "lookup_slave db' j = lookup_slave db j" if "j \<noteq> Slave_ID slave" for j
    using that by (cases "lookup_slave db j") (auto simp: slave dest: find_row_key)
  moreover have "lookup_slave db' (Slave_ID slave) = Some (slave\<lparr>Slave_ObservationErrorID := Some i\<rparr>)"
    using assms(2) by (simp add: slave)
  moreover have "db' = db\<lparr>msp_errors := msp_errors db', slaves := slaves db'\<rparr> \<and> length (slaves db') = length (slaves db)"
    by (simp add: db'_def update_slave_def)
  ultimately show "stores_slave_error slave e db db'"
    using assms(1) unfolding stores_slave_error_def by blast
  have more: "refers r ids \<Longrightarrow> refers r (ids @ new)" for r ids new
    by (auto simp: refers_def split: option.splits)
  have "refers (Some i) (map MSPError_ID (msp_errors db) @ [i])"
    by (simp add: refers_def)
  moreover have "map Slave_ID (slaves db') = map Slave_ID (slaves db)"
    by (simp add: db'_def update_slave_def)
  ultimately show "foreign_keys_ok db'"
    using assms(3) by (auto simp: db'_def update_slave_def foreign_keys_ok_def slave_keys_ok_def mongod_keys_ok_def
        problem_keys_ok_def mspErrorToModelMSPError_def more simp del: map_map)
qed

lemma run_updateSlaveObservationError_total:
  assumes "dbms_ok D" and "fault_free D" and "lookup_slave (txDB s) (Slave_ID slave) = Some slave" and "foreign_keys_ok (txDB s)"
  shows "run (updateSlaveObservationError D show_err slave (Some e))
    (\<lambda>_ s'. stores_slave_error slave e (txDB s) (txDB s') \<and> foreign_keys_ok (txDB s')) (\<lambda>_ _. False) s"
proof (cases "Slave_ObservationErrorID slave")
  case (Some i)
  have "slave \<in> set (slaves (txDB s))"
    using assms(3) by (rule find_row_mem)
  then show ?thesis
    using slave_error_replaced [OF Some assms(3,4), of e]
    unfolding updateSlaveObservationError_def option.case Some Let_def
    by (intro run_wrapErr_total run_exec_total assms(2)) simp
next
  case None
  let ?i = "newID D (txCalls s) (map MSPError_ID (msp_errors (txDB s)))"
  have "?i \<notin> MSPError_ID ` set (msp_errors (txDB s))"
    using dbms_ok_newID [OF assms(1), of "txCalls s" "map MSPError_ID (msp_errors (txDB s))"] by simp
  note stored = slave_error_inserted [OF this assms(3,4), of e]
  show ?thesis
    unfolding updateSlaveObservationError_def option.case None Let_def insert_msp_error_def
    by (intro run_wrapErr_total, unfold run_bindM, rule run_sql_stmt)
      (use assms(2) stored in \<open>auto simp: fault_free_def Let_def intro!: run_exec_total\<close>)
qed

text \<open>C23: when a slave cannot be observed, the monitor reports the connection status and
  leaves all Mongods, their states and the replica sets as they were, whatever the database does, so an
  outage never makes the allocator believe that Mongods are gone.  If the database does not fail and
  holds the slave as it was read, the error is stored: a row that is new or was the slave's own holds identifier and
  descriptions of the error, the slave refers to it, and no other row of any table changes.\<close>

theorem unreachable_slave_keeps_mongods:
  assumes "handleObservation D saveMongod show_err show_mongod obs (Some e) slave s = (Inr (), s')"
  shows "mongods (txDB s') = mongods (txDB s) \<and> mongod_states (txDB s') = mongod_states (txDB s) \<and>
    replica_sets (txDB s') = replica_sets (txDB s) \<and>
    txBus s' = txBus s @ [ConnectionStatusMsg \<lparr>Connection_Unreachable = (Error_Identifier e = CommunicationError),
      Connection_Slave = slave, Connection_CommunicationError = e\<rparr>] \<and>
    (dbms_ok D \<and> fault_free D \<and> lookup_slave (txDB s) (Slave_ID slave) = Some slave \<and> foreign_keys_ok (txDB s) \<longrightarrow>
      stores_slave_error slave e (txDB s) (txDB s'))"
proof -
  let ?msg = "ConnectionStatusMsg (connection_status slave (Some e))"
  let ?s = "s\<lparr>txBus := txBus s @ [?msg]\<rparr>"
  let ?P = "\<lambda>s'. mongods_kept (txDB s) (txDB s') \<and> txBus s' = txBus ?s"
  have kept: "run (handleObservation D saveMongod show_err show_mongod obs (Some e) slave) (\<lambda>_. ?P) (\<lambda>_ _. True) s"
    unfolding handleObservation_def run_bindM run_send run_getM
  proof (rule run_mono)
    show "run (attempt (updateSlaveObservationError D show_err slave (Some e))) (\<lambda>_. ?P) (\<lambda>_ _. True) ?s"
      unfolding run_attempt
      by (rule run_mono [OF run_updateSlaveObservationError_kept [of "txDB s"]])
        (auto simp: mongods_kept_def split: failure.split)
  next
    fix r and s1 :: tx assume s1: "?P s1"
    have "run (attempt (commit D (txDB ?s))) (\<lambda>_. ?P) (\<lambda>_ _. True) s1"
      unfolding run_attempt by (rule run_commit) (use s1 in \<open>auto simp: mongods_kept_def\<close>)
    with s1 show "run (case r of Inl _ \<Rightarrow> rollback (txDB ?s) | Inr _ \<Rightarrow> if Some e \<noteq> None
        then bindM (attempt (commit D (txDB ?s))) (\<lambda>_. returnM ())
        else handle_reported D saveMongod show_err show_mongod (txDB ?s) obs slave) (\<lambda>_. ?P) (\<lambda>_ _. True) s1"
      by (auto simp: run_simps rollback_def mongods_kept_def split: sum.split elim!: run_mono)
  qed simp
  have stored: "run (handleObservation D saveMongod show_err show_mongod obs (Some e) slave)
      (\<lambda>_ s'. stores_slave_error slave e (txDB s) (txDB s')) (\<lambda>_ _. False) s"
    if "dbms_ok D" "fault_free D" "lookup_slave (txDB s) (Slave_ID slave) = Some slave" "foreign_keys_ok (txDB s)"
  proof -
    have "run (attempt (updateSlaveObservationError D show_err slave (Some e)))
        (\<lambda>r s'. r = Inr () \<and> stores_slave_error slave e (txDB s) (txDB s') \<and> foreign_keys_ok (txDB s')) (\<lambda>_ _. False) ?s"
      by (rule run_attempt_total, rule run_mono [OF run_updateSlaveObservationError_total [OF that(1,2)]])
        (use that in simp_all)
    then show ?thesis
      unfolding handleObservation_def run_bindM run_send run_getM
      by (rule run_mono)
        (auto simp: run_simps intro!: run_attempt_total run_commit_total [OF that(2)] simp del: split_paired_All)
  qed
  from run_InrD [OF kept assms] run_InrD [OF stored assms] show ?thesis
    by (simp add: mongods_kept_def connection_status_def)
qed

lemma run_stmt_failed: "run (sql_stmt D f) (\<lambda>_ _. True) (\<lambda>f _. \<exists>e. f = Failed e) s"
  by (rule run_sql_stmt) auto

lemma unreachable_slave_handled:
  "\<exists>s'. handleObservation D saveMongod show_err show_mongod obs (Some e) slave s = (Inr (), s')"
proof -
  have "run (updateSlaveObservationError D show_err slave (Some e)) (\<lambda>_ _. True) (\<lambda>f _. \<exists>e. f = Failed e) s1" for s1
    unfolding updateSlaveObservationError_def option.case Let_def insert_msp_error_def sql_exec_def
    by (intro run_wrapErr_any)
      (auto split: option.split intro!: run_stmt_failed run_bind_seq [OF run_stmt_failed])
  then have update: "run (attempt (updateSlaveObservationError D show_err slave (Some e))) (\<lambda>_ _. True) (\<lambda>_ _. False) s1" for s1
    unfolding run_attempt by (rule run_mono) auto
  have "run (handleObservation D saveMongod show_err show_mongod obs (Some e) slave) (\<lambda>_ _. True) (\<lambda>_ _. False) s"
    unfolding handleObservation_def run_bindM run_send run_getM
    by (rule run_mono [OF update])
      (auto simp: run_simps run_attempt rollback_def intro!: run_commit split: sum.split)
  from run_total [OF this] show ?thesis
    by simp
qed

theorem unreachable_slave_keeps_mongods_witness:
  "\<exists>s'. handleObservation plain_dbms (\<lambda>_ _ _ _ db. Inr db) (\<lambda>_. []) (\<lambda>_. []) []
      (Some (zeroMspError\<lparr>Error_Identifier := CommunicationError\<rparr>)) (example_slave 1 True) (begin_tx example_db) =
      (Inr (), s') \<and> mongods (txDB s') = mongods example_db \<and>
    map (\<lambda>msg. case msg of ConnectionStatusMsg c \<Rightarrow> Connection_Unreachable c | _ \<Rightarrow> False) (txBus s') = [True] \<and>
    (\<exists>i. map_option Slave_ObservationErrorID (lookup_slave (txDB s') 1) = Some (Some i) \<and>
      map_option MSPError_Identifier (find_row MSPError_ID i (msp_errors (txDB s'))) = Some CommunicationError)"
proof -
  let ?slave = "example_slave 1 True"
  obtain s' where s': "handleObservation plain_dbms (\<lambda>_ _ _ _ db. Inr db) (\<lambda>_. []) (\<lambda>_. []) []
      (Some (zeroMspError\<lparr>Error_Identifier := CommunicationError\<rparr>)) ?slave (begin_tx example_db) = (Inr (), s')"
    using unreachable_slave_handled by blast
  have "lookup_slave (txDB (begin_tx example_db)) (Slave_ID ?slave) = Some ?slave"
    and "foreign_keys_ok (txDB (begin_tx example_db))" and "Slave_ID ?slave = 1"
    by (simp_all add: example_defs foreign_keys_ok_def slave_keys_ok_def mongod_keys_ok_def refers_def)
  then show ?thesis
    using unreachable_slave_keeps_mongods [OF s'] s' plain_dbms_ok plain_dbms_fault_free
    by (auto simp: stores_slave_error_def)
qed

end
