(* ===== verification/Deployer.thy ===== *)
theory Deployer
  imports Monitor
begin

text \<open>
  The deployer, \<open>src/master/deployer.go\<close>: on a mismatch it pushes the desired state of a Mongod to its
  slave, and it has replica sets initiated.  The slave at the other end of an \<open>MSPClient\<close> call is a
  parameter, a function from the call to its error; a handler returns the list of the calls it
  made.
\<close>

datatype msp_call = CallInitiateReplicaSet HostPort RsInitiateMessage | CallEstablishMongodState HostPort mspMongod

type_synonym MSPClient = "msp_call \<Rightarrow> mspError option"

definition zeroHostPort :: HostPort where
  "zeroHostPort = \<lparr>HostPort_Hostname = '''', HostPort_Port = 0\<rparr>"

definition slave_hostport :: "Slave \<Rightarrow> HostPort" where
  "slave_hostport s = \<lparr>HostPort_Hostname = Slave_Hostname s, HostPort_Port = Slave_Port s\<rparr>"

text \<open>A query for one row; gorm reports an empty result as the error \<open>record not found\<close>.\<close>

definition find_or_err :: "dbms \<Rightarrow> (nat \<Rightarrow> DB \<Rightarrow> 'a option) \<Rightarrow> 'a action" where
  "find_or_err D q = bindM (sql_query D q) (\<lambda>r. case r of
     None \<Rightarrow> raiseM (Failed (ErrMsg ''record not found'')) | Some x \<Rightarrow> returnM x)"

definition lift_result :: "string + 'a \<Rightarrow> 'a action" where
  "lift_result r = (case r of Inl msg \<Rightarrow> raiseM (Failed (ErrMsg msg)) | Inr x \<Rightarrow> returnM x)"

section \<open>Reading the desired state\<close>

definition findInitiatorForReplicaSet ::
  "dbms \<Rightarrow> (err \<Rightarrow> string) \<Rightarrow> ReplicaSet \<Rightarrow> (Slave \<times> Mongod) action" where
  "findInitiatorForReplicaSet D show_err r =
    bindM (DesiredMSPReplicaSetMembersForReplicaSetID D show_err (ReplicaSet_ID r)) (\<lambda>(_, initiator).
    if Mongod_ID initiator = 0
    then raiseM (Failed (ErrMsg ''Could not find initiator - Is replica set empty?''))
    else bindM (find_or_err D (\<lambda>n db. lookup_slave db (Mongod_ParentSlaveID initiator)))
      (\<lambda>s. returnM (s, initiator)))"

definition managementMongodCredential :: "dbms \<Rightarrow> MongodCredential action" where
  "managementMongodCredential D =
    bindM (sql_query D (\<lambda>n db. limit1 (order_by D n MongodbCredential_ID (mongodb_root_credentials db))))
      (\<lambda>r. returnM (case r of None \<Rightarrow> zeroCredential
         | Some c \<Rightarrow> ProjectModelMongodbCredentialToMSPMongodCredential c))"

definition keyfileContents :: "dbms \<Rightarrow> string action" where
  "keyfileContents D =
    bindM (find_or_err D (\<lambda>n db. limit1 (order_by D n Keyfile_ID (mongod_keyfiles db))))
      (\<lambda>keyfile. returnM (Keyfile_Content keyfile))"

definition replicaSetConfig :: "dbms \<Rightarrow> (err \<Rightarrow> string) \<Rightarrow> ReplicaSet \<Rightarrow> ReplicaSetConfig action" where
  "replicaSetConfig D show_err r =
    bindM (lift_result (ProjectModelShardingRoleToMSPShardingRole (ReplicaSet_ShardingRole r))) (\<lambda>shardingRole.
    bindM (managementMongodCredential D) (\<lambda>managementCredential.
    bindM (DesiredMSPReplicaSetMembersForReplicaSetID D show_err (ReplicaSet_ID r)) (\<lambda>(members, _).
    returnM \<lparr>Config_ReplicaSetName = ReplicaSet_Name r, Config_ReplicaSetMembers = members,
      Config_ShardingRole = shardingRole, Config_RootCredential = managementCredential\<rparr>)))"

definition mspMongodStateRepresentation ::
  "dbms \<Rightarrow> (err \<Rightarrow> string) \<Rightarrow> Mongod \<Rightarrow> (HostPort \<times> mspMongod) action" where
  "mspMongodStateRepresentation D show_err mongod =
    bindM (find_or_err D (\<lambda>n db. lookup_slave db (Mongod_ParentSlaveID mongod))) (\<lambda>slave.
    bindM (find_or_err D (\<lambda>n db. lookup_state db (Mongod_DesiredStateID mongod))) (\<lambda>desiredState.
    bindM (lift_result (mspMongodStateFromExecutionState (State_ExecutionState desiredState))) (\<lambda>mspMongodState.
    bindM (case Mongod_ReplicaSetID mongod of
        None \<Rightarrow> returnM []
      | Some rid \<Rightarrow> bindM (DesiredMSPReplicaSetMembersForReplicaSetID D show_err rid)
          (\<lambda>(members, _). returnM members)) (\<lambda>replicaSetMembers.
    bindM (lift_result (ProjectModelShardingRoleToMSPShardingRole (State_ShardingRole desiredState))) (\<lambda>shardingRole.
    bindM (managementMongodCredential D) (\<lambda>managementCredential.
    bindM (keyfileContents D) (\<lambda>keyfile.
    returnM (slave_hostport slave,
      \<lparr>mspMongod_Port = Mongod_Port mongod, mspMongod_KeyfileContent = keyfile,
       mspMongod_ReplicaSetConfig =
         \<lparr>Config_ReplicaSetName = Mongod_ReplSetName mongod, Config_ReplicaSetMembers = replicaSetMembers,
          Config_ShardingRole = shardingRole, Config_RootCredential = managementCredential\<rparr>,
       mspMongod_StatusError = None, mspMongod_LastEstablishStateError = None,
       mspMongod_State = mspMongodState\<rparr>))))))))"

section \<open>Handling messages\<close>

text \<open>The error of the representation is logged only: the call is made with the zero values the named
  results then hold.\<close>

definition pushMongodState :: "dbms \<Rightarrow> (err \<Rightarrow> string) \<Rightarrow> Mongod \<Rightarrow> msp_call list action" where
  "pushMongodState D show_err mongod =
    bindM (getM txDB) (\<lambda>db0.
    bindM (attempt (mspMongodStateRepresentation D show_err mongod)) (\<lambda>r.
    bindM (rollback db0) (\<lambda>_.
    case r of
      Inl _ \<Rightarrow> returnM [CallEstablishMongodState zeroHostPort zeroMspMongod]
    | Inr (hostPort, mspMongod) \<Rightarrow> returnM [CallEstablishMongodState hostPort mspMongod])))"

definition handleMatchStatus :: "dbms \<Rightarrow> (err \<Rightarrow> string) \<Rightarrow> MongodMatchStatus \<Rightarrow> msp_call list action" where
  "handleMatchStatus D show_err m =
    (if \<not> Match_Mismatch m then returnM [] else pushMongodState D show_err (Match_Mongod m))"

text \<open>\<open>Model(&r).Update("Initiated", true)\<close>: gorm leaves out the condition on a zero primary key.\<close>

definition set_initiated :: "ReplicaSet \<Rightarrow> DB \<Rightarrow> DB" where
  "set_initiated r db = db\<lparr>replica_sets := map (\<lambda>q.
     if ReplicaSet_ID r = 0 \<or> ReplicaSet_ID q = ReplicaSet_ID r then q\<lparr>ReplicaSet_Initiated := True\<rparr> else q)
     (replica_sets db)\<rparr>"

text \<open>The initiation up to the call; an error rolls back and makes no call.\<close>

definition prepare_initiation ::
  "dbms \<Rightarrow> (err \<Rightarrow> string) \<Rightarrow> ReplicaSet \<Rightarrow> (HostPort \<times> RsInitiateMessage) action" where
  "prepare_initiation D show_err r =
    bindM (findInitiatorForReplicaSet D show_err r) (\<lambda>(slave, initiator).
    bindM (replicaSetConfig D show_err r) (\<lambda>config.
    returnM (slave_hostport slave,
      \<lparr>RsInitiate_Port = Mongod_Port initiator, RsInitiate_ReplicaSetConfig = config\<rparr>)))"

text \<open>After a call that succeeded: the update, and the end of the transaction.\<close>

definition record_initiation :: "dbms \<Rightarrow> DB \<Rightarrow> ReplicaSet \<Rightarrow> unit action" where
  "record_initiation D db0 r =
    bindM (attempt (sql_exec D (set_initiated r))) (\<lambda>u. case u of
      Inl _ \<Rightarrow> rollback db0
    | Inr _ \<Rightarrow> bindM (attempt (commit D db0)) (\<lambda>_. returnM ()))"

definition handleReplicaSetInitiationStatus ::
  "dbms \<Rightarrow> (err \<Rightarrow> string) \<Rightarrow> MSPClient \<Rightarrow> ReplicaSetInitiationStatus \<Rightarrow> msp_call list action" where
  "handleReplicaSetInitiationStatus D show_err client s =
    (if Initiation_Initiated s then returnM []
     else
       bindM (getM txDB) (\<lambda>db0.
       bindM (attempt (prepare_initiation D show_err (Initiation_ReplicaSet s))) (\<lambda>p. case p of
         Inl _ \<Rightarrow> bindM (rollback db0) (\<lambda>_. returnM [])
       | Inr (hostPort, msg) \<Rightarrow>
           (let call = CallInitiateReplicaSet hostPort msg in
            if client call \<noteq> None then bindM (rollback db0) (\<lambda>_. returnM [call])
            else bindM (record_initiation D db0 (Initiation_ReplicaSet s)) (\<lambda>_. returnM [call])))))"

text \<open>\<open>Run\<close>, on one message.\<close>

fun Deployer_handle :: "dbms \<Rightarrow> (err \<Rightarrow> string) \<Rightarrow> MSPClient \<Rightarrow> StatusMessage \<Rightarrow> msp_call list action" where
  "Deployer_handle D show_err client (MongodMatchStatusMsg m) = handleMatchStatus D show_err m"
| "Deployer_handle D show_err client (InitiationMsg s) = handleReplicaSetInitiationStatus D show_err client s"
| "Deployer_handle D show_err client _ = returnM []"

section \<open>What the queries leave unchanged\<close>

text \<open>A computation that only reads: the tables and the bus stay, and it does not panic.\<close>

definition reads_only :: "'a action \<Rightarrow> bool" where
  "reads_only m \<longleftrightarrow> (\<forall>s. run m (\<lambda>_ s'. txDB s' = txDB s \<and> txBus s' = txBus s)
     (\<lambda>f s'. txDB s' = txDB s \<and> txBus s' = txBus s \<and> (\<exists>e. f = Failed e)) s)"

named_theorems reading

lemma reads_onlyI:
  "(\<And>s. run m (\<lambda>_ s'. txDB s' = txDB s \<and> txBus s' = txBus s)
     (\<lambda>f s'. txDB s' = txDB s \<and> txBus s' = txBus s \<and> (\<exists>e. f = Failed e)) s) \<Longrightarrow> reads_only m"
  by (simp add: reads_only_def)

lemma reads_only_return [reading]: "reads_only (returnM x)"
  by (simp add: reads_only_def run_simps)

lemma reads_only_raise [reading]: "reads_only (raiseM (Failed e))"
  by (simp add: reads_only_def run_simps)

lemma reads_only_query [reading]: "reads_only (sql_query D q)"
  unfolding sql_query_def by (intro reads_onlyI run_sql_stmt) auto

lemma reads_only_bind [reading]:
  assumes "reads_only m" and "\<And>x. reads_only (f x)"
  shows "reads_only (bindM m f)"
proof (rule reads_onlyI, unfold run_bindM, rule run_mono)
  fix s show "run m (\<lambda>_ s'. txDB s' = txDB s \<and> txBus s' = txBus s)
     (\<lambda>f s'. txDB s' = txDB s \<and> txBus s' = txBus s \<and> (\<exists>e. f = Failed e)) s"
    using assms(1) by (simp add: reads_only_def)
next
  fix s x and s' :: tx
  assume same: "txDB s' = txDB s \<and> txBus s' = txBus s"
  have "run (f x) (\<lambda>_ s''. txDB s'' = txDB s' \<and> txBus s'' = txBus s')
     (\<lambda>f s''. txDB s'' = txDB s' \<and> txBus s'' = txBus s' \<and> (\<exists>e. f = Failed e)) s'"
    using assms(2) by (simp add: reads_only_def)
  with same show "run (f x) (\<lambda>_ s''. txDB s'' = txDB s \<and> txBus s'' = txBus s)
     (\<lambda>f s''. txDB s'' = txDB s \<and> txBus s'' = txBus s \<and> (\<exists>e. f = Failed e)) s'"
    by simp
qed

lemma reads_only_wrapErr [reading]:
  assumes "reads_only m" shows "reads_only (wrapErr show_err prefix m)"
  using assms unfolding reads_only_def by (blast intro: run_wrapErr_any)

lemma reads_only_case_prod [reading]:
  "(\<And>x y. reads_only (f x y)) \<Longrightarrow> reads_only (case p of (x, y) \<Rightarrow> f x y)"
  by (cases p) simp

lemma reads_only_case_option [reading]:
  "reads_only m \<Longrightarrow> (\<And>x. reads_only (f x)) \<Longrightarrow> reads_only (case p of None \<Rightarrow> m | Some x \<Rightarrow> f x)"
  by (cases p) simp_all

lemma reads_only_if [reading]: "reads_only m \<Longrightarrow> reads_only m' \<Longrightarrow> reads_only (if b then m else m')"
  by simp

lemma reads_only_lift_result [reading]: "reads_only (lift_result r)"
  by (cases r) (simp_all add: lift_result_def reading)

lemma reads_only_find_or_err [reading]: "reads_only (find_or_err D q)"
  unfolding find_or_err_def by (intro reading)

lemma reads_only_DesiredMembers [reading]:
  "reads_only (DesiredMSPReplicaSetMembersForReplicaSetID D show_err rid)"
  unfolding DesiredMSPReplicaSetMembersForReplicaSetID_def by (intro reading)

lemma reads_only_credential [reading]: "reads_only (managementMongodCredential D)"
  unfolding managementMongodCredential_def by (intro reading)

lemma reads_only_keyfile [reading]: "reads_only (keyfileContents D)"
  unfolding keyfileContents_def by (intro reading)

lemma reads_only_prepare [reading]: "reads_only (prepare_initiation D show_err r)"
  unfolding prepare_initiation_def findInitiatorForReplicaSet_def replicaSetConfig_def
  by (intro reading)

lemma reads_only_representation [reading]: "reads_only (mspMongodStateRepresentation D show_err m)"
  unfolding mspMongodStateRepresentation_def by (intro reading)

lemma run_attempt_reads_only:
  assumes "reads_only m"
    and "\<And>x s'. txDB s' = txDB s \<Longrightarrow> txBus s' = txBus s \<Longrightarrow> Q x s'"
  shows "run (attempt m) Q R s"
  unfolding run_attempt
  by (rule run_mono [OF assms(1) [unfolded reads_only_def, rule_format]]) (auto intro: assms(2))

lemma set_initiated_foreign_keys [simp]: "foreign_keys_ok (set_initiated r db) = foreign_keys_ok db"
  by (rule foreign_keys_ok_same) (simp_all add: set_initiated_def)

lemma run_record_initiation:
  assumes "\<And>s'. txBus s' = txBus s \<Longrightarrow> txDB s' = db0 \<or> txDB s' = set_initiated r (txDB s) \<Longrightarrow> Q () s'"
  shows "run (record_initiation D db0 r) Q R s"
  unfolding record_initiation_def run_bindM run_attempt sql_exec_def
  by (rule run_sql_stmt) (auto simp: run_simps run_attempt intro!: run_commit assms)

section \<open>Properties\<close>

text \<open>C20: whatever the database and the slave do, handling an initiation status ends
  without error and leaves the tables as they were, except that a replica set reported as not
  initiated may be marked as initiated; and then the one call made was an initiation that the
  slave confirmed.  A status that is already initiated causes no call.\<close>

theorem initiated_only_after_call:
  "\<exists>calls s'. handleReplicaSetInitiationStatus D show_err client st s = (Inr calls, s') \<and>
    txBus s' = txBus s \<and>
    (txDB s' = txDB s \<or>
     txDB s' = set_initiated (Initiation_ReplicaSet st) (txDB s) \<and> \<not> Initiation_Initiated st \<and>
     (\<exists>hostPort msg. calls = [CallInitiateReplicaSet hostPort msg] \<and> client (CallInitiateReplicaSet hostPort msg) = None)) \<and>
    (Initiation_Initiated st \<longrightarrow> calls = [])"
proof -
  let ?Q = "\<lambda>calls s'. txBus s' = txBus s \<and>
    (txDB s' = txDB s \<or>
     txDB s' = set_initiated (Initiation_ReplicaSet st) (txDB s) \<and> \<not> Initiation_Initiated st \<and>
     (\<exists>hostPort msg. calls = [CallInitiateReplicaSet hostPort msg] \<and> client (CallInitiateReplicaSet hostPort msg) = None)) \<and>
    (Initiation_Initiated st \<longrightarrow> calls = [])"
  have "run (handleReplicaSetInitiationStatus D show_err client st) ?Q (\<lambda>_ _. False) s"
  proof (cases "Initiation_Initiated st")
    case True
    then show ?thesis by (simp add: handleReplicaSetInitiationStatus_def run_simps)
  next
    case False
    then show ?thesis
      unfolding handleReplicaSetInitiationStatus_def if_not_P [OF False] run_bindM run_getM
      by (intro run_attempt_reads_only reading)
        (auto simp: run_simps run_rollback Let_def intro!: run_record_initiation split: sum.split)
  qed
  from run_total [OF this] show ?thesis .
qed

theorem initiated_only_after_call_witness:
  "\<exists>calls s'. handleReplicaSetInitiationStatus plain_dbms (\<lambda>_. []) (\<lambda>_. None)
      \<lparr>Initiation_Initiated = True, Initiation_ReplicaSet = example_set\<rparr> (begin_tx running_db) = (Inr calls, s') \<and>
    calls = [] \<and> txDB s' = running_db"
  using initiated_only_after_call [of plain_dbms "\<lambda>_. []" "\<lambda>_. None"
      "\<lparr>Initiation_Initiated = True, Initiation_ReplicaSet = example_set\<rparr>" "begin_tx running_db"]
  by auto

text \<open>What a successful push sends.\<close>

definition root_credential :: "dbms \<Rightarrow> nat \<Rightarrow> DB \<Rightarrow> MongodCredential" where
  "root_credential D n db =
    (case limit1 (order_by D n MongodbCredential_ID (mongodb_root_credentials db)) of
       None \<Rightarrow> zeroCredential | Some c \<Rightarrow> ProjectModelMongodbCredentialToMSPMongodCredential c)"

lemma run_find_or_err:
  assumes "fault_free D" and "q (txCalls s) (txDB s) = Some x" and "Q x (tick s)"
  shows "run (find_or_err D q) Q R s"
  unfolding find_or_err_def run_bindM
  by (rule run_mono [OF run_query_total]) (use assms in \<open>auto simp: run_simps\<close>)

lemma run_lift_result: "r = Inr x \<Longrightarrow> Q x s \<Longrightarrow> run (lift_result r) Q R s"
  by (simp add: lift_result_def run_simps)

lemma run_credential:
  assumes "fault_free D" and "Q (root_credential D (txCalls s) (txDB s)) (tick s)"
  shows "run (managementMongodCredential D) Q (\<lambda>_ _. False) s"
  unfolding managementMongodCredential_def run_bindM
  by (rule run_query_total) (use assms in \<open>simp_all add: run_simps root_credential_def\<close>)

lemma run_keyfile:
  assumes "dbms_ok D" and "fault_free D" and "mongod_keyfiles (txDB s) = [k]" and "Q (Keyfile_Content k) (tick s)"
  shows "run (keyfileContents D) Q (\<lambda>_ _. False) s"
proof -
  have "limit1 (order_by D (txCalls s) Keyfile_ID (mongod_keyfiles (txDB s))) = Some k"
    using limit1_order_by_None [OF assms(1)] limit1_order_by_Some [OF assms(1)] assms(3)
    by (metis empty_iff list.distinct(1) list.set(1) option.exhaust set_ConsD)
  then show ?thesis
    unfolding keyfileContents_def run_bindM
    by (rule run_find_or_err [OF assms(2)]) (simp add: run_simps assms(4))
qed

definition running_hosts :: "DB \<Rightarrow> ID \<Rightarrow> HostPort multiset" where
  "running_hosts db rid = image_mset (\<lambda>m. \<lparr>HostPort_Hostname = Slave_Hostname (host_of db m),
     HostPort_Port = Mongod_Port m\<rparr>) (mset (filter (is_desired_member db rid) (mongods db)))"

lemma wanted_members_hosts:
  "db_wf db \<Longrightarrow> mset (map Member_HostPort (wanted_members db rid)) = running_hosts db rid"
  by (simp add: wanted_members_def running_hosts_def vote_loop_hosts desired_members_eq multiset.map_comp comp_def)

definition describes :: "dbms \<Rightarrow> DB \<Rightarrow> Mongod \<Rightarrow> MongodStateRow \<Rightarrow> mspMongod \<Rightarrow> bool" where
  "describes D db m desired mm \<longleftrightarrow>
    mspMongod_Port mm = Mongod_Port m \<and>
    map Keyfile_Content (mongod_keyfiles db) = [mspMongod_KeyfileContent mm] \<and>
    MspMongodStateToModelExecutionState (mspMongod_State mm) = State_ExecutionState desired \<and>
    Config_ReplicaSetName (mspMongod_ReplicaSetConfig mm) = Mongod_ReplSetName m \<and>
    Config_ShardingRole (mspMongod_ReplicaSetConfig mm) = State_ShardingRole desired \<and>
    mset (map Member_HostPort (Config_ReplicaSetMembers (mspMongod_ReplicaSetConfig mm))) =
      (case Mongod_ReplicaSetID m of None \<Rightarrow> {#}
       | Some rid \<Rightarrow> running_hosts db rid) \<and>
    Config_ReplicaSetMembers (mspMongod_ReplicaSetConfig mm) =
      (case Mongod_ReplicaSetID m of None \<Rightarrow> [] | Some rid \<Rightarrow> wanted_members db rid)"

lemma run_members:
  assumes "dbms_ok D" and "fault_free D" and "db_wf (txDB s)"
    and "\<And>members initiator s'. txDB s' = txDB s \<Longrightarrow>
      mset (map Member_HostPort members) =
        running_hosts (txDB s) rid \<Longrightarrow>
      members = wanted_members (txDB s) rid \<Longrightarrow>
      Q (members, initiator) s'"
  shows "run (DesiredMSPReplicaSetMembersForReplicaSetID D show_err rid) Q (\<lambda>_ _. False) s"
  by (rule run_DesiredMembers [OF assms(2)], unfold vote_loop_wanted [OF assms(1,3)], rule assms(4))
    (simp_all add: wanted_members_hosts [OF assms(3)] flip: mset_map)

lemma run_set_members:
  assumes "dbms_ok D" and "fault_free D" and "db_wf (txDB s)"
    and "\<And>members s'. txDB s' = txDB s \<Longrightarrow>
      mset (map Member_HostPort members) = (case rs of None \<Rightarrow> {#}
       | Some rid \<Rightarrow> running_hosts (txDB s) rid) \<Longrightarrow>
      members = (case rs of None \<Rightarrow> [] | Some rid \<Rightarrow> wanted_members (txDB s) rid) \<Longrightarrow>
      Q members s'"
  shows "run (case rs of None \<Rightarrow> returnM [] | Some rid \<Rightarrow>
    bindM (DesiredMSPReplicaSetMembersForReplicaSetID D show_err rid) (\<lambda>(members, _). returnM members))
    Q (\<lambda>_ _. False) s"
  using assms(4) by (cases rs) (auto simp: run_simps intro!: run_members [OF assms(1-3)])

lemma state_projection_back:
  assumes "mspMongodStateFromExecutionState e = Inr x"
  shows "MspMongodStateToModelExecutionState x = e"
  using assms by (cases e) auto

lemma handleMatchStatus_sends:
  assumes "dbms_ok D" and "fault_free D" and "db_wf (txDB s)" and "m \<in> set (mongods (txDB s))"
    and "lookup_state (txDB s) (Mongod_DesiredStateID m) = Some desired"
    and "mspMongodStateFromExecutionState (State_ExecutionState desired) = Inr x"
    and "State_ShardingRole desired \<in> {ShardingRoleNone, ShardingRoleShardServer, ShardingRoleConfigServer}"
    and "mongod_keyfiles (txDB s) = [k]"
  shows "\<exists>mm s'. handleMatchStatus D show_err \<lparr>Match_Mismatch = True, Match_Mongod = m\<rparr> s =
      (Inr [CallEstablishMongodState (slave_hostport (host_of (txDB s) m)) mm], s') \<and>
    describes D (txDB s) m desired mm \<and> txDB s' = txDB s"
proof -
  obtain slave where slave: "lookup_slave (txDB s) (Mongod_ParentSlaveID m) = Some slave"
    using mongod_ok_slave [OF db_wf_mongod_ok [OF assms(3,4)]] by metis
  have role: "ProjectModelShardingRoleToMSPShardingRole (State_ShardingRole desired) =
      Inr (State_ShardingRole desired)"
    using assms(7) by (auto simp: ProjectModelShardingRoleToMSPShardingRole_def)
  have "run (mspMongodStateRepresentation D show_err m) (\<lambda>(h, mm) s'.
      h = slave_hostport slave \<and> describes D (txDB s) m desired mm) (\<lambda>_ _. False) s"
    unfolding mspMongodStateRepresentation_def run_bindM
  proof (rule run_find_or_err [OF assms(2)], rule slave, rule run_find_or_err [OF assms(2)],
      simp add: assms(5), rule run_lift_result, rule assms(6), rule run_set_members [OF assms(1,2)],
      simp add: assms(3), rule run_lift_result, rule role, rule run_credential [OF assms(2)],
      rule run_keyfile [OF assms(1,2)], simp add: assms(8))
  qed (simp add: run_simps describes_def state_projection_back [OF assms(6)] assms(8)
      del: MspMongodStateToModelExecutionState.simps cong: option.case_cong)
  then have "run (handleMatchStatus D show_err \<lparr>Match_Mismatch = True, Match_Mongod = m\<rparr>) (\<lambda>calls s'.
      (\<exists>mm. calls = [CallEstablishMongodState (slave_hostport slave) mm] \<and> describes D (txDB s) m desired mm) \<and>
      txDB s' = txDB s) (\<lambda>_ _. False) s"
    by (auto simp: handleMatchStatus_def pushMongodState_def run_simps elim!: run_mono intro!: run_attempt_total)
  from run_total [OF this] show ?thesis
    by (auto simp: host_of_def slave)
qed

text \<open>For a Mongod of a well-formed database whose desired state the protocol can
  express, and without database errors, a mismatch makes the deployer send one call, to the slave
  that hosts the Mongod, with the Mongod's port and set name, the stored keyfile, its desired state
  and role, and all members of its replica set that are to run; the tables do not change.\<close>

theorem push_sends_desired_state:
  assumes "dbms_ok D" and "fault_free D" and "db_wf (txDB s)" and "m \<in> set (mongods (txDB s))"
    and "lookup_state (txDB s) (Mongod_DesiredStateID m) = Some desired"
    and "mspMongodStateFromExecutionState (State_ExecutionState desired) = Inr x"
    and "State_ShardingRole desired \<in> {ShardingRoleNone, ShardingRoleShardServer, ShardingRoleConfigServer}"
    and "mongod_keyfiles (txDB s) = [k]"
  shows "\<exists>mm s'. handleMatchStatus D show_err \<lparr>Match_Mismatch = True, Match_Mongod = m\<rparr> s =
      (Inr [CallEstablishMongodState (slave_hostport (host_of (txDB s) m)) mm], s') \<and>
    describes D (txDB s) m desired mm \<and> txDB s' = txDB s"
  by (rule handleMatchStatus_sends [OF assms])

lemma db_wf_cong:
  assumes "db_wf db" and "slaves db' = slaves db" and "mongods db' = mongods db"
    and "mongod_states db' = mongod_states db" and "replica_sets db' = replica_sets db"
  shows "db_wf db'"
  using assms(1) by (simp add: assms(2-) db_wf_def keys_ok_def mongod_ok_def owns_state_def cong: option.case_cong)

definition keyed_db :: DB where
  "keyed_db = running_db\<lparr>mongod_keyfiles := [\<lparr>Keyfile_ID = 1, Keyfile_Content = ''key''\<rparr>]\<rparr>"

lemma keyed_db_wf: "db_wf keyed_db"
  using running_db_wf by (rule db_wf_cong) (simp_all add: keyed_db_def)

theorem push_sends_desired_state_witness:
  "\<exists>mm s'. handleMatchStatus plain_dbms (\<lambda>_. []) \<lparr>Match_Mismatch = True, Match_Mongod = example_mongod\<rparr>
      (begin_tx keyed_db) = (Inr [CallEstablishMongodState (slave_hostport (host_of keyed_db example_mongod)) mm], s') \<and>
    mspMongod_State mm = MongodStateRunning \<and> mspMongod_KeyfileContent mm = ''key''"
proof -
  let ?desired = "(example_state 1)\<lparr>State_ExecutionState := MongodExecutionStateRunning\<rparr>"
  have db: "db_wf (txDB (begin_tx keyed_db))" "example_mongod \<in> set (mongods (txDB (begin_tx keyed_db)))"
    "lookup_state (txDB (begin_tx keyed_db)) (Mongod_DesiredStateID example_mongod) = Some ?desired"
    "mspMongodStateFromExecutionState (State_ExecutionState ?desired) = Inr MongodStateRunning"
    "State_ShardingRole ?desired \<in> {ShardingRoleNone, ShardingRoleShardServer, ShardingRoleConfigServer}"
    "mongod_keyfiles (txDB (begin_tx keyed_db)) = [\<lparr>Keyfile_ID = 1, Keyfile_Content = ''key''\<rparr>]"
    by (simp_all add: keyed_db_wf) (simp_all add: keyed_db_def running_db_def example_defs)
  from push_sends_desired_state [OF plain_dbms_ok plain_dbms_fault_free db, of "\<lambda>_. []"]
  show ?thesis
    by (auto simp: describes_def keyed_db_def split: if_splits)
qed

text \<open>When the desired state cannot be expressed in the protocol, as for a
  Mongod that is to be uninitiated, the error is logged and the call is made all the same: with an
  empty host name, port 0 and an empty Mongod.\<close>

theorem inexpressible_state_pushes_zero:
  assumes "fault_free D" and "lookup_slave (txDB s) (Mongod_ParentSlaveID m) = Some slave"
    and "lookup_state (txDB s) (Mongod_DesiredStateID m) = Some desired"
    and "State_ExecutionState desired = MongodExecutionStateUninitiated"
  shows "\<exists>s'. pushMongodState D show_err m s =
    (Inr [CallEstablishMongodState zeroHostPort zeroMspMongod], s') \<and> txDB s' = txDB s"
proof -
  have "run (mspMongodStateRepresentation D show_err m) (\<lambda>_ _. False) (\<lambda>f _. \<exists>e. f = Failed e) s"
    unfolding mspMongodStateRepresentation_def run_bindM
    by (rule run_find_or_err [OF assms(1)], rule assms(2), rule run_find_or_err [OF assms(1)])
      (auto simp: run_simps lift_result_def assms(3,4))
  then have "run (pushMongodState D show_err m) (\<lambda>calls s'.
      calls = [CallEstablishMongodState zeroHostPort zeroMspMongod] \<and> txDB s' = txDB s) (\<lambda>_ _. False) s"
    by (auto simp: pushMongodState_def run_simps run_attempt elim!: run_mono)
  from run_total [OF this] show ?thesis by auto
qed

theorem inexpressible_state_pushes_zero_witness:
  "\<exists>s'. pushMongodState plain_dbms (\<lambda>_. []) example_mongod (begin_tx (running_db\<lparr>mongod_states :=
      map (\<lambda>i. (example_state i)\<lparr>State_ExecutionState := MongodExecutionStateUninitiated\<rparr>) [1, 2]\<rparr>)) =
    (Inr [CallEstablishMongodState zeroHostPort zeroMspMongod], s')"
proof -
  let ?s = "begin_tx (running_db\<lparr>mongod_states :=
      map (\<lambda>i. (example_state i)\<lparr>State_ExecutionState := MongodExecutionStateUninitiated\<rparr>) [1, 2]\<rparr>)"
  obtain slave desired where "lookup_slave (txDB ?s) (Mongod_ParentSlaveID example_mongod) = Some slave"
    "lookup_state (txDB ?s) (Mongod_DesiredStateID example_mongod) = Some desired"
    "State_ExecutionState desired = MongodExecutionStateUninitiated"
    by (simp add: running_db_def example_defs)
  from inexpressible_state_pushes_zero [OF plain_dbms_fault_free this] show ?thesis by blast
qed

lemma run_initiator:
  assumes "dbms_ok D" and "fault_free D" and "db_wf (txDB s)"
    and "filter (is_desired_member (txDB s) rid) (mongods (txDB s)) \<noteq> []"
    and "\<And>members initiator s'. txDB s' = txDB s \<Longrightarrow> initiator \<in> set (mongods (txDB s)) \<Longrightarrow>
      is_desired_member (txDB s) rid initiator \<Longrightarrow> Q (members, initiator) s'"
  shows "run (DesiredMSPReplicaSetMembersForReplicaSetID D show_err rid) Q (\<lambda>_ _. False) s"
proof (rule run_DesiredMembers [OF assms(2)])
  fix s' :: tx assume same: "txDB s' = txDB s"
  let ?rows = "order_by D (txCalls s) member_order (desired_members (txDB s) rid)"
  obtain m h rest where rows: "?rows = (m, h) # rest"
    using order_by_Nil [OF assms(1), of "txCalls s" member_order "desired_members (txDB s) rid"] assms(3,4)
    by (cases ?rows) (auto simp: desired_members_eq)
  then have "(m, h) \<in> set (desired_members (txDB s) rid)"
    using set_order_by [OF assms(1)] by (metis list.set_intros(1))
  then have m: "m \<in> set (mongods (txDB s))" "is_desired_member (txDB s) rid m"
    by (auto simp: desired_members_eq [OF assms(3)])
  then have "lookup_mongod (txDB s) (initiatorId ?rows) = Some m"
    using find_row_unique [OF db_wf_keys(2) [OF assms(3)] m(1)] by (simp add: rows initiatorId_def)
  then show "Q (vote_loop 0 ?rows, case lookup_mongod (txDB s) (initiatorId ?rows) of
      None \<Rightarrow> zeroMongod | Some m \<Rightarrow> m) s'"
    using assms(5) [OF same m] by simp
qed

lemma run_findInitiator:
  assumes "dbms_ok D" and "fault_free D" and "db_wf (txDB s)"
    and "\<forall>m \<in> set (mongods (txDB s)). Mongod_ID m \<noteq> 0"
    and "filter (is_desired_member (txDB s) (ReplicaSet_ID r)) (mongods (txDB s)) \<noteq> []"
  shows "run (findInitiatorForReplicaSet D show_err r) (\<lambda>(slave, m) s'. txDB s' = txDB s \<and>
      slave = host_of (txDB s) m \<and> m \<in> set (mongods (txDB s)) \<and> is_desired_member (txDB s) (ReplicaSet_ID r) m)
      (\<lambda>_ _. False) s"
  unfolding findInitiatorForReplicaSet_def run_bindM
proof (rule run_initiator [OF assms(1-3,5)])
  fix members and m :: Mongod and s' :: tx
  assume m: "txDB s' = txDB s" "m \<in> set (mongods (txDB s))" "is_desired_member (txDB s) (ReplicaSet_ID r) m"
  obtain slave where "lookup_slave (txDB s) (Mongod_ParentSlaveID m) = Some slave"
    using mongod_ok_slave [OF db_wf_mongod_ok [OF assms(3) m(2)]] by metis
  with m assms(4) show "run (case (members, m) of (_, initiator) \<Rightarrow>
      if Mongod_ID initiator = 0 then raiseM (Failed (ErrMsg ''Could not find initiator - Is replica set empty?''))
      else bindM (find_or_err D (\<lambda>n db. lookup_slave db (Mongod_ParentSlaveID initiator))) (\<lambda>s. returnM (s, initiator)))
      (\<lambda>(slave, m) s'. txDB s' = txDB s \<and> slave = host_of (txDB s) m \<and> m \<in> set (mongods (txDB s)) \<and>
        is_desired_member (txDB s) (ReplicaSet_ID r) m) (\<lambda>_ _. False) s'"
    by (auto simp: run_bindM run_returnM host_of_def intro!: run_find_or_err [OF assms(2)])
qed

lemma run_replicaSetConfig:
  assumes "dbms_ok D" and "fault_free D" and "db_wf (txDB s)"
    and "ReplicaSet_ShardingRole r \<in> {ShardingRoleNone, ShardingRoleShardServer, ShardingRoleConfigServer}"
  shows "run (replicaSetConfig D show_err r) (\<lambda>config s'. txDB s' = txDB s \<and>
      mset (map Member_HostPort (Config_ReplicaSetMembers config)) = running_hosts (txDB s) (ReplicaSet_ID r))
      (\<lambda>_ _. False) s"
proof -
  have role: "ProjectModelShardingRoleToMSPShardingRole (ReplicaSet_ShardingRole r) = Inr (ReplicaSet_ShardingRole r)"
    using assms(4) by (auto simp: ProjectModelShardingRoleToMSPShardingRole_def)
  show ?thesis
    unfolding replicaSetConfig_def run_bindM
    by (rule run_lift_result, rule role, rule run_credential [OF assms(2)], rule run_members [OF assms(1,2)])
      (simp_all add: assms(3) run_simps)
qed

text \<open>C21: for a replica set with a known role and at least one member that is to run, and
  when the database and the slave report no error, the initiation is sent to the slave of one of
  these members, names that member's port and lists all of them, and the replica set is marked.\<close>

theorem initiation_succeeds:
  assumes "dbms_ok D" and "fault_free D" and "db_wf (txDB s)"
    and "\<forall>m \<in> set (mongods (txDB s)). Mongod_ID m \<noteq> 0"
    and "filter (is_desired_member (txDB s) (ReplicaSet_ID r)) (mongods (txDB s)) \<noteq> []"
    and "ReplicaSet_ShardingRole r \<in> {ShardingRoleNone, ShardingRoleShardServer, ShardingRoleConfigServer}"
    and "\<And>call. client call = None" and "foreign_keys_ok (txDB s)"
  shows "\<exists>m msg s'. handleReplicaSetInitiationStatus D show_err client
      \<lparr>Initiation_Initiated = False, Initiation_ReplicaSet = r\<rparr> s =
      (Inr [CallInitiateReplicaSet (slave_hostport (host_of (txDB s) m)) msg], s') \<and>
    m \<in> set (mongods (txDB s)) \<and> is_desired_member (txDB s) (ReplicaSet_ID r) m \<and>
    RsInitiate_Port msg = Mongod_Port m \<and>
    mset (map Member_HostPort (Config_ReplicaSetMembers (RsInitiate_ReplicaSetConfig msg))) =
      running_hosts (txDB s) (ReplicaSet_ID r) \<and>
    txDB s' = set_initiated r (txDB s)"
proof -
  let ?P = "\<lambda>h msg. \<exists>m. h = slave_hostport (host_of (txDB s) m) \<and> m \<in> set (mongods (txDB s)) \<and>
    is_desired_member (txDB s) (ReplicaSet_ID r) m \<and> RsInitiate_Port msg = Mongod_Port m \<and>
    mset (map Member_HostPort (Config_ReplicaSetMembers (RsInitiate_ReplicaSetConfig msg))) =
      running_hosts (txDB s) (ReplicaSet_ID r)"
  have "run (prepare_initiation D show_err r) (\<lambda>(h, msg) s'. txDB s' = txDB s \<and> ?P h msg) (\<lambda>_ _. False) s"
    unfolding prepare_initiation_def run_bindM
  proof (rule run_mono [OF run_findInitiator [OF assms(1-5)]], clarify)
    fix m and s' :: tx assume m: "txDB s' = txDB s" "m \<in> set (mongods (txDB s))"
      "is_desired_member (txDB s) (ReplicaSet_ID r) m"
    then have "db_wf (txDB s')" using assms(3) by simp
    from run_replicaSetConfig [OF assms(1,2) this assms(6), of show_err] m
    show "run (bindM (replicaSetConfig D show_err r) (\<lambda>config. returnM (slave_hostport (host_of (txDB s) m),
        \<lparr>RsInitiate_Port = Mongod_Port m, RsInitiate_ReplicaSetConfig = config\<rparr>)))
        (\<lambda>(h, msg) s'. txDB s' = txDB s \<and> ?P h msg) (\<lambda>_ _. False) s'"
      by (auto simp: run_bindM run_returnM elim!: run_mono)
  qed simp
  then have "run (handleReplicaSetInitiationStatus D show_err client
      \<lparr>Initiation_Initiated = False, Initiation_ReplicaSet = r\<rparr>) (\<lambda>calls s'. (\<exists>h msg.
        calls = [CallInitiateReplicaSet h msg] \<and> ?P h msg) \<and> txDB s' = set_initiated r (txDB s)) (\<lambda>_ _. False) s"
    unfolding handleReplicaSetInitiationStatus_def run_bindM run_getM
    by (auto simp: assms(7,8) run_simps record_initiation_def intro!: run_attempt_total run_exec_total [OF assms(2)]
        run_commit_total [OF assms(2)] elim!: run_mono) blast
  from run_total [OF this] show ?thesis by fastforce
qed

theorem initiation_succeeds_witness:
  "\<exists>m msg s'. handleReplicaSetInitiationStatus plain_dbms (\<lambda>_. []) (\<lambda>_. None)
      \<lparr>Initiation_Initiated = False, Initiation_ReplicaSet = example_set\<rparr> (begin_tx running_db) =
      (Inr [CallInitiateReplicaSet (slave_hostport (host_of running_db m)) msg], s') \<and>
    RsInitiate_Port msg = 18080 \<and> map ReplicaSet_Initiated (replica_sets (txDB s')) = [True]"
proof -
  have db: "db_wf (txDB (begin_tx running_db))"
    "\<forall>m \<in> set (mongods (txDB (begin_tx running_db))). Mongod_ID m \<noteq> 0"
    "filter (is_desired_member (txDB (begin_tx running_db)) (ReplicaSet_ID example_set))
       (mongods (txDB (begin_tx running_db))) \<noteq> []"
    "ReplicaSet_ShardingRole example_set \<in> {ShardingRoleNone, ShardingRoleShardServer, ShardingRoleConfigServer}"
    by (simp_all add: running_db_wf)
      (simp_all add: running_db_def example_defs is_desired_member_def desired_exec_def)
  have keys: "foreign_keys_ok (txDB (begin_tx running_db))"
    by (simp add: running_db_def example_defs foreign_keys_ok_def slave_keys_ok_def mongod_keys_ok_def)
  have "Mongod_Port m = 18080" if "m \<in> set (mongods running_db)" for m
    using that by (simp add: running_db_def example_defs)
  moreover have "map ReplicaSet_Initiated (replica_sets (set_initiated example_set running_db)) = [True]"
    by (simp_all add: set_initiated_def running_db_def example_defs)
  ultimately show ?thesis
    using initiation_succeeds [OF plain_dbms_ok plain_dbms_fault_free db _ keys, of "\<lambda>_. None" "\<lambda>_. []"]
    by auto
qed

end
