(* ===== verification/ProblemManager.thy ===== *)
theory ProblemManager
  imports Monitor
begin

text \<open>
  The problem manager, \<open>src/master/problem_manager.go\<close>: it turns the status messages of the bus into
  rows of the table of problems.  The chain \<open>Where(..).Assign(..).Attrs(..).FirstOrCreate(..)\<close> is
  modelled as documented: the first matching row by primary key is updated with the non-zero
  fields of \<open>Assign\<close>, and if there is none a row with the fields of all three is created.
\<close>

type_synonym problem_key = "ProblemType \<times> ID option \<times> ID option"

text \<open>The condition struct of \<open>Where\<close>; fields that are not set are not compared.\<close>

definition matches_problem :: "problem_key \<Rightarrow> Problem \<Rightarrow> bool" where
  "matches_problem key p = (case key of (t, slave, rs) \<Rightarrow>
    Problem_ProblemType p = t \<and> (slave \<noteq> None \<longrightarrow> Problem_SlaveID p = slave) \<and>
    (rs \<noteq> None \<longrightarrow> Problem_ReplicaSetID p = rs))"

definition assign_problem :: "string \<Rightarrow> string \<Rightarrow> int \<Rightarrow> Problem \<Rightarrow> Problem" where
  "assign_problem desc long now p =
    p\<lparr>Problem_Description := (if desc = [] then Problem_Description p else desc),
      Problem_LongDescription := (if long = [] then Problem_LongDescription p else long),
      Problem_LastUpdated := now\<rparr>"

definition FirstOrCreate :: "dbms \<Rightarrow> problem_key \<Rightarrow> string \<Rightarrow> string \<Rightarrow> int \<Rightarrow> int \<Rightarrow> unit action" where
  "FirstOrCreate D key desc long now first = sql_stmt D (\<lambda>n db. Inr ((),
    case limit1 (order_by D n Problem_ID (filter (matches_problem key) (problems db))) of
      Some p \<Rightarrow> db\<lparr>problems := map (\<lambda>q. if Problem_ID q = Problem_ID p
        then assign_problem desc long now q else q) (problems db)\<rparr>
    | None \<Rightarrow> (case key of (t, slave, rs) \<Rightarrow> db\<lparr>problems := problems db @
        [\<lparr>Problem_ID = newID D n (map Problem_ID (problems db)), Problem_Description = desc,
          Problem_LongDescription = long, Problem_ProblemType = t, Problem_FirstOccurred = first,
          Problem_LastUpdated = now, Problem_SlaveID = slave, Problem_ReplicaSetID = rs,
          Problem_MongodID = None\<rparr>]\<rparr>)))"

definition DeleteProblems :: "dbms \<Rightarrow> problem_key \<Rightarrow> unit action" where
  "DeleteProblems D key = sql_exec D (\<lambda>db. db\<lparr>problems := filter (\<lambda>p. \<not> matches_problem key p) (problems db)\<rparr>)"

text \<open>One message.  \<open>now\<close> and \<open>first\<close> are the two calls of \<open>time.Now()\<close>.\<close>

fun handle_status :: "dbms \<Rightarrow> int \<Rightarrow> int \<Rightarrow> StatusMessage \<Rightarrow> unit action" where
  "handle_status D now first (ConnectionStatusMsg connStatus) =
    (let slave = Connection_Slave connStatus; key = (ProblemTypeConnection, Some (Slave_ID slave), None) in
     if Connection_Unreachable connStatus \<and> Slave_ConfiguredState slave = SlaveStateActive
     then FirstOrCreate D key
       (''Slave `'' @ Slave_Hostname slave @ ''` is unreachable - '' @
         Error_Description (Connection_CommunicationError connStatus))
       (Error_LongDescription (Connection_CommunicationError connStatus)) now first
     else DeleteProblems D key)"
| "handle_status D now first (DesiredConstraintMsg constrStatus) =
    (let r = Desired_ReplicaSet constrStatus;
         key = (ProblemTypeDesiredReplicaSetConstraint, None, Some (ReplicaSet_ID r)) in
     if Desired_Unsatisfied constrStatus
     then FirstOrCreate D key
       (''Replica Set `'' @ ReplicaSet_Name r @ ''` with unsatisfiable constraints'')
       (''Not enough free ports on suitable Slaves are available.'' @ [CHR 0x0A] @
        ''This Replica Set'' @ [CHR 0x27] @ ''s member counts are less than desired ('' @
        dec (Desired_ConfiguredPersistentCount constrStatus) @ ''/'' @
        dec (unat (ReplicaSet_PersistentMemberCount r)) @ '' persistent, '' @
        dec (Desired_ConfiguredVolatileCount constrStatus) @ ''/'' @
        dec (unat (ReplicaSet_VolatileMemberCount r)) @ '' volatile).'') now first
     else DeleteProblems D key)"
| "handle_status D now first (ObservedConstraintMsg constrStatus) =
    (let r = Observed_ReplicaSet constrStatus;
         key = (ProblemTypeObservedReplicaSetConstraint, None, Some (ReplicaSet_ID r)) in
     if Observed_Unsatisfied constrStatus
     then FirstOrCreate D key
       (''Replica Set `'' @ ReplicaSet_Name r @ ''` is degraded'')
       (''One or more Mongods in this Replica Set are not running ('' @
        dec (Observed_ActualPersistentCount constrStatus) @ ''/'' @
        dec (Observed_ConfiguredPersistentCount constrStatus) @ '' persistent, '' @
        dec (Observed_ActualVolatileCount constrStatus) @ ''/'' @
        dec (Observed_ConfiguredVolatileCount constrStatus) @ '' volatile).'') now first
     else DeleteProblems D key)"
| "handle_status D now first msg = returnM ()"

text \<open>One iteration of \<open>Run\<close>: the errors of the statements and of the commit are dropped.\<close>

definition ProblemManager_round :: "dbms \<Rightarrow> int \<Rightarrow> int \<Rightarrow> StatusMessage \<Rightarrow> unit action" where
  "ProblemManager_round D now first msg =
    bindM (getM txDB) (\<lambda>db0.
    bindM (attempt (handle_status D now first msg)) (\<lambda>_.
    bindM (attempt (commit D db0)) (\<lambda>_. returnM ())))"

section \<open>What a message means for the problems\<close>

fun problem_of :: "StatusMessage \<Rightarrow> (problem_key \<times> bool) option" where
  "problem_of (ConnectionStatusMsg c) =
    Some ((ProblemTypeConnection, Some (Slave_ID (Connection_Slave c)), None),
      Connection_Unreachable c \<and> Slave_ConfiguredState (Connection_Slave c) = SlaveStateActive)"
| "problem_of (DesiredConstraintMsg c) =
    Some ((ProblemTypeDesiredReplicaSetConstraint, None, Some (ReplicaSet_ID (Desired_ReplicaSet c))),
      Desired_Unsatisfied c)"
| "problem_of (ObservedConstraintMsg c) =
    Some ((ProblemTypeObservedReplicaSetConstraint, None, Some (ReplicaSet_ID (Observed_ReplicaSet c))),
      Observed_Unsatisfied c)"
| "problem_of _ = None"

definition problem_updated :: "problem_key \<Rightarrow> bool \<Rightarrow> int \<Rightarrow> DB \<Rightarrow> DB \<Rightarrow> bool" where
  "problem_updated key raised now db db' \<longleftrightarrow>
    filter (\<lambda>p. \<not> matches_problem key p) (problems db') = filter (\<lambda>p. \<not> matches_problem key p) (problems db) \<and>
    (if raised
     then (\<exists>p \<in> set (problems db'). matches_problem key p \<and> Problem_LastUpdated p = now) \<and>
       length (filter (matches_problem key) (problems db')) =
         max 1 (length (filter (matches_problem key) (problems db)))
     else filter (matches_problem key) (problems db') = [])"

lemma matches_assign: "matches_problem key (assign_problem desc long now p) = matches_problem key p"
  by (simp add: matches_problem_def assign_problem_def)

lemma filter_map_invariant:
  "(\<And>x. P (f x) = P x) \<Longrightarrow> (\<And>x. x \<in> set xs \<Longrightarrow> P x \<Longrightarrow> f x = x) \<Longrightarrow> filter P (map f xs) = filter P xs"
  by (induction xs) auto

lemma length_filter_map_invariant:
  "(\<And>x. P (f x) = P x) \<Longrightarrow> length (filter P (map f xs)) = length (filter P xs)"
  by (induction xs) auto

lemma problem_updated_assign:
  assumes p: "p \<in> set (problems db)" "matches_problem key p" and dist: "distinct (map Problem_ID (problems db))"
  shows "problem_updated key True now db (db\<lparr>problems := map (\<lambda>q. if Problem_ID q = Problem_ID p
    then assign_problem desc long now q else q) (problems db)\<rparr>)"
proof -
  let ?f = "\<lambda>q. if Problem_ID q = Problem_ID p then assign_problem desc long now q else q"
  have inv: "matches_problem key (?f q) = matches_problem key q" for q
    by (simp add: matches_assign)
  have only: "q = p" if "q \<in> set (problems db)" "Problem_ID q = Problem_ID p" for q
    using that p dist by (auto simp: distinct_map inj_on_def)
  have "filter (\<lambda>p. \<not> matches_problem key p) (map ?f (problems db)) =
      filter (\<lambda>p. \<not> matches_problem key p) (problems db)"
    using inv only p(2) by (intro filter_map_invariant) auto
  moreover have "length (filter (matches_problem key) (map ?f (problems db))) =
      length (filter (matches_problem key) (problems db))"
    by (rule length_filter_map_invariant) (rule inv)
  moreover have "filter (matches_problem key) (problems db) \<noteq> []"
    using p by (auto simp: filter_empty_conv)
  moreover have "\<exists>q \<in> set (map ?f (problems db)). matches_problem key q \<and> Problem_LastUpdated q = now"
  proof (rule bexI)
    show "?f p \<in> set (map ?f (problems db))"
      using p by (auto intro: image_eqI)
    show "matches_problem key (?f p) \<and> Problem_LastUpdated (?f p) = now"
      unfolding inv using p(2) by (simp add: assign_problem_def)
  qed
  ultimately show ?thesis
    unfolding problem_updated_def
    by (cases "filter (matches_problem key) (problems db)") simp_all
qed

text \<open>The slave or the replica set a problem is about is there.\<close>

definition key_refers :: "problem_key \<Rightarrow> DB \<Rightarrow> bool" where
  "key_refers key db \<longleftrightarrow> (case key of (t, slave, rs) \<Rightarrow>
    refers slave (map Slave_ID (slaves db)) \<and> refers rs (map ReplicaSet_ID (replica_sets db)))"

definition other_keys_ok :: "DB \<Rightarrow> bool" where
  "other_keys_ok db \<longleftrightarrow> foreign_keys_ok (db\<lparr>problems := []\<rparr>)"

lemma foreign_keys_problems:
  "foreign_keys_ok (db\<lparr>problems := ps\<rparr>) \<longleftrightarrow> other_keys_ok db \<and> (\<forall>p \<in> set ps. problem_keys_ok db p)"
  by (simp add: other_keys_ok_def foreign_keys_ok_def slave_keys_ok_def mongod_keys_ok_def problem_keys_ok_def)

lemma foreign_keys_problemsD: "foreign_keys_ok db \<Longrightarrow> other_keys_ok db \<and> (\<forall>p \<in> set (problems db). problem_keys_ok db p)"
  using foreign_keys_problems [where db = db and ps = "problems db"] by simp

lemma assign_keys: "problem_keys_ok db (assign_problem desc long now p) = problem_keys_ok db p"
  by (simp add: problem_keys_ok_def assign_problem_def)

text \<open>A problem that is there already refers to a row that is there.\<close>

lemma matches_key_refers: "matches_problem key p \<Longrightarrow> problem_keys_ok db p \<Longrightarrow> key_refers key db"
  by (cases key) (auto simp: matches_problem_def problem_keys_ok_def key_refers_def refers_def split: option.splits)

definition problem_committed :: "problem_key \<Rightarrow> bool \<Rightarrow> int \<Rightarrow> DB \<Rightarrow> DB \<Rightarrow> bool" where
  "problem_committed key raised now db db' \<longleftrightarrow> problem_updated key raised now db db' \<and>
    (foreign_keys_ok db' \<longleftrightarrow> raised \<longrightarrow> key_refers key db)"

lemma run_FirstOrCreate:
  assumes D: "dbms_ok D" "fault_free D" and dist: "distinct (map Problem_ID (problems (txDB s)))"
    and keys: "foreign_keys_ok (txDB s)"
  shows "run (FirstOrCreate D key desc long now first)
    (\<lambda>_ s'. problem_committed key True now (txDB s) (txDB s')) (\<lambda>_ _. False) s"
  unfolding FirstOrCreate_def
proof (rule run_sql_stmt)
  note keys' = foreign_keys_problemsD [OF keys]
  fix x db
  let ?found = "limit1 (order_by D (txCalls s) Problem_ID (filter (matches_problem key) (problems (txDB s))))"
  obtain t slave rs where key: "key = (t, slave, rs)"
    by (cases key) auto
  assume eq: "Inr ((), case ?found of
        Some p \<Rightarrow> (txDB s)\<lparr>problems := map (\<lambda>q. if Problem_ID q = Problem_ID p
          then assign_problem desc long now q else q) (problems (txDB s))\<rparr>
      | None \<Rightarrow> (case key of (t, slave, rs) \<Rightarrow> (txDB s)\<lparr>problems := problems (txDB s) @
          [\<lparr>Problem_ID = newID D (txCalls s) (map Problem_ID (problems (txDB s))), Problem_Description = desc,
            Problem_LongDescription = long, Problem_ProblemType = t, Problem_FirstOccurred = first,
            Problem_LastUpdated = now, Problem_SlaveID = slave, Problem_ReplicaSetID = rs,
            Problem_MongodID = None\<rparr>]\<rparr>)) = Inr (x, db)"
  show "problem_committed key True now (txDB s) (txDB ((tick s)\<lparr>txDB := db\<rparr>))"
  proof (cases ?found)
    case None
    then have "filter (matches_problem key) (problems (txDB s)) = []"
      by (simp only: limit1_order_by_None [OF D(1)])
    moreover have "matches_problem key \<lparr>Problem_ID = i, Problem_Description = desc,
        Problem_LongDescription = long, Problem_ProblemType = t, Problem_FirstOccurred = first,
        Problem_LastUpdated = now, Problem_SlaveID = slave, Problem_ReplicaSetID = rs,
        Problem_MongodID = None\<rparr>" for i
      by (simp add: matches_problem_def key)
    moreover have "db = (txDB s)\<lparr>problems := problems (txDB s) @
        [\<lparr>Problem_ID = newID D (txCalls s) (map Problem_ID (problems (txDB s))), Problem_Description = desc,
          Problem_LongDescription = long, Problem_ProblemType = t, Problem_FirstOccurred = first,
          Problem_LastUpdated = now, Problem_SlaveID = slave, Problem_ReplicaSetID = rs,
          Problem_MongodID = None\<rparr>]\<rparr>"
      using eq unfolding None unfolding key by simp
    ultimately show ?thesis
      using keys' by (auto simp: problem_committed_def problem_updated_def foreign_keys_problems problem_keys_ok_def
          key_refers_def key)
  next
    case (Some p)
    then have p: "p \<in> set (problems (txDB s))" "matches_problem key p"
      using limit1_order_by_Some [OF D(1) Some] by auto
    moreover have "foreign_keys_ok ((txDB s)\<lparr>problems := map (\<lambda>q. if Problem_ID q = Problem_ID p
        then assign_problem desc long now q else q) (problems (txDB s))\<rparr>)"
      using keys' by (auto simp: foreign_keys_problems assign_keys)
    moreover have "key_refers key (txDB s)"
      using matches_key_refers [OF p(2)] p(1) keys' by blast
    ultimately show ?thesis
      using problem_updated_assign [OF p dist] Some eq by (auto simp: problem_committed_def)
  qed
qed (use D(2) in \<open>simp_all add: fault_free_def\<close>)

lemma run_DeleteProblems:
  assumes "fault_free D" and "foreign_keys_ok (txDB s)"
  shows "run (DeleteProblems D key) (\<lambda>_ s'. problem_committed key False now (txDB s) (txDB s')) (\<lambda>_ _. False) s"
  unfolding DeleteProblems_def
  by (rule run_exec_total [OF assms(1)])
    (use foreign_keys_problemsD [OF assms(2)] in \<open>auto simp: problem_committed_def problem_updated_def foreign_keys_problems\<close>)

text \<open>C29: without database errors a status message leaves the problems of its kind as it
  says: a bad status leaves at least one problem for the slave or replica set, updated now, and
  adds one only if there was none; a good status leaves none.  All other problems are unchanged.  A bad status of a
  slave or replica set that has been deleted since changes nothing: the commit is refused.\<close>

theorem problem_manager_tracks:
  assumes "dbms_ok D" and "fault_free D" and "distinct (map Problem_ID (problems (txDB s)))"
    and "foreign_keys_ok (txDB s)" and "problem_of msg = Some (key, raised)"
  shows "\<exists>s'. ProblemManager_round D now first msg s = (Inr (), s') \<and>
    (if raised \<and> \<not> key_refers key (txDB s) then txDB s' = txDB s
     else problem_updated key raised now (txDB s) (txDB s'))"
proof -
  let ?Q = "\<lambda>_ s'. if raised \<and> \<not> key_refers key (txDB s) then txDB s' = txDB s
     else problem_updated key raised now (txDB s) (txDB s')"
  have commit: "run (attempt (commit D (txDB s))) (\<lambda>_. ?Q ()) (\<lambda>_ _. False) s1"
    if s1: "problem_committed key raised now (txDB s) (txDB s1)" for s1
  proof (cases "foreign_keys_ok (txDB s1)")
    case True
    then show ?thesis
      by (intro run_attempt_total run_commit_total [OF assms(2)]) (use s1 in \<open>auto simp: problem_committed_def\<close>)
  next
    case False
    then show ?thesis
      unfolding run_attempt by (intro run_commit) (use s1 in \<open>auto simp: problem_committed_def\<close>)
  qed
  have "run (handle_status D now first msg) (\<lambda>_ s'. problem_committed key raised now (txDB s) (txDB s'))
      (\<lambda>_ _. False) s"
    using assms(5) run_FirstOrCreate [OF assms(1-4)] run_DeleteProblems [OF assms(2,4)]
    by (cases msg rule: problem_of.cases) (auto simp: Let_def)
  then have "run (ProblemManager_round D now first msg)
      ?Q (\<lambda>_ _. False) s"
    unfolding ProblemManager_round_def run_bindM run_getM run_returnM
    by (intro run_attempt_total, elim run_mono) (rule commit, simp_all)
  from run_total [OF this] show ?thesis by simp
qed

theorem problem_manager_tracks_witness:
  "\<exists>s'. ProblemManager_round plain_dbms 7 7 (DesiredConstraintMsg \<lparr>Desired_Unsatisfied = True,
      Desired_ReplicaSet = example_set, Desired_ConfiguredVolatileCount = 0,
      Desired_ConfiguredPersistentCount = 0\<rparr>) (begin_tx example_db) = (Inr (), s') \<and>
    (\<exists>p \<in> set (problems (txDB s')). Problem_LastUpdated p = 7 \<and> Problem_ReplicaSetID p = Some 1)"
proof -
  have d: "distinct (map Problem_ID (problems (txDB (begin_tx example_db))))"
    by (simp add: example_defs)
  have k: "foreign_keys_ok (txDB (begin_tx example_db))"
    by (simp add: example_db_foreign_keys)
  have "ReplicaSet_ID example_set = 1" "1 \<in> ReplicaSet_ID ` set (replica_sets example_db)"
    by (simp_all add: example_defs)
  with problem_manager_tracks [OF plain_dbms_ok plain_dbms_fault_free d k, of
      "DesiredConstraintMsg \<lparr>Desired_Unsatisfied = True, Desired_ReplicaSet = example_set,
        Desired_ConfiguredVolatileCount = 0, Desired_ConfiguredPersistentCount = 0\<rparr>"
      "(ProblemTypeDesiredReplicaSetConstraint, None, Some 1)" True 7 7]
  show ?thesis by (fastforce simp: problem_updated_def matches_problem_def key_refers_def)
qed

end
