(* ===== verification/Bus.thy ===== *)
theory Bus
  imports Prelude "HOL-Library.Sublist"
begin

text \<open>
  The message bus, \<open>src/master/bus.go\<close>, as a state machine: every write channel and every read channel
  is a queue of bounded capacity, the goroutine \<open>Run\<close> takes a message from one of the channels of
  its current \<open>select\<close> and offers it to all read channels.  Which channel the select serves, and when
  writers and readers act, is left open.  A history beside the state records what the writers have written and
  the readers have read; what the bus does is not recorded.
\<close>

datatype 'm busMessage = killBusMessage | interruptBusMessage | Payload 'm

text \<open>Channel 0 of \<open>writeChannels\<close> is \<open>internalChannel\<close>.  \<open>selects\<close> is the number of channels in the select
  the bus waits in, the channels that existed when the loop last built it.\<close>

record 'm Bus =
  readChannels :: "'m list list"
  writeChannels :: "'m busMessage list list"
  selects :: nat
  stopped :: bool

definition capacity :: nat where "capacity = 1000"

definition NewBus :: "'m Bus" where
  "NewBus = \<lparr>readChannels = [], writeChannels = [[]], selects = 1, stopped = False\<rparr>"

definition GetNewReadChannel :: "'m Bus \<Rightarrow> 'm Bus" where
  "GetNewReadChannel b = b\<lparr>readChannels := readChannels b @ [[]]\<rparr>"

text \<open>A write to a full channel blocks; the operations below happen only when there is room.\<close>

definition has_room :: "nat \<Rightarrow> 'm Bus \<Rightarrow> bool" where
  "has_room k b \<longleftrightarrow> k < length (writeChannels b) \<and> length (writeChannels b ! k) < capacity"

definition bus_write :: "nat \<Rightarrow> 'm busMessage \<Rightarrow> 'm Bus \<Rightarrow> 'm Bus" where
  "bus_write k m b = b\<lparr>writeChannels := (writeChannels b)[k := writeChannels b ! k @ [m]]\<rparr>"

definition GetNewWriteChannel :: "'m Bus \<Rightarrow> 'm Bus" where
  "GetNewWriteChannel b = bus_write 0 interruptBusMessage (b\<lparr>writeChannels := writeChannels b @ [[]]\<rparr>)"

definition Kill :: "'m Bus \<Rightarrow> 'm Bus" where
  "Kill b = bus_write 0 killBusMessage b"

text \<open>Offering a message: a full read channel drops it.\<close>

definition deliver :: "'m \<Rightarrow> 'm list list \<Rightarrow> 'm list list" where
  "deliver m rcs = map (\<lambda>q. if length q < capacity then q @ [m] else q) rcs"

text \<open>One round of \<open>Run\<close> that receives from channel \<open>k\<close>.\<close>

definition bus_round :: "nat \<Rightarrow> 'm Bus \<Rightarrow> 'm Bus" where
  "bus_round k b =
    (case writeChannels b ! k of
       [] \<Rightarrow> b
     | m # rest \<Rightarrow>
         let b' = b\<lparr>writeChannels := (writeChannels b)[k := rest]\<rparr> in
         (case m of
            killBusMessage \<Rightarrow> b'\<lparr>stopped := True\<rparr>
          | interruptBusMessage \<Rightarrow> b'\<lparr>selects := length (writeChannels b)\<rparr>
          | Payload p \<Rightarrow> b'\<lparr>readChannels := deliver p (readChannels b), selects := length (writeChannels b)\<rparr>))"

definition bus_read :: "nat \<Rightarrow> 'm Bus \<Rightarrow> 'm Bus" where
  "bus_read i b = b\<lparr>readChannels := (readChannels b)[i := tl (readChannels b ! i)]\<rparr>"

section \<open>Runs\<close>

text \<open>What is written to each write channel and read from each read channel in a run that begins in \<open>b0\<close>.\<close>

record 'm history =
  written :: "'m busMessage list list"
  consumed :: "'m list list"

definition no_history :: "'m Bus \<Rightarrow> 'm history" where
  "no_history b = \<lparr>written = map (\<lambda>_. []) (writeChannels b), consumed = map (\<lambda>_. []) (readChannels b)\<rparr>"

definition push :: "nat \<Rightarrow> 'a \<Rightarrow> 'a list list \<Rightarrow> 'a list list" where
  "push k x xss = xss[k := xss ! k @ [x]]"

inductive bus_run :: "'m Bus \<Rightarrow> 'm Bus \<Rightarrow> 'm history \<Rightarrow> bool" for b0 where
  start: "bus_run b0 b0 (no_history b0)"
| new_reader: "bus_run b0 b h \<Longrightarrow> bus_run b0 (GetNewReadChannel b) (h\<lparr>consumed := consumed h @ [[]]\<rparr>)"
| new_writer: "bus_run b0 b h \<Longrightarrow> has_room 0 b \<Longrightarrow> bus_run b0 (GetNewWriteChannel b)
    (h\<lparr>written := push 0 interruptBusMessage (written h @ [[]])\<rparr>)"
| kill: "bus_run b0 b h \<Longrightarrow> has_room 0 b \<Longrightarrow>
    bus_run b0 (Kill b) (h\<lparr>written := push 0 killBusMessage (written h)\<rparr>)"
| write_user: "bus_run b0 b h \<Longrightarrow> has_room k b \<Longrightarrow> 0 < k \<Longrightarrow>
    bus_run b0 (bus_write k (Payload m) b) (h\<lparr>written := push k (Payload m) (written h)\<rparr>)"
| round: "bus_run b0 b h \<Longrightarrow> \<not> stopped b \<Longrightarrow> k < selects b \<Longrightarrow> writeChannels b ! k = m # rest \<Longrightarrow>
    bus_run b0 (bus_round k b) h"
| read: "bus_run b0 b h \<Longrightarrow> i < length (readChannels b) \<Longrightarrow> readChannels b ! i = m # rest \<Longrightarrow>
    bus_run b0 (bus_read i b) (h\<lparr>consumed := push i m (consumed h)\<rparr>)"

lemmas bus_defs = GetNewReadChannel_def GetNewWriteChannel_def Kill_def bus_write_def bus_round_def bus_read_def

lemma push_simps [simp]:
  "length (push k x xss) = length xss"
  "j < length xss \<Longrightarrow> push k x xss ! j = (if j = k then xss ! k @ [x] else xss ! j)"
  by (auto simp: push_def nth_list_update)

section \<open>What the writers have sent and the readers receive\<close>

definition payloads :: "'m busMessage list \<Rightarrow> 'm list" where
  "payloads ms = concat (map (\<lambda>m. case m of Payload p \<Rightarrow> [p] | _ \<Rightarrow> []) ms)"

lemma payloads_simps [simp]:
  "payloads [] = []" "payloads (ms @ ms') = payloads ms @ payloads ms'" "payloads (Payload p # ms) = p # payloads ms"
  "payloads (interruptBusMessage # ms) = payloads ms" "payloads (killBusMessage # ms) = payloads ms"
  by (simp_all add: payloads_def)

text \<open>The messages of a list that came from one writer; what waits in a channel, if there is such a channel.\<close>

definition sent_by :: "nat \<Rightarrow> (nat \<times> 'm) list \<Rightarrow> 'm list" where
  "sent_by k sent = map snd (filter (\<lambda>(j, _). j = k) sent)"

definition waiting :: "'m Bus \<Rightarrow> nat \<Rightarrow> 'm list" where
  "waiting b k = (if k < length (writeChannels b) then payloads (writeChannels b ! k) else [])"

lemma waiting_in: "k < length (writeChannels b) \<Longrightarrow> waiting b k = payloads (writeChannels b ! k)"
  by (simp add: waiting_def)

lemma sent_by_simps [simp]:
  "sent_by k [] = []" "sent_by k (sent @ [(j, p)]) = sent_by k sent @ (if j = k then [p] else [])"
  by (simp_all add: sent_by_def)

text \<open>The order in which messages were sent explains what is written, and what is received.\<close>

definition explains_writes :: "'m Bus \<Rightarrow> 'm Bus \<Rightarrow> 'm history \<Rightarrow> (nat \<times> 'm) list \<Rightarrow> bool" where
  "explains_writes b0 b h sent \<longleftrightarrow> length (written h) = length (writeChannels b) \<and>
     length (writeChannels b0) \<le> length (writeChannels b) \<and> (\<forall>(k, p) \<in> set sent. k < length (writeChannels b)) \<and>
     (\<forall>k < length (writeChannels b). waiting b0 k @ payloads (written h ! k) = sent_by k sent @ waiting b k)"

definition explains_reads :: "'m Bus \<Rightarrow> 'm Bus \<Rightarrow> 'm history \<Rightarrow> (nat \<times> 'm) list \<Rightarrow> bool" where
  "explains_reads b0 b h sent \<longleftrightarrow> length (consumed h) = length (readChannels b) \<and>
     length (readChannels b0) \<le> length (readChannels b) \<and>
     (\<forall>i < length (readChannels b0).
       subseq (consumed h ! i @ readChannels b ! i) (readChannels b0 ! i @ map snd sent) \<and>
       (length (readChannels b0 ! i) + length sent \<le> 1000 \<longrightarrow>
         consumed h ! i @ readChannels b ! i = readChannels b0 ! i @ map snd sent))"

lemma explains_writes_cong:
  "writeChannels b' = writeChannels b \<Longrightarrow> written h' = written h \<Longrightarrow> explains_writes b0 b' h' sent = explains_writes b0 b h sent"
  by (simp add: explains_writes_def waiting_def)

lemma explains_reads_cong:
  "readChannels b' = readChannels b \<Longrightarrow> consumed h' = consumed h \<Longrightarrow> explains_reads b0 b' h' sent = explains_reads b0 b h sent"
  by (simp add: explains_reads_def)

lemma explains_written:
  assumes "explains_writes b0 b h sent" and "k < length (writeChannels b)"
  shows "explains_writes b0 (bus_write k m b) (h\<lparr>written := push k m (written h)\<rparr>) sent"
  using assms by (auto simp: explains_writes_def waiting_in bus_write_def nth_list_update simp flip: append_assoc)

lemma explains_new_channel:
  assumes "explains_writes b0 b h sent"
  shows "explains_writes b0 (b\<lparr>writeChannels := writeChannels b @ [[]]\<rparr>) (h\<lparr>written := written h @ [[]]\<rparr>) sent"
proof -
  have "sent_by (length (writeChannels b)) sent = []"
    using assms by (force simp: explains_writes_def sent_by_def filter_empty_conv)
  then show ?thesis
    using assms by (force simp: explains_writes_def waiting_def nth_append less_Suc_eq)
qed

lemma explains_taken:
  assumes "explains_writes b0 b h sent" and "k < length (writeChannels b)" and "writeChannels b ! k = m # rest"
  shows "explains_writes b0 (bus_round k b) h (sent @ map (Pair k) (payloads [m]))"
  using assms by (cases m) (auto simp: explains_writes_def waiting_in bus_round_def nth_list_update)

lemma offered_to_reader:
  assumes "subseq (c @ q) base" and "length base \<le> 1000 \<longrightarrow> c @ q = base" and "q' = (if length q < capacity then q @ [p] else q)"
  shows "subseq (c @ q') (base @ [p]) \<and> (length (base @ [p]) \<le> 1000 \<longrightarrow> c @ q' = base @ [p])"
proof (intro conjI impI)
  show "subseq (c @ q') (base @ [p])"
    using assms(1,3) by (auto simp flip: append_assoc intro: list_emb_append_mono)
  assume less: "length (base @ [p]) \<le> 1000"
  then have "c @ q = base"
    using assms(2) by simp
  moreover have "length q < capacity"
    using less by (simp add: capacity_def flip: \<open>c @ q = base\<close>)
  ultimately show "c @ q' = base @ [p]"
    using assms(3) by auto
qed

lemma explains_offered:
  assumes "explains_reads b0 b h sent" and "writeChannels b ! k = m # rest"
  shows "explains_reads b0 (bus_round k b) h (sent @ map (Pair k) (payloads [m]))"
proof (cases m)
  case (Payload p)
  have channels: "readChannels (bus_round k b) = deliver p (readChannels b)"
    by (simp add: bus_round_def assms(2) Payload)
  have "subseq (consumed h ! i @ deliver p (readChannels b) ! i) ((readChannels b0 ! i @ map snd sent) @ [p]) \<and>
      (length ((readChannels b0 ! i @ map snd sent) @ [p]) \<le> 1000 \<longrightarrow>
        consumed h ! i @ deliver p (readChannels b) ! i = (readChannels b0 ! i @ map snd sent) @ [p])"
    if "i < length (readChannels b0)" for i
    by (rule offered_to_reader [of _ "readChannels b ! i"])
      (use assms(1) that in \<open>auto simp: explains_reads_def deliver_def\<close>)
  then show ?thesis
    using assms(1) by (simp add: explains_reads_def channels Payload) (simp add: deliver_def)
qed (use assms in \<open>simp_all add: explains_reads_def bus_round_def\<close>)

lemma selects_bound:
  "bus_run b0 b h \<Longrightarrow> selects b0 \<le> length (writeChannels b0) \<Longrightarrow> selects b \<le> length (writeChannels b)"
  by (induction rule: bus_run.induct) (auto simp: bus_defs Let_def split: list.splits busMessage.splits)

lemma bus_run_explained:
  assumes "bus_run b0 b h" and "selects b0 \<le> length (writeChannels b0)"
  shows "\<exists>sent. explains_writes b0 b h sent \<and> explains_reads b0 b h sent"
  using assms(1)
proof (induction rule: bus_run.induct)
  case start
  show ?case
    by (rule exI [of _ "[]"]) (simp add: explains_writes_def explains_reads_def no_history_def)
next
  case (new_reader b h)
  then obtain sent where "explains_writes b0 b h sent" and reads: "explains_reads b0 b h sent"
    by blast
  moreover have "explains_reads b0 (GetNewReadChannel b) (h\<lparr>consumed := consumed h @ [[]]\<rparr>) sent"
    using reads by (auto simp: explains_reads_def GetNewReadChannel_def nth_append)
  ultimately show ?case
    by (auto simp: GetNewReadChannel_def cong: explains_writes_cong)
next
  case (new_writer b h)
  then obtain sent where sent: "explains_writes b0 b h sent" "explains_reads b0 b h sent"
    by blast
  have "explains_writes b0 (GetNewWriteChannel b) (h\<lparr>written := push 0 interruptBusMessage (written h @ [[]])\<rparr>) sent"
    using explains_written [OF explains_new_channel [OF sent(1)], of 0 interruptBusMessage]
    by (simp add: GetNewWriteChannel_def)
  moreover have "explains_reads b0 (GetNewWriteChannel b) (h\<lparr>written := push 0 interruptBusMessage (written h @ [[]])\<rparr>) sent"
    using sent(2) by (simp add: explains_reads_def GetNewWriteChannel_def bus_write_def)
  ultimately show ?case by blast
next
  case (kill b h)
  then obtain sent where sent: "explains_writes b0 b h sent" "explains_reads b0 b h sent"
    by blast
  have "explains_writes b0 (Kill b) (h\<lparr>written := push 0 killBusMessage (written h)\<rparr>) sent"
    unfolding Kill_def by (rule explains_written [OF sent(1)]) (use kill in \<open>simp add: has_room_def\<close>)
  moreover have "explains_reads b0 (Kill b) (h\<lparr>written := push 0 killBusMessage (written h)\<rparr>) sent"
    using sent(2) by (simp add: explains_reads_def Kill_def bus_write_def)
  ultimately show ?case by blast
next
  case (write_user b h k m)
  then obtain sent where sent: "explains_writes b0 b h sent" "explains_reads b0 b h sent"
    by blast
  have "explains_writes b0 (bus_write k (Payload m) b) (h\<lparr>written := push k (Payload m) (written h)\<rparr>) sent"
    by (rule explains_written [OF sent(1)]) (use write_user in \<open>simp add: has_room_def\<close>)
  moreover have "explains_reads b0 (bus_write k (Payload m) b) (h\<lparr>written := push k (Payload m) (written h)\<rparr>) sent"
    using sent(2) by (simp add: explains_reads_def bus_write_def)
  ultimately show ?case by blast
next
  case (round b h k m rest)
  then obtain sent where sent: "explains_writes b0 b h sent" "explains_reads b0 b h sent"
    by blast
  have "k < length (writeChannels b)"
    using selects_bound [OF round.hyps(1) assms(2)] round.hyps(3) by simp
  then show ?case
    using explains_taken [OF sent(1) _ round.hyps(4)] explains_offered [OF sent(2) round.hyps(4)] by blast
next
  case (read b h i m rest)
  then obtain sent where sent: "explains_writes b0 b h sent" "explains_reads b0 b h sent"
    by blast
  have "explains_reads b0 (bus_read i b) (h\<lparr>consumed := push i m (consumed h)\<rparr>) sent"
    using sent(2) read.hyps(2,3) by (auto simp: explains_reads_def bus_read_def nth_list_update)
  moreover have "explains_writes b0 (bus_read i b) (h\<lparr>consumed := push i m (consumed h)\<rparr>) sent"
    using sent(1) by (simp add: explains_writes_def waiting_def bus_read_def)
  ultimately show ?case by blast
qed

text \<open>A channel the bus does not wait for yet is announced to it.\<close>

definition announced :: "'m Bus \<Rightarrow> bool" where
  "announced b \<longleftrightarrow> 0 < selects b \<and> selects b \<le> length (writeChannels b) \<and>
     (stopped b \<or> selects b = length (writeChannels b) \<or> interruptBusMessage \<in> set (writeChannels b ! 0))"

lemma bus_run_announced: "bus_run b0 b h \<Longrightarrow> announced b0 \<Longrightarrow> announced b"
proof (induction rule: bus_run.induct)
  case (round b h k m rest)
  then have b: "announced b" and k: "k < length (writeChannels b)"
    by (auto simp: announced_def)
  then show ?case
    using round.hyps(4) by (cases m) (auto simp: announced_def bus_round_def nth_list_update)
qed (auto simp: announced_def bus_defs nth_list_update has_room_def nth_append)

lemma announced_NewBus: "announced NewBus"
  by (simp add: announced_def NewBus_def)

section \<open>Properties\<close>

text \<open>A round takes the first message of the channel it serves.\<close>

lemma round_takes:
  "writeChannels b ! k = m # rest \<Longrightarrow>
    writeChannels (bus_round k b) = (writeChannels b)[k := rest]"
  by (auto simp: bus_round_def Let_def split: busMessage.split)

text \<open>C30: from any state the bus can be in, there is one order in which messages are
  passed on, in which each writer's messages are exactly what it has written, in its order, but for
  those that still wait in its channel; and every reader receives the messages in that order, each at most
  once, and all of them as long as they are at most 1000 together with what it had not read at the beginning.
  A channel that the running bus does not wait for yet is announced to it by a message on its way, and each
  round takes one message off the channel it serves and leaves the other channels as they are, whether readers keep up or not.\<close>

theorem bus_broadcasts:
  assumes "bus_run NewBus b0 h0" and "bus_run b0 b h"
  shows "(\<exists>sent.
      (\<forall>k < length (writeChannels b). waiting b0 k @ payloads (written h ! k) = sent_by k sent @ waiting b k) \<and>
      (\<forall>(k, p) \<in> set sent. k < length (writeChannels b)) \<and>
      (\<forall>i < length (readChannels b0).
        subseq (consumed h ! i @ readChannels b ! i) (readChannels b0 ! i @ map snd sent) \<and>
        (length (readChannels b0 ! i) + length sent \<le> 1000 \<longrightarrow>
          consumed h ! i @ readChannels b ! i = readChannels b0 ! i @ map snd sent))) \<and>
    (stopped b \<or> (\<forall>k < length (writeChannels b). k < selects b \<or> interruptBusMessage \<in> set (writeChannels b ! 0))) \<and>
    (\<forall>k < length (writeChannels b). \<forall>m rest. writeChannels b ! k = m # rest \<longrightarrow>
      writeChannels (bus_round k b) = (writeChannels b)[k := rest])"
proof -
  have b0: "announced b0"
    by (rule bus_run_announced [OF assms(1) announced_NewBus])
  then have "announced b"
    by (rule bus_run_announced [OF assms(2)])
  moreover obtain sent where "explains_writes b0 b h sent" "explains_reads b0 b h sent"
    using bus_run_explained [OF assms(2)] b0 by (auto simp: announced_def)
  ultimately show ?thesis
    unfolding announced_def explains_writes_def explains_reads_def
    by (intro conjI exI [of _ sent]) (auto simp: round_takes)
qed

text \<open>One reader and one writer register, and a message goes through.\<close>

definition example_bus :: "char Bus" where
  "example_bus = GetNewWriteChannel (GetNewReadChannel NewBus)"

lemma example_bus_run: "bus_run NewBus example_bus
  ((no_history NewBus)\<lparr>consumed := [[]], written := push 0 interruptBusMessage [[], []]\<rparr>)"
proof -
  have "has_room 0 (GetNewReadChannel (NewBus :: char Bus))"
    by (simp add: has_room_def capacity_def GetNewReadChannel_def NewBus_def)
  from bus_run.new_writer [OF bus_run.new_reader [OF bus_run.start] this] show ?thesis
    by (simp add: example_bus_def no_history_def NewBus_def)
qed

lemma example_bus_passes: "bus_run example_bus
  \<lparr>readChannels = [''x''], writeChannels = [[], []], selects = 2, stopped = False\<rparr>
  \<lparr>written = [[], [Payload (CHR ''x'')]], consumed = [[]]\<rparr>"
proof -
  have bus: "example_bus = \<lparr>readChannels = [[]], writeChannels = [[interruptBusMessage], []], selects = 1, stopped = False\<rparr>"
    by (simp add: example_bus_def GetNewReadChannel_def GetNewWriteChannel_def NewBus_def bus_write_def)
  have "bus_run example_bus \<lparr>readChannels = [[]], writeChannels = [[], []], selects = 2, stopped = False\<rparr> (no_history example_bus)"
    using bus_run.round [OF bus_run.start, of example_bus 0 interruptBusMessage "[]"]
    by (simp add: bus bus_round_def numeral_2_eq_2)
  from bus_run.write_user [OF this, of 1 "CHR ''x''"]
  have "bus_run example_bus \<lparr>readChannels = [[]], writeChannels = [[], [Payload (CHR ''x'')]], selects = 2, stopped = False\<rparr>
      \<lparr>written = [[], [Payload (CHR ''x'')]], consumed = [[]]\<rparr>"
    by (simp add: bus no_history_def has_room_def capacity_def bus_write_def push_def)
  from bus_run.round [OF this, of 1 "Payload (CHR ''x'')" "[]"] show ?thesis
    by (simp add: bus_round_def deliver_def capacity_def numeral_2_eq_2)
qed

theorem bus_broadcasts_witness:
  "\<exists>b h. bus_run example_bus b h \<and> written h ! 1 = [Payload (CHR ''x'')] \<and> readChannels b ! 0 = ''x'' \<and>
    (\<exists>sent. sent_by 1 sent = ''x'' \<and> subseq ''x'' (map snd sent))"
proof -
  have bus: "example_bus = \<lparr>readChannels = [[]], writeChannels = [[interruptBusMessage], []], selects = 1, stopped = False\<rparr>"
    by (simp add: example_bus_def GetNewReadChannel_def GetNewWriteChannel_def NewBus_def bus_write_def)
  let ?b = "\<lparr>readChannels = [''x''], writeChannels = [[], []], selects = 2, stopped = False\<rparr>"
  from bus_broadcasts [OF example_bus_run example_bus_passes] obtain sent
    where writes: "\<forall>k < length (writeChannels ?b). waiting example_bus k @ payloads ([[], [Payload (CHR ''x'')]] ! k) =
        sent_by k sent @ waiting ?b k"
      and reads: "\<forall>i < length (readChannels example_bus).
        subseq ([[]] ! i @ readChannels ?b ! i) (readChannels example_bus ! i @ map snd sent)"
    by (elim conjE exE) (simp only: Bus.simps history.simps, blast)
  have "sent_by 1 sent = ''x''"
    using writes [rule_format, of 1] by (simp add: waiting_def bus)
  moreover have "subseq ''x'' (map snd sent)"
    using reads [rule_format, of 0] by (simp add: bus)
  ultimately show ?thesis
    using example_bus_passes by (intro exI conjI) (assumption | simp)+
qed

end
