(* ===== verification/MasterApi.thy ===== *)
theory MasterApi
  imports Deployer
begin

text \<open>
  The master's HTTP API: what the handlers share (\<open>src/master/masterapi/server.go\<close>) and the handlers
  for slaves (\<open>src/master/masterapi/slaves.go\<close>).

  A handler is a computation over the tables that returns what it wrote to the
  \<open>http.ResponseWriter\<close>, in order.  The path variables and the result of decoding the body are its
  arguments; decoding JSON is a parameter, so its error is the text of the decoder.
  Once a statement has failed, PostgreSQL refuses every other statement of the transaction, and
  after its end the driver does; where the code goes on after an error, that refusal is passed on.
\<close>

section \<open>Responses and requests\<close>

datatype json =
  JSlave api_Slave | JSlaves "api_Slave list"
| JReplicaSet api_ReplicaSet | JReplicaSets "api_ReplicaSet list"
| JRiskGroup api_RiskGroup | JRiskGroups "api_RiskGroup list"
| JProblem api_Problem | JProblems "api_Problem list"
| JMongods "api_Mongod list"
| JKeyfile string | JCredential string string

datatype http_write = WriteHeader nat | Print string | Encode json

text \<open>The status the client sees: a body written first sends 200, a later header is superfluous.\<close>

definition status :: "http_write list \<Rightarrow> nat" where
  "status ws = (case ws of WriteHeader n # _ \<Rightarrow> n | _ \<Rightarrow> 200)"

abbreviation StatusBadRequest :: nat where "StatusBadRequest \<equiv> 400"
abbreviation StatusForbidden :: nat where "StatusForbidden \<equiv> 403"
abbreviation StatusNotFound :: nat where "StatusNotFound \<equiv> 404"
abbreviation StatusInternalServerError :: nat where "StatusInternalServerError \<equiv> 500"

type_synonym handler = "http_write list action"

text \<open>\<open>strconv.ParseUint(s, 10, 0)\<close> and \<open>strconv.ParseInt(s, 10, 0)\<close>.\<close>

definition ParseUint :: "string \<Rightarrow> int option" where
  "ParseUint str = (if str = [] then None else case parse_digits 0 str of
     None \<Rightarrow> None | Some v \<Rightarrow> if v < 2 ^ 64 then Some (int v) else None)"

definition ParseInt :: "string \<Rightarrow> int option" where
  "ParseInt str = (case str of
     [] \<Rightarrow> None
   | c # cs \<Rightarrow>
       (let (neg, digits) = (if c = CHR ''-'' then (True, cs) else if c = CHR ''+'' then (False, cs) else (False, str)) in
        if digits = [] then None else case parse_digits 0 digits of
          None \<Rightarrow> None
        | Some v \<Rightarrow> if neg then (if v \<le> 2 ^ 63 then Some (- int v) else None)
            else (if v < 2 ^ 63 then Some (int v) else None)))"

section \<open>Transactions of a request\<close>

text \<open>\<open>x, err := m(); if err != nil { h } else { k }\<close>.\<close>

definition onError :: "'a action \<Rightarrow> (err \<Rightarrow> 'b action) \<Rightarrow> ('a \<Rightarrow> 'b action) \<Rightarrow> 'b action" where
  "onError m h k = bindM (attempt m) (\<lambda>r. case r of Inl e \<Rightarrow> h e | Inr x \<Rightarrow> k x)"

text \<open>\<open>tx := m.DB.Begin(); defer tx.Rollback()\<close>.\<close>

definition read_tx :: "'a action \<Rightarrow> 'a action" where
  "read_tx m = bindM (getM txDB) (\<lambda>db0.
     catchM (bindM m (\<lambda>r. bindM (rollback db0) (\<lambda>_. returnM r)))
       (\<lambda>f. bindM (rollback db0) (\<lambda>_. raiseM f)))"

definition in_tx :: "(DB \<Rightarrow> 'a action) \<Rightarrow> 'a action" where
  "in_tx f = bindM (getM txDB) f"

definition rollback_with :: "DB \<Rightarrow> http_write list \<Rightarrow> handler" where
  "rollback_with db0 ws = bindM (rollback db0) (\<lambda>_. returnM ws)"

text \<open>\<open>tx.First(&x, id)\<close>.\<close>

definition First :: "dbms \<Rightarrow> (DB \<Rightarrow> 'r list) \<Rightarrow> ('r \<Rightarrow> ID) \<Rightarrow> ID \<Rightarrow> 'r option action" where
  "First D table key i = sql_query D (\<lambda>n db. find_row key i (table db))"

primrec mapM :: "('x \<Rightarrow> 'a action) \<Rightarrow> 'x list \<Rightarrow> 'a list action" where
  "mapM f [] = returnM []"
| "mapM f (x # xs) = bindM (f x) (\<lambda>y. bindM (mapM f xs) (\<lambda>ys. returnM (y # ys)))"

text \<open>The error that every further statement of a transaction gives, if any.\<close>

type_synonym broken = "DBError option"

definition TxDone :: DBError where
  "TxDone = OtherDBError ''sql: Transaction has already been committed or rolled back''"

definition TxAborted :: DBError where
  "TxAborted = OtherDBError ''current transaction is aborted, commands ignored until end of transaction block''"

definition attemptCommit :: "dbms \<Rightarrow> (err \<Rightarrow> string) \<Rightarrow> DB \<Rightarrow> broken \<Rightarrow> handler" where
  "attemptCommit D show_err db0 broken =
    onError (case broken of None \<Rightarrow> commit D db0
        | Some e \<Rightarrow> bindM (rollback db0) (\<lambda>_. raiseM (Failed (ErrDB e))))
      (\<lambda>e. returnM [WriteHeader StatusInternalServerError,
         Print (''commit failed with error '' @ show_err e @ [CHR 0x0A])])
      (\<lambda>_. returnM [])"

text \<open>The error of the allocator is overwritten by the error of the rollback, and a rollback that
  succeeds returns none: the caller goes on, in a transaction that has ended.\<close>

definition attemptClusterAllocator ::
  "dbms \<Rightarrow> (err \<Rightarrow> string) \<Rightarrow> bool \<Rightarrow> DB \<Rightarrow> broken \<Rightarrow> (http_write list \<times> err option \<times> broken) action" where
  "attemptClusterAllocator D show_err hasBus db0 broken =
    onError (case broken of None \<Rightarrow> CompileMongodLayout D hasBus | Some e \<Rightarrow> raiseM (Panic (ErrDB e)))
      (\<lambda>e. bindM (rollback db0) (\<lambda>_. returnM
         ([WriteHeader StatusInternalServerError,
           Print (''cluster allocator failure: '' @ show_err e @ [CHR 0x0A])], None, Some TxDone)))
      (\<lambda>_. returnM ([], None, broken))"

definition allocate_and_commit :: "dbms \<Rightarrow> (err \<Rightarrow> string) \<Rightarrow> bool \<Rightarrow> DB \<Rightarrow> broken \<Rightarrow> handler" where
  "allocate_and_commit D show_err hasBus db0 broken =
    bindM (attemptClusterAllocator D show_err hasBus db0 broken) (\<lambda>(ws, err, broken').
    if err \<noteq> None then returnM ws
    else bindM (attemptCommit D show_err db0 broken') (\<lambda>ws'. returnM (ws @ ws')))"

definition is_constraint_violation :: "err \<Rightarrow> bool" where
  "is_constraint_violation e = (case e of ErrDB (IntegrityConstraintViolation _) \<Rightarrow> True | _ \<Rightarrow> False)"

text \<open>What a handler answers to an error of \<open>Create\<close> or \<open>Save\<close>.\<close>

definition refuse :: "(err \<Rightarrow> string) \<Rightarrow> DB \<Rightarrow> err \<Rightarrow> handler" where
  "refuse show_err db0 e = rollback_with db0
    [WriteHeader (if is_constraint_violation e then StatusBadRequest else StatusInternalServerError),
     Print (show_err e)]"

section \<open>Slaves\<close>

definition value_too_long :: DBError where
  "value_too_long = OtherDBError ''value too long for type character varying(255)''"

definition Create_slave :: "dbms \<Rightarrow> Slave \<Rightarrow> Slave action" where
  "Create_slave D s = sql_stmt D (\<lambda>n db.
    if 255 < length (Slave_Hostname s) then Inl value_too_long
    else if Slave_Hostname s \<in> set (map Slave_Hostname (slaves db))
    then Inl (IntegrityConstraintViolation ''slaves_hostname_key'')
    else let s' = s\<lparr>Slave_ID := newID D n (map Slave_ID (slaves db))\<rparr>
      in Inr (s', db\<lparr>slaves := slaves db @ [s']\<rparr>))"

text \<open>\<open>Save\<close> of a struct whose row exists writes all its columns.\<close>

definition Save_slave :: "dbms \<Rightarrow> Slave \<Rightarrow> unit action" where
  "Save_slave D s = sql_stmt D (\<lambda>n db.
    if 255 < length (Slave_Hostname s) then Inl value_too_long
    else if Slave_Hostname s \<in> set (map Slave_Hostname (filter (\<lambda>q. Slave_ID q \<noteq> Slave_ID s) (slaves db)))
    then Inl (IntegrityConstraintViolation ''slaves_hostname_key'')
    else Inr ((), update_slave (Slave_ID s) (\<lambda>_. s) db))"

text \<open>\<open>Delete(&Slave{ID: i})\<close>, with the referential actions; gorm leaves out the condition on a zero
  key.  It returns the number of rows.\<close>

definition delete_slave :: "ID \<Rightarrow> DB \<Rightarrow> DB" where
  "delete_slave i db =
    (let gone = map Slave_ID (filter (\<lambda>s. i = 0 \<or> Slave_ID s = i) (slaves db));
         db' = delete_mongods (map Mongod_ID (filter (\<lambda>m. Mongod_ParentSlaveID m \<in> set gone) (mongods db))) db
     in db'\<lparr>slaves := filter (\<lambda>s. Slave_ID s \<notin> set gone) (slaves db'),
            problems := filter (\<lambda>p. case Problem_SlaveID p of None \<Rightarrow> True | Some j \<Rightarrow> j \<notin> set gone) (problems db')\<rparr>)"

definition Delete_slave :: "dbms \<Rightarrow> ID \<Rightarrow> nat action" where
  "Delete_slave D i = sql_stmt D (\<lambda>n db. Inr (length (filter (\<lambda>s. i = 0 \<or> Slave_ID s = i) (slaves db)), delete_slave i db))"

definition mongods_of :: "dbms \<Rightarrow> ID \<Rightarrow> Mongod list action" where
  "mongods_of D i = sql_query D (\<lambda>n db. scan D n (mongods_on_slave db i))"

text \<open>\<open>changeToSlaveAllowed\<close>: the permission error, if any.\<close>

definition only_state_changes :: "Slave \<Rightarrow> Slave \<Rightarrow> bool" where
  "only_state_changes currentSlave updatedSlave \<longleftrightarrow>
    Slave_ID currentSlave = Slave_ID updatedSlave \<and>
    Slave_Hostname currentSlave = Slave_Hostname updatedSlave \<and>
    Slave_Port currentSlave = Slave_Port updatedSlave \<and>
    Slave_MongodPortRangeBegin currentSlave = Slave_MongodPortRangeBegin updatedSlave \<and>
    Slave_MongodPortRangeEnd currentSlave = Slave_MongodPortRangeEnd updatedSlave \<and>
    Slave_PersistentStorage currentSlave = Slave_PersistentStorage updatedSlave \<and>
    Slave_RiskGroupID currentSlave = Slave_RiskGroupID updatedSlave"

definition changeToSlaveAllowed :: "dbms \<Rightarrow> Slave \<Rightarrow> Slave \<Rightarrow> (string option) action" where
  "changeToSlaveAllowed D currentSlave updatedSlave =
    (if only_state_changes currentSlave updatedSlave then returnM None
     else if Slave_ConfiguredState currentSlave \<noteq> SlaveStateDisabled \<and>
        Slave_ConfiguredState currentSlave \<noteq> SlaveStateMaintenance
     then returnM (Some (''slave'' @ [CHR 0x27] @ ''s desired state must be `maintenance` or `disabled`''))
     else bindM (mongods_of D (Slave_ID currentSlave)) (\<lambda>ms.
       if ms \<noteq> [] then
         (if Slave_MongodPortRangeBegin updatedSlave > Slave_MongodPortRangeBegin currentSlave \<or>
             Slave_MongodPortRangeEnd updatedSlave < Slave_MongodPortRangeEnd currentSlave
          then returnM (Some ''Cannot reduce port range to a subinterval while this Slave has Mongods'')
          else if Slave_PersistentStorage updatedSlave \<noteq> Slave_PersistentStorage currentSlave
          then returnM (Some ''Cannot change persistence attribute while this Slave has Mongods'')
          else returnM None)
       else returnM None))"

text \<open>The projection in a transaction that may be over: only the count for a disabled slave needs it.\<close>

definition project_slave_in :: "dbms \<Rightarrow> broken \<Rightarrow> Slave \<Rightarrow> api_Slave action" where
  "project_slave_in D broken s =
    (case broken of Some e \<Rightarrow> if Slave_ConfiguredState s = SlaveStateDisabled then raiseM (Failed (ErrDB e))
         else ProjectModelSlaveToSlave D s
     | None \<Rightarrow> ProjectModelSlaveToSlave D s)"

definition cannot_project :: "(err \<Rightarrow> string) \<Rightarrow> err \<Rightarrow> http_write list" where
  "cannot_project show_err e = [WriteHeader StatusInternalServerError,
     Print (''cannot project model slave to slave: '' @ show_err e)]"

definition internal_error :: "(err \<Rightarrow> string) \<Rightarrow> err \<Rightarrow> http_write list" where
  "internal_error show_err e = [WriteHeader StatusInternalServerError, Print (show_err e)]"

definition SlaveIndex :: "dbms \<Rightarrow> (err \<Rightarrow> string) \<Rightarrow> handler" where
  "SlaveIndex D show_err = read_tx (
    onError (sql_query D (\<lambda>n db. order_by D n Slave_ID (slaves db))) (\<lambda>e. returnM (internal_error show_err e)) (\<lambda>ss.
    onError (mapM (ProjectModelSlaveToSlave D) ss) (\<lambda>e. returnM (cannot_project show_err e)) (\<lambda>out.
    returnM [Encode (JSlaves out)])))"

definition SlaveById :: "dbms \<Rightarrow> (err \<Rightarrow> string) \<Rightarrow> string \<Rightarrow> handler" where
  "SlaveById D show_err idStr =
    (case ParseUint idStr of
       None \<Rightarrow> returnM [WriteHeader StatusBadRequest]
     | Some i \<Rightarrow>
         if i = 0 then returnM [WriteHeader StatusBadRequest, Print ''id may not be 0'']
         else read_tx (
           onError (First D slaves Slave_ID i) (\<lambda>e. returnM (internal_error show_err e)) (\<lambda>found. case found of
             None \<Rightarrow> returnM [WriteHeader StatusNotFound]
           | Some slave \<Rightarrow>
               onError (ProjectModelSlaveToSlave D slave) (\<lambda>e. returnM (cannot_project show_err e)) (\<lambda>apiSlave.
               returnM [Encode (JSlave apiSlave)]))))"

definition cannot_parse :: "string \<Rightarrow> http_write list" where
  "cannot_parse err = [WriteHeader StatusBadRequest, Print (''cannot parse object ('' @ err @ '')'')]"

definition bad_request :: "string \<Rightarrow> http_write list" where
  "bad_request msg = [WriteHeader StatusBadRequest, Print msg]"

text \<open>The created object is written before the commit.\<close>

definition SlavePut :: "dbms \<Rightarrow> (err \<Rightarrow> string) \<Rightarrow> bool \<Rightarrow> string + api_Slave \<Rightarrow> handler" where
  "SlavePut D show_err hasBus decoded =
    (case decoded of
       Inl err \<Rightarrow> returnM (cannot_parse err)
     | Inr postSlave \<Rightarrow>
         if aSlave_ID postSlave \<noteq> 0 then returnM (bad_request ''must not specify the slave ID in PUT request'')
         else case ProjectSlaveToModelSlave postSlave of
           Inl err \<Rightarrow> returnM (bad_request err)
         | Inr slave \<Rightarrow> in_tx (\<lambda>db0.
             onError (Create_slave D slave) (refuse show_err db0) (\<lambda>modelSlave.
             bindM (attemptClusterAllocator D show_err hasBus db0 None) (\<lambda>(ws, err, broken).
             if err \<noteq> None then returnM ws
             else onError (project_slave_in D broken modelSlave)
               (\<lambda>e. rollback_with db0 (ws @ cannot_project show_err e)) (\<lambda>apiSlave.
               bindM (attemptCommit D show_err db0 broken) (\<lambda>ws'.
               returnM (ws @ [Encode (JSlave apiSlave)] @ ws')))))))"

definition SlaveUpdate :: "dbms \<Rightarrow> (err \<Rightarrow> string) \<Rightarrow> bool \<Rightarrow> string \<Rightarrow> string + api_Slave \<Rightarrow> handler" where
  "SlaveUpdate D show_err hasBus idStr decoded =
    (case ParseInt idStr of None \<Rightarrow> returnM [WriteHeader StatusBadRequest]
     | Some i \<Rightarrow>
     case decoded of Inl err \<Rightarrow> returnM (cannot_parse err)
     | Inr postSlave \<Rightarrow>
     if aSlave_ID postSlave \<noteq> i then returnM (bad_request ''must not change the id of an object'')
     else in_tx (\<lambda>db0.
       onError (First D slaves Slave_ID i) (\<lambda>e. rollback_with db0 (internal_error show_err e)) (\<lambda>found. case found of
         None \<Rightarrow> rollback_with db0 [WriteHeader StatusNotFound]
       | Some modelSlave \<Rightarrow>
       case ProjectSlaveToModelSlave postSlave of
         Inl err \<Rightarrow> rollback_with db0 (bad_request err)
       | Inr updatedModelSlave \<Rightarrow>
       onError (changeToSlaveAllowed D modelSlave updatedModelSlave)
         (\<lambda>e. rollback_with db0 (internal_error show_err e)) (\<lambda>permissionError. case permissionError of
         Some msg \<Rightarrow> rollback_with db0 [WriteHeader StatusForbidden, Print msg]
       | None \<Rightarrow>
       onError (Save_slave D updatedModelSlave) (refuse show_err db0) (\<lambda>_.
       allocate_and_commit D show_err hasBus db0 None)))))"

definition SlaveDelete :: "dbms \<Rightarrow> (err \<Rightarrow> string) \<Rightarrow> bool \<Rightarrow> string \<Rightarrow> handler" where
  "SlaveDelete D show_err hasBus idStr =
    (case ParseInt idStr of None \<Rightarrow> returnM [WriteHeader StatusBadRequest]
     | Some i \<Rightarrow> in_tx (\<lambda>db0.
       onError (bindM (find_or_err D (\<lambda>n db. lookup_slave db i))
           (\<lambda>currentSlave. bindM (mongods_of D (Slave_ID currentSlave)) (\<lambda>ms. returnM (currentSlave, ms))))
         (\<lambda>e. rollback_with db0 (internal_error show_err e)) (\<lambda>(currentSlave, ms).
       if ms \<noteq> [] \<and> Slave_ConfiguredState currentSlave \<noteq> SlaveStateDisabled
       then rollback_with db0 [WriteHeader StatusForbidden, Print (''slave `%!d(string='' @
         Slave_Hostname currentSlave @ '')` is not disabled and has active Mongods'')]
       else onError (Delete_slave D i) (\<lambda>e. rollback_with db0 (internal_error show_err e)) (\<lambda>rowsAffected.
       if rowsAffected = 0 then rollback_with db0 [WriteHeader StatusNotFound]
       else allocate_and_commit D show_err hasBus db0 None))))"

end
