(* ===== verification/ApiResources.thy ===== *)
theory ApiResources
  imports MasterApi
begin

text \<open>
  The handlers of the master's API for replica sets, risk groups, problems, Mongods and the global
  secrets (\<open>replicaSets.go\<close>, \<open>riskGroup.go\<close>, \<open>problems.go\<close>, \<open>mongods.go\<close> and \<open>system.go\<close> of
  \<open>src/master/masterapi\<close>), and the routes of \<open>Setup\<close>.
\<close>

section \<open>Replica sets\<close>

text \<open>The projection of a stored replica set panics on an unknown role.\<close>

definition project_replica_set :: "ReplicaSet \<Rightarrow> api_ReplicaSet action" where
  "project_replica_set m = (case ProjectModelReplicaSetToReplicaSet m of
     Inl err \<Rightarrow> raiseM (Panic (ErrMsg err)) | Inr r \<Rightarrow> returnM r)"

definition integer_out_of_range :: DBError where
  "integer_out_of_range = OtherDBError ''integer out of range''"

definition replica_set_row_error :: "ReplicaSet \<Rightarrow> ReplicaSet list \<Rightarrow> DBError option" where
  "replica_set_row_error r others =
    (if 2 ^ 31 \<le> unat (ReplicaSet_PersistentMemberCount r) \<or> 2 ^ 31 \<le> unat (ReplicaSet_VolatileMemberCount r)
     then Some integer_out_of_range
     else if 255 < length (ReplicaSet_Name r) then Some value_too_long
     else if ReplicaSet_Name r \<in> set (map ReplicaSet_Name others)
     then Some (IntegrityConstraintViolation ''replica_sets_name_key'')
     else None)"

definition Create_replica_set :: "dbms \<Rightarrow> ReplicaSet \<Rightarrow> ReplicaSet action" where
  "Create_replica_set D r = sql_stmt D (\<lambda>n db. case replica_set_row_error r (replica_sets db) of
     Some e \<Rightarrow> Inl e
   | None \<Rightarrow> let r' = r\<lparr>ReplicaSet_ID := newID D n (map ReplicaSet_ID (replica_sets db))\<rparr>
       in Inr (r', db\<lparr>replica_sets := replica_sets db @ [r']\<rparr>))"

definition Save_replica_set :: "dbms \<Rightarrow> ReplicaSet \<Rightarrow> unit action" where
  "Save_replica_set D r = sql_stmt D (\<lambda>n db.
     case replica_set_row_error r (filter (\<lambda>q. ReplicaSet_ID q \<noteq> ReplicaSet_ID r) (replica_sets db)) of
       Some e \<Rightarrow> Inl e
     | None \<Rightarrow> Inr ((), db\<lparr>replica_sets :=
         map (\<lambda>q. if ReplicaSet_ID q = ReplicaSet_ID r then r else q) (replica_sets db)\<rparr>))"

text \<open>\<open>Delete(&ReplicaSet{ID: i})\<close>: with a zero key gorm deletes every row.\<close>

definition selected_replica_sets :: "ID \<Rightarrow> DB \<Rightarrow> ReplicaSet list" where
  "selected_replica_sets i db = filter (\<lambda>r. i = 0 \<or> ReplicaSet_ID r = i) (replica_sets db)"

definition delete_replica_set :: "ID \<Rightarrow> DB \<Rightarrow> DB" where
  "delete_replica_set i db =
    (let gone = map ReplicaSet_ID (selected_replica_sets i db)
     in db\<lparr>replica_sets := filter (\<lambda>r. ReplicaSet_ID r \<notin> set gone) (replica_sets db),
           mongods := map (\<lambda>m. case Mongod_ReplicaSetID m of None \<Rightarrow> m
             | Some j \<Rightarrow> if j \<in> set gone then m\<lparr>Mongod_ReplicaSetID := None\<rparr> else m) (mongods db),
           problems := filter (\<lambda>p. case Problem_ReplicaSetID p of None \<Rightarrow> True | Some j \<Rightarrow> j \<notin> set gone) (problems db)\<rparr>)"

definition Delete_replica_set :: "dbms \<Rightarrow> ID \<Rightarrow> nat action" where
  "Delete_replica_set D i = sql_stmt D (\<lambda>n db. Inr (length (selected_replica_sets i db), delete_replica_set i db))"

text \<open>\<open>changeToReplicaSetAllowed\<close>: the message of a refusal, if any.  The sum of the counts is a 64-bit
  one and wraps around.\<close>

definition changeToReplicaSetAllowed :: "ReplicaSet option \<Rightarrow> ReplicaSet \<Rightarrow> string option" where
  "changeToReplicaSetAllowed current new =
    (let count_check = (let newMemberCount = ReplicaSet_VolatileMemberCount new + ReplicaSet_PersistentMemberCount new
           in if newMemberCount < 1 then Some ''Replica Set must have at least one member'' else None)
     in case current of
       Some cur \<Rightarrow>
         if ReplicaSet_ShardingRole cur \<noteq> ReplicaSet_ShardingRole new
         then Some ''cannot change sharding role of a Replica Set after creation''
         else if ReplicaSet_Name cur \<noteq> ReplicaSet_Name new
         then Some ''cannot change name of a Replica Set after creation''
         else if ReplicaSet_Initiated cur \<noteq> ReplicaSet_Initiated new
         then Some ''Replica Set initiation status may not be changed - Internal error''
         else count_check
     | None \<Rightarrow>
         if ReplicaSet_Initiated new
         then Some ''Replica Set initiation status of new Replica Set must be false - Internal error''
         else count_check)"

definition ReplicaSetIndex :: "dbms \<Rightarrow> (err \<Rightarrow> string) \<Rightarrow> handler" where
  "ReplicaSetIndex D show_err = read_tx (
    onError (sql_query D (\<lambda>n db. order_by D n ReplicaSet_ID (replica_sets db)))
      (\<lambda>e. returnM (internal_error show_err e)) (\<lambda>rs.
    bindM (mapM project_replica_set rs) (\<lambda>out. returnM [Encode (JReplicaSets out)])))"

definition ReplicaSetById :: "dbms \<Rightarrow> (err \<Rightarrow> string) \<Rightarrow> string \<Rightarrow> handler" where
  "ReplicaSetById D show_err idStr =
    (case ParseUint idStr of
       None \<Rightarrow> returnM [WriteHeader StatusBadRequest]
     | Some i \<Rightarrow>
         if i = 0 then returnM (bad_request ''id may not be 0'')
         else read_tx (
           onError (First D replica_sets ReplicaSet_ID i) (\<lambda>e. returnM (internal_error show_err e)) (\<lambda>found. case found of
             None \<Rightarrow> returnM [WriteHeader StatusNotFound]
           | Some r \<Rightarrow> bindM (project_replica_set r) (\<lambda>out. returnM [Encode (JReplicaSet out)]))))"

definition ReplicaSetPut :: "dbms \<Rightarrow> (err \<Rightarrow> string) \<Rightarrow> bool \<Rightarrow> string + api_ReplicaSet \<Rightarrow> handler" where
  "ReplicaSetPut D show_err hasBus decoded =
    (case decoded of Inl err \<Rightarrow> returnM (cannot_parse err)
     | Inr postReplSet \<Rightarrow>
     if aReplicaSet_ID postReplSet \<noteq> 0 then returnM (bad_request ''must not specify the slave ID in PUT request'')
     else case ProjectReplicaSetToModelReplicaSet postReplSet of Inl err \<Rightarrow> returnM (bad_request err)
     | Inr replSet \<Rightarrow> in_tx (\<lambda>db0.
     case changeToReplicaSetAllowed None replSet of Some msg \<Rightarrow> rollback_with db0 (bad_request msg)
     | None \<Rightarrow>
     onError (Create_replica_set D replSet) (refuse show_err db0) (\<lambda>modelReplSet.
     bindM (attemptClusterAllocator D show_err hasBus db0 None) (\<lambda>(ws, err, broken).
     if err \<noteq> None then returnM ws
     else bindM (attemptCommit D show_err db0 broken) (\<lambda>ws'.
       bindM (project_replica_set modelReplSet) (\<lambda>out. returnM (ws @ ws' @ [Encode (JReplicaSet out)])))))))"

text \<open>An error of \<open>Save\<close> that is no constraint violation is not looked at; the allocator then runs in the
  aborted transaction.\<close>

definition ReplicaSetUpdate :: "dbms \<Rightarrow> (err \<Rightarrow> string) \<Rightarrow> bool \<Rightarrow> string \<Rightarrow> string + api_ReplicaSet \<Rightarrow> handler" where
  "ReplicaSetUpdate D show_err hasBus idStr decoded =
    (case ParseInt idStr of None \<Rightarrow> returnM [WriteHeader StatusBadRequest]
     | Some i \<Rightarrow>
     case decoded of Inl err \<Rightarrow> returnM (cannot_parse err)
     | Inr postReplSet \<Rightarrow>
     if aReplicaSet_ID postReplSet \<noteq> i then returnM (bad_request ''must not change the id of an object'')
     else in_tx (\<lambda>db0.
       onError (First D replica_sets ReplicaSet_ID i) (\<lambda>e. rollback_with db0 (internal_error show_err e)) (\<lambda>found.
       case found of None \<Rightarrow> rollback_with db0 [WriteHeader StatusNotFound]
       | Some modelReplSet \<Rightarrow>
       case ProjectReplicaSetToModelReplicaSet postReplSet of Inl err \<Rightarrow> rollback_with db0 (bad_request err)
       | Inr replSet0 \<Rightarrow>
       let replSet = replSet0\<lparr>ReplicaSet_Initiated := ReplicaSet_Initiated modelReplSet\<rparr> in
       case changeToReplicaSetAllowed (Some modelReplSet) replSet of Some msg \<Rightarrow> rollback_with db0 (bad_request msg)
       | None \<Rightarrow>
       onError (Save_replica_set D replSet)
         (\<lambda>e. if is_constraint_violation e then rollback_with db0 (bad_request (show_err e))
            else allocate_and_commit D show_err hasBus db0 (Some TxAborted))
         (\<lambda>_. allocate_and_commit D show_err hasBus db0 None))))"

text \<open>The number of rows is tested before the error, so an error answers as a missing row.\<close>

definition ReplicaSetDelete :: "dbms \<Rightarrow> (err \<Rightarrow> string) \<Rightarrow> bool \<Rightarrow> string \<Rightarrow> handler" where
  "ReplicaSetDelete D show_err hasBus idStr =
    (case ParseInt idStr of None \<Rightarrow> returnM [WriteHeader StatusBadRequest]
     | Some i \<Rightarrow> in_tx (\<lambda>db0.
       onError (Delete_replica_set D i) (\<lambda>e. rollback_with db0 [WriteHeader StatusNotFound]) (\<lambda>rowsAffected.
       if rowsAffected = 0 then rollback_with db0 [WriteHeader StatusNotFound]
       else allocate_and_commit D show_err hasBus db0 None)))"

text \<open>The join gives a slave once for each of its Mongods in the set.\<close>

definition slaves_of_replica_set :: "DB \<Rightarrow> ID \<Rightarrow> Slave list" where
  "slaves_of_replica_set db rid =
    [s. s \<leftarrow> slaves db, m \<leftarrow> mongods db, Mongod_ParentSlaveID m = Slave_ID s \<and> Mongod_ReplicaSetID m = Some rid]"

definition ReplicaSetGetSlaves :: "dbms \<Rightarrow> (err \<Rightarrow> string) \<Rightarrow> string \<Rightarrow> handler" where
  "ReplicaSetGetSlaves D show_err idStr =
    (case ParseUint idStr of
       None \<Rightarrow> returnM [WriteHeader StatusBadRequest]
     | Some i \<Rightarrow>
         if i = 0 then returnM (bad_request ''id may not be 0'')
         else read_tx (
           onError (First D replica_sets ReplicaSet_ID i) (\<lambda>e. returnM (internal_error show_err e)) (\<lambda>found. case found of
             None \<Rightarrow> returnM [WriteHeader StatusNotFound]
           | Some r \<Rightarrow>
               onError (sql_query D (\<lambda>n db. scan D n (slaves_of_replica_set db i)))
                 (\<lambda>e. returnM (internal_error show_err e)) (\<lambda>ss.
               onError (mapM (ProjectModelSlaveToSlave D) ss) (\<lambda>e. returnM (internal_error show_err e)) (\<lambda>out.
               returnM [Encode (JSlaves out)])))))"

section \<open>Risk groups\<close>

definition risk_group_row_error :: "RiskGroup \<Rightarrow> RiskGroup list \<Rightarrow> DBError option" where
  "risk_group_row_error r others =
    (if 255 < length (RiskGroup_Name r) then Some value_too_long
     else if RiskGroup_Name r \<in> set (map RiskGroup_Name others)
     then Some (IntegrityConstraintViolation ''risk_groups_name_key'') else None)"

definition Create_risk_group :: "dbms \<Rightarrow> RiskGroup \<Rightarrow> RiskGroup action" where
  "Create_risk_group D r = sql_stmt D (\<lambda>n db. case risk_group_row_error r (risk_groups db) of
     Some e \<Rightarrow> Inl e
   | None \<Rightarrow> let r' = r\<lparr>RiskGroup_ID := newID D n (map RiskGroup_ID (risk_groups db))\<rparr>
       in Inr (r', db\<lparr>risk_groups := risk_groups db @ [r']\<rparr>))"

definition Save_risk_group :: "dbms \<Rightarrow> RiskGroup \<Rightarrow> unit action" where
  "Save_risk_group D r = sql_stmt D (\<lambda>n db.
     case risk_group_row_error r (filter (\<lambda>q. RiskGroup_ID q \<noteq> RiskGroup_ID r) (risk_groups db)) of
       Some e \<Rightarrow> Inl e
     | None \<Rightarrow> Inr ((), db\<lparr>risk_groups :=
         map (\<lambda>q. if RiskGroup_ID q = RiskGroup_ID r then r else q) (risk_groups db)\<rparr>))"

definition Delete_risk_group :: "dbms \<Rightarrow> ID \<Rightarrow> nat action" where
  "Delete_risk_group D i = sql_stmt D (\<lambda>n db.
     Inr (length (filter (\<lambda>r. i = 0 \<or> RiskGroup_ID r = i) (risk_groups db)),
       db\<lparr>risk_groups := filter (\<lambda>r. \<not> (i = 0 \<or> RiskGroup_ID r = i)) (risk_groups db)\<rparr>))"

definition RiskGroupIndex :: "dbms \<Rightarrow> (err \<Rightarrow> string) \<Rightarrow> handler" where
  "RiskGroupIndex D show_err = read_tx (
    onError (sql_query D (\<lambda>n db. order_by D n RiskGroup_ID (risk_groups db)))
      (\<lambda>e. returnM (internal_error show_err e)) (\<lambda>rs.
    returnM [Encode (JRiskGroups (map ProjectModelRiskGroupToRiskGroup rs))]))"

definition RiskGroupById :: "dbms \<Rightarrow> (err \<Rightarrow> string) \<Rightarrow> string \<Rightarrow> handler" where
  "RiskGroupById D show_err idStr =
    (case ParseUint idStr of
       None \<Rightarrow> returnM [WriteHeader StatusBadRequest]
     | Some i \<Rightarrow>
         if i = 0 then returnM (bad_request ''id may not be 0'')
         else read_tx (
           onError (First D risk_groups RiskGroup_ID i) (\<lambda>e. returnM (internal_error show_err e)) (\<lambda>found. case found of
             None \<Rightarrow> returnM [WriteHeader StatusNotFound]
           | Some r \<Rightarrow> returnM [Encode (JRiskGroup (ProjectModelRiskGroupToRiskGroup r))])))"

definition RiskGroupPut :: "dbms \<Rightarrow> (err \<Rightarrow> string) \<Rightarrow> bool \<Rightarrow> string + api_RiskGroup \<Rightarrow> handler" where
  "RiskGroupPut D show_err hasBus decoded =
    (case decoded of Inl err \<Rightarrow> returnM (cannot_parse err)
     | Inr postRiskGroup \<Rightarrow>
     if aRiskGroup_ID postRiskGroup \<noteq> 0 then returnM (bad_request ''must not specify the risk group ID in PUT request'')
     else case ProjectRiskGroupToModelRiskGroup postRiskGroup of Inl err \<Rightarrow> returnM (bad_request err)
     | Inr riskGroup \<Rightarrow> in_tx (\<lambda>db0.
     onError (Create_risk_group D riskGroup) (refuse show_err db0) (\<lambda>modelRiskGroup.
     bindM (attemptClusterAllocator D show_err hasBus db0 None) (\<lambda>(ws, err, broken).
     if err \<noteq> None then returnM ws
     else bindM (attemptCommit D show_err db0 broken) (\<lambda>ws'.
       returnM (ws @ ws' @ [Encode (JRiskGroup (ProjectModelRiskGroupToRiskGroup modelRiskGroup))]))))))"

text \<open>A name that is refused leaves the transaction open: nothing has been changed in it.\<close>

definition RiskGroupUpdate :: "dbms \<Rightarrow> (err \<Rightarrow> string) \<Rightarrow> bool \<Rightarrow> string \<Rightarrow> string + api_RiskGroup \<Rightarrow> handler" where
  "RiskGroupUpdate D show_err hasBus idStr decoded =
    (case ParseInt idStr of None \<Rightarrow> returnM [WriteHeader StatusBadRequest]
     | Some i \<Rightarrow>
     case decoded of Inl err \<Rightarrow> returnM (cannot_parse err)
     | Inr postRiskGroup \<Rightarrow>
     if aRiskGroup_ID postRiskGroup \<noteq> i then returnM (bad_request ''must not change the id of an object'')
     else in_tx (\<lambda>db0.
       onError (First D risk_groups RiskGroup_ID i) (\<lambda>e. rollback_with db0 (internal_error show_err e)) (\<lambda>found.
       case found of None \<Rightarrow> rollback_with db0 [WriteHeader StatusNotFound]
       | Some modelRiskGroup \<Rightarrow>
       case ProjectRiskGroupToModelRiskGroup postRiskGroup of Inl err \<Rightarrow> returnM (bad_request err)
       | Inr save \<Rightarrow>
       onError (Save_risk_group D save)
         (\<lambda>e. if is_constraint_violation e then rollback_with db0 (bad_request (show_err e))
            else allocate_and_commit D show_err hasBus db0 (Some TxAborted))
         (\<lambda>_. allocate_and_commit D show_err hasBus db0 None))))"

definition slaves_in_group :: "DB \<Rightarrow> ID option \<Rightarrow> Slave list" where
  "slaves_in_group db g = filter (\<lambda>s. Slave_RiskGroupID s = g) (slaves db)"

text \<open>After a failed \<open>Delete\<close> the handler prints the error of an earlier call, which is nil.\<close>

definition RiskGroupDelete :: "dbms \<Rightarrow> (err \<Rightarrow> string) \<Rightarrow> bool \<Rightarrow> string \<Rightarrow> handler" where
  "RiskGroupDelete D show_err hasBus idStr =
    (case ParseInt idStr of None \<Rightarrow> returnM [WriteHeader StatusBadRequest]
     | Some i \<Rightarrow> in_tx (\<lambda>db0.
       onError (First D risk_groups RiskGroup_ID i) (\<lambda>e. rollback_with db0 (internal_error show_err e)) (\<lambda>found.
       case found of None \<Rightarrow> rollback_with db0 [WriteHeader StatusNotFound]
       | Some currentRiskGroup \<Rightarrow>
       onError (bindM (find_or_err D (\<lambda>n db. lookup_risk_group db i)) (\<lambda>g.
           sql_query D (\<lambda>n db. scan D n (slaves_in_group db (Some (RiskGroup_ID g))))))
         (\<lambda>e. rollback_with db0 (internal_error show_err e)) (\<lambda>ss.
       if ss \<noteq> [] then rollback_with db0 [WriteHeader StatusForbidden,
         Print (''riskgroup with id '' @ show_int (RiskGroup_ID currentRiskGroup) @ '' has assigned slaves'')]
       else onError (Delete_risk_group D i) (\<lambda>e. raiseM (Panic (ErrMsg ''nil pointer dereference''))) (\<lambda>rowsAffected.
       if rowsAffected = 0 then rollback_with db0 [WriteHeader StatusNotFound]
       else allocate_and_commit D show_err hasBus db0 None)))))"

definition list_group_slaves :: "dbms \<Rightarrow> (err \<Rightarrow> string) \<Rightarrow> ID option \<Rightarrow> handler" where
  "list_group_slaves D show_err g =
    onError (sql_query D (\<lambda>n db. scan D n (slaves_in_group db g))) (\<lambda>e. returnM (internal_error show_err e)) (\<lambda>ss.
    onError (mapM (ProjectModelSlaveToSlave D) ss) (\<lambda>e. returnM (internal_error show_err e)) (\<lambda>out.
    returnM [Encode (JSlaves out)]))"

definition RiskGroupGetSlaves :: "dbms \<Rightarrow> (err \<Rightarrow> string) \<Rightarrow> string \<Rightarrow> handler" where
  "RiskGroupGetSlaves D show_err idStr =
    (if idStr = ''null'' then read_tx (list_group_slaves D show_err None)
     else case ParseInt idStr of None \<Rightarrow> returnM [WriteHeader StatusBadRequest]
     | Some i \<Rightarrow> read_tx (
         onError (First D risk_groups RiskGroup_ID i) (\<lambda>e. returnM (internal_error show_err e)) (\<lambda>found. case found of
           None \<Rightarrow> returnM [WriteHeader StatusNotFound, Print ''Riskgroup not found'']
         | Some _ \<Rightarrow> list_group_slaves D show_err (Some i))))"

text \<open>\<open>RiskGroupAssignSlave\<close> does not run the allocator, and after a violation it goes on to the
  commit.\<close>

definition RiskGroupAssignSlave :: "dbms \<Rightarrow> (err \<Rightarrow> string) \<Rightarrow> string \<Rightarrow> string \<Rightarrow> handler" where
  "RiskGroupAssignSlave D show_err riskgroupIdStr slaveIdStr =
    (case ParseInt riskgroupIdStr of None \<Rightarrow> returnM [WriteHeader StatusBadRequest]
     | Some riskgroupId \<Rightarrow>
     case ParseInt slaveIdStr of None \<Rightarrow> returnM [WriteHeader StatusBadRequest]
     | Some slaveId \<Rightarrow>
     if riskgroupId = 0 \<or> slaveId = 0 then returnM (bad_request ''Id may not be 0'')
     else in_tx (\<lambda>db0.
       onError (First D risk_groups RiskGroup_ID riskgroupId) (\<lambda>e. rollback_with db0 (internal_error show_err e)) (\<lambda>found.
       case found of None \<Rightarrow> rollback_with db0 [WriteHeader StatusNotFound, Print ''Riskgroup not found'']
       | Some _ \<Rightarrow>
       onError (find_or_err D (\<lambda>n db. lookup_slave db slaveId)) (\<lambda>e. rollback_with db0 (internal_error show_err e)) (\<lambda>modelSlave.
       let updatedSlave = modelSlave\<lparr>Slave_RiskGroupID := Some riskgroupId\<rparr> in
       onError (changeToSlaveAllowed D modelSlave updatedSlave)
         (\<lambda>e. rollback_with db0 (internal_error show_err e)) (\<lambda>permissionError. case permissionError of
         Some msg \<Rightarrow> rollback_with db0 [WriteHeader StatusForbidden, Print msg]
       | None \<Rightarrow>
       onError (Save_slave D updatedSlave)
         (\<lambda>e. if is_constraint_violation e
            then bindM (rollback_with db0 (bad_request (show_err e))) (\<lambda>ws.
              bindM (attemptCommit D show_err db0 (Some TxDone)) (\<lambda>ws'. returnM (ws @ ws')))
            else attemptCommit D show_err db0 (Some TxAborted))
         (\<lambda>_. attemptCommit D show_err db0 None))))))"

definition set_risk_group :: "ID \<Rightarrow> ID option \<Rightarrow> DB \<Rightarrow> DB" where
  "set_risk_group i g = update_slave i (\<lambda>s. s\<lparr>Slave_RiskGroupID := g\<rparr>)"

definition RiskGroupRemoveSlave :: "dbms \<Rightarrow> (err \<Rightarrow> string) \<Rightarrow> bool \<Rightarrow> string \<Rightarrow> string \<Rightarrow> handler" where
  "RiskGroupRemoveSlave D show_err hasBus riskgroupIdStr slaveIdStr =
    (case ParseInt riskgroupIdStr of None \<Rightarrow> returnM [WriteHeader StatusBadRequest]
     | Some riskgroupId \<Rightarrow>
     case ParseInt slaveIdStr of None \<Rightarrow> returnM [WriteHeader StatusBadRequest]
     | Some slaveId \<Rightarrow>
     if riskgroupId = 0 \<or> slaveId = 0 then returnM (bad_request ''Id may not be 0'')
     else in_tx (\<lambda>db0.
       onError (First D risk_groups RiskGroup_ID riskgroupId) (\<lambda>e. rollback_with db0 (internal_error show_err e)) (\<lambda>found.
       case found of None \<Rightarrow> rollback_with db0 [WriteHeader StatusNotFound, Print ''Riskgroup not found'']
       | Some _ \<Rightarrow>
       onError (find_or_err D (\<lambda>n db. lookup_slave db slaveId)) (\<lambda>e. rollback_with db0 (internal_error show_err e)) (\<lambda>modelSlave.
       if Slave_RiskGroupID modelSlave \<noteq> Some riskgroupId
       then rollback_with db0 [WriteHeader StatusNotFound,
         Print ''Slave not found in this riskgroup. (Slave is in other riskgroup)'']
       else
       onError (changeToSlaveAllowed D modelSlave (modelSlave\<lparr>Slave_RiskGroupID := None\<rparr>))
         (\<lambda>e. rollback_with db0 (internal_error show_err e)) (\<lambda>permissionError. case permissionError of
         Some msg \<Rightarrow> rollback_with db0 [WriteHeader StatusForbidden, Print msg]
       | None \<Rightarrow>
       onError (sql_exec D (set_risk_group slaveId None))
         (\<lambda>_. allocate_and_commit D show_err hasBus db0 (Some TxAborted))
         (\<lambda>_. allocate_and_commit D show_err hasBus db0 None))))))"

section \<open>Problems\<close>

definition ProblemIndex :: "dbms \<Rightarrow> (err \<Rightarrow> string) \<Rightarrow> handler" where
  "ProblemIndex D show_err = read_tx (
    onError (sql_query D (\<lambda>n db. order_by D n Problem_ID (problems db)))
      (\<lambda>e. returnM (internal_error show_err e)) (\<lambda>ps.
    returnM [Encode (JProblems (map ProjectModelProblemToProblem ps))]))"

definition ProblemById :: "dbms \<Rightarrow> (err \<Rightarrow> string) \<Rightarrow> string \<Rightarrow> handler" where
  "ProblemById D show_err idStr =
    (case ParseUint idStr of
       None \<Rightarrow> returnM [WriteHeader StatusBadRequest]
     | Some i \<Rightarrow>
         if i = 0 then returnM (bad_request ''id may not be 0'')
         else read_tx (
           onError (First D problems Problem_ID i) (\<lambda>e. returnM (internal_error show_err e)) (\<lambda>found. case found of
             None \<Rightarrow> returnM [WriteHeader StatusNotFound]
           | Some p \<Rightarrow> returnM [Encode (JProblem (ProjectModelProblemToProblem p))])))"

definition ProblemBySlave :: "dbms \<Rightarrow> (err \<Rightarrow> string) \<Rightarrow> string \<Rightarrow> handler" where
  "ProblemBySlave D show_err idStr =
    (case ParseUint idStr of
       None \<Rightarrow> returnM [WriteHeader StatusBadRequest]
     | Some slaveId \<Rightarrow> read_tx (
         onError (First D slaves Slave_ID slaveId) (\<lambda>e. returnM (internal_error show_err e)) (\<lambda>found. case found of
           None \<Rightarrow> returnM [WriteHeader StatusNotFound]
         | Some slave \<Rightarrow>
             onError (sql_query D (\<lambda>n db. order_by D n Problem_ID
                 (filter (\<lambda>p. Problem_SlaveID p = Some (Slave_ID slave)) (problems db))))
               (\<lambda>e. returnM (internal_error show_err e)) (\<lambda>ps.
             returnM [Encode (JProblems (map ProjectModelProblemToProblem ps))]))))"

definition ProblemByReplicaSet :: "dbms \<Rightarrow> (err \<Rightarrow> string) \<Rightarrow> string \<Rightarrow> handler" where
  "ProblemByReplicaSet D show_err idStr =
    (case ParseUint idStr of
       None \<Rightarrow> returnM [WriteHeader StatusBadRequest]
     | Some replicaSetId \<Rightarrow> read_tx (
         onError (First D replica_sets ReplicaSet_ID replicaSetId) (\<lambda>e. returnM (internal_error show_err e)) (\<lambda>found.
         case found of
           None \<Rightarrow> returnM [WriteHeader StatusNotFound]
         | Some r \<Rightarrow>
             onError (sql_query D (\<lambda>n db. order_by D n Problem_ID
                 (filter (\<lambda>p. Problem_ReplicaSetID p = Some (ReplicaSet_ID r)) (problems db))))
               (\<lambda>e. returnM (internal_error show_err e)) (\<lambda>ps.
             returnM [Encode (JProblems (map ProjectModelProblemToProblem ps))]))))"

section \<open>Mongods\<close>

definition mongodToApiMongod :: "dbms \<Rightarrow> Mongod \<Rightarrow> api_Mongod action" where
  "mongodToApiMongod D m =
    bindM (sql_query D (\<lambda>n db. case Mongod_ObservedStateID m of None \<Rightarrow> None | Some i \<Rightarrow> lookup_state db i)) (\<lambda>st.
    returnM (ProjectModelMongodToMongod m (case st of None \<Rightarrow> MongodExecutionStateInvalid
      | Some row \<Rightarrow> State_ExecutionState row)))"

definition list_mongods :: "dbms \<Rightarrow> (err \<Rightarrow> string) \<Rightarrow> (Mongod \<Rightarrow> bool) \<Rightarrow> handler" where
  "list_mongods D show_err cond =
    onError (sql_query D (\<lambda>n db. order_by D n Mongod_ID (filter cond (mongods db))))
      (\<lambda>e. returnM (internal_error show_err e)) (\<lambda>ms.
    onError (mapM (mongodToApiMongod D) ms) (\<lambda>e. returnM (internal_error show_err e)) (\<lambda>out.
    returnM [Encode (JMongods out)]))"

definition MongodsBySlave :: "dbms \<Rightarrow> (err \<Rightarrow> string) \<Rightarrow> string \<Rightarrow> handler" where
  "MongodsBySlave D show_err idStr =
    (case ParseInt idStr of
       None \<Rightarrow> returnM [WriteHeader StatusBadRequest]
     | Some slaveId \<Rightarrow> read_tx (
         onError (First D slaves Slave_ID slaveId) (\<lambda>e. returnM (internal_error show_err e)) (\<lambda>found. case found of
           None \<Rightarrow> returnM [WriteHeader StatusNotFound]
         | Some slave \<Rightarrow> list_mongods D show_err (\<lambda>m. Mongod_ParentSlaveID m = Slave_ID slave))))"

definition MongodsByReplicaSet :: "dbms \<Rightarrow> (err \<Rightarrow> string) \<Rightarrow> string \<Rightarrow> handler" where
  "MongodsByReplicaSet D show_err idStr =
    (case ParseInt idStr of
       None \<Rightarrow> returnM [WriteHeader StatusBadRequest]
     | Some i \<Rightarrow> read_tx (
         onError (First D replica_sets ReplicaSet_ID i) (\<lambda>e. returnM (internal_error show_err e)) (\<lambda>found. case found of
           None \<Rightarrow> returnM [WriteHeader StatusNotFound]
         | Some r \<Rightarrow> list_mongods D show_err (\<lambda>m. Mongod_ReplicaSetID m = Some (ReplicaSet_ID r)))))"

section \<open>The global secrets\<close>

definition ProjectModelMongodKeyfileToAPIMongodKeyfile :: "MongodKeyfile \<Rightarrow> json" where
  "ProjectModelMongodKeyfileToAPIMongodKeyfile m = JKeyfile (Keyfile_Content m)"

definition ProjectModelMongodbCredentialToAPIMongodbCredential :: "MongodbCredential \<Rightarrow> json" where
  "ProjectModelMongodbCredentialToAPIMongodbCredential m =
    JCredential (MongodbCredential_Username m) (MongodbCredential_Password m)"

definition KeyfileGet :: "dbms \<Rightarrow> (err \<Rightarrow> string) \<Rightarrow> handler" where
  "KeyfileGet D show_err = read_tx (
    onError (find_or_err D (\<lambda>n db. limit1 (order_by D n Keyfile_ID (mongod_keyfiles db))))
      (\<lambda>e. returnM [WriteHeader StatusInternalServerError, Print (''error querying keyfile: '' @ show_err e)]) (\<lambda>k.
    returnM [Encode (ProjectModelMongodKeyfileToAPIMongodKeyfile k)]))"

definition ManagementUserGet :: "dbms \<Rightarrow> (err \<Rightarrow> string) \<Rightarrow> handler" where
  "ManagementUserGet D show_err = read_tx (
    onError (find_or_err D (\<lambda>n db. limit1 (order_by D n MongodbCredential_ID (mongodb_root_credentials db))))
      (\<lambda>e. returnM [WriteHeader StatusInternalServerError,
         Print (''error querying MAMID management user credential: '' @ show_err e)]) (\<lambda>c.
    returnM [Encode (ProjectModelMongodbCredentialToAPIMongodbCredential c)]))"

section \<open>Routes\<close>

text \<open>\<open>Setup\<close>: the first route whose method and path match.  A path is the list of its segments;
  what the router does with any other request is its own, and has no effect on the tables.\<close>

datatype http_method = GET | PUT | POST | DELETE

record codec =
  decodeSlave :: "string \<Rightarrow> string + api_Slave"
  decodeReplicaSet :: "string \<Rightarrow> string + api_ReplicaSet"
  decodeRiskGroup :: "string \<Rightarrow> string + api_RiskGroup"

fun api_get :: "dbms \<Rightarrow> (err \<Rightarrow> string) \<Rightarrow> string list \<Rightarrow> handler option" where
  "api_get D show_err [a] =
    (if a = ''slaves'' then Some (SlaveIndex D show_err)
     else if a = ''replicasets'' then Some (ReplicaSetIndex D show_err)
     else if a = ''riskgroups'' then Some (RiskGroupIndex D show_err)
     else if a = ''problems'' then Some (ProblemIndex D show_err) else None)"
| "api_get D show_err [a, i] =
    (if a = ''slaves'' then Some (SlaveById D show_err i)
     else if a = ''replicasets'' then Some (ReplicaSetById D show_err i)
     else if a = ''riskgroups'' then Some (RiskGroupById D show_err i)
     else if a = ''problems'' then Some (ProblemById D show_err i)
     else if a = ''system'' then (if i = ''keyfile'' then Some (KeyfileGet D show_err)
       else if i = ''managementuser'' then Some (ManagementUserGet D show_err) else None)
     else None)"
| "api_get D show_err [a, i, b] =
    (if a = ''slaves'' \<and> b = ''problems'' then Some (ProblemBySlave D show_err i)
     else if a = ''slaves'' \<and> b = ''mongods'' then Some (MongodsBySlave D show_err i)
     else if a = ''replicasets'' \<and> b = ''slaves'' then Some (ReplicaSetGetSlaves D show_err i)
     else if a = ''replicasets'' \<and> b = ''problems'' then Some (ProblemByReplicaSet D show_err i)
     else if a = ''replicasets'' \<and> b = ''mongods'' then Some (MongodsByReplicaSet D show_err i)
     else if a = ''riskgroups'' \<and> b = ''slaves'' then Some (RiskGroupGetSlaves D show_err i) else None)"
| "api_get D show_err _ = None"

fun api_change :: "dbms \<Rightarrow> (err \<Rightarrow> string) \<Rightarrow> codec \<Rightarrow> bool \<Rightarrow> http_method \<Rightarrow> string list \<Rightarrow> string \<Rightarrow> handler option" where
  "api_change D show_err C hasBus PUT [a] body =
    (if a = ''slaves'' then Some (SlavePut D show_err hasBus (decodeSlave C body))
     else if a = ''replicasets'' then Some (ReplicaSetPut D show_err hasBus (decodeReplicaSet C body))
     else if a = ''riskgroups'' then Some (RiskGroupPut D show_err hasBus (decodeRiskGroup C body)) else None)"
| "api_change D show_err C hasBus PUT [a, g, b, i] body =
    (if a = ''riskgroups'' \<and> b = ''slaves'' then Some (RiskGroupAssignSlave D show_err g i) else None)"
| "api_change D show_err C hasBus POST [a, i] body =
    (if a = ''slaves'' then Some (SlaveUpdate D show_err hasBus i (decodeSlave C body))
     else if a = ''replicasets'' then Some (ReplicaSetUpdate D show_err hasBus i (decodeReplicaSet C body))
     else if a = ''riskgroups'' then Some (RiskGroupUpdate D show_err hasBus i (decodeRiskGroup C body)) else None)"
| "api_change D show_err C hasBus DELETE [a, i] body =
    (if a = ''slaves'' then Some (SlaveDelete D show_err hasBus i)
     else if a = ''replicasets'' then Some (ReplicaSetDelete D show_err hasBus i)
     else if a = ''riskgroups'' then Some (RiskGroupDelete D show_err hasBus i) else None)"
| "api_change D show_err C hasBus DELETE [a, g, b, i] body =
    (if a = ''riskgroups'' \<and> b = ''slaves'' then Some (RiskGroupRemoveSlave D show_err hasBus g i) else None)"
| "api_change _ _ _ _ _ _ _ = None"

definition api_route ::
  "dbms \<Rightarrow> (err \<Rightarrow> string) \<Rightarrow> codec \<Rightarrow> bool \<Rightarrow> http_method \<Rightarrow> string list \<Rightarrow> string \<Rightarrow> handler option" where
  "api_route D show_err C hasBus verb path body =
    (if verb = GET then api_get D show_err path else api_change D show_err C hasBus verb path body)"

end
