(* ===== verification/ApiSafety.thy ===== *)
theory ApiSafety
  imports ApiResources
begin

text \<open>
  What holds of every request to the API: a read changes nothing, and a request that is answered with
  an error leaves the tables as they were.
\<close>

section \<open>Handlers that keep the tables when they answer an error\<close>

definition keeps :: "DB \<Rightarrow> handler \<Rightarrow> tx \<Rightarrow> bool" where
  "keeps db0 m s \<longleftrightarrow> run m (\<lambda>ws s'. status ws < 400 \<or> txDB s' = db0) (\<lambda>_ _. True) s"

named_theorems keeping

lemma keeps_returnM: "txDB s = db0 \<Longrightarrow> keeps db0 (returnM ws) s"
  by (simp add: keeps_def run_simps)

lemma keeps_raiseM [keeping]: "keeps db0 (raiseM f) s"
  by (simp add: keeps_def run_simps)

lemma keeps_rollback_with [keeping]: "keeps db0 (rollback_with db0 ws) s"
  by (simp add: keeps_def rollback_with_def run_simps)

lemma keeps_refuse [keeping]: "keeps db0 (refuse show_err db0 e) s"
  by (simp add: refuse_def keeping)

lemma keeps_in_tx [keeping]: "txDB s = db0 \<Longrightarrow> keeps db0 (f db0) s \<Longrightarrow> keeps db0 (in_tx f) s"
  by (simp add: keeps_def in_tx_def run_simps)

lemma run_any:
  assumes "\<And>x s'. run (f x) Q (\<lambda>_ _. True) s'"
  shows "run (bindM m f) Q (\<lambda>_ _. True) s"
  unfolding run_bindM by (rule run_mono [OF run_trivial]) (simp_all add: assms)

lemma keeps_onError [keeping]:
  "(\<And>e s'. keeps db0 (h e) s') \<Longrightarrow> (\<And>x s'. keeps db0 (k x) s') \<Longrightarrow> keeps db0 (onError m h k) s"
  unfolding keeps_def onError_def by (rule run_any) (auto split: sum.split)

lemma keeps_if [keeping]: "(b \<Longrightarrow> keeps db0 m s) \<Longrightarrow> (\<not> b \<Longrightarrow> keeps db0 m' s) \<Longrightarrow> keeps db0 (if b then m else m') s"
  by simp

lemma keeps_Let [keeping]: "(\<And>x. keeps db0 (f x) s) \<Longrightarrow> keeps db0 (Let a f) s"
  by (simp add: Let_def)

lemma keeps_case_option [keeping]:
  "keeps db0 m s \<Longrightarrow> (\<And>x. keeps db0 (f x) s) \<Longrightarrow> keeps db0 (case r of None \<Rightarrow> m | Some x \<Rightarrow> f x) s"
  by (cases r) simp_all

lemma keeps_case_sum [keeping]:
  "(\<And>x. keeps db0 (f x) s) \<Longrightarrow> (\<And>x. keeps db0 (g x) s) \<Longrightarrow> keeps db0 (case r of Inl x \<Rightarrow> f x | Inr x \<Rightarrow> g x) s"
  by (cases r) simp_all

lemma keeps_case_prod [keeping]:
  "(\<And>x y. keeps db0 (f x y) s) \<Longrightarrow> keeps db0 (case r of (x, y) \<Rightarrow> f x y) s"
  by (cases r) simp

lemma run_read_tx:
  "run (read_tx m) (\<lambda>_ s'. txDB s' = txDB s) (\<lambda>_ s'. txDB s' = txDB s) s"
  unfolding read_tx_def run_bindM run_getM run_catchM run_rollback run_returnM
  by (rule run_mono [OF run_trivial]) (simp_all add: run_simps)

lemma keeps_read_tx [keeping]: "txDB s = db0 \<Longrightarrow> keeps db0 (read_tx m) s"
  unfolding keeps_def by (rule run_mono [OF run_read_tx]) simp_all

lemma run_attemptCommit:
  "run (attemptCommit D show_err db0 broken) (\<lambda>ws s'. (ws = [] \<and> broken = None) \<or> txDB s' = db0) (\<lambda>_ _. True) s"
  unfolding attemptCommit_def onError_def run_bindM run_attempt commit_def
  by (cases broken) (auto simp: run_simps intro!: run_sql_stmt split: failure.split)

lemma keeps_attemptCommit [keeping]: "keeps db0 (attemptCommit D show_err db0 broken) s"
  unfolding keeps_def by (rule run_mono [OF run_attemptCommit]) (auto simp: status_def)

lemma run_attemptClusterAllocator:
  "run (attemptClusterAllocator D show_err hasBus db0 broken)
    (\<lambda>(ws, err, broken') s'. err = None \<and> (ws = [] \<or> broken' \<noteq> None)) (\<lambda>_ _. True) s"
  unfolding attemptClusterAllocator_def onError_def
  by (rule run_any) (auto simp: run_simps split: sum.split)

lemma keeps_after_allocator:
  assumes "\<And>ws broken s'. ws = [] \<or> broken \<noteq> None \<Longrightarrow> keeps db0 (f ws broken) s'"
  shows "keeps db0 (bindM (attemptClusterAllocator D show_err hasBus db0 b) (\<lambda>(ws, err, broken).
    if err \<noteq> None then returnM ws else f ws broken)) s"
  unfolding keeps_def run_bindM
  by (rule run_mono [OF run_attemptClusterAllocator]) (use assms in \<open>auto simp: keeps_def\<close>)

lemma keeps_commit_then:
  assumes "ws = [] \<or> broken \<noteq> None"
    and "\<And>ws' s'. (ws = [] \<and> ws' = []) \<or> txDB s' = db0 \<Longrightarrow> keeps db0 (f ws') s'"
  shows "keeps db0 (bindM (attemptCommit D show_err db0 broken) f) s"
  unfolding keeps_def run_bindM
  by (rule run_mono [OF run_attemptCommit]) (use assms in \<open>auto simp: keeps_def\<close>)

lemma keeps_allocate_and_commit [keeping]: "keeps db0 (allocate_and_commit D show_err hasBus db0 broken) s"
  unfolding allocate_and_commit_def
  by (intro keeps_after_allocator keeps_commit_then) (auto simp: keeps_def run_simps status_def)

text \<open>One lemma for each handler that changes something.\<close>

lemma keeps_SlavePut: "keeps (txDB s) (SlavePut D show_err hasBus decoded) s"
  unfolding SlavePut_def
  by (intro keeping keeps_after_allocator refl keeps_commit_then)
    (auto simp: keeps_def run_simps status_def split: list.split)

lemma keeps_SlaveUpdate: "keeps (txDB s) (SlaveUpdate D show_err hasBus i decoded) s"
  unfolding SlaveUpdate_def by (intro keeping keeps_returnM refl)

lemma keeps_SlaveDelete: "keeps (txDB s) (SlaveDelete D show_err hasBus i) s"
  unfolding SlaveDelete_def by (intro keeping keeps_returnM refl)

lemma keeps_project_replica_set:
  "(\<And>out. keeps db0 (returnM (f out)) s) \<Longrightarrow> keeps db0 (bindM (project_replica_set r) (\<lambda>out. returnM (f out))) s"
  by (cases "ProjectModelReplicaSetToReplicaSet r") (simp_all add: keeps_def project_replica_set_def run_simps)

lemma keeps_ReplicaSetPut: "keeps (txDB s) (ReplicaSetPut D show_err hasBus decoded) s"
  unfolding ReplicaSetPut_def
  by (intro keeping keeps_after_allocator refl keeps_commit_then keeps_project_replica_set)
    (auto simp: keeps_def run_simps status_def)

lemma keeps_ReplicaSetUpdate: "keeps (txDB s) (ReplicaSetUpdate D show_err hasBus i decoded) s"
  unfolding ReplicaSetUpdate_def by (intro keeping keeps_returnM refl)

lemma keeps_ReplicaSetDelete: "keeps (txDB s) (ReplicaSetDelete D show_err hasBus i) s"
  unfolding ReplicaSetDelete_def by (intro keeping keeps_returnM refl)

lemma keeps_RiskGroupPut: "keeps (txDB s) (RiskGroupPut D show_err hasBus decoded) s"
  unfolding RiskGroupPut_def
  by (intro keeping keeps_after_allocator refl keeps_commit_then)
    (auto simp: keeps_def run_simps status_def)

lemma keeps_First:
  assumes "txDB s = db0" and "\<And>e s'. keeps db0 (h e) s'"
    and "\<And>x s'. txDB s' = db0 \<Longrightarrow> keeps db0 (k x) s'"
  shows "keeps db0 (onError (First D table key i) h k) s"
  unfolding keeps_def onError_def run_bindM First_def
  by (rule run_attempt_reads_only) (use assms in \<open>auto simp: keeps_def reading split: sum.split\<close>)

lemma keeps_RiskGroupUpdate: "keeps (txDB s) (RiskGroupUpdate D show_err hasBus i decoded) s"
  unfolding RiskGroupUpdate_def
  by (intro keeps_First keeping keeps_returnM refl; assumption)

lemma keeps_RiskGroupDelete: "keeps (txDB s) (RiskGroupDelete D show_err hasBus i) s"
  unfolding RiskGroupDelete_def by (intro keeping keeps_returnM refl)

lemma keeps_RiskGroupAssignSlave: "keeps (txDB s) (RiskGroupAssignSlave D show_err g i) s"
proof -
  have end_then_commit: "keeps db0 (bindM (rollback_with db0 ws) (\<lambda>ws. bindM (attemptCommit D show_err db0 (Some TxDone))
      (\<lambda>ws'. returnM (ws @ ws')))) s'" for db0 ws and s' :: tx
    unfolding keeps_def rollback_with_def run_bindM run_rollback run_returnM
    by (rule run_mono [OF run_attemptCommit]) auto
  show ?thesis
    unfolding RiskGroupAssignSlave_def by (intro keeping keeps_returnM refl end_then_commit)
qed

lemma keeps_RiskGroupRemoveSlave: "keeps (txDB s) (RiskGroupRemoveSlave D show_err hasBus g i) s"
  unfolding RiskGroupRemoveSlave_def by (intro keeping keeps_returnM refl)

lemmas keeps_change = keeps_SlavePut keeps_SlaveUpdate keeps_SlaveDelete keeps_ReplicaSetPut keeps_ReplicaSetUpdate
  keeps_ReplicaSetDelete keeps_RiskGroupPut keeps_RiskGroupUpdate keeps_RiskGroupDelete keeps_RiskGroupAssignSlave
  keeps_RiskGroupRemoveSlave

lemma keeps_api_change: "api_change D show_err C hasBus verb path body = Some h \<Longrightarrow> keeps (txDB s) h s"
  by (induction D show_err C hasBus verb path body rule: api_change.induct)
    (auto simp: keeps_change split: if_splits)

section \<open>Reads\<close>

definition untouched :: "handler \<Rightarrow> tx \<Rightarrow> bool" where
  "untouched h s \<longleftrightarrow> run h (\<lambda>_ s'. txDB s' = txDB s) (\<lambda>_ s'. txDB s' = txDB s) s"

lemma untouched_read_tx: "untouched (read_tx m) s"
  by (simp add: untouched_def run_read_tx)

lemma untouched_returnM: "untouched (returnM ws) s"
  by (simp add: untouched_def run_simps)

lemma untouched_cases:
  "untouched m s \<Longrightarrow> (\<And>x. untouched (f x) s) \<Longrightarrow> untouched (case r of None \<Rightarrow> m | Some x \<Rightarrow> f x) s"
  "untouched m s \<Longrightarrow> untouched m' s \<Longrightarrow> untouched (if b then m else m') s"
  by (cases r) simp_all

lemmas read_handlers = SlaveIndex_def SlaveById_def ReplicaSetIndex_def ReplicaSetById_def ReplicaSetGetSlaves_def
  RiskGroupIndex_def RiskGroupById_def RiskGroupGetSlaves_def ProblemIndex_def ProblemById_def ProblemBySlave_def
  ProblemByReplicaSet_def MongodsBySlave_def MongodsByReplicaSet_def KeyfileGet_def ManagementUserGet_def

lemma untouched_api_get: "api_get D show_err path = Some h \<Longrightarrow> untouched h s"
  by (induction D show_err path rule: api_get.induct)
    (auto simp: read_handlers split: if_splits
      intro: untouched_cases untouched_read_tx untouched_returnM)

section \<open>Properties\<close>

text \<open>A GET request never changes the tables, whatever the database does and whether it
  is answered or ends in a panic.\<close>

theorem get_changes_nothing:
  assumes "api_route D show_err C hasBus GET path body = Some h"
  shows "txDB (snd (h s)) = txDB s"
proof -
  have "untouched h s"
    using assms untouched_api_get by (simp add: api_route_def)
  then show ?thesis
    by (simp add: untouched_def run_def split: prod.splits sum.splits)
qed

text \<open>C24: a request that is answered with an error status leaves the tables as they were,
  whatever the database does; nothing is stored of a request that was refused.\<close>

theorem failed_requests_change_nothing:
  assumes "api_route D show_err C hasBus verb path body = Some h"
    and "h s = (Inr ws, s')" and "400 \<le> status ws"
  shows "txDB s' = txDB s"
proof (cases "verb = GET")
  case True
  then have "untouched h s"
    using assms(1) untouched_api_get by (simp add: api_route_def)
  then show ?thesis
    using assms(2) by (simp add: untouched_def run_def)
next
  case False
  then have "keeps (txDB s) h s"
    using assms(1) keeps_api_change by (simp add: api_route_def)
  then show ?thesis
    using assms(2,3) by (simp add: keeps_def run_def)
qed

definition example_codec :: codec where
  "example_codec = \<lparr>decodeSlave = (\<lambda>_. Inr example_api_slave), decodeReplicaSet = (\<lambda>_. Inl ''EOF''),
     decodeRiskGroup = (\<lambda>_. Inl ''EOF'')\<rparr>"

theorem get_changes_nothing_witness:
  "\<exists>h. api_route plain_dbms (\<lambda>_. []) example_codec True GET [''slaves'', ''1''] [] = Some h \<and>
    txDB (snd (h (begin_tx example_db))) = example_db"
proof -
  have route: "api_route plain_dbms (\<lambda>_. []) example_codec True GET [''slaves'', ''1''] [] =
      Some (SlaveById plain_dbms (\<lambda>_. []) ''1'')"
    by (simp add: api_route_def)
  from get_changes_nothing [OF route, of "begin_tx example_db"] route show ?thesis by simp
qed

theorem failed_requests_change_nothing_witness:
  "\<exists>h ws s'. api_route plain_dbms (\<lambda>_. []) example_codec True PUT [''replicasets''] [] = Some h \<and>
    h (begin_tx example_db) = (Inr ws, s') \<and> status ws = 400 \<and> txDB s' = example_db"
proof -
  have route: "api_route plain_dbms (\<lambda>_. []) example_codec True PUT [''replicasets''] [] =
      Some (ReplicaSetPut plain_dbms (\<lambda>_. []) True (Inl ''EOF''))"
    by (simp add: api_route_def example_codec_def)
  have ran: "ReplicaSetPut plain_dbms (\<lambda>_. []) True (Inl ''EOF'') (begin_tx example_db) =
      (Inr (cannot_parse ''EOF''), begin_tx example_db)"
    by (simp add: ReplicaSetPut_def returnM_def)
  have st: "status (cannot_parse ''EOF'') = 400"
    by (simp add: status_def cannot_parse_def)
  with failed_requests_change_nothing [OF route ran] route ran show ?thesis by simp
qed

end
