(* ===== verification/ApiChanges.thy ===== *)
theory ApiChanges
  imports ApiSafety
begin

text \<open>
  What the changing requests do: the guards on changes and deletions, and the effect of a request
  together with the run of the allocator it triggers.
\<close>

section \<open>Reading under a guard\<close>

lemma run_onError_query:
  assumes "\<And>e s'. txDB s' = txDB s \<Longrightarrow> run (h e) Q R s'"
    and "\<And>n s'. txDB s' = txDB s \<Longrightarrow> run (k (q n (txDB s))) Q R s'"
  shows "run (onError (sql_query D q) h k) Q R s"
  unfolding onError_def run_bindM run_attempt sql_query_def
  by (rule run_sql_stmt) (use assms in \<open>auto simp: tick_same\<close>)

lemma run_onError_reads:
  assumes "reads_only m"
    and "\<And>e s'. txDB s' = txDB s \<Longrightarrow> run (h e) Q R s'"
    and "\<And>x s'. txDB s' = txDB s \<Longrightarrow> run (k x) Q R s'"
  shows "run (onError m h k) Q R s"
  unfolding onError_def run_bindM
  by (rule run_attempt_reads_only [OF assms(1)]) (use assms(2,3) in \<open>auto split: sum.split\<close>)

text \<open>The answer is an error, or the guard holds.\<close>

abbreviation guarded :: "bool \<Rightarrow> handler \<Rightarrow> tx \<Rightarrow> bool" where
  "guarded G m s \<equiv> run m (\<lambda>ws _. 400 \<le> status ws \<or> G) (\<lambda>_ _. True) s"

lemma guarded_rollback_with [simp]: "guarded G (rollback_with db0 ws) s = (400 \<le> status ws \<or> G)"
  by (simp add: rollback_with_def run_simps)

lemma guarded_true: "G \<Longrightarrow> guarded G m s"
  by (rule run_mono [OF run_trivial]) simp_all

lemma guarded_answers [simp]:
  "400 \<le> status (internal_error show_err e)" "400 \<le> status (bad_request msg)" "400 \<le> status (cannot_parse msg)"
  "400 \<le> status (WriteHeader StatusForbidden # ws)" "400 \<le> status (WriteHeader StatusNotFound # ws)"
  "400 \<le> status (WriteHeader StatusBadRequest # ws)"
  by (simp_all add: status_def internal_error_def bad_request_def cannot_parse_def)

lemma guarded_find_mongods:
  assumes "dbms_ok D"
    and "\<And>sl n s'. lookup_slave (txDB s) i = Some sl \<Longrightarrow> guarded G (k (sl, scan D n (mongods_on_slave (txDB s) (Slave_ID sl)))) s'"
  shows "guarded G (onError (bindM (find_or_err D (\<lambda>n db. lookup_slave db i))
      (\<lambda>currentSlave. bindM (mongods_of D (Slave_ID currentSlave)) (\<lambda>ms. returnM (currentSlave, ms))))
      (\<lambda>e. rollback_with db0 (internal_error show_err e)) k) s"
  unfolding onError_def run_bindM run_attempt find_or_err_def sql_query_def mongods_of_def
  by (rule run_sql_stmt)
    (use assms(2) in \<open>auto simp: run_simps rollback_with_def tick_same split: option.split intro!: run_sql_stmt\<close>)

section \<open>Requests that succeed\<close>

lemma run_allocator_total:
  assumes "dbms_ok D" and "fault_free D" and "db_wf (txDB s)" and "ports_distinct (txDB s)"
    and "\<And>s'. layout_post D hasBus s s' \<Longrightarrow> Q ([], None, None) s'"
  shows "run (attemptClusterAllocator D show_err hasBus db0 None) Q (\<lambda>_ _. False) s"
proof -
  have "run (CompileMongodLayout D hasBus) (\<lambda>_. layout_post D hasBus s) (tolerated True) s"
    by (rule run_CompileMongodLayout) (use assms in simp_all)
  then have "run (CompileMongodLayout D hasBus) (\<lambda>x. layout_post D hasBus s) (\<lambda>_ _. False) s"
    by (rule run_mono) (simp_all add: tolerated_def)
  then show ?thesis
    unfolding attemptClusterAllocator_def onError_def run_bindM
    by (intro run_attempt_total) (auto elim!: run_mono simp: run_simps assms(5))
qed

lemma run_onError_total:
  assumes "run m (\<lambda>x. run (k x) Q (\<lambda>_ _. False)) (\<lambda>_ _. False) s"
  shows "run (onError m h k) Q (\<lambda>_ _. False) s"
  unfolding onError_def run_bindM by (rule run_attempt_total) (use assms in simp)

lemma run_attemptCommit_total:
  assumes "fault_free D" and "foreign_keys_ok (txDB s)" and "Q [] (tick s)"
  shows "run (attemptCommit D show_err db0 None) Q (\<lambda>_ _. False) s"
  unfolding attemptCommit_def option.case
  by (rule run_onError_total, rule run_commit_total [OF assms(1,2)]) (simp add: run_simps assms(3))

lemma run_allocate_and_commit:
  assumes "dbms_ok D" and "fault_free D" and "db_wf (txDB s)" and "ports_distinct (txDB s)" and "foreign_keys_ok (txDB s)"
    and "\<And>s1 s'. layout_post D hasBus s s1 \<Longrightarrow> txDB s' = txDB s1 \<Longrightarrow> Q [] s'"
  shows "run (allocate_and_commit D show_err hasBus db0 None) Q (\<lambda>_ _. False) s"
  unfolding allocate_and_commit_def run_bindM
proof (rule run_allocator_total [OF assms(1-4)], unfold prod.case if_not_P [OF not_not [THEN iffD2, OF refl]] run_bindM,
    rule run_attemptCommit_total [OF assms(2)])
  fix s1 assume post: "layout_post D hasBus s s1"
  note steps = layout_post_steps [OF post]
  show "foreign_keys_ok (txDB s1)"
    by (rule alloc_steps_foreign_keys [OF steps assms(3,5)])
  show "run (returnM ([] @ [])) Q (\<lambda>_ _. False) (tick s1)"
    using assms(6) [OF post, of "tick s1"] by (simp add: run_simps)
qed

lemma run_stmt_total:
  assumes "fault_free D" and "f (txCalls s) (txDB s) = Inr (x, db)" and "Q x ((tick s)\<lparr>txDB := db\<rparr>)"
  shows "run (sql_stmt D f) Q (\<lambda>_ _. False) s"
  by (rule run_sql_stmt) (use assms in \<open>auto simp: fault_free_def\<close>)

subsection \<open>Deleting a replica set\<close>

lemma delete_replica_set_simps [simp]:
  "slaves (delete_replica_set i db) = slaves db" "mongod_states (delete_replica_set i db) = mongod_states db"
  "risk_groups (delete_replica_set i db) = risk_groups db" "msp_errors (delete_replica_set i db) = msp_errors db"
  by (simp_all add: delete_replica_set_def Let_def)

lemma delete_replica_set_rows:
  "replica_sets (delete_replica_set i db) = filter (\<lambda>r. i \<noteq> 0 \<and> ReplicaSet_ID r \<noteq> i) (replica_sets db)"
  by (auto simp: delete_replica_set_def Let_def selected_replica_sets_def intro!: filter_cong)

definition leave_sets :: "ID set \<Rightarrow> Mongod \<Rightarrow> Mongod" where
  "leave_sets gone m = (case Mongod_ReplicaSetID m of None \<Rightarrow> m
     | Some j \<Rightarrow> if j \<in> gone then m\<lparr>Mongod_ReplicaSetID := None\<rparr> else m)"

lemma leave_sets_simps [simp]:
  "Mongod_ID (leave_sets gone m) = Mongod_ID m" "Mongod_ParentSlaveID (leave_sets gone m) = Mongod_ParentSlaveID m"
  "Mongod_DesiredStateID (leave_sets gone m) = Mongod_DesiredStateID m"
  "Mongod_ObservedStateID (leave_sets gone m) = Mongod_ObservedStateID m" "Mongod_Port (leave_sets gone m) = Mongod_Port m"
  by (simp_all add: leave_sets_def split: option.split)

lemma leave_sets_set:
  "Mongod_ReplicaSetID (leave_sets gone m) = (case Mongod_ReplicaSetID m of None \<Rightarrow> None
     | Some j \<Rightarrow> if j \<in> gone then None else Some j)"
  by (simp add: leave_sets_def split: option.split)

lemma delete_replica_set_mongods:
  "mongods (delete_replica_set i db) =
    map (leave_sets (ReplicaSet_ID ` set (selected_replica_sets i db))) (mongods db)"
  by (auto simp: delete_replica_set_def Let_def leave_sets_def split: option.split)

lemma delete_replica_set_problems:
  "problems (delete_replica_set i db) = filter (\<lambda>p. case Problem_ReplicaSetID p of None \<Rightarrow> True
     | Some j \<Rightarrow> j \<notin> ReplicaSet_ID ` set (selected_replica_sets i db)) (problems db)"
  by (auto simp: delete_replica_set_def Let_def intro!: filter_cong split: option.split)

lemma leave_sets_errors:
  "Mongod_ObservationErrorID (leave_sets gone m) = Mongod_ObservationErrorID m"
  "Mongod_LastEstablishStateErrorID (leave_sets gone m) = Mongod_LastEstablishStateErrorID m"
  by (simp_all add: leave_sets_def split: option.split)

lemma delete_replica_set_ports: "ports_distinct db \<Longrightarrow> ports_distinct (delete_replica_set i db)"
  by (simp add: ports_distinct_def delete_replica_set_mongods comp_def)

lemma delete_replica_set_wf:
  assumes "db_wf db"
  shows "db_wf (delete_replica_set i db)"
proof -
  let ?db = "delete_replica_set i db"
  have keys: "keys_ok ?db"
    using assms by (auto simp: db_wf_def keys_ok_def delete_replica_set_rows delete_replica_set_mongods comp_def
        intro: distinct_map_filter_key)
  have "mongod_ok ?db (leave_sets (ReplicaSet_ID ` set (selected_replica_sets i db)) m)" if "m \<in> set (mongods db)" for m
  proof -
    have "lookup_replica_set ?db j \<noteq> None" if "lookup_replica_set db j = Some r"
        "j \<notin> ReplicaSet_ID ` set (selected_replica_sets i db)" for j r
    proof -
      have r: "r \<in> set (replica_sets db)" "ReplicaSet_ID r = j"
        using find_row_SomeD [OF that(1)] by simp_all
      with that(2) have "r \<in> set (replica_sets ?db)"
        by (auto simp: delete_replica_set_rows selected_replica_sets_def)
      with r(2) show ?thesis
        by (auto simp: find_row_None_iff)
    qed
    with db_wf_mongod_ok [OF assms that] show ?thesis
      by (auto simp: mongod_ok_def owns_state_def leave_sets_set split: option.splits)
  qed
  with keys show ?thesis
    by (auto simp: db_wf_def delete_replica_set_mongods)
qed

lemma delete_replica_set_refs:
  assumes "db_wf db" and "foreign_keys_ok db"
  shows "foreign_keys_ok (delete_replica_set i db)"
proof -
  have "refs_ok db"
    using assms by (simp add: foreign_keys_ok_iff)
  moreover have "problem_keys_ok (delete_replica_set i db) p"
    if "problem_keys_ok db p" and "p \<in> set (problems (delete_replica_set i db))" for p
    using that by (auto simp: problem_keys_ok_def delete_replica_set_mongods delete_replica_set_problems image_iff
        delete_replica_set_rows selected_replica_sets_def comp_def refers_def split: option.splits)
  moreover have "set (problems (delete_replica_set i db)) \<subseteq> set (problems db)"
    by (auto simp: delete_replica_set_problems)
  ultimately have "refs_ok (delete_replica_set i db)"
    by (auto simp: refs_ok_def slave_keys_ok_def delete_replica_set_mongods leave_sets_errors image_image)
  then show ?thesis
    by (simp add: foreign_keys_ok_iff delete_replica_set_wf [OF assms(1)])
qed

text \<open>After the clean-up of the allocator every Mongod without a replica set is to be destroyed by
  force, and the rest of a run keeps it so.\<close>

definition orphans_doomed :: "DB \<Rightarrow> bool" where
  "orphans_doomed db \<longleftrightarrow> (\<forall>m \<in> set (mongods db). Mongod_ReplicaSetID m = None \<longrightarrow>
     desired_exec db m = Some MongodExecutionStateForceDestroyed)"

lemma doomed_after_marking:
  assumes "db_wf db" shows "orphans_doomed (mark_orphaned db)"
proof -
  let ?S = "{m \<in> set (mongods db). Mongod_ReplicaSetID m = None}"
  show ?thesis
    using set_exec_exec(1) [OF assms, of _ ?S MongodExecutionStateForceDestroyed]
    by (simp add: orphans_doomed_def mark_orphaned_eq)
qed

lemma doomed_remove:
  assumes "db_wf db" and "orphans_doomed db" shows "orphans_doomed (remove_destroyed db)"
  using assms(2) remove_exec(1) [OF assms(1)] by (simp add: orphans_doomed_def remove_destroyed_wf [OF assms(1)])

lemma doomed_mark_step: "mark_step db db' \<Longrightarrow> db_wf db \<Longrightarrow> orphans_doomed db \<Longrightarrow> orphans_doomed db'"
  by (induction rule: mark_step.induct) (auto simp: orphans_doomed_def mark_exec)

lemma doomed_spawn_step: "spawn_step db db' \<Longrightarrow> db_wf db \<Longrightarrow> orphans_doomed db \<Longrightarrow> orphans_doomed db'"
  by (induction rule: spawn_step.induct) (auto simp: orphans_doomed_def spawn_keeps_exec new_mongod_def)

lemma doomed_mark_steps:
  "mark_step\<^sup>*\<^sup>* db db' \<Longrightarrow> db_wf db \<Longrightarrow> orphans_doomed db \<Longrightarrow> db_wf db' \<and> orphans_doomed db'"
  by (induction rule: rtranclp_induct) (auto intro: doomed_mark_step mark_step_db_wf)

lemma doomed_spawn_steps:
  "spawn_step\<^sup>*\<^sup>* db db' \<Longrightarrow> db_wf db \<Longrightarrow> orphans_doomed db \<Longrightarrow> db_wf db' \<and> orphans_doomed db'"
  by (induction rule: rtranclp_induct) (auto intro: doomed_spawn_step spawn_step_db_wf)

lemma layout_post_doomed:
  assumes "layout_post D hasBus s s'" and "db_wf (txDB s)"
  shows "orphans_doomed (txDB s')"
proof -
  have wf: "db_wf (mark_orphaned (txDB s))"
    using assms(2) by (simp add: mark_orphaned_eq set_exec_db_wf)
  have "db_wf (remove_destroyed (mark_orphaned (txDB s)))"
    and "orphans_doomed (remove_destroyed (mark_orphaned (txDB s)))"
    using wf doomed_after_marking [OF assms(2)] by (simp_all add: remove_destroyed_db_wf doomed_remove)
  then show ?thesis
    using assms(1) doomed_mark_steps doomed_spawn_steps unfolding layout_post_def by blast
qed

definition consistent :: "DB \<Rightarrow> bool" where
  "consistent db \<longleftrightarrow> db_wf db \<and> ports_distinct db \<and> foreign_keys_ok db"

lemma run_ReplicaSetDelete:
  assumes "dbms_ok D" and "fault_free D" and "consistent (txDB s)" and "ParseInt idStr = Some i"
    and "selected_replica_sets i (txDB s) \<noteq> []"
  shows "\<exists>s'. ReplicaSetDelete D show_err hasBus idStr s = (Inr [], s') \<and> db_wf (txDB s') \<and>
    replica_sets (txDB s') = filter (\<lambda>r. i \<noteq> 0 \<and> ReplicaSet_ID r \<noteq> i) (replica_sets (txDB s)) \<and>
    orphans_doomed (txDB s')"
proof -
  let ?db = "delete_replica_set i (txDB s)" and ?s = "(tick s)\<lparr>txDB := delete_replica_set i (txDB s)\<rparr>"
  have ok: "db_wf ?db" "ports_distinct ?db" "foreign_keys_ok ?db"
    using assms(3) by (simp_all add: consistent_def delete_replica_set_wf delete_replica_set_ports delete_replica_set_refs)
  have "run (ReplicaSetDelete D show_err hasBus idStr) (\<lambda>ws s'. ws = [] \<and> db_wf (txDB s') \<and>
      replica_sets (txDB s') = replica_sets ?db \<and> orphans_doomed (txDB s')) (\<lambda>_ _. False) s"
    unfolding ReplicaSetDelete_def assms(4) option.case in_tx_def run_bindM run_getM Delete_replica_set_def
  proof (rule run_onError_total, rule run_stmt_total [OF assms(2) refl], unfold run_if,
      simp add: assms(5), rule run_allocate_and_commit [OF assms(1,2)])
    fix s1 s' assume post: "layout_post D hasBus ?s s1" and same: "txDB s' = txDB s1"
    have steps: "alloc_step\<^sup>*\<^sup>* ?db (txDB s1)"
      using layout_post_steps [OF post] by simp
    show "[] = [] \<and> db_wf (txDB s') \<and> replica_sets (txDB s') = replica_sets ?db \<and> orphans_doomed (txDB s')"
      using layout_post_doomed [OF post] ok same by (simp add: alloc_steps_tables [OF steps] alloc_steps_db_wf [OF steps])
  qed (use ok in simp_all)
  from run_total [OF this] show ?thesis
    by (auto simp: delete_replica_set_rows)
qed

text \<open>C27: deleting an existing replica set, in a consistent database that does not fail,
  succeeds and removes exactly this replica set; afterwards every Mongod belongs to one of the
  remaining replica sets or is to be destroyed by force.\<close>

theorem ReplicaSetDelete_correct:
  assumes "dbms_ok D" and "fault_free D" and "consistent (txDB s)" and "ParseInt idStr = Some i"
    and "lookup_replica_set (txDB s) i \<noteq> None"
  shows "\<exists>s'. ReplicaSetDelete D show_err hasBus idStr s = (Inr [], s') \<and>
    replica_sets (txDB s') = filter (\<lambda>r. ReplicaSet_ID r \<noteq> i) (replica_sets (txDB s)) \<and>
    (\<forall>m \<in> set (mongods (txDB s')). case Mongod_ReplicaSetID m of
       None \<Rightarrow> desired_exec (txDB s') m = Some MongodExecutionStateForceDestroyed
     | Some j \<Rightarrow> lookup_replica_set (txDB s') j \<noteq> None)"
proof -
  obtain r where r: "r \<in> set (replica_sets (txDB s))" "ReplicaSet_ID r = i"
    using assms(5) by (auto dest: find_row_SomeD)
  then have "i \<noteq> 0" and "selected_replica_sets i (txDB s) \<noteq> []"
    using assms(3) db_wf_keys(5) by (fastforce simp: consistent_def selected_replica_sets_def filter_empty_conv)+
  from run_ReplicaSetDelete [OF assms(1-4) this(2), of show_err hasBus] this(1) show ?thesis
    by (fastforce simp: orphans_doomed_def db_wf_def mongod_ok_def split: option.splits)
qed

text \<open>The handler does not check the id, and gorm leaves out the condition on a
  zero primary key: a request to delete the replica set 0, which cannot exist, succeeds and
  deletes every replica set; all Mongods of the cluster are then to be destroyed by force.\<close>

theorem ReplicaSetDelete_zero_deletes_all:
  assumes "dbms_ok D" and "fault_free D" and "consistent (txDB s)" and "replica_sets (txDB s) \<noteq> []"
  shows "\<exists>s'. ReplicaSetDelete D show_err hasBus ''0'' s = (Inr [], s') \<and> replica_sets (txDB s') = [] \<and>
    (\<forall>m \<in> set (mongods (txDB s')). desired_exec (txDB s') m = Some MongodExecutionStateForceDestroyed)"
proof -
  have parse: "ParseInt ''0'' = Some 0"
    by (simp add: ParseInt_def char_digit_def)
  have "selected_replica_sets 0 (txDB s) \<noteq> []"
    using assms(4) by (simp add: selected_replica_sets_def)
  from run_ReplicaSetDelete [OF assms(1-3) parse this, of show_err hasBus] show ?thesis
    by (fastforce simp: orphans_doomed_def db_wf_def mongod_ok_def split: option.splits)
qed

lemma running_db_consistent: "consistent running_db"
  by (simp add: consistent_def running_db_wf foreign_keys_ok_iff)
    (simp add: running_db_def example_defs ports_distinct_def refs_ok_def slave_keys_ok_def)

lemma parse_id_examples: "ParseInt ''1'' = Some 1" "ParseInt ''2'' = Some 2"
  by (simp_all add: ParseInt_def char_digit_def)

theorem ReplicaSetDelete_correct_witness:
  "\<exists>s'. ReplicaSetDelete plain_dbms (\<lambda>_. []) True ''1'' (begin_tx running_db) = (Inr [], s') \<and>
    replica_sets (txDB s') = []"
proof -
  have db: "consistent (txDB (begin_tx running_db))" "lookup_replica_set (txDB (begin_tx running_db)) 1 \<noteq> None"
    "\<forall>r \<in> set (replica_sets running_db). ReplicaSet_ID r = 1"
    by (simp_all add: running_db_consistent) (simp_all add: running_db_def example_defs)
  from ReplicaSetDelete_correct [OF plain_dbms_ok plain_dbms_fault_free db(1) parse_id_examples(1) db(2)] db(3)
  show ?thesis by (fastforce simp: filter_empty_conv)
qed

theorem ReplicaSetDelete_zero_deletes_all_witness:
  "\<exists>s'. ReplicaSetDelete plain_dbms (\<lambda>_. []) True ''0'' (begin_tx running_db) = (Inr [], s') \<and>
    replica_sets (txDB s') = [] \<and> replica_sets running_db = [example_set]"
proof -
  have db: "consistent (txDB (begin_tx running_db))" "replica_sets (txDB (begin_tx running_db)) \<noteq> []"
    "replica_sets running_db = [example_set]"
    by (simp_all add: running_db_consistent) (simp_all add: running_db_def example_defs)
  from ReplicaSetDelete_zero_deletes_all [OF plain_dbms_ok plain_dbms_fault_free db(1,2)] db(3)
  show ?thesis by blast
qed

end
