(* ===== verification/ApiSlaves.thy ===== *)
theory ApiSlaves
  imports ApiChanges
begin

text \<open>
  Slaves through the API: deleting one, changing one that hosts Mongods, and creating one.
\<close>

section \<open>Deleting a slave\<close>

definition hosted_ids :: "ID \<Rightarrow> DB \<Rightarrow> ID list" where
  "hosted_ids i db = map Mongod_ID (mongods_on_slave db i)"

lemma delete_slave_wf_eq:
  assumes "db_wf db" and "i \<noteq> 0" and "lookup_slave db i = Some sl"
  shows "slaves (delete_slave i db) = filter (\<lambda>s. Slave_ID s \<noteq> i) (slaves db)"
    and "mongods (delete_slave i db) = filter (\<lambda>m. Mongod_ID m \<notin> set (hosted_ids i db)) (mongods db)"
    and "mongod_states (delete_slave i db) =
      filter (\<lambda>st. State_ParentMongodID st \<notin> set (hosted_ids i db)) (mongod_states db)"
    and "replica_sets (delete_slave i db) = replica_sets db"
    and "risk_groups (delete_slave i db) = risk_groups db" and "msp_errors (delete_slave i db) = msp_errors db"
    and "problems (delete_slave i db) = filter (\<lambda>p. Problem_SlaveID p \<noteq> Some i)
      (filter (\<lambda>p. case Problem_MongodID p of None \<Rightarrow> True | Some j \<Rightarrow> j \<notin> set (hosted_ids i db)) (problems db))"
proof -
  let ?gone = "map Slave_ID (filter (\<lambda>s. i = 0 \<or> Slave_ID s = i) (slaves db))"
  have "set ?gone = {i}"
    using find_row_SomeD [OF assms(3)] assms(2) by auto
  then have gone: "j \<in> set ?gone \<longleftrightarrow> j = i" for j
    by simp
  have eq: "map Mongod_ID (filter (\<lambda>m. Mongod_ParentSlaveID m = i) (mongods db)) = hosted_ids i db"
    by (simp add: hosted_ids_def mongods_on_slave_def)
  have ids: "set (hosted_ids i db) \<subseteq> Mongod_ID ` set (mongods db)"
    by (auto simp: hosted_ids_def mongods_on_slave_def)
  show "slaves (delete_slave i db) = filter (\<lambda>s. Slave_ID s \<noteq> i) (slaves db)"
    and "mongods (delete_slave i db) = filter (\<lambda>m. Mongod_ID m \<notin> set (hosted_ids i db)) (mongods db)"
    and "mongod_states (delete_slave i db) =
      filter (\<lambda>st. State_ParentMongodID st \<notin> set (hosted_ids i db)) (mongod_states db)"
    and "replica_sets (delete_slave i db) = replica_sets db"
    and "risk_groups (delete_slave i db) = risk_groups db" and "msp_errors (delete_slave i db) = msp_errors db"
    and "problems (delete_slave i db) = filter (\<lambda>p. Problem_SlaveID p \<noteq> Some i)
      (filter (\<lambda>p. case Problem_MongodID p of None \<Rightarrow> True | Some j \<Rightarrow> j \<notin> set (hosted_ids i db)) (problems db))"
    by (simp_all only: delete_slave_def Let_def eq gone delete_mongods_wf [OF assms(1) ids])
      (auto intro!: filter_cong split: option.split)
qed

lemma hosted_ids_mem:
  assumes "db_wf db" and "m \<in> set (mongods db)"
  shows "Mongod_ID m \<in> set (hosted_ids i db) \<longleftrightarrow> Mongod_ParentSlaveID m = i"
  using db_wf_keys(2) [OF assms(1)] assms(2)
  by (auto simp: hosted_ids_def mongods_on_slave_def distinct_map inj_on_def)

lemma delete_slave_consistent:
  assumes "consistent db" and "i \<noteq> 0" and "lookup_slave db i = Some sl"
  shows "consistent (delete_slave i db)"
proof -
  have wf: "db_wf db" and ports: "ports_distinct db" and "foreign_keys_ok db"
    using assms(1) by (simp_all add: consistent_def)
  then have refs: "refs_ok db"
    by (simp add: foreign_keys_ok_iff)
  note eqs = delete_slave_wf_eq [OF wf assms(2,3)]
  let ?db = "delete_slave i db"
  have "mongod_ok ?db m" if m: "m \<in> set (mongods db)" "Mongod_ID m \<notin> set (hosted_ids i db)" for m
  proof -
    have owns: "owns_state ?db m j" if "owns_state db m j" for j
      using delete_keeps_owned [OF wf m(2) that] that by (simp add: owns_state_def eqs)
    have "Mongod_ParentSlaveID m \<noteq> i"
      using m hosted_ids_mem [OF wf m(1)] by simp
    then have "lookup_slave ?db (Mongod_ParentSlaveID m) = lookup_slave db (Mongod_ParentSlaveID m)"
      by (auto simp: eqs find_row_filter [OF db_wf_keys(1) [OF wf]] split: option.split dest: find_row_key)
    then show ?thesis
      using db_wf_mongod_ok [OF wf m(1)] owns by (auto simp: mongod_ok_def eqs split: option.splits)
  qed
  moreover have "keys_ok ?db"
    using wf by (auto simp: db_wf_def keys_ok_def eqs intro: distinct_map_filter_key)
  ultimately have "db_wf ?db"
    by (simp add: db_wf_def eqs)
  moreover have "ports_distinct ?db"
    by (rule ports_distinct_filter [OF ports eqs(2)])
  moreover have "refs_ok ?db"
    using refs by (fastforce simp: refs_ok_def slave_keys_ok_def problem_keys_ok_def eqs refers_def split: option.splits)
  ultimately show ?thesis by (auto simp: consistent_def foreign_keys_ok_iff)
qed

lemma run_SlaveDelete:
  assumes "dbms_ok D" and "fault_free D" and "consistent (txDB s)" and "ParseInt idStr = Some i" and "i \<noteq> 0"
    and "lookup_slave (txDB s) i = Some sl"
    and "mongods_on_slave (txDB s) i = [] \<or> Slave_ConfiguredState sl = SlaveStateDisabled"
  shows "\<exists>s'. SlaveDelete D show_err hasBus idStr s = (Inr [], s') \<and> db_wf (txDB s') \<and>
    slaves (txDB s') = filter (\<lambda>q. Slave_ID q \<noteq> i) (slaves (txDB s))"
proof -
  let ?db = "delete_slave i (txDB s)"
  have wf: "db_wf (txDB s)" and ok: "db_wf ?db" "ports_distinct ?db" "foreign_keys_ok ?db"
    using assms(3) delete_slave_consistent [OF assms(3,5,6)] by (simp_all add: consistent_def)
  have key: "Slave_ID sl = i"
    by (rule find_row_key [OF assms(6)])
  have rows: "length (filter (\<lambda>q. i = 0 \<or> Slave_ID q = i) (slaves (txDB s))) \<noteq> 0"
    using find_row_SomeD [OF assms(6)] by (auto simp: filter_empty_conv)
  have empty: "scan D n ([] :: Mongod list) = []" for n
    using mset_scan [OF assms(1), of n "[] :: Mongod list"] by simp
  have delete: "run (onError (Delete_slave D i) (\<lambda>e. rollback_with (txDB s) (internal_error show_err e)) (\<lambda>rowsAffected.
       if rowsAffected = 0 then rollback_with (txDB s) [WriteHeader StatusNotFound]
       else allocate_and_commit D show_err hasBus (txDB s) None))
      (\<lambda>ws s'. ws = [] \<and> db_wf (txDB s') \<and> slaves (txDB s') = slaves ?db) (\<lambda>_ _. False) s1"
    if "txDB s1 = txDB s" for s1 :: tx
    unfolding Delete_slave_def
  proof (rule run_onError_total, rule run_stmt_total [OF assms(2) refl], unfold that if_not_P [OF rows],
      rule run_allocate_and_commit [OF assms(1,2)])
    fix s2 s' assume post: "layout_post D hasBus ((tick s1)\<lparr>txDB := ?db\<rparr>) s2" and same: "txDB s' = txDB s2"
    have steps: "alloc_step\<^sup>*\<^sup>* ?db (txDB s2)"
      using layout_post_steps [OF post] by simp
    show "[] = [] \<and> db_wf (txDB s') \<and> slaves (txDB s') = slaves ?db"
      using ok same by (simp add: alloc_steps_tables [OF steps] alloc_steps_db_wf [OF steps])
  qed (use ok in simp_all)
  have "run (SlaveDelete D show_err hasBus idStr)
      (\<lambda>ws s'. ws = [] \<and> db_wf (txDB s') \<and> slaves (txDB s') = slaves ?db) (\<lambda>_ _. False) s"
    unfolding SlaveDelete_def assms(4) option.case in_tx_def run_bindM run_getM mongods_of_def
    by (rule run_onError_total, unfold run_bindM, rule run_find_or_err [OF assms(2)], rule assms(6),
        rule run_query_total [OF assms(2)])
      (use assms(7) delete in \<open>auto simp: run_simps key empty\<close>)
  from run_total [OF this] show ?thesis
    by (auto simp: delete_slave_wf_eq [OF wf assms(5,6)])
qed

lemma run_SlaveDelete_refused:
  assumes "dbms_ok D" and "fault_free D" and "ParseInt idStr = Some i" and "lookup_slave (txDB s) i = Some sl"
    and "mongods_on_slave (txDB s) i \<noteq> []" and "Slave_ConfiguredState sl \<noteq> SlaveStateDisabled"
  shows "\<exists>ws s'. SlaveDelete D show_err hasBus idStr s = (Inr ws, s') \<and> status ws = StatusForbidden \<and> txDB s' = txDB s"
proof -
  have key: "Slave_ID sl = i"
    by (rule find_row_key [OF assms(4)])
  have some: "scan D n (mongods_on_slave (txDB s) i) \<noteq> []" for n
    using mset_scan [OF assms(1), of n "mongods_on_slave (txDB s) i"] assms(5) by auto
  have "run (SlaveDelete D show_err hasBus idStr) (\<lambda>ws s'. status ws = StatusForbidden \<and> txDB s' = txDB s) (\<lambda>_ _. False) s"
    unfolding SlaveDelete_def assms(3) option.case in_tx_def run_bindM run_getM mongods_of_def
    by (rule run_onError_total, unfold run_bindM, rule run_find_or_err [OF assms(2)], rule assms(4), rule run_query_total [OF assms(2)])
      (use assms(6) some in \<open>auto simp: run_simps key rollback_with_def rollback_def status_def\<close>)
  from run_total [OF this] show ?thesis by blast
qed

text \<open>C26: in a consistent database that does not fail, deleting a slave that has no Mongods or
  is disabled succeeds: its row goes, every other slave stays, and no Mongod of it is left.  Any other slave cannot be deleted: the
  answer is 403 and the tables stay.  So an active slave can be deleted if it has no Mongods, and a disabled one
  while it has some, which then are told nothing: the comments in the code, that only disabled slaves, or only slaves without
  Mongods, can be deleted, are both narrower than the code.\<close>

theorem SlaveDelete_correct:
  assumes "dbms_ok D" and "fault_free D" and "consistent (txDB s)" and "ParseInt idStr = Some i" and "i \<noteq> 0"
    and "lookup_slave (txDB s) i = Some sl"
  shows "\<exists>ws s'. SlaveDelete D show_err hasBus idStr s = (Inr ws, s') \<and>
    (if mongods_on_slave (txDB s) i = [] \<or> Slave_ConfiguredState sl = SlaveStateDisabled
     then ws = [] \<and> slaves (txDB s') = filter (\<lambda>q. Slave_ID q \<noteq> i) (slaves (txDB s)) \<and> mongods_on_slave (txDB s') i = []
     else status ws = StatusForbidden \<and> txDB s' = txDB s)"
proof (cases "mongods_on_slave (txDB s) i = [] \<or> Slave_ConfiguredState sl = SlaveStateDisabled")
  case True
  then obtain s' where s': "SlaveDelete D show_err hasBus idStr s = (Inr [], s')" "db_wf (txDB s')"
      "slaves (txDB s') = filter (\<lambda>q. Slave_ID q \<noteq> i) (slaves (txDB s))"
    using run_SlaveDelete [OF assms] by blast
  have "Mongod_ParentSlaveID m \<noteq> i" if m: "m \<in> set (mongods (txDB s'))" for m
  proof -
    obtain q where "q \<in> set (slaves (txDB s'))" "Slave_ID q = Mongod_ParentSlaveID m"
      using mongod_ok_slave [OF db_wf_mongod_ok [OF s'(2) m]] by metis
    then show ?thesis using s'(3) by auto
  qed
  with s' True show ?thesis
    by (auto simp: mongods_on_slave_def filter_empty_conv)
next
  case False
  then show ?thesis
    using run_SlaveDelete_refused [OF assms(1,2,4,6)] by simp
qed

lemma example_db_consistent: "consistent example_db"
  by (simp add: consistent_def example_db_wf example_db_inv example_db_foreign_keys)

lemma example_spare_slave:
  "lookup_slave example_db 2 = Some (example_slave 2 False)" "mongods_on_slave example_db 2 = []"
  by (simp_all add: mongods_on_slave_def example_defs)

text \<open>An active slave without Mongods is deleted, one that has a Mongod is not.\<close>

theorem SlaveDelete_correct_witness:
  "(\<exists>s'. SlaveDelete plain_dbms (\<lambda>_. []) True ''2'' (begin_tx example_db) = (Inr [], s') \<and>
      slaves (txDB s') = [example_slave 1 True]) \<and> Slave_ConfiguredState (example_slave 2 False) = SlaveStateActive \<and>
   (\<exists>ws s'. SlaveDelete plain_dbms (\<lambda>_. []) True ''1'' (begin_tx example_db) = (Inr ws, s') \<and> status ws = 403)"
proof (intro conjI)
  have ok: "consistent (txDB (begin_tx example_db))" "lookup_slave (txDB (begin_tx example_db)) 2 = Some (example_slave 2 False)"
      "lookup_slave (txDB (begin_tx example_db)) 1 = Some (example_slave 1 True)"
    by (simp_all add: example_db_consistent example_spare_slave) (simp add: example_defs)
  have rest: "filter (\<lambda>q. Slave_ID q \<noteq> 2) (slaves example_db) = [example_slave 1 True]"
    by (simp add: example_defs)
  note deleted = SlaveDelete_correct [OF plain_dbms_ok plain_dbms_fault_free ok(1)]
  show "\<exists>s'. SlaveDelete plain_dbms (\<lambda>_. []) True ''2'' (begin_tx example_db) = (Inr [], s') \<and>
      slaves (txDB s') = [example_slave 1 True]"
    using deleted [OF parse_id_examples(2) _ ok(2), of "\<lambda>_. []" True] rest example_spare_slave by auto
  show "Slave_ConfiguredState (example_slave 2 False) = SlaveStateActive"
    by (simp add: example_slave_def)
  have "mongods_on_slave example_db 1 \<noteq> []" "Slave_ConfiguredState (example_slave 1 True) \<noteq> SlaveStateDisabled"
    by (simp_all add: mongods_on_slave_def example_defs)
  then show "\<exists>ws s'. SlaveDelete plain_dbms (\<lambda>_. []) True ''1'' (begin_tx example_db) = (Inr ws, s') \<and> status ws = 403"
    using deleted [OF parse_id_examples(1) _ ok(3), of "\<lambda>_. []" True] by auto
qed

text \<open>Whatever the database does, a request to delete a slave is answered without an error
  only if the slave exists and either has no Mongods or is disabled.\<close>

theorem SlaveDelete_guard:
  assumes "dbms_ok D" and "ParseInt idStr = Some i"
    and "SlaveDelete D show_err hasBus idStr s = (Inr ws, s')" and "status ws < 400"
  shows "\<exists>sl. lookup_slave (txDB s) i = Some sl \<and>
    (mongods_on_slave (txDB s) i = [] \<or> Slave_ConfiguredState sl = SlaveStateDisabled)"
proof -
  let ?G = "\<exists>sl. lookup_slave (txDB s) i = Some sl \<and>
    (mongods_on_slave (txDB s) i = [] \<or> Slave_ConfiguredState sl = SlaveStateDisabled)"
  have "scan D n xs = [] \<longleftrightarrow> xs = []" for n and xs :: "Mongod list"
    using mset_scan [OF assms(1)] by (metis mset_zero_iff)
  then have "guarded ?G (SlaveDelete D show_err hasBus idStr) s"
    unfolding SlaveDelete_def assms(2) option.case in_tx_def run_bindM run_getM
    by (intro guarded_find_mongods [OF assms(1)])
      (auto simp: run_if dest: find_row_key intro!: guarded_true)
  from run_InrD [OF this assms(3)] assms(4) show ?thesis by simp
qed

theorem SlaveDelete_guard_witness:
  "\<exists>s'. SlaveDelete plain_dbms (\<lambda>_. []) True ''2'' (begin_tx example_db) = (Inr [], s') \<and>
    (\<exists>sl. lookup_slave example_db 2 = Some sl \<and>
      (mongods_on_slave example_db 2 = [] \<or> Slave_ConfiguredState sl = SlaveStateDisabled))"
proof -
  have db: "consistent (txDB (begin_tx example_db))"
    "lookup_slave (txDB (begin_tx example_db)) 2 = Some (example_slave 2 False)"
    "mongods_on_slave (txDB (begin_tx example_db)) 2 = []"
    by (simp_all add: example_db_consistent example_spare_slave)
  obtain s' where "SlaveDelete plain_dbms (\<lambda>_. []) True ''2'' (begin_tx example_db) = (Inr [], s')"
    using run_SlaveDelete [OF plain_dbms_ok plain_dbms_fault_free db(1) parse_id_examples(2) _ db(2)] db(3) by auto
  with SlaveDelete_guard [OF plain_dbms_ok parse_id_examples(2) this] show ?thesis
    by (auto simp: status_def)
qed

section \<open>Changing a slave\<close>

lemma run_mongods_of:
  assumes "fault_free D" and "Q (scan D (txCalls s) (mongods_on_slave (txDB s) i)) (tick s)"
  shows "run (mongods_of D i) Q (\<lambda>_ _. False) s"
  unfolding mongods_of_def by (rule run_query_total) (use assms in simp_all)

definition in_port_range :: "Slave \<Rightarrow> PortNumber \<Rightarrow> bool" where
  "in_port_range s port \<longleftrightarrow> Slave_MongodPortRangeBegin s \<le> port \<and> port < Slave_MongodPortRangeEnd s"

text \<open>Without database errors a change is allowed exactly if it changes the configured
  state only, or the slave is in maintenance or disabled and either hosts no Mongod or keeps its
  port range and its kind of storage.  An allowed change leaves the port of every hosted Mongod
  in the port range of the slave.\<close>

theorem changeToSlaveAllowed_correct:
  assumes "dbms_ok D" and "fault_free D"
  shows "\<exists>r s'. changeToSlaveAllowed D cur upd s = (Inr r, s') \<and> txDB s' = txDB s \<and>
    (r = None \<longleftrightarrow> only_state_changes cur upd \<or>
      Slave_ConfiguredState cur \<in> {SlaveStateDisabled, SlaveStateMaintenance} \<and>
      (mongods_on_slave (txDB s) (Slave_ID cur) = [] \<or>
       Slave_MongodPortRangeBegin upd \<le> Slave_MongodPortRangeBegin cur \<and>
       Slave_MongodPortRangeEnd cur \<le> Slave_MongodPortRangeEnd upd \<and>
       Slave_PersistentStorage upd = Slave_PersistentStorage cur)) \<and>
    (r = None \<longrightarrow> (\<forall>m \<in> set (mongods_on_slave (txDB s) (Slave_ID cur)).
      in_port_range cur (Mongod_Port m) \<longrightarrow> in_port_range upd (Mongod_Port m)))"
proof -
  let ?ms = "mongods_on_slave (txDB s) (Slave_ID cur)"
  let ?ok = "only_state_changes cur upd \<or>
      Slave_ConfiguredState cur \<in> {SlaveStateDisabled, SlaveStateMaintenance} \<and>
      (?ms = [] \<or> Slave_MongodPortRangeBegin upd \<le> Slave_MongodPortRangeBegin cur \<and>
       Slave_MongodPortRangeEnd cur \<le> Slave_MongodPortRangeEnd upd \<and>
       Slave_PersistentStorage upd = Slave_PersistentStorage cur)"
  have "scan D n ?ms = [] \<longleftrightarrow> ?ms = []" for n
    using mset_scan [OF assms(1)] by (metis mset_zero_iff)
  then have "run (changeToSlaveAllowed D cur upd) (\<lambda>r s'. txDB s' = txDB s \<and> (r = None \<longleftrightarrow> ?ok)) (\<lambda>_ _. False) s"
    unfolding changeToSlaveAllowed_def run_if run_bindM
    by (auto simp: run_simps intro!: run_mongods_of [OF assms(2)])
  from run_total [OF this] obtain r s' where "changeToSlaveAllowed D cur upd s = (Inr r, s')"
    "txDB s' = txDB s" "r = None \<longleftrightarrow> ?ok" by auto
  moreover have "in_port_range upd port" if ?ok "?ms \<noteq> []" "in_port_range cur port" for port
    using that by (auto simp: in_port_range_def only_state_changes_def)
  ultimately show ?thesis
    by (metis empty_iff list.set(1))
qed

theorem changeToSlaveAllowed_correct_witness:
  "\<exists>s'. changeToSlaveAllowed plain_dbms (example_slave 1 True) ((example_slave 1 True)\<lparr>Slave_Port := 1\<rparr>)
    (begin_tx example_db) = (Inr (Some (''slave'' @ [CHR 0x27] @ ''s desired state must be `maintenance` or `disabled`'')), s')"
proof -
  let ?c = "changeToSlaveAllowed plain_dbms (example_slave 1 True) ((example_slave 1 True)\<lparr>Slave_Port := 1\<rparr>)"
  obtain r s' where "?c (begin_tx example_db) = (Inr r, s')" "r \<noteq> None"
    using changeToSlaveAllowed_correct [OF plain_dbms_ok plain_dbms_fault_free, of "example_slave 1 True"
        "(example_slave 1 True)\<lparr>Slave_Port := 1\<rparr>" "begin_tx example_db"]
    by (auto simp: only_state_changes_def example_slave_def)
  moreover have "?c = returnM (Some (''slave'' @ [CHR 0x27] @ ''s desired state must be `maintenance` or `disabled`''))"
    by (simp add: changeToSlaveAllowed_def only_state_changes_def example_slave_def)
  ultimately show ?thesis
    by (simp add: returnM_def)
qed

section \<open>Changing a replica set\<close>

text \<open>A new replica set, or a change of one, is accepted exactly if it keeps role, name
  and initiation flag and the 64-bit sum of its member counts is not zero.  While both counts are
  below 2^63 the sum does not wrap around: then at least one member is wanted.  Beyond, a set
  that wants 2^63 members of each kind is refused as having none.\<close>

theorem changeToReplicaSetAllowed_correct:
  "(changeToReplicaSetAllowed (Some cur) new = None \<longleftrightarrow>
     ReplicaSet_ShardingRole cur = ReplicaSet_ShardingRole new \<and> ReplicaSet_Name cur = ReplicaSet_Name new \<and>
     ReplicaSet_Initiated cur = ReplicaSet_Initiated new \<and> changeToReplicaSetAllowed (Some new) new = None) \<and>
   (changeToReplicaSetAllowed None new = None \<longleftrightarrow>
     \<not> ReplicaSet_Initiated new \<and> changeToReplicaSetAllowed (Some new) new = None) \<and>
   (memberCount Persistent new < 2 ^ 63 \<and> memberCount Volatile new < 2 ^ 63 \<longrightarrow>
     (changeToReplicaSetAllowed (Some new) new = None \<longleftrightarrow> 0 < memberCount Persistent new + memberCount Volatile new)) \<and>
   changeToReplicaSetAllowed None (new\<lparr>ReplicaSet_Initiated := False, ReplicaSet_PersistentMemberCount := 2 ^ 63,
     ReplicaSet_VolatileMemberCount := 2 ^ 63\<rparr>) = Some ''Replica Set must have at least one member''"
proof -
  have below: "(x :: 64 word) < 1 \<longleftrightarrow> x = 0" for x
    by (simp add: word_less_nat_alt unat_eq_0)
  have sum: "v + p = 0 \<longleftrightarrow> v = 0 \<and> p = 0" if "unat v < 2 ^ 63" "unat p < 2 ^ 63" for v p :: "64 word"
  proof -
    have "unat (v + p) = unat v + unat p"
      using that by (simp add: unat_word_ariths)
    then show ?thesis
      by (metis add_is_0 unat_eq_0)
  qed
  have same: "changeToReplicaSetAllowed (Some new) new = None \<longleftrightarrow>
      ReplicaSet_VolatileMemberCount new + ReplicaSet_PersistentMemberCount new \<noteq> 0"
    by (simp add: changeToReplicaSetAllowed_def Let_def below)
  show ?thesis
  proof (intro conjI)
    show "memberCount Persistent new < 2 ^ 63 \<and> memberCount Volatile new < 2 ^ 63 \<longrightarrow>
     (changeToReplicaSetAllowed (Some new) new = None \<longleftrightarrow> 0 < memberCount Persistent new + memberCount Volatile new)"
      using sum [of "ReplicaSet_VolatileMemberCount new" "ReplicaSet_PersistentMemberCount new"]
      by (auto simp: same memberCount_def unat_gt_0)
  qed (auto simp: changeToReplicaSetAllowed_def Let_def below)
qed

theorem changeToReplicaSetAllowed_correct_witness:
  "changeToReplicaSetAllowed (Some example_set) example_set = None"
proof -
  have "memberCount Persistent example_set < 2 ^ 63 \<and> memberCount Volatile example_set < 2 ^ 63"
    "0 < memberCount Persistent example_set + memberCount Volatile example_set"
    by (simp_all add: memberCount_def example_set_def)
  then show ?thesis
    using changeToReplicaSetAllowed_correct [of example_set example_set] by simp
qed

end
