(* ===== verification/ApiCreate.thy ===== *)
theory ApiCreate
  imports ApiSlaves
begin

text \<open>
  Creating a slave through the API: what is stored, what is answered, and what a later request reads.
\<close>

definition transitioning :: "DB \<Rightarrow> Slave \<Rightarrow> bool" where
  "transitioning db s \<longleftrightarrow> Slave_ConfiguredState s = SlaveStateDisabled \<and> mongods_on_slave db (Slave_ID s) \<noteq> []"

lemma run_ProjectModelSlave:
  assumes "fault_free D" and "\<And>s'. txDB s' = txDB s \<Longrightarrow> Q (project_slave_fields m (transitioning (txDB s) m)) s'"
  shows "run (ProjectModelSlaveToSlave D m) Q (\<lambda>_ _. False) s"
  unfolding ProjectModelSlaveToSlave_def SlaveConfiguredStateTransitioning_def run_bindM
  by (cases "Slave_ConfiguredState m")
    (use assms(2) in \<open>auto simp: run_simps transitioning_def intro!: run_query_total [OF assms(1)]\<close>)

lemma run_read_tx_total:
  assumes "run m (\<lambda>x s'. Q x (s'\<lparr>txDB := txDB s\<rparr>)) (\<lambda>_ _. False) s"
  shows "run (read_tx m) Q (\<lambda>_ _. False) s"
  unfolding read_tx_def run_bindM run_getM run_catchM
  by (rule run_mono [OF assms]) (simp_all add: run_simps)

definition add_slave :: "Slave \<Rightarrow> DB \<Rightarrow> DB" where
  "add_slave m db = db\<lparr>slaves := slaves db @ [m]\<rparr>"

lemma add_slave_simps [simp]:
  "slaves (add_slave m db) = slaves db @ [m]" "mongods (add_slave m db) = mongods db"
  "mongod_states (add_slave m db) = mongod_states db" "replica_sets (add_slave m db) = replica_sets db"
  "risk_groups (add_slave m db) = risk_groups db" "msp_errors (add_slave m db) = msp_errors db"
  by (simp_all add: add_slave_def)

lemma add_slave_wf:
  assumes "db_wf db" and "Slave_ID m \<notin> set (map Slave_ID (slaves db))"
  shows "db_wf (add_slave m db)"
proof -
  have "mongod_ok (add_slave m db) q" if "q \<in> set (mongods db)" for q
  proof -
    have ok: "mongod_ok db q"
      by (rule db_wf_mongod_ok [OF assms(1) that])
    then obtain sl where "lookup_slave db (Mongod_ParentSlaveID q) = Some sl"
      by (rule mongod_ok_slave)
    then have "lookup_slave (add_slave m db) (Mongod_ParentSlaveID q) = lookup_slave db (Mongod_ParentSlaveID q)"
      by (simp add: find_row_append)
    then show ?thesis
      using ok by (simp add: mongod_ok_def owns_state_def cong: option.case_cong)
  qed
  moreover have "keys_ok (add_slave m db)"
    using assms by (auto simp: db_wf_def keys_ok_def)
  ultimately show ?thesis by (simp add: db_wf_def)
qed

lemma add_slave_refs:
  "refs_ok db \<Longrightarrow> Slave_ObservationErrorID m = None \<Longrightarrow> refers (Slave_RiskGroupID m) (map RiskGroup_ID (risk_groups db)) \<Longrightarrow>
    refs_ok (add_slave m db)"
  by (auto simp: refs_ok_def add_slave_def slave_keys_ok_def problem_keys_ok_def intro: refers_append)

lemma add_slave_ports: "ports_distinct (add_slave m db) = ports_distinct db"
  by (simp add: ports_distinct_def)

text \<open>A request that passes the checks on its own and meets no other slave of its name.\<close>

definition acceptable :: "api_Slave \<Rightarrow> Slave \<Rightarrow> DB \<Rightarrow> bool" where
  "acceptable post m db \<longleftrightarrow> aSlave_ID post = 0 \<and> ProjectSlaveToModelSlave post = Inr m \<and>
    length (Slave_Hostname m) \<le> 255 \<and> Slave_Hostname m \<notin> set (map Slave_Hostname (slaves db))"

lemma run_Create_slave:
  assumes "fault_free D" and "acceptable post m (txDB s)"
    and "Q m' ((tick s)\<lparr>txDB := add_slave m' (txDB s)\<rparr>)"
    and "m' = m\<lparr>Slave_ID := newID D (txCalls s) (map Slave_ID (slaves (txDB s)))\<rparr>"
  shows "run (Create_slave D m) Q (\<lambda>_ _. False) s"
  unfolding Create_slave_def
  by (rule run_stmt_total [OF assms(1), where x = m' and db = "add_slave m' (txDB s)"])
    (use assms(2-4) in \<open>auto simp: acceptable_def Let_def add_slave_def\<close>)

lemma run_SlavePut:
  assumes D: "dbms_ok D" "fault_free D" and wf: "db_wf (txDB s)" "ports_distinct (txDB s)"
    and ok: "acceptable post m (txDB s)"
    and m': "m' = m\<lparr>Slave_ID := newID D (txCalls s) (map Slave_ID (slaves (txDB s)))\<rparr>"
    and commit: "\<And>s'. alloc_step\<^sup>*\<^sup>* (add_slave m' (txDB s)) (txDB s') \<Longrightarrow>
      run (attemptCommit D show_err (txDB s) None)
        (\<lambda>ws. Q (Encode (JSlave (project_slave_fields m' (transitioning (txDB s') m'))) # ws)) (\<lambda>_ _. False) s'"
  shows "run (SlavePut D show_err hasBus (Inr post)) Q (\<lambda>_ _. False) s"
proof -
  have id: "Slave_ID m' \<notin> set (map Slave_ID (slaves (txDB s)))"
    using dbms_ok_newID [OF D(1), of "txCalls s" "map Slave_ID (slaves (txDB s))"] by (simp add: m')
  have post: "\<not> aSlave_ID post \<noteq> 0" "ProjectSlaveToModelSlave post = Inr m"
    using ok by (simp_all add: acceptable_def)
  let ?s1 = "(tick s)\<lparr>txDB := add_slave m' (txDB s)\<rparr>"
  have "run (attemptClusterAllocator D show_err hasBus (txDB s) None) (\<lambda>(ws, err, broken). run
      (if err \<noteq> None then returnM ws
       else onError (project_slave_in D broken m') (\<lambda>e. rollback_with (txDB s) (ws @ cannot_project show_err e))
         (\<lambda>apiSlave. bindM (attemptCommit D show_err (txDB s) broken) (\<lambda>ws'.
           returnM (ws @ [Encode (JSlave apiSlave)] @ ws')))) Q (\<lambda>_ _. False)) (\<lambda>_ _. False) ?s1"
  proof (rule run_allocator_total [OF D])
    fix s2 assume post: "layout_post D hasBus ?s1 s2"
    then have steps: "alloc_step\<^sup>*\<^sup>* (add_slave m' (txDB s)) (txDB s2)"
      using layout_post_steps by fastforce
    show "(case ([], None, None) of (ws, err, broken) \<Rightarrow> run
      (if err \<noteq> None then returnM ws
       else onError (project_slave_in D broken m') (\<lambda>e. rollback_with (txDB s) (ws @ cannot_project show_err e))
         (\<lambda>apiSlave. bindM (attemptCommit D show_err (txDB s) broken) (\<lambda>ws'.
           returnM (ws @ [Encode (JSlave apiSlave)] @ ws')))) Q (\<lambda>_ _. False)) s2"
      unfolding prod.case if_not_P [OF not_not [THEN iffD2, OF refl]] project_slave_in_def option.case
    proof (rule run_onError_total, rule run_ProjectModelSlave [OF D(2)])
      fix s3 :: tx assume "txDB s3 = txDB s2"
      with commit [of s3] steps show "run (bindM (attemptCommit D show_err (txDB s) None) (\<lambda>ws'. returnM
          ([] @ [Encode (JSlave (project_slave_fields m' (transitioning (txDB s2) m')))] @ ws'))) Q (\<lambda>_ _. False) s3"
        by (simp add: run_bindM run_returnM [abs_def])
    qed
  qed (use wf id in \<open>simp_all add: add_slave_wf add_slave_ports\<close>)
  then show ?thesis
    unfolding SlavePut_def sum.case if_not_P [OF post(1)] post(2) in_tx_def run_bindM run_getM
    by (intro run_onError_total run_Create_slave [OF D(2) ok _ m']) (auto simp: run_bindM case_prod_unfold)
qed

text \<open>C25: in a consistent database that does not fail, a well-formed slave with a new host name
  and an existing risk group (or none) is stored under a fresh id; the answer describes it with
  exactly the values of the request, and reading the new slave afterwards gives the same answer.\<close>

theorem SlavePut_roundtrip:
  assumes "dbms_ok D" and "fault_free D" and "consistent (txDB s)" and "acceptable post m (txDB s)"
    and "refers (Slave_RiskGroupID m) (map RiskGroup_ID (risk_groups (txDB s)))"
    and "newID D (txCalls s) (map Slave_ID (slaves (txDB s))) < 2 ^ 63"
  shows "\<exists>out s' s''. SlavePut D show_err hasBus (Inr post) s = (Inr [Encode (JSlave out)], s') \<and>
    out\<lparr>aSlave_ID := 0, aSlave_ConfiguredStateTransitioning := aSlave_ConfiguredStateTransitioning post\<rparr> = post \<and>
    aSlave_ID out \<notin> set (map Slave_ID (slaves (txDB s))) \<and>
    SlaveById D show_err (dec (nat (aSlave_ID out))) s' = (Inr [Encode (JSlave out)], s'')"
proof -
  define i where "i = newID D (txCalls s) (map Slave_ID (slaves (txDB s)))"
  define m' where m': "m' = m\<lparr>Slave_ID := i\<rparr>"
  have i: "0 < i" "i \<notin> set (map Slave_ID (slaves (txDB s)))" "i < 2 ^ 63"
    using assms(1,6) unfolding i_def dbms_ok_def by blast+
  have wf: "db_wf (txDB s)" "ports_distinct (txDB s)" "foreign_keys_ok (txDB s)"
    using assms(3) by (simp_all add: consistent_def)
  have m: "aSlave_ID post = 0" "ProjectSlaveToModelSlave post = Inr m"
    using assms(4) by (simp_all add: acceptable_def)
  have "Slave_ObservationErrorID m = None"
    using m(2) by (auto simp: ProjectSlaveToModelSlave_def Let_def split: option.splits if_splits sum.splits)
  then have "refs_ok (add_slave m' (txDB s))"
    using wf(1,3) assms(5) by (auto simp: foreign_keys_ok_iff m' intro: add_slave_refs)
  moreover have wf1: "db_wf (add_slave m' (txDB s))"
    using wf(1) i(2) by (intro add_slave_wf) (simp_all add: m')
  ultimately have refs: "foreign_keys_ok (add_slave m' (txDB s))"
    by (simp add: foreign_keys_ok_iff)
  let ?out = "\<lambda>db. project_slave_fields m' (transitioning db m')"
  have "run (SlavePut D show_err hasBus (Inr post)) (\<lambda>ws s'. ws = [Encode (JSlave (?out (txDB s')))] \<and>
      lookup_slave (txDB s') i = Some m') (\<lambda>_ _. False) s"
  proof (rule run_SlavePut [OF assms(1,2) wf(1,2) assms(4) m' [unfolded i_def]])
    fix s' :: tx assume steps: "alloc_step\<^sup>*\<^sup>* (add_slave m' (txDB s)) (txDB s')"
    have "lookup_slave (txDB s') i = Some m'"
      using i(2) by (auto simp: alloc_steps_tables [OF steps] find_row_append m' find_row_None_iff split: option.split dest: find_row_SomeD)
    moreover have "foreign_keys_ok (txDB s')"
      by (rule alloc_steps_foreign_keys [OF steps wf1 refs])
    ultimately show "run (attemptCommit D show_err (txDB s) None)
        (\<lambda>ws s''. Encode (JSlave (?out (txDB s'))) # ws = [Encode (JSlave (?out (txDB s'')))] \<and>
          lookup_slave (txDB s'') i = Some m') (\<lambda>_ _. False) s'"
      by (intro run_attemptCommit_total [OF assms(2)]) simp_all
  qed
  from run_total [OF this] obtain s' where put: "SlavePut D show_err hasBus (Inr post) s = (Inr [Encode (JSlave (?out (txDB s')))], s')"
      and found: "lookup_slave (txDB s') i = Some m'" by auto
  have "ParseUint (dec (nat i)) = Some i"
    using i by (simp add: ParseUint_def dec_nonempty parse_digits_dec nat_less_iff)
  then have "run (SlaveById D show_err (dec (nat i))) (\<lambda>ws _. ws = [Encode (JSlave (?out (txDB s')))]) (\<lambda>_ _. False) s'"
    using i(1) found unfolding SlaveById_def First_def
    by (auto simp: run_returnM intro!: run_read_tx_total run_onError_total run_query_total [OF assms(2)]
        run_ProjectModelSlave [OF assms(2)])
  from run_total [OF this] obtain s'' where get: "SlaveById D show_err (dec (nat i)) s' =
      (Inr [Encode (JSlave (?out (txDB s')))], s'')" by auto
  have same: "project_slave_fields m (aSlave_ConfiguredStateTransitioning post) = post"
    using slave_projection_back [OF m(2)] by simp
  then have "Slave_ID m = 0"
    using m(1) by (metis api_Slave.select_convs(1) project_slave_fields_def)
  with same have "(?out (txDB s'))\<lparr>aSlave_ID := 0,
      aSlave_ConfiguredStateTransitioning := aSlave_ConfiguredStateTransitioning post\<rparr> = post"
    by (simp add: m' project_slave_fields_def)
  moreover have "aSlave_ID (?out (txDB s')) = i"
    by (simp add: m' project_slave_fields_def)
  ultimately show ?thesis
    using put get i(2) by blast
qed

lemma example_api_slave_model:
  "ProjectSlaveToModelSlave example_api_slave = Inr ((example_slave 0 True)\<lparr>Slave_Hostname := ''host1''\<rparr>)"
  by (simp add: ProjectSlaveToModelSlave_def example_api_slave_def assertIsPortNumber_def PortNumberMin_def
      PortNumberMax_def SlaveJSONRepresentationToStruct_def example_slave_def)

lemma example_acceptable:
  "acceptable example_api_slave ((example_slave 0 True)\<lparr>Slave_Hostname := ''host1''\<rparr>) (txDB (begin_tx example_db))"
  by (simp add: acceptable_def example_api_slave_model) (simp add: example_api_slave_def example_defs)

theorem SlavePut_roundtrip_witness:
  "\<exists>out s' s''. SlavePut plain_dbms (\<lambda>_. []) True (Inr example_api_slave) (begin_tx example_db) =
      (Inr [Encode (JSlave out)], s') \<and>
    SlaveById plain_dbms (\<lambda>_. []) (dec (nat (aSlave_ID out))) s' = (Inr [Encode (JSlave out)], s'')"
proof -
  have db: "consistent (txDB (begin_tx example_db))"
    "refers (Slave_RiskGroupID ((example_slave 0 True)\<lparr>Slave_Hostname := ''host1''\<rparr>))
      (map RiskGroup_ID (risk_groups (txDB (begin_tx example_db))))"
    "newID plain_dbms (txCalls (begin_tx example_db)) (map Slave_ID (slaves (txDB (begin_tx example_db)))) < 2 ^ 63"
    by (simp add: example_db_consistent) (simp_all add: example_defs refers_def plain_dbms_def)
  from SlavePut_roundtrip [OF plain_dbms_ok plain_dbms_fault_free db(1) example_acceptable db(2,3)]
  show ?thesis by blast
qed

text \<open>The handler writes the created slave before it commits, and foreign keys are
  checked at the commit only: a request with a risk group that does not exist is answered with
  status 200 and the object, though nothing is stored.\<close>

theorem SlavePut_unknown_risk_group:
  assumes "dbms_ok D" and "fault_free D" and "consistent (txDB s)" and "acceptable post m (txDB s)"
    and "Slave_RiskGroupID m = Some g" and "g \<notin> set (map RiskGroup_ID (risk_groups (txDB s)))"
  shows "\<exists>out msg s'. SlavePut D show_err hasBus (Inr post) s =
      (Inr [Encode (JSlave out), WriteHeader StatusInternalServerError, Print msg], s') \<and>
    status [Encode (JSlave out), WriteHeader StatusInternalServerError, Print msg] = 200 \<and>
    aSlave_RiskGroupID out = Some g \<and> txDB s' = txDB s"
proof -
  define m' where m': "m' = m\<lparr>Slave_ID := newID D (txCalls s) (map Slave_ID (slaves (txDB s)))\<rparr>"
  have wf: "db_wf (txDB s)" "ports_distinct (txDB s)"
    using assms(3) by (simp_all add: consistent_def)
  have "run (SlavePut D show_err hasBus (Inr post)) (\<lambda>ws s'. (\<exists>out msg.
      ws = [Encode (JSlave out), WriteHeader StatusInternalServerError, Print msg] \<and>
      aSlave_RiskGroupID out = Some g) \<and> txDB s' = txDB s) (\<lambda>_ _. False) s"
  proof (rule run_SlavePut [OF assms(1,2) wf assms(4) m'])
    fix s' :: tx assume steps: "alloc_step\<^sup>*\<^sup>* (add_slave m' (txDB s)) (txDB s')"
    have "\<not> foreign_keys_ok (txDB s')"
      using assms(5,6) by (simp add: foreign_keys_ok_def slave_keys_ok_def alloc_steps_tables [OF steps] m')
    then show "run (attemptCommit D show_err (txDB s) None) (\<lambda>ws s''. (\<exists>out msg.
        Encode (JSlave (project_slave_fields m' (transitioning (txDB s') m'))) # ws =
          [Encode (JSlave out), WriteHeader StatusInternalServerError, Print msg] \<and>
        aSlave_RiskGroupID out = Some g) \<and> txDB s'' = txDB s) (\<lambda>_ _. False) s'"
      unfolding attemptCommit_def onError_def run_bindM option.case commit_def run_attempt run_catchM
      by (intro run_sql_stmt) (use assms(2,5) in \<open>auto simp: fault_free_def run_simps m' project_slave_fields_def\<close>)
  qed
  from run_total [OF this] show ?thesis by (auto simp: status_def)
qed

theorem SlavePut_unknown_risk_group_witness:
  "\<exists>out msg s'. SlavePut plain_dbms (\<lambda>_. []) True (Inr (example_api_slave\<lparr>aSlave_RiskGroupID := Some 7\<rparr>))
      (begin_tx example_db) =
    (Inr [Encode (JSlave out), WriteHeader StatusInternalServerError, Print msg], s') \<and> txDB s' = example_db"
proof -
  let ?m = "(example_slave 0 True)\<lparr>Slave_Hostname := ''host1'', Slave_RiskGroupID := Some 7\<rparr>"
  have "ProjectSlaveToModelSlave (example_api_slave\<lparr>aSlave_RiskGroupID := Some 7\<rparr>) = Inr ?m"
    by (simp add: ProjectSlaveToModelSlave_def example_api_slave_def assertIsPortNumber_def PortNumberMin_def
        PortNumberMax_def SlaveJSONRepresentationToStruct_def example_slave_def)
  then have ok: "acceptable (example_api_slave\<lparr>aSlave_RiskGroupID := Some 7\<rparr>) ?m (txDB (begin_tx example_db))"
    by (simp add: acceptable_def) (simp add: example_api_slave_def example_defs)
  have db: "consistent (txDB (begin_tx example_db))" "Slave_RiskGroupID ?m = Some 7"
    "7 \<notin> set (map RiskGroup_ID (risk_groups (txDB (begin_tx example_db))))"
    by (simp_all add: example_db_consistent) (simp add: example_defs)
  from SlavePut_unknown_risk_group [OF plain_dbms_ok plain_dbms_fault_free db(1) ok db(2,3), of "\<lambda>_. []" True]
  show ?thesis by auto
qed

end
