(* ===== verification/SlaveFiles.thy ===== *)
theory SlaveFiles
  imports Msp "HOL-Library.Sublist" "HOL-Library.List_Lexorder" "HOL-Library.Char_ord"
begin

text \<open>
  The directories of a slave, \<open>src/slave/procmgr_fs.go\<close>: where the data of a Mongod lives, and how port and
  replica set name are read back from the name of its directory.  Paths are modelled as
  \<open>path/filepath\<close> cleans them, and the file system as a table of paths; any system call may fail.
\<close>

section \<open>Strings and paths\<close>

text \<open>\<open>strings.Split\<close> on one character.\<close>

fun split_on :: "char \<Rightarrow> string \<Rightarrow> string list" where
  "split_on c [] = [[]]"
| "split_on c (x # xs) = (if x = c then [] # split_on c xs
     else (case split_on c xs of [] \<Rightarrow> [[x]] | y # ys \<Rightarrow> (x # y) # ys))"

text \<open>A cleaned path: whether it is absolute, and its elements.\<close>

type_synonym path = "bool \<times> string list"

fun clean_step :: "bool \<Rightarrow> string \<Rightarrow> string list \<Rightarrow> string list" where
  "clean_step rooted el stack =
    (if el = [] \<or> el = ''.'' then stack
     else if el = ''..'' then (case stack of
         [] \<Rightarrow> if rooted then [] else [''..'']
       | upper # rest \<Rightarrow> if upper = ''..'' then ''..'' # stack else rest)
     else el # stack)"

definition Join :: "path \<Rightarrow> string \<Rightarrow> path" where
  "Join p str = (fst p, rev (fold (clean_step (fst p)) (split_on (CHR ''/'') str) (rev (snd p))))"

definition Clean :: "string \<Rightarrow> path" where
  "Clean str = Join (case str of [] \<Rightarrow> False | c # _ \<Rightarrow> c = CHR ''/'', []) str"

primrec join_elements :: "string list \<Rightarrow> string" where
  "join_elements [] = []"
| "join_elements (x # xs) = (if xs = [] then x else x @ [CHR ''/''] @ join_elements xs)"

definition path_string :: "path \<Rightarrow> string" where
  "path_string p = (case p of (rooted, comps) \<Rightarrow>
    if rooted then CHR ''/'' # join_elements comps else if comps = [] then ''.'' else join_elements comps)"

text \<open>A path that is the given one or below it.\<close>

definition below :: "path \<Rightarrow> path \<Rightarrow> bool" where
  "below p q \<longleftrightarrow> fst p = fst q \<and> prefix (snd p) (snd q)"

section \<open>The directories of a process\<close>

definition managedDirMongods :: "string \<Rightarrow> path" where
  "managedDirMongods dataDir = Join (Clean dataDir) ''mongods''"

definition root_dirname :: "mspMongod \<Rightarrow> string" where
  "root_dirname m = dec (unat (mspMongod_Port m)) @ [CHR '':''] @ Config_ReplicaSetName (mspMongod_ReplicaSetConfig m)"

definition processRootDir :: "string \<Rightarrow> mspMongod \<Rightarrow> path" where
  "processRootDir dataDir m = Join (managedDirMongods dataDir) (root_dirname m)"

definition processDBPathDir :: "string \<Rightarrow> mspMongod \<Rightarrow> path" where
  "processDBPathDir dataDir m = Join (processRootDir dataDir m) ''dbpath''"

definition processConfDir :: "string \<Rightarrow> mspMongod \<Rightarrow> path" where
  "processConfDir dataDir m = Join (processRootDir dataDir m) ''conf''"

definition processKeyfilePath :: "string \<Rightarrow> mspMongod \<Rightarrow> path" where
  "processKeyfilePath dataDir m = Join (processConfDir dataDir m) ''keyfile''"

text \<open>\<open>parseProcessRootDirentry\<close>: the name of a directory entry back to port and name.\<close>

definition parse_port :: "string \<Rightarrow> PortNumber option" where
  "parse_port str = (if str = [] then None else case parse_digits 0 str of
     None \<Rightarrow> None | Some v \<Rightarrow> if v < 2 ^ 16 then Some (of_nat v) else None)"

definition parseProcessRootDirentry :: "string \<Rightarrow> string + (PortNumber \<times> string)" where
  "parseProcessRootDirentry dirname =
    (if CHR '':'' \<notin> set dirname then Inl (''directory with unparsable name `'' @ dirname @ ''` in db dir'')
     else let portStr = takeWhile (\<lambda>c. c \<noteq> CHR '':'') dirname in
       case parse_port portStr of
         None \<Rightarrow> Inl (''could not parse port number `'' @ portStr @ ''`'')
       | Some port \<Rightarrow> Inr (port, tl (dropWhile (\<lambda>c. c \<noteq> CHR '':'') dirname)))"

section \<open>Lemmas on paths and names\<close>

lemma split_on_notin: "c \<notin> set s \<Longrightarrow> split_on c s = [s]"
  by (induction s) auto

lemma Join_component:
  assumes "CHR ''/'' \<notin> set s" and "s \<notin> {[], ''.'', ''..''}"
  shows "Join p s = (fst p, snd p @ [s])"
  using assms by (simp add: Join_def split_on_notin)

lemma slash_notin_dec: "CHR ''/'' \<notin> set (dec n)"
proof
  assume "CHR ''/'' \<in> set (dec n)"
  then obtain d where "d < 10" and "CHR ''/'' = digit_char d"
    using dec_digits by metis
  then have "char_digit (CHR ''/'') = Some d"
    using char_digit_digit_char by simp
  then show False by (simp add: char_digit_def)
qed

lemma colon_in_root_dirname: "CHR '':'' \<in> set (root_dirname m)"
  by (simp add: root_dirname_def)

lemma processRootDir_eq:
  assumes "CHR ''/'' \<notin> set (Config_ReplicaSetName (mspMongod_ReplicaSetConfig m))"
  shows "processRootDir dataDir m =
    (fst (managedDirMongods dataDir), snd (managedDirMongods dataDir) @ [root_dirname m])"
proof -
  have "root_dirname m \<notin> {[], ''.'', ''..''}"
    using colon_in_root_dirname [of m] by auto
  then show ?thesis
    unfolding processRootDir_def using assms slash_notin_dec
    by (intro Join_component) (auto simp: root_dirname_def)
qed

lemma parse_port_dec: "parse_port (dec (unat (p :: PortNumber))) = Some p"
proof -
  have "unat p < 2 ^ 16"
    using unsigned_less [of p] by simp
  then show ?thesis
    by (simp add: parse_port_def dec_nonempty parse_digits_dec)
qed

lemma takeWhile_colon: "c \<notin> set xs \<Longrightarrow> takeWhile (\<lambda>x. x \<noteq> c) (xs @ c # ys) = xs"
  by (induction xs) auto

lemma dropWhile_colon: "c \<notin> set xs \<Longrightarrow> dropWhile (\<lambda>x. x \<noteq> c) (xs @ c # ys) = c # ys"
  by (induction xs) auto

lemma parse_root_dirname:
  "parseProcessRootDirentry (root_dirname m) =
    Inr (mspMongod_Port m, Config_ReplicaSetName (mspMongod_ReplicaSetConfig m))"
  by (simp add: parseProcessRootDirentry_def root_dirname_def takeWhile_colon dropWhile_colon colon_notin_dec
      parse_port_dec Let_def)

section \<open>Properties\<close>

text \<open>C31: the directory of a Mongod whose replica set name has no slash is a direct child of the
  managed directory, its name is read back as exactly the Mongod's port and replica set name, and
  two Mongods that differ in one of the two have separate directories, none below the other.\<close>

theorem process_dir_roundtrip:
  assumes "CHR ''/'' \<notin> set (Config_ReplicaSetName (mspMongod_ReplicaSetConfig m))"
    and "CHR ''/'' \<notin> set (Config_ReplicaSetName (mspMongod_ReplicaSetConfig m'))"
  shows "(\<exists>name. processRootDir dataDir m = (fst (managedDirMongods dataDir), snd (managedDirMongods dataDir) @ [name]) \<and>
      parseProcessRootDirentry name = Inr (mspMongod_Port m, Config_ReplicaSetName (mspMongod_ReplicaSetConfig m))) \<and>
    (below (processRootDir dataDir m) (processRootDir dataDir m') \<longrightarrow>
      mspMongod_Port m = mspMongod_Port m' \<and>
      Config_ReplicaSetName (mspMongod_ReplicaSetConfig m) = Config_ReplicaSetName (mspMongod_ReplicaSetConfig m'))"
  using parse_root_dirname [of m] parse_root_dirname [of m']
  by (auto simp: processRootDir_eq [OF assms(1)] processRootDir_eq [OF assms(2)] below_def)

definition example_msp_mongod :: "PortNumber \<Rightarrow> string \<Rightarrow> mspMongod" where
  "example_msp_mongod p name = zeroMspMongod\<lparr>mspMongod_Port := p,
     mspMongod_ReplicaSetConfig := zeroReplicaSetConfig\<lparr>Config_ReplicaSetName := name\<rparr>\<rparr>"

theorem process_dir_roundtrip_witness:
  "\<exists>name. processRootDir ''/srv'' (example_msp_mongod 18080 ''rs'') = (True, [''srv'', ''mongods'', name]) \<and>
    parseProcessRootDirentry name = Inr (18080, ''rs'')"
proof -
  have "managedDirMongods ''/srv'' = (True, [''srv'', ''mongods''])"
    by (simp add: managedDirMongods_def Clean_def Join_def)
  then show ?thesis
    using process_dir_roundtrip [of "example_msp_mongod 18080 ''rs''" "example_msp_mongod 18080 ''rs''" "''/srv''"]
    by (simp add: example_msp_mongod_def)
qed

text \<open>Nothing keeps a slash out of a replica set name, and cleaning the path resolves its
  dots: with the name \<open>/../../x\<close> the directory of a Mongod, which is removed with all it contains
  when the Mongod is destroyed, lies outside the managed directory, next to the data directory's
  own content.\<close>

theorem process_dir_escapes:
  "processRootDir ''/srv'' (example_msp_mongod 18080 ''/../../x'') = (True, [''srv'', ''x'']) \<and>
    \<not> below (managedDirMongods ''/srv'') (processRootDir ''/srv'' (example_msp_mongod 18080 ''/../../x''))"
proof -
  have "managedDirMongods ''/srv'' = (True, [''srv'', ''mongods''])"
    by (simp add: managedDirMongods_def Clean_def Join_def)
  moreover have "dec 18080 = ''18080''"
    by (simp add: dec.simps digit_char_def char_of_def bit_0)
  ultimately show ?thesis
    by (simp add: processRootDir_def Join_def root_dirname_def example_msp_mongod_def below_def)
qed

end
