(* ===== verification/SlaveController.thy ===== *)
theory SlaveController
  imports SlaveFiles "HOL-Library.AList"
begin

text \<open>
  The slave: its process manager (\<open>src/slave/processmanager.go\<close>, \<open>src/slave/procmgr_cmdline.go\<close> and the file
  operations of \<open>src/slave/procmgr_fs.go\<close>) and the controller (\<open>src/slave/controller.go\<close>) that answers the
  master's requests.

  The environment is a parameter: whether a system call fails, what the \<open>mongod\<close> binary reports as
  its version, what the semver package says of it, whether a process starts or can be killed,
  what the configurator answers or that it panics, and which processes are found to have ended meanwhile.
  A request that ends with an error of the computation itself, \<open>Inl\<close>, has panicked; every Go error is
  caught where the code tests it.  The map \<open>runningProcesses\<close> is the set of its ports; \<open>ProcessTable\<close> models it with its goroutines.
\<close>

section \<open>State and environment\<close>

datatype node = Directory | RegularFile string

type_synonym fs = "(path \<times> node) list"

record slave_state =
  sl_fs :: fs
  sl_running :: "PortNumber set"
  sl_credentials :: "PortNumber \<rightharpoonup> MongodCredential"
  sl_calls :: nat

record environment =
  env_dataDir :: string
  env_sys :: "nat \<Rightarrow> string option"
  env_partial :: "nat \<Rightarrow> path \<Rightarrow> bool"
  env_version :: "nat \<Rightarrow> string + string option"
  env_semver :: "string \<Rightarrow> string + bool"
  env_start :: "nat \<Rightarrow> string list \<Rightarrow> string option"
  env_kill :: "nat \<Rightarrow> PortNumber \<Rightarrow> string option"
  env_apply :: "nat \<Rightarrow> mspMongod \<Rightarrow> string + mspError option"
  env_query :: "PortNumber \<Rightarrow> MongodCredential \<Rightarrow> string + (mspError + mspMongod)"
  env_initiate :: "nat \<Rightarrow> RsInitiateMessage \<Rightarrow> string + mspError option"
  env_exits :: "nat \<Rightarrow> PortNumber set"

type_synonym 'a slave_action = "(slave_state, string, 'a) sem"

definition count_call :: "slave_state \<Rightarrow> slave_state" where
  "count_call s = s\<lparr>sl_calls := Suc (sl_calls s)\<rparr>"

text \<open>A system call on the file system.  One that fails may have done a part of its work, which \<open>part\<close> does to the
  files; most do nothing then.\<close>

definition syscall_part :: "environment \<Rightarrow> (nat \<Rightarrow> fs \<Rightarrow> fs) \<Rightarrow> (fs \<Rightarrow> string + 'a \<times> fs) \<Rightarrow> 'a slave_action" where
  "syscall_part E part f = (\<lambda>s. case env_sys E (sl_calls s) of
     Some err \<Rightarrow> (Inl err, (count_call s)\<lparr>sl_fs := part (sl_calls s) (sl_fs s)\<rparr>)
   | None \<Rightarrow> (case f (sl_fs s) of
       Inl err \<Rightarrow> (Inl err, count_call s)
     | Inr (x, fs) \<Rightarrow> (Inr x, (count_call s)\<lparr>sl_fs := fs\<rparr>)))"

definition syscall :: "environment \<Rightarrow> (fs \<Rightarrow> string + 'a \<times> fs) \<Rightarrow> 'a slave_action" where
  "syscall E f = syscall_part E (\<lambda>_ fs. fs) f"

text \<open>A call to the outside that takes time: the loop of \<open>Run\<close> removes the processes that ended.\<close>

definition external :: "environment \<Rightarrow> (nat \<Rightarrow> 'a) \<Rightarrow> 'a slave_action" where
  "external E f = (\<lambda>s. (Inr (f (sl_calls s)),
     (count_call s)\<lparr>sl_running := sl_running s - env_exits E (sl_calls s)\<rparr>))"

definition tryM :: "'a slave_action \<Rightarrow> (string + 'a) slave_action" where
  "tryM m = catchM (bindM m (\<lambda>x. returnM (Inr x))) (\<lambda>e. returnM (Inl e))"

definition HasProcess :: "PortNumber \<Rightarrow> bool slave_action" where
  "HasProcess port = getM (\<lambda>s. port \<in> sl_running s)"

section \<open>Files\<close>

definition prefixes_of :: "path \<Rightarrow> path list" where
  "prefixes_of p = map (\<lambda>k. (fst p, take k (snd p))) [1..<Suc (length (snd p))]"

fun mkdirs :: "path list \<Rightarrow> fs \<Rightarrow> string + unit \<times> fs" where
  "mkdirs [] fs = Inr ((), fs)"
| "mkdirs (p # ps) fs = (case map_of fs p of
     None \<Rightarrow> mkdirs ps ((p, Directory) # fs)
   | Some Directory \<Rightarrow> mkdirs ps fs
   | Some (RegularFile _) \<Rightarrow> Inl ''not a directory'')"

text \<open>The directories that \<open>MkdirAll\<close> made before it failed stay, as do the files that \<open>RemoveAll\<close> did not reach.\<close>

definition made_before :: "path list \<Rightarrow> fs \<Rightarrow> fs" where
  "made_before ps fs = (case mkdirs ps fs of Inl _ \<Rightarrow> fs | Inr (_, fs') \<Rightarrow> fs')"

definition MkdirAll :: "environment \<Rightarrow> path \<Rightarrow> unit slave_action" where
  "MkdirAll E p = syscall_part E (\<lambda>n. made_before (takeWhile (env_partial E n) (prefixes_of p))) (mkdirs (prefixes_of p))"

definition remove_below :: "path \<Rightarrow> fs \<Rightarrow> fs" where
  "remove_below p fs = filter (\<lambda>(q, _). \<not> below p q) fs"

definition remove_some :: "(path \<Rightarrow> bool) \<Rightarrow> path \<Rightarrow> fs \<Rightarrow> fs" where
  "remove_some gone p fs = filter (\<lambda>(q, _). \<not> (below p q \<and> gone q)) fs"

definition RemoveAll :: "environment \<Rightarrow> path \<Rightarrow> unit slave_action" where
  "RemoveAll E p = syscall_part E (\<lambda>n. remove_some (env_partial E n) p) (\<lambda>fs. Inr ((), remove_below p fs))"

definition ReadFile :: "environment \<Rightarrow> path \<Rightarrow> string option slave_action" where
  "ReadFile E p = syscall E (\<lambda>fs. case map_of fs p of
     None \<Rightarrow> Inr (None, fs)
   | Some (RegularFile content) \<Rightarrow> Inr (Some content, fs)
   | Some Directory \<Rightarrow> Inl ''is a directory'')"

definition put_file :: "path \<Rightarrow> string \<Rightarrow> fs \<Rightarrow> string + unit \<times> fs" where
  "put_file p content fs =
    (if map_of fs (fst p, butlast (snd p)) \<noteq> Some Directory then Inl ''no such file or directory''
     else if map_of fs p = Some Directory then Inl ''is a directory''
     else Inr ((), AList.update p (RegularFile content) fs))"

text \<open>\<open>CreateManagedDirs\<close>: the data directory must be there and writable.\<close>

definition CreateManagedDirs :: "environment \<Rightarrow> unit slave_action" where
  "CreateManagedDirs E =
    bindM (tryM (syscall E (\<lambda>fs. if map_of fs (Clean (env_dataDir E)) = None then Inl ''no such file or directory''
        else Inr ((), fs)))) (\<lambda>r. case r of
      Inl _ \<Rightarrow> raiseM (''`'' @ env_dataDir E @ ''` does not exist or is not writable'')
    | Inr _ \<Rightarrow> syscall E (\<lambda>fs. case map_of fs (managedDirMongods (env_dataDir E)) of
        None \<Rightarrow> Inr ((), (managedDirMongods (env_dataDir E), Directory) # fs) | Some _ \<Rightarrow> Inr ((), fs)))"

definition createDirSkeleton :: "environment \<Rightarrow> mspMongod \<Rightarrow> unit slave_action" where
  "createDirSkeleton E m =
    bindM (tryM (forM [processRootDir (env_dataDir E) m, processDBPathDir (env_dataDir E) m,
        processConfDir (env_dataDir E) m] (MkdirAll E))) (\<lambda>r. case r of
      Inl err \<Rightarrow> raiseM (''could not create directory skeleton for Mongod: '' @ err)
    | Inr _ \<Rightarrow> returnM ())"

definition destroyDataDirectory :: "environment \<Rightarrow> mspMongod \<Rightarrow> unit slave_action" where
  "destroyDataDirectory E m = RemoveAll E (processRootDir (env_dataDir E) m)"

text \<open>A file that does not exist counts as different; no other error is dropped.\<close>

definition fileContentEqualToBytes :: "environment \<Rightarrow> path \<Rightarrow> string \<Rightarrow> bool slave_action" where
  "fileContentEqualToBytes E p content =
    bindM (ReadFile E p) (\<lambda>fileContent. returnM (fileContent = Some content))"

text \<open>\<open>UpdateKeyfile\<close>: opening truncates the file, the content is written afterwards.\<close>

definition UpdateKeyfile :: "environment \<Rightarrow> mspMongod \<Rightarrow> unit slave_action" where
  "UpdateKeyfile E m =
    (let keyFilePath = processKeyfilePath (env_dataDir E) m in
     bindM (fileContentEqualToBytes E keyFilePath (mspMongod_KeyfileContent m)) (\<lambda>equal.
     if equal then returnM ()
     else bindM (syscall E (put_file keyFilePath [])) (\<lambda>_.
       syscall E (put_file keyFilePath (mspMongod_KeyfileContent m)))))"

text \<open>\<open>parseProcessDirTree\<close>: the entries come sorted by name, and a later one with the same port wins.\<close>

definition children :: "path \<Rightarrow> fs \<Rightarrow> (string \<times> node) list" where
  "children p fs = [(last (snd q), n). (q, n) \<leftarrow> fs, fst q = fst p \<and> snd q \<noteq> [] \<and> butlast (snd q) = snd p]"

definition ReadDir :: "environment \<Rightarrow> path \<Rightarrow> (string \<times> node) list slave_action" where
  "ReadDir E p = syscall E (\<lambda>fs. case map_of fs p of
     Some Directory \<Rightarrow> Inr (sort_key fst (children p fs), fs)
   | _ \<Rightarrow> Inl ''no such directory'')"

definition add_entry :: "string \<times> node \<Rightarrow> (PortNumber \<times> string) list \<Rightarrow> (PortNumber \<times> string) list" where
  "add_entry entry found = (case entry of
     (name, Directory) \<Rightarrow> (case parseProcessRootDirentry name of
         Inl _ \<Rightarrow> found | Inr (port, replSet) \<Rightarrow> AList.update port replSet found)
   | (name, RegularFile _) \<Rightarrow> found)"

definition parseProcessDirTree :: "environment \<Rightarrow> (PortNumber \<times> string) list slave_action" where
  "parseProcessDirTree E =
    bindM (ReadDir E (managedDirMongods (env_dataDir E))) (\<lambda>entries. returnM (fold add_entry entries []))"

section \<open>Processes\<close>

definition buildMongodCommandLine :: "environment \<Rightarrow> mspMongod \<Rightarrow> string list" where
  "buildMongodCommandLine E m =
    [''--dbpath'', path_string (processDBPathDir (env_dataDir E) m),
     ''--port'', dec (unat (mspMongod_Port m)),
     ''--replSet'', Config_ReplicaSetName (mspMongod_ReplicaSetConfig m),
     ''--keyFile'', path_string (processKeyfilePath (env_dataDir E) m)] @
    (if Config_ShardingRole (mspMongod_ReplicaSetConfig m) = ShardingRoleShardServer then [''--shardsvr'']
     else if Config_ShardingRole (mspMongod_ReplicaSetConfig m) = ShardingRoleConfigServer then [''--configsvr'']
     else [])"

text \<open>The first match of \<open>v([0-9].*)\<close> in a line.\<close>

fun find_version :: "string \<Rightarrow> string option" where
  "find_version [] = None"
| "find_version (c # cs) =
    (if c = CHR ''v'' \<and> (case cs of [] \<Rightarrow> False | d # _ \<Rightarrow> char_digit d \<noteq> None)
     then Some (takeWhile (\<lambda>x. x \<noteq> CHR 0x0A) cs) else find_version cs)"

definition checkMongoDVersion :: "environment \<Rightarrow> nat \<Rightarrow> string + bool" where
  "checkMongoDVersion E n =
    (let prefix = ''processmanager.checkMongoDVersion() failed with: '' in
     case env_version E n of
       Inl err \<Rightarrow> Inl (prefix @ err)
     | Inr line \<Rightarrow>
         (let version = (case line of None \<Rightarrow> [] | Some l \<Rightarrow> (case find_version l of None \<Rightarrow> [] | Some v \<Rightarrow> v)) in
          case env_semver E version of Inl err \<Rightarrow> Inl (prefix @ err) | Inr ok \<Rightarrow> Inr ok))"

definition SpawnProcess :: "environment \<Rightarrow> mspMongod \<Rightarrow> unit slave_action" where
  "SpawnProcess E m =
    bindM (external E (checkMongoDVersion E)) (\<lambda>check. case check of
      Inl err \<Rightarrow> raiseM (''processmanager.checkMongoDVersion() failed with: '' @ err)
    | Inr ok \<Rightarrow>
    if \<not> ok then raiseM (''processmanager.checkMongoDVersion() failed. mongod'' @ [CHR 0x27] @ ''s version must be >= 3.2'')
    else bindM (createDirSkeleton E m) (\<lambda>_.
    bindM (UpdateKeyfile E m) (\<lambda>_.
    bindM (external E (\<lambda>n. env_start E n (buildMongodCommandLine E m))) (\<lambda>err. case err of
      Some e \<Rightarrow> raiseM e
    | None \<Rightarrow> modifyM (\<lambda>s. s\<lparr>sl_running := insert (mspMongod_Port m) (sl_running s)\<rparr>)))))"

definition KillProcess :: "environment \<Rightarrow> PortNumber \<Rightarrow> unit slave_action" where
  "KillProcess E port =
    bindM (HasProcess port) (\<lambda>exists.
    if exists then bindM (external E (\<lambda>n. env_kill E n port)) (\<lambda>err. case err of
        Some e \<Rightarrow> raiseM e | None \<Rightarrow> returnM ())
    else returnM ())"

section \<open>The controller\<close>

definition slave_error :: "string \<Rightarrow> string \<Rightarrow> string \<Rightarrow> mspError" where
  "slave_error ident desc long =
    \<lparr>Error_Identifier = ident, Error_Description = desc, Error_LongDescription = long\<rparr>"

text \<open>What the goroutine for one directory sends.  A panic of the configurator is not recovered there: it ends the
  slave.\<close>

definition mongod_status :: "environment \<Rightarrow> slave_state \<Rightarrow> PortNumber \<times> string \<Rightarrow> string + mspMongod" where
  "mongod_status E s entry = (case entry of (port, replSetName) \<Rightarrow>
    let base = zeroMspMongod\<lparr>mspMongod_Port := port, mspMongod_State := MongodStateNotRunning\<rparr> in
    if port \<in> sl_running s then
      (case sl_credentials s port of
         None \<Rightarrow> Inr (base\<lparr>mspMongod_StatusError := Some (slave_error SlaveGetMongodStatusError
           ''Consistency problem in Slave'' ''MongodConfigurator cannot query MongodConfiguration without credentials'')\<rparr>)
       | Some cred \<Rightarrow> (case env_query E port cred of
           Inl panic \<Rightarrow> Inl panic
         | Inr (Inl err) \<Rightarrow> Inr (base\<lparr>mspMongod_StatusError := Some err\<rparr>)
         | Inr (Inr mongod) \<Rightarrow> Inr mongod))
    else Inr (base\<lparr>mspMongod_ReplicaSetConfig := zeroReplicaSetConfig\<lparr>Config_ReplicaSetName := replSetName\<rparr>\<rparr>))"

text \<open>All goroutines have to answer.\<close>

fun collect :: "(string + 'a) list \<Rightarrow> string + 'a list" where
  "collect [] = Inr []"
| "collect (x # xs) = (case x of Inl panic \<Rightarrow> Inl panic | Inr y \<Rightarrow> map_sum id (Cons y) (collect xs))"

text \<open>A Go slice that may be nil is an option.  \<open>arrival\<close> is the order in which the goroutines answer.\<close>

definition RequestStatus ::
  "environment \<Rightarrow> (mspMongod list \<Rightarrow> mspMongod list) \<Rightarrow> (mspMongod list option \<times> mspError option) slave_action" where
  "RequestStatus E arrival =
    bindM (tryM (parseProcessDirTree E)) (\<lambda>r. case r of
      Inl err \<Rightarrow> returnM (Some [], Some (slave_error SlaveGetMongodStatusError
        ''Unable to read mongods from db directory'' (''ProcessManager.ExistingDataDirectories() failed: '' @ err)))
    | Inr found \<Rightarrow> bindM (getM (\<lambda>s. collect (map (mongod_status E s) found))) (\<lambda>answers. case answers of
        Inl panic \<Rightarrow> raiseM panic
      | Inr mongods \<Rightarrow> returnM (Some (arrival mongods), None)))"

text \<open>A call of the configurator in the goroutine of a request: its panic unwinds the handler, and the deferred
  \<open>Unlock\<close> is run.\<close>

definition or_panic :: "(string + 'a) slave_action \<Rightarrow> 'a slave_action" where
  "or_panic act = bindM act (\<lambda>r. case r of Inl panic \<Rightarrow> raiseM panic | Inr x \<Rightarrow> returnM x)"

definition apply_configuration :: "environment \<Rightarrow> mspMongod \<Rightarrow> mspError option slave_action" where
  "apply_configuration E m = or_panic (external E (\<lambda>n. env_apply E n m))"

definition destroy_if_gone :: "environment \<Rightarrow> mspMongod \<Rightarrow> unit slave_action" where
  "destroy_if_gone E m =
    bindM (HasProcess (mspMongod_Port m)) (\<lambda>running.
    if running then returnM () else bindM (tryM (destroyDataDirectory E m)) (\<lambda>_. returnM ()))"

definition EstablishMongodState :: "environment \<Rightarrow> mspMongod \<Rightarrow> mspError option slave_action" where
  "EstablishMongodState E m =
    bindM (modifyM (\<lambda>s. s\<lparr>sl_credentials := (sl_credentials s)(mspMongod_Port m \<mapsto>
      Config_RootCredential (mspMongod_ReplicaSetConfig m))\<rparr>)) (\<lambda>_.
    if mspMongod_State m = MongodStateRunning then
      bindM (HasProcess (mspMongod_Port m)) (\<lambda>running.
      bindM (if running then returnM (Inr ()) else tryM (SpawnProcess E m)) (\<lambda>r. case r of
        Inl err \<Rightarrow> returnM (Some (slave_error SlaveSpawnError
          (''Unable to start a Mongod instance on port `'' @ dec (unat (mspMongod_Port m)) @ ''`'')
          (''ProcessManager.spawnProcess() failed to spawn Mongod on port `'' @ dec (unat (mspMongod_Port m)) @
           ''` with name `'' @ Config_ReplicaSetName (mspMongod_ReplicaSetConfig m) @ ''`: '' @ err)))
      | Inr _ \<Rightarrow> apply_configuration E m))
    else if mspMongod_State m = MongodStateNotRunning then
      bindM (apply_configuration E m) (\<lambda>_. returnM None)
    else if mspMongod_State m = MongodStateDestroyed then
      bindM (apply_configuration E m) (\<lambda>_. bindM (destroy_if_gone E m) (\<lambda>_. returnM None))
    else if mspMongod_State m = MongodStateForceDestroyed then
      bindM (tryM (KillProcess E (mspMongod_Port m))) (\<lambda>r. case r of
        Inl err \<Rightarrow> returnM (Some (slave_error SlaveShutdownError
          (''could not kill Mongod on port `'' @ dec (unat (mspMongod_Port m)) @ ''`'') (''error was: '' @ err)))
      | Inr _ \<Rightarrow> bindM (destroy_if_gone E m) (\<lambda>_. returnM None))
    else returnM (Some (slave_error BadStateDescription ''Unknown desired state'' [])))"

definition RsInitiate :: "environment \<Rightarrow> RsInitiateMessage \<Rightarrow> mspError option slave_action" where
  "RsInitiate E m = or_panic (external E (\<lambda>n. env_initiate E n m))"

end
