(* ===== verification/SlaveProps.thy ===== *)
theory SlaveProps
  imports SlaveController
begin

text \<open>
  What the slave's controller guarantees: which files a request can change and when data is deleted, what a spawned
  process finds, and what is reported to the master.
\<close>

section \<open>Rules\<close>

lemma count_call_simps [simp]:
  "sl_fs (count_call s) = sl_fs s" "sl_running (count_call s) = sl_running s"
  "sl_credentials (count_call s) = sl_credentials s"
  by (simp_all add: count_call_def)

lemma run_syscall_part:
  assumes "\<And>err. env_sys E (sl_calls s) \<noteq> None \<Longrightarrow> R err ((count_call s)\<lparr>sl_fs := part (sl_calls s) (sl_fs s)\<rparr>)"
    and "\<And>err. f (sl_fs s) = Inl err \<Longrightarrow> R err (count_call s)"
    and "\<And>x fs. f (sl_fs s) = Inr (x, fs) \<Longrightarrow> Q x ((count_call s)\<lparr>sl_fs := fs\<rparr>)"
  shows "run (syscall_part E part f) Q R s"
  using assms by (auto simp: run_def syscall_part_def split: option.split sum.split prod.split)

lemma run_syscall:
  assumes "\<And>err. R err (count_call s)"
    and "\<And>x fs. f (sl_fs s) = Inr (x, fs) \<Longrightarrow> Q x ((count_call s)\<lparr>sl_fs := fs\<rparr>)"
  shows "run (syscall E f) Q R s"
proof -
  have same: "(count_call s)\<lparr>sl_fs := sl_fs s\<rparr> = count_call s"
    by (simp add: count_call_def)
  show ?thesis
    unfolding syscall_def by (rule run_syscall_part) (simp_all add: assms same)
qed

lemma run_syscall_ok:
  assumes "env_sys E (sl_calls s) = None" and "f (sl_fs s) = Inr (x, fs)"
    and "Q x ((count_call s)\<lparr>sl_fs := fs\<rparr>)"
  shows "run (syscall E f) Q R s"
  using assms by (simp add: run_def syscall_def syscall_part_def)

lemma run_external [run_simps]:
  "run (external E f) Q R s = Q (f (sl_calls s)) ((count_call s)\<lparr>sl_running := sl_running s - env_exits E (sl_calls s)\<rparr>)"
  by (simp add: run_def external_def)

lemma run_tryM [run_simps]: "run (tryM m) Q R s = run m (\<lambda>x. Q (Inr x)) (\<lambda>e. Q (Inl e)) s"
  by (simp add: tryM_def run_def catchM_def bindM_def returnM_def split: prod.split sum.split)

lemma run_HasProcess [run_simps]: "run (HasProcess port) Q R s = Q (port \<in> sl_running s) s"
  by (simp add: HasProcess_def run_simps)

section \<open>Which files a request changes\<close>

text \<open>A computation that keeps a property of the files, however it ends.\<close>

definition keeps_files :: "(fs \<Rightarrow> bool) \<Rightarrow> 'a slave_action \<Rightarrow> bool" where
  "keeps_files P act \<longleftrightarrow> (\<forall>s. P (sl_fs s) \<longrightarrow> run act (\<lambda>_ s'. P (sl_fs s')) (\<lambda>_ s'. P (sl_fs s')) s)"

named_theorems keeping

lemma kept_returnM [keeping]: "keeps_files P (returnM x)"
  and kept_raiseM [keeping]: "keeps_files P (raiseM e)"
  and kept_getM [keeping]: "keeps_files P (getM g)"
  and kept_external [keeping]: "keeps_files P (external E h)"
  and kept_HasProcess [keeping]: "keeps_files P (HasProcess port)"
  by (simp_all add: keeps_files_def run_simps)

lemma kept_modifyM [keeping]: "(\<And>s. sl_fs (k s) = sl_fs s) \<Longrightarrow> keeps_files P (modifyM k)"
  by (simp add: keeps_files_def run_simps)

lemma kept_bindM [keeping]: "keeps_files P act \<Longrightarrow> (\<And>x. keeps_files P (f x)) \<Longrightarrow> keeps_files P (bindM act f)"
  unfolding keeps_files_def run_bindM by (blast intro: run_mono)

lemma kept_tryM [keeping]: "keeps_files P act \<Longrightarrow> keeps_files P (tryM act)"
  unfolding keeps_files_def run_tryM by (blast intro: run_mono)

lemma kept_or_panic [keeping]: "keeps_files P act \<Longrightarrow> keeps_files P (or_panic act)"
  unfolding or_panic_def by (auto intro!: keeping split: sum.split)

lemma kept_forM: "(\<And>x. x \<in> set xs \<Longrightarrow> keeps_files P (f x)) \<Longrightarrow> keeps_files P (forM xs f)"
  by (induction xs) (simp_all add: keeping)

lemma kept_syscall_part:
  assumes "\<And>n fs. P fs \<Longrightarrow> P (part n fs)" and "\<And>x fs fs'. P fs \<Longrightarrow> f fs = Inr (x, fs') \<Longrightarrow> P fs'"
  shows "keeps_files P (syscall_part E part f)"
  unfolding keeps_files_def by (auto intro!: run_syscall_part assms(1) intro: assms(2))

lemma kept_syscall: "(\<And>x fs fs'. P fs \<Longrightarrow> f fs = Inr (x, fs') \<Longrightarrow> P fs') \<Longrightarrow> keeps_files P (syscall E f)"
  unfolding syscall_def by (rule kept_syscall_part)

text \<open>What spawning a Mongod may change: missing directories on the way to its data and its configuration are made, and
  its key file is written.\<close>

definition prepares :: "environment \<Rightarrow> mspMongod \<Rightarrow> fs \<Rightarrow> fs \<Rightarrow> bool" where
  "prepares E m fs fs' \<longleftrightarrow> (\<forall>q. map_of fs' q \<noteq> map_of fs q \<longrightarrow>
     map_of fs q = None \<and> map_of fs' q = Some Directory \<and>
       (below q (processDBPathDir (env_dataDir E) m) \<or> below q (processConfDir (env_dataDir E) m)) \<or>
     q = processKeyfilePath (env_dataDir E) m \<and> map_of fs q \<noteq> Some Directory \<and> (\<exists>content. map_of fs' q = Some (RegularFile content)))"

lemma map_of_mkdirs:
  "mkdirs ps fs = Inr (u, fs') \<Longrightarrow> map_of fs' q = (if q \<in> set ps \<and> map_of fs q = None then Some Directory else map_of fs q)"
  by (induction ps fs rule: mkdirs.induct) (auto split: option.splits node.splits)

lemma prepares_mkdirs:
  assumes "prepares E m fs0 fs" and "mkdirs ps fs = Inr (u, fs')"
    and "\<And>q. q \<in> set ps \<Longrightarrow> below q (processDBPathDir (env_dataDir E) m) \<or> below q (processConfDir (env_dataDir E) m)"
  shows "prepares E m fs0 fs'"
  unfolding prepares_def
proof (intro allI impI)
  fix q assume changed: "map_of fs' q \<noteq> map_of fs0 q"
  show "map_of fs0 q = None \<and> map_of fs' q = Some Directory \<and>
       (below q (processDBPathDir (env_dataDir E) m) \<or> below q (processConfDir (env_dataDir E) m)) \<or>
     q = processKeyfilePath (env_dataDir E) m \<and> map_of fs0 q \<noteq> Some Directory \<and> (\<exists>content. map_of fs' q = Some (RegularFile content))"
  proof (cases "q \<in> set ps \<and> map_of fs q = None")
    case True
    moreover have "map_of fs0 q = None"
      using assms(1) True unfolding prepares_def by (metis option.distinct(1))
    ultimately show ?thesis
      using assms(3) by (simp add: map_of_mkdirs [OF assms(2)])
  next
    case False
    then have "map_of fs' q = map_of fs q"
      by (simp add: map_of_mkdirs [OF assms(2)])
    then show ?thesis
      using assms(1) changed unfolding prepares_def by metis
  qed
qed

lemma prepares_put_file:
  assumes "prepares E m fs0 fs" and "put_file (processKeyfilePath (env_dataDir E) m) content fs = Inr (u, fs')"
  shows "prepares E m fs0 fs'"
proof -
  have no_dir: "map_of fs (processKeyfilePath (env_dataDir E) m) \<noteq> Some Directory"
    and fs': "fs' = AList.update (processKeyfilePath (env_dataDir E) m) (RegularFile content) fs"
    using assms(2) by (auto simp: put_file_def split: if_splits)
  have "map_of fs0 (processKeyfilePath (env_dataDir E) m) \<noteq> Some Directory"
    using assms(1) no_dir unfolding prepares_def by (metis option.distinct(1))
  then show ?thesis
    using assms(1) unfolding prepares_def fs' by (auto simp: update_conv')
qed

lemma below_prefixes: "q \<in> set (prefixes_of p) \<Longrightarrow> below q p"
  by (auto simp: prefixes_of_def below_def take_is_prefix)

lemma below_process_dirs:
  "below q (processRootDir dataDir m) \<Longrightarrow> below q (processDBPathDir dataDir m)"
  by (auto simp: below_def processDBPathDir_def Join_component)

lemma kept_MkdirAll:
  assumes "p \<in> {processRootDir (env_dataDir E) m, processDBPathDir (env_dataDir E) m, processConfDir (env_dataDir E) m}"
  shows "keeps_files (prepares E m fs0) (MkdirAll E p)"
proof -
  have dirs: "below q (processDBPathDir (env_dataDir E) m) \<or> below q (processConfDir (env_dataDir E) m)"
    if "q \<in> set (prefixes_of p)" for q
    using below_prefixes [OF that] assms below_process_dirs by blast
  show ?thesis
    unfolding MkdirAll_def made_before_def
    by (rule kept_syscall_part)
      (auto split: sum.split intro: prepares_mkdirs dest: set_takeWhileD dirs)
qed

lemma kept_SpawnProcess: "keeps_files (prepares E m fs0) (SpawnProcess E m)"
proof -
  have put: "keeps_files (prepares E m fs0) (syscall E (put_file (processKeyfilePath (env_dataDir E) m) content))" for content
    by (rule kept_syscall) (rule prepares_put_file)
  have get: "keeps_files (prepares E m fs0) (fileContentEqualToBytes E p content)" for p content
    unfolding fileContentEqualToBytes_def ReadFile_def
    by (intro keeping kept_syscall) (auto split: option.splits node.splits)
  have "keeps_files (prepares E m fs0) (createDirSkeleton E m)"
    unfolding createDirSkeleton_def by (auto intro!: keeping kept_forM kept_MkdirAll split: sum.split)
  then show ?thesis
    unfolding SpawnProcess_def UpdateKeyfile_def Let_def
    by (auto intro!: keeping put get split: sum.split option.split)
qed

text \<open>What destroying a Mongod may remove: what is below its directory, and all of that unless the call fails.\<close>

definition removes :: "environment \<Rightarrow> mspMongod \<Rightarrow> slave_state \<Rightarrow> slave_state \<Rightarrow> bool" where
  "removes E m s s' \<longleftrightarrow> (\<exists>gone. sl_fs s' = remove_some gone (processRootDir (env_dataDir E) m) (sl_fs s)) \<and>
     (env_sys E (sl_calls s' - 1) = None \<longrightarrow> sl_fs s' = remove_below (processRootDir (env_dataDir E) m) (sl_fs s))"

lemma run_destroy_if_gone:
  assumes "\<And>s'. sl_fs s' = sl_fs s \<or> (mspMongod_Port m \<notin> sl_running s' \<and> removes E m s s') \<Longrightarrow> Q () s'"
  shows "run (destroy_if_gone E m) Q R s"
proof -
  have all: "\<exists>gone. remove_below p fs = remove_some gone p fs" for p fs
    by (rule exI [of _ "\<lambda>_. True"]) (simp add: remove_below_def remove_some_def)
  have some: "\<exists>gone. remove_some gone' p fs = remove_some gone p fs" for gone' p fs
    by blast
  show ?thesis
    unfolding destroy_if_gone_def destroyDataDirectory_def RemoveAll_def
    by (auto simp: run_simps count_call_def removes_def all some intro!: assms run_syscall_part)
qed

text \<open>How a request changes the files, and that it panics only with the configurator.\<close>

definition changes_files :: "environment \<Rightarrow> mspMongod \<Rightarrow> slave_state \<Rightarrow> slave_state \<Rightarrow> bool" where
  "changes_files E m s s' \<longleftrightarrow> sl_fs s' = sl_fs s \<or>
     mspMongod_State m = MongodStateRunning \<and> mspMongod_Port m \<notin> sl_running s \<and> prepares E m (sl_fs s) (sl_fs s') \<or>
     mspMongod_State m \<in> {MongodStateDestroyed, MongodStateForceDestroyed} \<and> mspMongod_Port m \<notin> sl_running s' \<and>
       removes E m s s'"

lemma run_or_panic [run_simps]:
  "run (or_panic act) Q R s = run act (\<lambda>r s'. case r of Inl panic \<Rightarrow> R panic s' | Inr x \<Rightarrow> Q x s') R s"
proof -
  have "(\<lambda>r. run (case r of Inl panic \<Rightarrow> raiseM panic | Inr x \<Rightarrow> returnM x) Q R) =
      (\<lambda>r s'. case r of Inl panic \<Rightarrow> R panic s' | Inr x \<Rightarrow> Q x s')"
    by (intro ext) (simp add: run_simps split: sum.split)
  then show ?thesis
    by (simp add: or_panic_def run_bindM)
qed

lemma run_apply_configuration:
  assumes "\<And>x s'. sl_fs s' = sl_fs s \<Longrightarrow> sl_running s' \<subseteq> sl_running s \<Longrightarrow> Q x s'"
    and "\<And>panic s'. sl_fs s' = sl_fs s \<Longrightarrow> \<exists>n. env_apply E n m = Inl panic \<Longrightarrow> R panic s'"
  shows "run (apply_configuration E m) Q R s"
  unfolding apply_configuration_def run_or_panic run_external
  by (auto split: sum.split intro!: assms)

lemma run_KillProcess:
  assumes "\<And>x s'. sl_fs s' = sl_fs s \<Longrightarrow> Q x s'" and "\<And>e s'. sl_fs s' = sl_fs s \<Longrightarrow> R e s'"
  shows "run (KillProcess E port) Q R s"
  unfolding KillProcess_def by (auto simp: run_simps assms split: option.split)

lemma run_EstablishMongodState:
  "run (EstablishMongodState E m) (\<lambda>_. changes_files E m s)
    (\<lambda>panic s'. changes_files E m s s' \<and> (\<exists>n. env_apply E n m = Inl panic)) s"
proof -
  have spawn: "run (SpawnProcess E m) (\<lambda>_ s'. prepares E m (sl_fs s) (sl_fs s')) (\<lambda>_ s'. prepares E m (sl_fs s) (sl_fs s')) s1"
    if "sl_fs s1 = sl_fs s" for s1
    using kept_SpawnProcess [of E m "sl_fs s"] that by (simp add: keeps_files_def prepares_def)
  have apply_after: "run (apply_configuration E m) (\<lambda>_. changes_files E m s)
      (\<lambda>panic s'. changes_files E m s s' \<and> (\<exists>n. env_apply E n m = Inl panic)) s1"
    if "changes_files E m s s1" "mspMongod_State m = MongodStateRunning" for s1
    by (rule run_apply_configuration) (use that in \<open>auto simp: changes_files_def\<close>)
  show ?thesis
    unfolding EstablishMongodState_def
    by (auto simp: run_simps slave_error_def changes_files_def removes_def
        intro!: run_mono [OF spawn] apply_after run_apply_configuration run_KillProcess run_destroy_if_gone split: sum.split)
qed

text \<open>C9: whatever the environment does, establishing a state changes files in two cases only.  If the Mongod is to
  run and was not running, missing directories on the way to its own data and configuration are made and its key
  file is written; no other file is touched, and nothing is removed.  If it is to be destroyed and has no process left,
  nothing but its own directory and what is below it is removed, and all of that unless the removal fails.
  The request ends with an error or a result, unless the configurator panics.\<close>

theorem controller_deletes_safely:
  "case EstablishMongodState E m s of (r, s') \<Rightarrow>
    (sl_fs s' = sl_fs s \<or>
     mspMongod_State m = MongodStateRunning \<and> mspMongod_Port m \<notin> sl_running s \<and> prepares E m (sl_fs s) (sl_fs s') \<or>
     mspMongod_State m \<in> {MongodStateDestroyed, MongodStateForceDestroyed} \<and> mspMongod_Port m \<notin> sl_running s' \<and>
       removes E m s s') \<and>
    (case r of Inl panic \<Rightarrow> (\<exists>n. env_apply E n m = Inl panic) | Inr _ \<Rightarrow> True)"
  using run_EstablishMongodState [of E m s] unfolding run_def changes_files_def
  by (cases "EstablishMongodState E m s"; cases "fst (EstablishMongodState E m s)") auto

section \<open>What a spawned process finds\<close>

lemma mkdirs_keeps: "mkdirs ps fs = Inr (u, fs') \<Longrightarrow> map_of fs q = Some n \<Longrightarrow> map_of fs' q = Some n"
proof (induction ps fs rule: mkdirs.induct)
  case (2 p ps fs)
  then show ?case
    by (cases "map_of fs p"; cases "q = p") (auto split: node.splits)
qed simp

lemma mkdirs_creates: "mkdirs ps fs = Inr (u, fs') \<Longrightarrow> p \<in> set ps \<Longrightarrow> map_of fs' p = Some Directory"
  by (induction ps fs rule: mkdirs.induct) (auto split: option.splits node.splits dest: mkdirs_keeps)

lemma self_in_prefixes_of: "snd p \<noteq> [] \<Longrightarrow> p \<in> set (prefixes_of p)"
  unfolding prefixes_of_def set_map by (rule image_eqI [where x = "length (snd p)"]) (auto simp: Suc_le_eq)

lemma MkdirAll_keeps:
  "map_of (sl_fs s) q = Some n \<Longrightarrow>
    run (MkdirAll E p) (\<lambda>_ s'. map_of (sl_fs s') q = Some n) (\<lambda>_ s'. map_of (sl_fs s') q = Some n) s"
  unfolding MkdirAll_def made_before_def by (rule run_syscall_part) (auto dest: mkdirs_keeps split: sum.split)

interpretation skeleton: loop_body "MkdirAll E" "\<lambda>_. True" "\<lambda>s. map_of (sl_fs s) q = Some n" "\<lambda>_. True" for E q n
  by unfold_locales (simp add: MkdirAll_keeps)

lemma MkdirAll_creates:
  "snd p \<noteq> [] \<Longrightarrow> run (MkdirAll E p) (\<lambda>_ s'. map_of (sl_fs s') p = Some Directory) (\<lambda>_ _. True) s"
  unfolding MkdirAll_def by (rule run_syscall_part) (auto dest: mkdirs_creates self_in_prefixes_of)

lemma forM_MkdirAll_creates:
  assumes "\<forall>p\<in>set ps. snd p \<noteq> []"
  shows "run (forM ps (MkdirAll E)) (\<lambda>_ s'. \<forall>p\<in>set ps. map_of (sl_fs s') p = Some Directory) (\<lambda>_ _. True) s"
  using assms
proof (induction ps arbitrary: s)
  case Nil
  then show ?case by (simp add: run_simps)
next
  case (Cons p ps)
  have "run (forM ps (MkdirAll E)) (\<lambda>_ s'. \<forall>p\<in>set (p # ps). map_of (sl_fs s') p = Some Directory) (\<lambda>_ _. True) s'"
    if "map_of (sl_fs s') p = Some Directory" for s'
    using run_conj [OF Cons.IH skeleton.forM_keeps [OF _ that]] Cons.prems
    by (auto elim!: run_mono)
  then show ?case
    using Cons.prems by (intro run_forM_Cons run_mono [OF MkdirAll_creates]) auto
qed


definition is_dir :: "path \<Rightarrow> slave_state \<Rightarrow> bool" where
  "is_dir p s \<longleftrightarrow> map_of (sl_fs s) p = Some Directory"

lemma run_syscall_any:
  assumes "\<And>fs x. f (sl_fs s) = Inr (x, fs) \<Longrightarrow> Q x ((count_call s)\<lparr>sl_fs := fs\<rparr>)"
  shows "run (syscall E f) Q (\<lambda>_ _. True) s"
  by (rule run_syscall) (simp_all add: assms)

lemma put_file_Inr:
  assumes "put_file p content fs = Inr (u, fs')"
  shows "map_of fs' p = Some (RegularFile content) \<and> (map_of fs q = Some Directory \<longrightarrow> map_of fs' q = Some Directory)"
  using assms by (auto simp: put_file_def update_conv' split: if_splits)

lemma run_UpdateKeyfile:
  assumes "is_dir q s"
  shows "run (UpdateKeyfile E m)
    (\<lambda>_ s'. map_of (sl_fs s') (processKeyfilePath (env_dataDir E) m) = Some (RegularFile (mspMongod_KeyfileContent m)) \<and>
      is_dir q s') (\<lambda>_ _. True) s"
  using assms unfolding UpdateKeyfile_def fileContentEqualToBytes_def Let_def ReadFile_def run_bindM run_if is_dir_def
  by (intro run_syscall_any)
    (auto split: option.splits node.splits intro!: run_syscall_any simp: run_simps dest!: put_file_Inr [where q = q])

lemma run_createDirSkeleton:
  "run (createDirSkeleton E m) (\<lambda>_ s'. is_dir (processDBPathDir (env_dataDir E) m) s') (\<lambda>_ _. True) s"
proof -
  have "snd (processDBPathDir (env_dataDir E) m) \<noteq> []" and "snd (processConfDir (env_dataDir E) m) \<noteq> []"
    by (simp_all add: processDBPathDir_def processConfDir_def Join_component)
  then have two: "run (forM [processDBPathDir (env_dataDir E) m, processConfDir (env_dataDir E) m] (MkdirAll E))
      (\<lambda>_ s'. is_dir (processDBPathDir (env_dataDir E) m) s') (\<lambda>_ _. True) s'" for s'
    by (intro run_mono [OF forM_MkdirAll_creates]) (simp_all add: is_dir_def)
  show ?thesis
    unfolding createDirSkeleton_def run_bindM run_tryM run_case_sum
    by (rule run_forM_Cons, rule run_mono [OF run_trivial], rule run_mono [OF two]) (simp_all add: run_simps)
qed

lemma run_SpawnProcess:
  "run (SpawnProcess E m)
    (\<lambda>_ s'. map_of (sl_fs s') (processKeyfilePath (env_dataDir E) m) = Some (RegularFile (mspMongod_KeyfileContent m)) \<and>
      is_dir (processDBPathDir (env_dataDir E) m) s') (\<lambda>_ _. True) s" (is "run _ ?Q _ _")
proof -
  have "run (bindM (createDirSkeleton E m) (\<lambda>_. bindM (UpdateKeyfile E m) (\<lambda>_.
      bindM (external E (\<lambda>n. env_start E n (buildMongodCommandLine E m))) (\<lambda>err. case err of
        Some e \<Rightarrow> raiseM e
      | None \<Rightarrow> modifyM (\<lambda>s. s\<lparr>sl_running := insert (mspMongod_Port m) (sl_running s)\<rparr>))))) ?Q (\<lambda>_ _. True) s'" for s'
    by (rule run_bind_seq [OF run_createDirSkeleton], erule run_bind_seq [OF run_UpdateKeyfile])
      (auto simp: run_simps is_dir_def split: option.split)
  then show ?thesis
    unfolding SpawnProcess_def by (simp add: run_external run_raiseM run_bindM [of "external E _"] split: sum.split)
qed

text \<open>A computation that leaves the credentials alone and starts no process but that of one port.\<close>

definition tame :: "PortNumber \<Rightarrow> 'a slave_action \<Rightarrow> bool" where
  "tame p m \<longleftrightarrow> (\<forall>s. sl_credentials (snd (m s)) = sl_credentials s \<and>
     sl_running (snd (m s)) \<subseteq> insert p (sl_running s))"

lemma tame_run:
  "tame p m \<Longrightarrow> run m (\<lambda>_ s'. sl_credentials s' = sl_credentials s) (\<lambda>_ s'. sl_credentials s' = sl_credentials s) s"
  by (auto simp: tame_def run_def split: prod.split sum.split dest!: spec [of _ s])

lemma tame_basic:
  "tame p (returnM x)" "tame p (raiseM e)" "tame p (getM g)" "tame p (syscall_part E part f)" "tame p (syscall E f)"
  "tame p (external E h)"
  "tame p (HasProcess q)"
  "(\<And>s. sl_credentials (k s) = sl_credentials s \<and> sl_running (k s) \<subseteq> insert p (sl_running s)) \<Longrightarrow> tame p (modifyM k)"
  by (auto simp: tame_def returnM_def raiseM_def getM_def syscall_def syscall_part_def external_def modifyM_def HasProcess_def
      split: option.split sum.split prod.split)

lemma tame_bindM:
  assumes "tame p m" and "\<And>x. tame p (f x)"
  shows "tame p (bindM m f)"
  unfolding tame_def
proof
  fix s
  show "sl_credentials (snd (bindM m f s)) = sl_credentials s \<and> sl_running (snd (bindM m f s)) \<subseteq> insert p (sl_running s)"
    using assms(1) assms(2) unfolding tame_def
    by (cases "m s"; cases "fst (m s)") (fastforce simp: bindM_def dest: spec [of _ s])+
qed

lemma tame_tryM: "tame p m \<Longrightarrow> tame p (tryM m)"
  by (auto simp: tame_def tryM_def catchM_def bindM_def returnM_def split: prod.split sum.split)
    (metis insert_iff snd_conv subsetD)+

lemma tame_or_panic: "tame p m \<Longrightarrow> tame p (or_panic m)"
  unfolding or_panic_def by (auto intro!: tame_bindM tame_basic split: sum.split)

lemma tame_forM: "(\<And>x. tame p (f x)) \<Longrightarrow> tame p (forM xs f)"
  by (induction xs) (simp_all add: tame_basic tame_bindM)

lemmas tame_rules = tame_basic tame_bindM tame_tryM tame_or_panic tame_forM

lemma tame_SpawnProcess: "tame (mspMongod_Port m) (SpawnProcess E m)"
  unfolding SpawnProcess_def createDirSkeleton_def UpdateKeyfile_def
    fileContentEqualToBytes_def Let_def MkdirAll_def ReadFile_def
  by (auto intro!: tame_rules split: sum.split option.split)

lemma tame_KillProcess: "tame p (KillProcess E q)"
  unfolding KillProcess_def by (auto intro!: tame_rules split: option.split)

lemma tame_destroy_if_gone: "tame p (destroy_if_gone E m)"
  unfolding destroy_if_gone_def destroyDataDirectory_def RemoveAll_def
  by (auto intro!: tame_rules)

text \<open>When a Mongod is to run and is not running, either the master gets a spawn error, or
  afterwards the key file holds exactly the content it sent and the data directory exists, whatever
  the file system contained before; the credential for later queries is stored in any case.\<close>

theorem spawn_prepares_data:
  assumes "mspMongod_State m = MongodStateRunning" and "mspMongod_Port m \<notin> sl_running s"
  shows "\<exists>r s'. EstablishMongodState E m s = (r, s') \<and>
    sl_credentials s' (mspMongod_Port m) = Some (Config_RootCredential (mspMongod_ReplicaSetConfig m)) \<and>
    ((\<exists>err. r = Inr (Some err) \<and> Error_Identifier err = SlaveSpawnError) \<or>
     map_of (sl_fs s') (processKeyfilePath (env_dataDir E) m) = Some (RegularFile (mspMongod_KeyfileContent m)) \<and>
     map_of (sl_fs s') (processDBPathDir (env_dataDir E) m) = Some Directory)"
proof -
  let ?s = "s\<lparr>sl_credentials := (sl_credentials s)(mspMongod_Port m \<mapsto>
      Config_RootCredential (mspMongod_ReplicaSetConfig m))\<rparr>"
  let ?P = "\<lambda>r s'. sl_credentials s' (mspMongod_Port m) = Some (Config_RootCredential (mspMongod_ReplicaSetConfig m)) \<and>
    ((\<exists>err. r = Inr (Some err) \<and> Error_Identifier err = SlaveSpawnError) \<or>
     map_of (sl_fs s') (processKeyfilePath (env_dataDir E) m) = Some (RegularFile (mspMongod_KeyfileContent m)) \<and>
     map_of (sl_fs s') (processDBPathDir (env_dataDir E) m) = Some Directory)"
  have "run (EstablishMongodState E m) (\<lambda>r. ?P (Inr r)) (\<lambda>e. ?P (Inl e)) s"
    unfolding EstablishMongodState_def
    using run_conj [OF run_SpawnProcess [of E m ?s] tame_run [OF tame_SpawnProcess]]
    by (auto simp: assms run_simps apply_configuration_def slave_error_def is_dir_def elim!: run_mono split: sum.split)
  then show ?thesis
    unfolding run_def by (auto split: prod.splits sum.splits)
qed


definition example_environment :: environment where
  "example_environment = \<lparr>env_dataDir = ''/srv'', env_sys = (\<lambda>_. None), env_partial = (\<lambda>_ _. False),
     env_version = (\<lambda>_. Inr (Some ''db version v3.2.6'')), env_semver = (\<lambda>_. Inr True),
     env_start = (\<lambda>_ _. None), env_kill = (\<lambda>_ _. None), env_apply = (\<lambda>_ _. Inr None),
     env_query = (\<lambda>p _. Inr (Inr (zeroMspMongod\<lparr>mspMongod_Port := p\<rparr>))),
     env_initiate = (\<lambda>_ _. Inr None),
     env_exits = (\<lambda>_. {})\<rparr>"

definition example_slave_state :: slave_state where
  "example_slave_state = \<lparr>sl_fs = [((True, [''srv'']), Directory)], sl_running = {}, sl_credentials = (\<lambda>_. None), sl_calls = 0\<rparr>"

definition example_order :: "MongodState \<Rightarrow> mspMongod" where
  "example_order st = (example_msp_mongod 18080 ''rs'')\<lparr>mspMongod_State := st, mspMongod_KeyfileContent := ''key''\<rparr>"

lemma example_processRootDir:
  "processRootDir ''/srv'' (example_order st) = (True, [''srv'', ''mongods'', ''18080:rs''])"
proof -
  have "managedDirMongods ''/srv'' = (True, [''srv'', ''mongods''])"
    by (simp add: managedDirMongods_def Clean_def Join_def)
  then show ?thesis
    by (simp add: processRootDir_def Join_def root_dirname_def example_order_def example_msp_mongod_def
        dec.simps digit_char_def char_of_def bit_0)
qed

lemma example_paths:
  "processDBPathDir ''/srv'' (example_order st) = (True, [''srv'', ''mongods'', ''18080:rs'', ''dbpath''])"
  "processConfDir ''/srv'' (example_order st) = (True, [''srv'', ''mongods'', ''18080:rs'', ''conf''])"
  "processKeyfilePath ''/srv'' (example_order st) = (True, [''srv'', ''mongods'', ''18080:rs'', ''conf'', ''keyfile''])"
  by (simp_all add: processDBPathDir_def processConfDir_def processKeyfilePath_def example_processRootDir Join_def)

lemma example_version: "checkMongoDVersion example_environment n = Inr True"
  by (simp add: checkMongoDVersion_def example_environment_def char_digit_def)

lemmas example_run = bindM_def returnM_def tryM_def catchM_def modifyM_def getM_def external_def syscall_def
  syscall_part_def or_panic_def
  HasProcess_def count_call_def

lemma example_spawn_succeeds:
  "fst (EstablishMongodState example_environment (example_order MongodStateRunning) example_slave_state) = Inr None"
proof -
  have [simp]: "env_dataDir example_environment = ''/srv''" "env_sys example_environment n = None"
    "env_start example_environment n args = None" "env_apply example_environment n m = Inr None" 
    "env_exits example_environment n = {}" for n args m
    by (simp_all add: example_environment_def)
  have [simp]: "mspMongod_Port (example_order st) = 18080" "mspMongod_State (example_order st) = st"
    "mspMongod_KeyfileContent (example_order st) = ''key''" for st
    by (simp_all add: example_order_def example_msp_mongod_def)
  show ?thesis
    by (simp add: EstablishMongodState_def SpawnProcess_def createDirSkeleton_def UpdateKeyfile_def
      fileContentEqualToBytes_def MkdirAll_def
      ReadFile_def put_file_def apply_configuration_def example_run example_version example_paths example_processRootDir
      prefixes_of_def example_slave_state_def upt_rec update_conv' Let_def)
qed

theorem spawn_prepares_data_witness:
  "\<exists>s'. EstablishMongodState example_environment (example_order MongodStateRunning) example_slave_state = (Inr None, s') \<and>
    map_of (sl_fs s') (processKeyfilePath ''/srv'' (example_order MongodStateRunning)) = Some (RegularFile ''key'')"
  using spawn_prepares_data [of "example_order MongodStateRunning" example_slave_state example_environment]
    example_spawn_succeeds
  by (auto simp: example_order_def example_msp_mongod_def example_slave_state_def example_environment_def)

section \<open>The states a slave reaches\<close>

text \<open>
  A slave starts without processes and credentials, answers requests, and processes may end at
  any time.  A panic while the slave reports ends it; a panic of another request ends that request only.
\<close>

inductive slave_reach :: "environment \<Rightarrow> slave_state \<Rightarrow> bool" for E where
  start: "sl_running s = {} \<Longrightarrow> sl_credentials s = (\<lambda>_. None) \<Longrightarrow> slave_reach E s"
| establish: "slave_reach E s \<Longrightarrow> slave_reach E (snd (EstablishMongodState E m s))"
| initiate: "slave_reach E s \<Longrightarrow> slave_reach E (snd (RsInitiate E msg s))"
| report: "slave_reach E s \<Longrightarrow> RequestStatus E arrival s = (Inr result, s') \<Longrightarrow> slave_reach E s'"
| ended: "slave_reach E s \<Longrightarrow> slave_reach E (s\<lparr>sl_running := sl_running s - ended\<rparr>)"

lemma EstablishMongodState_credentials:
  "sl_running (snd (EstablishMongodState E m s)) \<subseteq> insert (mspMongod_Port m) (sl_running s) \<and>
   sl_credentials (snd (EstablishMongodState E m s)) =
     (sl_credentials s)(mspMongod_Port m \<mapsto> Config_RootCredential (mspMongod_ReplicaSetConfig m))"
proof -
  have rest: "tame (mspMongod_Port m) f \<Longrightarrow> EstablishMongodState E m = bindM (modifyM (\<lambda>s. s\<lparr>sl_credentials :=
      (sl_credentials s)(mspMongod_Port m \<mapsto> Config_RootCredential (mspMongod_ReplicaSetConfig m))\<rparr>)) (\<lambda>_. f) \<Longrightarrow> ?thesis" for f
    by (auto simp: tame_def bindM_def modifyM_def dest!: spec [of _ "s\<lparr>sl_credentials :=
      (sl_credentials s)(mspMongod_Port m \<mapsto> Config_RootCredential (mspMongod_ReplicaSetConfig m))\<rparr>"])
  show ?thesis
    by (rule rest [OF _ EstablishMongodState_def])
      (auto intro!: tame_rules tame_SpawnProcess tame_KillProcess tame_destroy_if_gone
        simp: apply_configuration_def split: sum.split)
qed


lemma slave_reach_credentials: "slave_reach E s \<Longrightarrow> sl_running s \<subseteq> dom (sl_credentials s)"
proof (induction rule: slave_reach.induct)
  case (establish s m)
  then show ?case
    using EstablishMongodState_credentials [of E m s] by (simp add: dom_def subset_iff) blast
next
  case (initiate s msg)
  then show ?case by (auto simp: RsInitiate_def external_def or_panic_def bindM_def raiseM_def returnM_def split: sum.split)
next
  case (report s arrival result s')
  then show ?case
    by (auto simp: RequestStatus_def parseProcessDirTree_def ReadDir_def syscall_def syscall_part_def tryM_def catchM_def bindM_def
        returnM_def raiseM_def getM_def split: option.splits sum.splits prod.splits)
qed auto

section \<open>What the master is told\<close>

lemma distinct_add_entry: "distinct (map fst found) \<Longrightarrow> distinct (map fst (add_entry e found))"
  by (auto simp: add_entry_def distinct_update split: prod.split node.split sum.split)

lemma distinct_fold_add_entry: "distinct (map fst found) \<Longrightarrow> distinct (map fst (fold add_entry es found))"
  by (induction es arbitrary: found) (simp_all add: distinct_add_entry)

lemma parseProcessDirTree_distinct:
  "parseProcessDirTree E s = (Inr found, s') \<Longrightarrow> distinct (map fst found)"
  by (auto simp: parseProcessDirTree_def bindM_def returnM_def distinct_fold_add_entry split: prod.splits sum.splits)

lemma parseProcessDirTree_state:
  "parseProcessDirTree E s = (r, s') \<Longrightarrow> sl_running s' = sl_running s \<and> sl_credentials s' = sl_credentials s"
  by (auto simp: parseProcessDirTree_def ReadDir_def syscall_def syscall_part_def bindM_def returnM_def
      split: option.splits sum.splits prod.splits node.splits)

lemma collect_Inr: "collect xs = Inr ys \<longleftrightarrow> xs = map Inr ys"
proof (induction xs arbitrary: ys)
  case (Cons x xs)
  then show ?case
    by (cases x; cases ys; cases "collect xs") auto
qed auto

lemma collect_Inl: "(\<exists>panic. collect xs = Inl panic) \<longleftrightarrow> (\<exists>panic. Inl panic \<in> set xs)"
proof (induction xs)
  case (Cons x xs)
  then show ?case
    by (cases x; cases "collect xs") auto
qed simp

text \<open>
  The contract of the interface \<open>MongodConfigurator\<close> the controller relies on: a configuration
  it returns names the port that was asked.
\<close>

locale configurator =
  fixes query :: "PortNumber \<Rightarrow> MongodCredential \<Rightarrow> string + (mspError + mspMongod)"
  assumes own_port: "query p cred = Inr (Inr m) \<Longrightarrow> mspMongod_Port m = p"
begin

lemma mongod_status_port:
  assumes "env_query E = query" and "mongod_status E s entry = Inr m"
  shows "mspMongod_Port m = fst entry"
  using own_port assms by (auto simp: mongod_status_def Let_def split: prod.splits option.splits sum.splits if_splits)

lemma mongod_status_told:
  assumes E: "env_query E = query" and "entry \<in> set found" and "sl_running s \<subseteq> dom (sl_credentials s)"
    and m: "mongod_status E s entry = Inr m"
  shows "\<exists>name. (mspMongod_Port m, name) \<in> set found \<and>
      (if mspMongod_Port m \<in> sl_running s then
         \<exists>cred. sl_credentials s (mspMongod_Port m) = Some cred \<and>
           (query (mspMongod_Port m) cred = Inr (Inr m) \<or>
            (\<exists>err. query (mspMongod_Port m) cred = Inr (Inl err) \<and> mspMongod_StatusError m = Some err))
       else mspMongod_StatusError m = None \<and> mspMongod_State m = MongodStateNotRunning \<and>
         Config_ReplicaSetName (mspMongod_ReplicaSetConfig m) = name)"
proof -
  have port: "mspMongod_Port m = fst entry"
    by (rule mongod_status_port [OF E m])
  show ?thesis
  proof (cases "fst entry \<in> sl_running s")
    case True
    then obtain cred where cred: "sl_credentials s (fst entry) = Some cred"
      using assms(3) by blast
    then have "query (fst entry) cred = Inr (Inr m) \<or>
        (\<exists>err. query (fst entry) cred = Inr (Inl err) \<and> mspMongod_StatusError m = Some err)"
      using True m by (cases entry) (auto simp: mongod_status_def Let_def E split: sum.splits)
    then show ?thesis
      using True assms(2) cred by (cases entry) (auto simp: port)
  next
    case False
    then show ?thesis
      using assms(2) m by (cases entry) (auto simp: port mongod_status_def Let_def zeroMspMongod_def)
  qed
qed

lemma mongod_status_panic:
  assumes E: "env_query E = query" and "sl_running s \<subseteq> dom (sl_credentials s)"
  shows "(\<exists>panic. mongod_status E s entry = Inl panic) \<longleftrightarrow> fst entry \<in> sl_running s \<and>
    (\<exists>cred panic. sl_credentials s (fst entry) = Some cred \<and> query (fst entry) cred = Inl panic)"
  by (cases entry) (auto simp: mongod_status_def Let_def E split: option.split sum.split)

lemma report_complete:
  assumes E: "env_query E = query" and reach: "slave_reach E s"
    and arrival: "\<And>ms. mset (arrival ms) = mset ms"
    and found: "parseProcessDirTree E s = (Inr found, s')"
  shows "if \<exists>(port, name)\<in>set found. port \<in> sl_running s \<and>
      (\<exists>cred panic. sl_credentials s port = Some cred \<and> query port cred = Inl panic)
    then \<exists>panic. RequestStatus E arrival s = (Inl panic, s')
    else \<exists>ms. RequestStatus E arrival s = (Inr (Some ms, None), s') \<and>
    distinct (map mspMongod_Port ms) \<and> mset (map mspMongod_Port ms) = mset (map fst found) \<and>
    (\<forall>m\<in>set ms. \<exists>name. (mspMongod_Port m, name) \<in> set found \<and>
      (if mspMongod_Port m \<in> sl_running s then
         \<exists>cred. sl_credentials s (mspMongod_Port m) = Some cred \<and>
           (query (mspMongod_Port m) cred = Inr (Inr m) \<or>
            (\<exists>err. query (mspMongod_Port m) cred = Inr (Inl err) \<and> mspMongod_StatusError m = Some err))
       else mspMongod_StatusError m = None \<and> mspMongod_State m = MongodStateNotRunning \<and>
         Config_ReplicaSetName (mspMongod_ReplicaSetConfig m) = name))"
proof -
  have creds: "sl_running s \<subseteq> dom (sl_credentials s)"
    by (rule slave_reach_credentials [OF reach])
  have "sl_running s' = sl_running s" "sl_credentials s' = sl_credentials s"
    using parseProcessDirTree_state [OF found] by auto
  then have same: "mongod_status E s' = mongod_status E s"
    by (intro ext) (simp add: mongod_status_def Let_def split: prod.split)
  let ?answers = "map (mongod_status E s) found"
  have asked: "RequestStatus E arrival s = (case collect ?answers of
      Inl panic \<Rightarrow> (Inl panic, s') | Inr ms \<Rightarrow> (Inr (Some (arrival ms), None), s'))"
    by (simp add: RequestStatus_def tryM_def catchM_def bindM_def found returnM_def raiseM_def getM_def same split: sum.split)
  have panics: "(\<exists>panic. collect ?answers = Inl panic) \<longleftrightarrow> (\<exists>(port, name)\<in>set found. port \<in> sl_running s \<and>
      (\<exists>cred panic. sl_credentials s port = Some cred \<and> query port cred = Inl panic))"
  proof -
    have "(\<exists>panic. collect ?answers = Inl panic) \<longleftrightarrow> (\<exists>entry\<in>set found. \<exists>panic. mongod_status E s entry = Inl panic)"
      unfolding collect_Inl by (auto simp: image_iff eq_commute)
    then show ?thesis
      unfolding mongod_status_panic [OF E creds] by force
  qed
  show ?thesis
  proof (cases "collect ?answers")
    case (Inl panic)
    then show ?thesis
      using panics asked by auto
  next
    case (Inr ms)
    then have ms: "map (mongod_status E s) found = map Inr ms"
      by (simp add: collect_Inr)
    then have answer: "\<exists>entry\<in>set found. mongod_status E s entry = Inr m" if "m \<in> set ms" for m
      using that by (metis imageE imageI set_map)
    have "map mspMongod_Port ms = map fst found"
      using ms by (intro nth_equalityI) (auto simp: list_eq_iff_nth_eq intro!: mongod_status_port [OF E])
    then have mset: "mset (map mspMongod_Port (arrival ms)) = mset (map fst found)"
      by (metis arrival mset_map)
    then have "distinct (map mspMongod_Port (arrival ms))"
      using parseProcessDirTree_distinct [OF found] by (metis mset_eq_imp_distinct_iff)
    moreover have "set (arrival ms) = set ms"
      by (metis arrival set_mset_mset)
    moreover have "\<exists>name. (mspMongod_Port m, name) \<in> set found \<and>
        (if mspMongod_Port m \<in> sl_running s then
           \<exists>cred. sl_credentials s (mspMongod_Port m) = Some cred \<and>
             (query (mspMongod_Port m) cred = Inr (Inr m) \<or>
              (\<exists>err. query (mspMongod_Port m) cred = Inr (Inl err) \<and> mspMongod_StatusError m = Some err))
         else mspMongod_StatusError m = None \<and> mspMongod_State m = MongodStateNotRunning \<and>
           Config_ReplicaSetName (mspMongod_ReplicaSetConfig m) = name)" if "m \<in> set ms" for m
      using answer [OF that] mongod_status_told [OF E _ creds] by blast
    moreover have "RequestStatus E arrival s = (Inr (Some (arrival ms), None), s')"
      by (simp add: asked Inr)
    moreover have "\<not> (\<exists>(port, name)\<in>set found. port \<in> sl_running s \<and>
        (\<exists>cred panic. sl_credentials s port = Some cred \<and> query port cred = Inl panic))"
      using panics Inr by simp
    ultimately show ?thesis
      using mset by (subst if_not_P) (assumption, intro exI [of _ "arrival ms"] conjI ballI, simp_all only:)
  qed
qed

end

end
