(* ===== verification/SlaveMongod.thy ===== *)
theory SlaveMongod
  imports SlaveProps
begin

text \<open>
  The configurator of the slave, \<open>src/slave/mongodconfigurator.go\<close>, over the commands of \<open>src/slave/mongodb.go\<close>:
  what a Mongod is asked for its configuration, and which commands bring it to the desired one.

  MongoDB and its driver are a parameter: whether a connection is made, whether the login
  succeeds, and how a command is answered after those sent before on the connection.  Documents
  (\<open>bson.M\<close>) are tables of keys.  A value of another type than the code expects makes it panic.
\<close>

section \<open>Documents and commands\<close>

datatype bson = BInt int | BFloat rat | BString string | BBool bool | BDoc "(string \<times> bson) list"
  | BArray "bson list" | BOther string

type_synonym doc = "(string \<times> bson) list"

record mongo_error =
  me_text :: string
  me_code :: "int option"

datatype mongo_command = IsMaster | ReplSetGetStatus | ReplSetGetConfig | ReplSetReconfig doc | GetCmdLineOpts
  | Shutdown int | ReplSetStepDown int | CreateUser string string | ReplSetInitiate doc bool

record mongo =
  mongo_dial :: "PortNumber \<Rightarrow> string option"
  mongo_login :: "PortNumber \<Rightarrow> MongodCredential \<Rightarrow> bool"
  mongo_run :: "PortNumber \<Rightarrow> mongo_command list \<Rightarrow> mongo_command \<Rightarrow> doc \<times> mongo_error option"
  mongo_soft_shutdown :: int
  mongo_print :: "doc \<Rightarrow> string"
  mongo_print_error :: "mongo_error \<Rightarrow> string"

text \<open>An early return with an error of the protocol, or a panic.\<close>

datatype failure = Returned mspError | Panics string

type_synonym 'a mongo_action = "(mongo_command list, failure, 'a) sem"

definition run_command :: "mongo \<Rightarrow> PortNumber \<Rightarrow> mongo_command \<Rightarrow> (doc \<times> mongo_error option) mongo_action" where
  "run_command M port cmd = (\<lambda>sent. (Inr (mongo_run M port sent cmd), sent @ [cmd]))"

definition port_text :: "PortNumber \<Rightarrow> string" where
  "port_text port = dec (unat port)"

definition returned :: "string \<Rightarrow> string \<Rightarrow> string \<Rightarrow> failure" where
  "returned ident desc long = Returned (slave_error ident desc long)"

abbreviation wrong_type :: failure where
  "wrong_type \<equiv> Panics ''interface conversion''"

section \<open>The commands of a connection\<close>

definition connect :: "mongo \<Rightarrow> PortNumber \<Rightarrow> MongodCredential \<Rightarrow> bool mongo_action" where
  "connect M port credential =
    (case mongo_dial M port of
       Some err \<Rightarrow> raiseM (returned SlaveConnectMongodError
         (''Establishing a connection to mongod instance on port '' @ port_text port @ '' failed'')
         (''ConcreteMongodConfigurator.connect() failed with: '' @ err))
     | None \<Rightarrow> returnM (mongo_login M port credential))"

definition ctx_IsMaster :: "mongo \<Rightarrow> PortNumber \<Rightarrow> doc mongo_action" where
  "ctx_IsMaster M port =
    bindM (run_command M port IsMaster) (\<lambda>(isMasterRes, err). case err of
      Some e \<Rightarrow> raiseM (returned SlaveGetMongodStatusError
        (''Getting master information from mongod instance on port '' @ port_text port @ '' failed'')
        (''mgo/Session.Run('' @ [CHR 0x22] @ ''isMaster'' @ [CHR 0x22] @ '') failed with'' @ [CHR 0x0A] @ me_text e))
    | None \<Rightarrow> returnM isMasterRes)"

text \<open>A removed Mongod answers with an error that holds its state under another name.\<close>

definition ctx_ReplSetGetStatus :: "mongo \<Rightarrow> PortNumber \<Rightarrow> (int \<times> doc) mongo_action" where
  "ctx_ReplSetGetStatus M port =
    bindM (run_command M port ReplSetGetStatus) (\<lambda>(status, cmdRunErr).
    case map_of status (if cmdRunErr \<noteq> None then ''state'' else ''myState'') of
      Some (BInt state) \<Rightarrow> returnM (state, status)
    | Some _ \<Rightarrow> raiseM wrong_type
    | None \<Rightarrow> raiseM (returned SlaveGetMongodStatusError
        (''Getting Replica Set status information from Mongod instance on port `'' @ port_text port @ ''` failed'')
        (if cmdRunErr \<noteq> None
         then ''mgo/Session.Run('' @ [CHR 0x22] @ ''replSetGetStatus'' @ [CHR 0x22] @ '') result was '' @ mongo_print M status
         else ''`myState` field does not exist in mgo/Session.Run('' @ [CHR 0x22] @ ''replSetGetStatus'' @ [CHR 0x22] @
           '') result: '' @ mongo_print M status)))"

definition ctx_ReplSetGetConfig :: "mongo \<Rightarrow> PortNumber \<Rightarrow> doc mongo_action" where
  "ctx_ReplSetGetConfig M port =
    bindM (run_command M port ReplSetGetConfig) (\<lambda>(configResult, err).
    if err \<noteq> None then raiseM (returned SlaveGetMongodStatusError
      (''Getting Replica Set config information from Mongod instance on port `'' @ port_text port @ ''` failed'')
      (''mgo/Session.Run('' @ [CHR 0x22] @ ''replSetGetConfig'' @ [CHR 0x22] @ '') result was '' @ mongo_print M configResult))
    else case map_of configResult ''config'' of Some (BDoc config) \<Rightarrow> returnM config | _ \<Rightarrow> raiseM wrong_type)"

definition ctx_ParseCmdLineShardingRole :: "mongo \<Rightarrow> PortNumber \<Rightarrow> string mongo_action" where
  "ctx_ParseCmdLineShardingRole M port =
    bindM (run_command M port GetCmdLineOpts) (\<lambda>(cmdLineOptsRes, err). case err of
      Some e \<Rightarrow> raiseM (returned SlaveGetMongodStatusError
        (''Getting command line options from Mongod instance on port `'' @ port_text port @ ''` failed'')
        (''getCmdLineOpts failed with error: '' @ mongo_print_error M e))
    | None \<Rightarrow> (case map_of cmdLineOptsRes ''parsed'' of
        Some (BDoc parsed) \<Rightarrow> (case map_of parsed ''sharding'' of
            None \<Rightarrow> returnM []
          | Some (BDoc sharding) \<Rightarrow> (case map_of sharding ''clusterRole'' of
              None \<Rightarrow> returnM [] | Some (BString role) \<Rightarrow> returnM role | Some _ \<Rightarrow> raiseM wrong_type)
          | Some _ \<Rightarrow> raiseM wrong_type)
      | _ \<Rightarrow> raiseM wrong_type))"

text \<open>The commands that return an error or nothing.\<close>

definition ctx_ShutdownWithTimeout :: "mongo \<Rightarrow> PortNumber \<Rightarrow> int \<Rightarrow> mspError option mongo_action" where
  "ctx_ShutdownWithTimeout M port seconds =
    bindM (run_command M port (Shutdown seconds)) (\<lambda>(_, err). returnM (map_option (\<lambda>e. slave_error SlaveShutdownError
      (''Could not shutdown Mongod with timeout `'' @ show_int seconds @ ''` on port `'' @ port_text port @
        ''` (mongodb returned error)'')
      (''mgo/Session.Run('' @ [CHR 0x22] @ ''shutdown'' @ [CHR 0x22] @ '') failed with: '' @ me_text e)) err))"

definition ctx_ReplSetStepDown :: "mongo \<Rightarrow> PortNumber \<Rightarrow> int \<Rightarrow> mspError option mongo_action" where
  "ctx_ReplSetStepDown M port seconds =
    bindM (run_command M port (ReplSetStepDown seconds)) (\<lambda>(_, err). returnM (map_option (\<lambda>e. slave_error SlaveShutdownError
      (''could not step down Mongod on port `'' @ port_text port @ ''` (mongodb returned error)'')
      (''mgo/Session.Run('' @ [CHR 0x22] @ ''replSetStepDown'' @ [CHR 0x22] @ '') failed: '' @ me_text e)) err))"

text \<open>The roles and the write concern of the command are constants.\<close>

definition ctx_CreateUser :: "mongo \<Rightarrow> PortNumber \<Rightarrow> string \<Rightarrow> string \<Rightarrow> string \<Rightarrow> mspError option mongo_action" where
  "ctx_CreateUser M port user password purpose =
    bindM (run_command M port (CreateUser user password)) (\<lambda>(_, err). returnM (map_option (\<lambda>e.
      slave_error SlaveReplicaSetCreateRootUserError (''Could not create '' @ purpose @ '' `'' @ user @ ''`'')
        (''Command `createUser` on port `'' @ port_text port @ ''` failed: '' @ mongo_print_error M e)) err))"

text \<open>The format of the long description does not fit its arguments, and the one caller drops the error:
  the text is left to the parameters.\<close>

definition ctx_ReplSetReconfig :: "mongo \<Rightarrow> PortNumber \<Rightarrow> doc \<Rightarrow> mspError option mongo_action" where
  "ctx_ReplSetReconfig M port config =
    bindM (run_command M port (ReplSetReconfig config)) (\<lambda>(_, err). returnM (map_option (\<lambda>e.
      slave_error SlaveReplicaSetConfigError ''Could not reconfigure Replica Set''
        (mongo_print M [(''replSetReconfig'', BDoc config)] @ mongo_print_error M e)) err))"

text \<open>Code 23: the replica set is already initialised.\<close>

definition ctx_ReplSetInitiate :: "mongo \<Rightarrow> PortNumber \<Rightarrow> doc \<Rightarrow> bool \<Rightarrow> bool mongo_action" where
  "ctx_ReplSetInitiate M port config force =
    bindM (run_command M port (ReplSetInitiate config force)) (\<lambda>(_, err). case err of
      None \<Rightarrow> returnM False
    | Some e \<Rightarrow> if me_code e = Some 23 then returnM True
        else raiseM (returned SlaveReplicaSetInitError
          (''Replica Set could not be initiated on Mongod on port `'' @ port_text port @ ''`'')
          (''Command `replSetInitiate` failed:'' @ [CHR 0x0A] @ ''Config: '' @ mongo_print M config @ [CHR 0x0A] @
            ''Error: '' @ mongo_print_error M e)))"

section \<open>The members of a configuration\<close>

definition host_port_string :: "HostPort \<Rightarrow> string" where
  "host_port_string hp = HostPort_Hostname hp @ [CHR '':''] @ port_text (HostPort_Port hp)"

text \<open>The documents of the current members are shared: a desired member writes into the document it
  finds.  They are kept in a store addressed by the host string they are found under.\<close>

datatype member_ref = Reported string | Fresh doc

type_synonym reported_members = "(string \<times> doc) list"

fun scan_members :: "bson list \<Rightarrow> int list \<times> reported_members \<Rightarrow> failure + (int list \<times> reported_members)" where
  "scan_members [] acc = Inr acc"
| "scan_members (BDoc member # vs) (usedIds, reported) =
    (case map_of member ''_id'' of
       Some (BInt i) \<Rightarrow> (case map_of member ''host'' of
           Some (BString host) \<Rightarrow> scan_members vs (i # usedIds, AList.update host member reported)
         | _ \<Rightarrow> Inl wrong_type)
     | _ \<Rightarrow> Inl wrong_type)"
| "scan_members (_ # vs) acc = Inl wrong_type"

definition free_id :: "int list \<Rightarrow> int option" where
  "free_id usedIds = find (\<lambda>j. j \<notin> set usedIds) (map int [0..<256])"

definition write_member :: "ReplicaSetMember \<Rightarrow> doc \<Rightarrow> doc" where
  "write_member m member =
    AList.update ''votes'' (BInt (Member_Votes m))
      (AList.update ''priority'' (BFloat (Member_Priority m))
        (AList.update ''host'' (BString (host_port_string (Member_HostPort m))) member))"

definition no_free_id :: mspError where
  "no_free_id = slave_error SlaveReplicaSetConfigError ''Could not find free member `_id`''
     ''No free member `_id` left for ReplicaSetMembers of ReplicaSet of Mongod''"

fun place_members :: "ReplicaSetMember list \<Rightarrow> int list \<times> reported_members \<times> member_ref list \<Rightarrow>
    failure + (reported_members \<times> member_ref list)" where
  "place_members [] (usedIds, reported, refs) = Inr (reported, refs)"
| "place_members (m # ms) (usedIds, reported, refs) =
    (let host = host_port_string (Member_HostPort m) in
     case map_of reported host of
       Some member \<Rightarrow>
         place_members ms (usedIds, AList.update host (write_member m member) reported, refs @ [Reported host])
     | None \<Rightarrow> (case free_id usedIds of
           None \<Rightarrow> Inl (Returned no_free_id)
         | Some j \<Rightarrow> place_members ms (j # usedIds, reported, refs @ [Fresh (write_member m [(''_id'', BInt j)])])))"

definition deref :: "reported_members \<Rightarrow> member_ref \<Rightarrow> doc" where
  "deref reported ref = (case ref of Fresh member \<Rightarrow> member
     | Reported host \<Rightarrow> (case map_of reported host of None \<Rightarrow> [] | Some member \<Rightarrow> member))"

definition current_members :: "doc \<Rightarrow> failure + bson list" where
  "current_members config = (case map_of config ''members'' of
     None \<Rightarrow> Inr [] | Some (BArray vs) \<Rightarrow> Inr vs | Some _ \<Rightarrow> Inl wrong_type)"

definition updateMembersList :: "doc \<Rightarrow> ReplicaSetMember list \<Rightarrow> failure + doc list" where
  "updateMembersList currentConfig desiredMembers =
    (case current_members currentConfig of
       Inl f \<Rightarrow> Inl f
     | Inr vs \<Rightarrow> (case scan_members vs ([], []) of
         Inl f \<Rightarrow> Inl f
       | Inr (usedIds, reported) \<Rightarrow> (case place_members desiredMembers (usedIds, reported, []) of
           Inl f \<Rightarrow> Inl f
         | Inr (reported', refs) \<Rightarrow> Inr (map (deref reported') refs))))"

definition next_version :: "doc \<Rightarrow> int" where
  "next_version config = (case map_of config ''version'' of Some (BInt ver) \<Rightarrow> signed_take_bit 63 (ver + 1) | _ \<Rightarrow> 1)"

definition updateConfig :: "doc \<Rightarrow> mspMongod \<Rightarrow> failure + doc" where
  "updateConfig currentConfig m =
    (let rsConfig = mspMongod_ReplicaSetConfig m;
         config = AList.update ''_id'' (BString (Config_ReplicaSetName rsConfig)) currentConfig in
     case updateMembersList config (Config_ReplicaSetMembers rsConfig) of
       Inl f \<Rightarrow> Inl f
     | Inr resultingMembers \<Rightarrow>
         Inr (AList.update ''configsvr'' (BBool (Config_ShardingRole rsConfig = ShardingRoleConfigServer))
           (AList.update ''version'' (BInt (next_version config))
             (AList.update ''members'' (BArray (map BDoc resultingMembers)) config))))"

section \<open>Fetching the configuration\<close>

definition state_of_replSet :: "int \<Rightarrow> MongodState" where
  "state_of_replSet state =
    (if state = 3 then MongodStateRecovering else if state = 1 then MongodStateRunning
     else if state = 2 then MongodStateRunning else if state = 10 then MongodStateRemoved else '''')"

text \<open>\<open>strconv.Atoi\<close>, whose error is dropped, cut down to 16 bits: a number out of range is the
  greatest or least one of 64 bits.\<close>

definition Atoi16 :: "string \<Rightarrow> PortNumber" where
  "Atoi16 str =
    (let (neg, digits) = (case str of
         c # cs \<Rightarrow> if c = CHR ''-'' then (True, cs) else if c = CHR ''+'' then (False, cs) else (False, str)
       | [] \<Rightarrow> (False, [])) in
     if digits = [] then 0 else case parse_digits 0 digits of
       None \<Rightarrow> 0
     | Some v \<Rightarrow> if neg then word_of_int (- min (int v) (2 ^ 63)) else word_of_int (min (int v) (2 ^ 63 - 1)))"

definition read_member :: "bson \<Rightarrow> failure + ReplicaSetMember" where
  "read_member v = (case v of
     BDoc member \<Rightarrow> (case map_of member ''host'' of
         Some (BString host) \<Rightarrow> (case split_on (CHR '':'') host of
             hostname # portStr # _ \<Rightarrow> (case map_of member ''priority'' of
                 Some (BFloat priority) \<Rightarrow> (case map_of member ''votes'' of
                     Some (BInt votes) \<Rightarrow> Inr \<lparr>Member_HostPort = \<lparr>HostPort_Hostname = hostname, HostPort_Port = Atoi16 portStr\<rparr>,
                         Member_Priority = priority, Member_Votes = votes\<rparr>
                   | _ \<Rightarrow> Inl wrong_type)
               | _ \<Rightarrow> Inl wrong_type)
           | _ \<Rightarrow> Inl (Panics ''index out of range''))
       | _ \<Rightarrow> Inl wrong_type)
   | _ \<Rightarrow> Inl wrong_type)"

fun read_members :: "bson list \<Rightarrow> failure + ReplicaSetMember list" where
  "read_members [] = Inr []"
| "read_members (v # vs) = (case read_member v of Inl f \<Rightarrow> Inl f
    | Inr m \<Rightarrow> (case read_members vs of Inl f \<Rightarrow> Inl f | Inr ms \<Rightarrow> Inr (m # ms)))"

definition lift_failure :: "failure + 'a \<Rightarrow> 'a mongo_action" where
  "lift_failure r = (case r of Inl f \<Rightarrow> raiseM f | Inr x \<Rightarrow> returnM x)"

definition role_of :: "mongo \<Rightarrow> PortNumber \<Rightarrow> doc \<Rightarrow> ShardingRole mongo_action" where
  "role_of M port config =
    (let fall_back = bindM (ctx_ParseCmdLineShardingRole M port) (\<lambda>role. returnM
         (if role = ''shardsvr'' then ShardingRoleShardServer
          else if role = ''configsvr'' then ShardingRoleConfigServer else ShardingRoleNone)) in
     case map_of config ''configsvr'' of
       Some (BBool b) \<Rightarrow> if b then returnM ShardingRoleConfigServer else fall_back
     | Some _ \<Rightarrow> raiseM wrong_type
     | None \<Rightarrow> fall_back)"

definition fetchConfiguration :: "mongo \<Rightarrow> PortNumber \<Rightarrow> mspMongod mongo_action" where
  "fetchConfiguration M port =
    bindM (ctx_IsMaster M port) (\<lambda>isMasterRes.
    if map_of isMasterRes ''setName'' = None
    then returnM (zeroMspMongod\<lparr>mspMongod_Port := port, mspMongod_State := MongodStateUninitialized\<rparr>)
    else bindM (ctx_ReplSetGetStatus M port) (\<lambda>(state, status).
    let mongod = zeroMspMongod\<lparr>mspMongod_Port := port, mspMongod_State := state_of_replSet state\<rparr> in
    if mspMongod_State mongod = MongodStateRemoved then returnM mongod
    else bindM (ctx_ReplSetGetConfig M port) (\<lambda>config.
    bindM (case map_of status ''set'' of Some (BString name) \<Rightarrow> returnM name | _ \<Rightarrow> raiseM wrong_type) (\<lambda>name.
    bindM (bindM (lift_failure (current_members config)) (\<lambda>vs. lift_failure (read_members vs))) (\<lambda>members.
    bindM (role_of M port config) (\<lambda>shardingRole.
    returnM (mongod\<lparr>mspMongod_ReplicaSetConfig := zeroReplicaSetConfig\<lparr>Config_ReplicaSetName := name,
      Config_ReplicaSetMembers := members, Config_ShardingRole := shardingRole\<rparr>\<rparr>)))))))"

definition MongodConfiguration :: "mongo \<Rightarrow> PortNumber \<Rightarrow> MongodCredential \<Rightarrow> mspMongod mongo_action" where
  "MongodConfiguration M port cred = bindM (connect M port cred) (\<lambda>_. fetchConfiguration M port)"

section \<open>Applying a configuration\<close>

definition is_primary :: "doc \<Rightarrow> bool" where
  "is_primary isMasterRes \<longleftrightarrow> map_of isMasterRes ''ismaster'' = Some (BBool True)"

definition protocol_error :: "mspMongod \<Rightarrow> mspError" where
  "protocol_error m = slave_error SlaveMongodProtocolError ''Protocol error''
     (''Unexpected msp.Mongod.State value '' @ mspMongod_State m @ '' received'')"

definition create_root_user :: "mongo \<Rightarrow> mspMongod \<Rightarrow> unit mongo_action" where
  "create_root_user M m =
    bindM (ctx_CreateUser M (mspMongod_Port m)
        (Credential_Username (Config_RootCredential (mspMongod_ReplicaSetConfig m)))
        (Credential_Password (Config_RootCredential (mspMongod_ReplicaSetConfig m))) ''MAMID administrative user'')
      (\<lambda>_. returnM ())"

text \<open>After the shutdown of a removed Mongod the code falls through to the protocol error.\<close>

definition apply_destroyed :: "mongo \<Rightarrow> mspMongod \<Rightarrow> bool \<Rightarrow> mspError option mongo_action" where
  "apply_destroyed M m isMaster =
    bindM (ctx_ReplSetGetStatus M (mspMongod_Port m)) (\<lambda>(replSetState, _).
    if replSetState = 10
    then bindM (ctx_ShutdownWithTimeout M (mspMongod_Port m) (mongo_soft_shutdown M)) (\<lambda>_. returnM (Some (protocol_error m)))
    else if isMaster then ctx_ReplSetStepDown M (mspMongod_Port m) 120
    else returnM None)"

definition apply_running :: "mongo \<Rightarrow> mspMongod \<Rightarrow> bool \<Rightarrow> mspError option mongo_action" where
  "apply_running M m isMaster =
    (if isMaster then
       bindM (ctx_ReplSetGetConfig M (mspMongod_Port m)) (\<lambda>config.
       bindM (lift_failure (updateConfig config m)) (\<lambda>config'.
       bindM (ctx_ReplSetReconfig M (mspMongod_Port m) config') (\<lambda>_. returnM None)))
     else returnM None)"

text \<open>An error the code returns early is the result, as the errors it returns at the end; a panic is left.\<close>

definition returning :: "mspError option mongo_action \<Rightarrow> mspError option mongo_action" where
  "returning act = catchM act (\<lambda>f. case f of Returned e \<Rightarrow> returnM (Some e) | Panics p \<Rightarrow> raiseM (Panics p))"

definition apply_state :: "mongo \<Rightarrow> mspMongod \<Rightarrow> mspError option mongo_action" where
  "apply_state M m =
    bindM (ctx_IsMaster M (mspMongod_Port m)) (\<lambda>isMasterRes.
    let isMaster = is_primary isMasterRes in
    if mspMongod_State m = MongodStateDestroyed then apply_destroyed M m isMaster
    else if mspMongod_State m = MongodStateNotRunning
    then ctx_ShutdownWithTimeout M (mspMongod_Port m) (mongo_soft_shutdown M)
    else if mspMongod_State m = MongodStateRunning then apply_running M m isMaster
    else returnM (Some (protocol_error m)))"

definition ApplyMongodConfiguration :: "mongo \<Rightarrow> mspMongod \<Rightarrow> mspError option mongo_action" where
  "ApplyMongodConfiguration M m = returning (
    bindM (connect M (mspMongod_Port m) (Config_RootCredential (mspMongod_ReplicaSetConfig m))) (\<lambda>loginSuccessful.
    bindM (if loginSuccessful then returnM () else create_root_user M m) (\<lambda>_. apply_state M m)))"

definition InitiateReplicaSet_on :: "mongo \<Rightarrow> RsInitiateMessage \<Rightarrow> mspError option mongo_action" where
  "InitiateReplicaSet_on M msg = returning (
    bindM (connect M (RsInitiate_Port msg) (Config_RootCredential (RsInitiate_ReplicaSetConfig msg))) (\<lambda>_.
    bindM (lift_failure (updateConfig [] (zeroMspMongod\<lparr>mspMongod_Port := RsInitiate_Port msg,
        mspMongod_ReplicaSetConfig := RsInitiate_ReplicaSetConfig msg\<rparr>))) (\<lambda>config.
    bindM (ctx_ReplSetInitiate M (RsInitiate_Port msg) config True) (\<lambda>_. returnM None))))"

end
