(* ===== verification/SlaveMongodProps.thy ===== *)
theory SlaveMongodProps
  imports SlaveMongod
begin

text \<open>
  What the configurator guarantees: the member identifiers of a replica set are kept and never
  given twice, a written configuration is read back, and a Mongod is only shut down when that is
  what is wanted of it.
\<close>

section \<open>Member documents\<close>

definition doc_id :: "doc \<Rightarrow> int option" where
  "doc_id d = (case map_of d ''_id'' of Some (BInt i) \<Rightarrow> Some i | _ \<Rightarrow> None)"

definition doc_host :: "doc \<Rightarrow> string option" where
  "doc_host d = (case map_of d ''host'' of Some (BString h) \<Rightarrow> Some h | _ \<Rightarrow> None)"

abbreviation member_host :: "ReplicaSetMember \<Rightarrow> string" where
  "member_host m \<equiv> host_port_string (Member_HostPort m)"

lemma map_of_write_member:
  "map_of (write_member m d) = (map_of d)(''host'' \<mapsto> BString (member_host m),
     ''priority'' \<mapsto> BFloat (Member_Priority m), ''votes'' \<mapsto> BInt (Member_Votes m))"
  by (simp add: write_member_def update_conv')

lemma write_member_simps [simp]:
  "doc_id (write_member m d) = doc_id d" "doc_host (write_member m d) = Some (member_host m)"
  "doc_id [(''_id'', BInt j)] = Some j"
  by (simp_all add: doc_id_def doc_host_def map_of_write_member)

lemma host_port_string_inj: "host_port_string a = host_port_string b \<Longrightarrow> a = b"
proof -
  assume eq: "host_port_string a = host_port_string b"
  let ?t = "\<lambda>hp. rev (port_text (HostPort_Port hp)) @ CHR '':'' # rev (HostPort_Hostname hp)"
  have "?t a = ?t b"
    using arg_cong [OF eq, of rev] by (simp add: host_port_string_def)
  moreover have "CHR '':'' \<notin> set (rev (port_text (HostPort_Port hp)))" for hp
    by (simp add: port_text_def colon_notin_dec)
  ultimately have "rev (port_text (HostPort_Port a)) = rev (port_text (HostPort_Port b))"
    and "CHR '':'' # rev (HostPort_Hostname a) = CHR '':'' # rev (HostPort_Hostname b)"
    using takeWhile_colon [of "CHR '':''"] dropWhile_colon [of "CHR '':''"] by metis+
  then have "parse_port (port_text (HostPort_Port a)) = parse_port (port_text (HostPort_Port b))"
    and "HostPort_Hostname a = HostPort_Hostname b"
    by simp_all
  then show "a = b"
    by (simp add: port_text_def parse_port_dec)
qed

section \<open>Scanning the current members\<close>

lemma scan_members_docs:
  assumes "\<forall>d\<in>set docs. doc_id d \<noteq> None \<and> doc_host d \<noteq> None"
  shows "\<exists>used' rep'. scan_members (map BDoc docs) (used, rep) = Inr (used', rep') \<and>
    set used' = set used \<union> {i. Some i \<in> doc_id ` set docs} \<and>
    (\<forall>h. map_of rep' h = (case find (\<lambda>d. doc_host d = Some h) (rev docs) of
       Some d \<Rightarrow> Some d | None \<Rightarrow> map_of rep h))"
  using assms
proof (induction docs arbitrary: used rep)
  case Nil
  then show ?case by simp
next
  case (Cons d docs)
  from Cons.prems obtain i h where i: "map_of d ''_id'' = Some (BInt i)" and h: "map_of d ''host'' = Some (BString h)"
    by (auto simp: doc_id_def doc_host_def split: option.splits bson.splits)
  have ids: "doc_id d = Some i" "doc_host d = Some h"
    by (simp_all add: doc_id_def doc_host_def i h)
  have find: "find P (xs @ [x]) = (case find P xs of Some y \<Rightarrow> Some y | None \<Rightarrow> if P x then Some x else None)"
    for P and xs :: "doc list" and x
    by (induction xs) auto
  show ?case
    using Cons.IH [of "i # used" "AList.update h d rep"] Cons.prems
    by (fastforce simp: i h ids find update_conv' split: option.splits)
qed

lemma find_rev_distinct:
  assumes "distinct (map f docs)"
  shows "find (\<lambda>d. f d = y) (rev docs) = Some d \<longleftrightarrow> d \<in> set docs \<and> f d = y"
  using assms by (induction docs rule: rev_induct) (auto simp: image_iff)

section \<open>Placing the desired members\<close>

lemma deref_simps [simp]:
  "deref rep (Fresh d) = d" "deref rep (Reported h) = (case map_of rep h of None \<Rightarrow> [] | Some d \<Rightarrow> d)"
  by (simp_all add: deref_def)

definition member_ids :: "int set" where
  "member_ids = {0..<256}"

lemma finite_member_ids [simp]: "finite member_ids"
  by (simp add: member_ids_def)

text \<open>What is placed, without the store.\<close>

fun assigned :: "ReplicaSetMember list \<Rightarrow> int list \<Rightarrow> reported_members \<Rightarrow> doc list option" where
  "assigned [] used rep = Some []"
| "assigned (m # ms) used rep = (case map_of rep (member_host m) of
     Some d \<Rightarrow> map_option ((#) (write_member m d)) (assigned ms used rep)
   | None \<Rightarrow> (case free_id used of None \<Rightarrow> None
       | Some j \<Rightarrow> map_option ((#) (write_member m [(''_id'', BInt j)])) (assigned ms (j # used) rep)))"

lemma place_members_assigned:
  assumes "distinct (map member_host ms)" and "\<forall>h\<in>member_host ` set ms. map_of rep' h = map_of rep h"
  shows "case place_members ms (used, rep', refs) of
      Inl f \<Rightarrow> f = Returned no_free_id \<and> assigned ms used rep = None
    | Inr (rep'', refs') \<Rightarrow> (\<exists>ds. assigned ms used rep = Some ds \<and> map (deref rep'') refs' = map (deref rep'') refs @ ds) \<and>
        (\<forall>h. h \<notin> member_host ` set ms \<longrightarrow> map_of rep'' h = map_of rep' h)"
  using assms
proof (induction ms arbitrary: used rep' refs)
  case Nil
  then show ?case by simp
next
  case (Cons m ms)
  show ?case
  proof (cases "map_of rep (member_host m)")
    case None
    show ?thesis
    proof (cases "free_id used")
      case (Some j)
      then show ?thesis
        using None Cons.IH [of rep' "j # used" "refs @ [Fresh (write_member m [(''_id'', BInt j)])]"] Cons.prems
        by (auto simp: Let_def split: sum.splits)
    qed (use None Cons.prems in \<open>simp add: Let_def\<close>)
  next
    case (Some d)
    let ?rep = "AList.update (member_host m) (write_member m d) rep'"
    have "\<forall>h\<in>member_host ` set ms. map_of ?rep h = map_of rep h"
      using Cons.prems by (auto simp: update_conv' image_iff)
    then show ?thesis
      using Cons.IH [of ?rep used "refs @ [Reported (member_host m)]"] Cons.prems Some
      by (auto simp: Let_def update_conv' split: sum.splits)
  qed
qed

lemma free_id_Some: "free_id used = Some j \<Longrightarrow> j \<notin> set used \<and> j \<in> member_ids"
  by (auto simp: free_id_def find_Some_iff member_ids_def)

lemma free_id_None: "free_id used = None \<longleftrightarrow> member_ids \<subseteq> set used"
proof -
  have "set (map int [0..<256]) = member_ids"
    by (simp add: image_int_atLeastLessThan member_ids_def)
  then show ?thesis
    unfolding free_id_def find_None_iff by blast
qed

lemma assigned_None_iff:
  "assigned ms used rep = None \<longleftrightarrow>
    card (member_ids - set used) < length (filter (\<lambda>m. map_of rep (member_host m) = None) ms)"
proof (induction ms arbitrary: used)
  case Nil
  then show ?case by simp
next
  case (Cons m ms)
  show ?case
  proof (cases "map_of rep (member_host m) = None \<and> free_id used \<noteq> None")
    case True
    then obtain j where j: "free_id used = Some j" by blast
    have "member_ids - set used = insert j (member_ids - set (j # used))"
      using free_id_Some [OF j] by auto
    moreover have "card (insert j (member_ids - set (j # used))) = Suc (card (member_ids - set (j # used)))"
      by (rule card_insert_disjoint) simp_all
    ultimately have "card (member_ids - set used) = Suc (card (member_ids - set (j # used)))"
      by argo
    then show ?thesis
      using True j Cons.IH [of "j # used"] by simp
  next
    case False
    then consider d where "map_of rep (member_host m) = Some d"
      | "map_of rep (member_host m) = None" "free_id used = None"
      by (cases "map_of rep (member_host m)") auto
    then show ?thesis
    proof cases
      case 1
      then show ?thesis
        using Cons.IH [of used] by simp
    next
      case 2
      then have "card (member_ids - set used) = 0"
        by (simp add: free_id_None)
      with 2 show ?thesis by (simp del: card_0_eq)
    qed
  qed
qed

definition placed :: "int list \<Rightarrow> reported_members \<Rightarrow> ReplicaSetMember \<Rightarrow> doc \<Rightarrow> bool" where
  "placed used rep m d = (case map_of rep (member_host m) of
     Some d0 \<Rightarrow> d = write_member m d0
   | None \<Rightarrow> \<exists>j. j \<notin> set used \<and> d = write_member m [(''_id'', BInt j)])"

lemma assigned_placed: "assigned ms used rep = Some ds \<Longrightarrow> list_all2 (placed used rep) ms ds"
proof (induction ms arbitrary: used ds)
  case Nil
  then show ?case by simp
next
  case (Cons m ms)
  show ?case
  proof (cases "map_of rep (member_host m)")
    case None
    then obtain j ds' where j: "free_id used = Some j" and "assigned ms (j # used) rep = Some ds'"
      and ds: "ds = write_member m [(''_id'', BInt j)] # ds'"
      using Cons.prems by (auto split: option.splits)
    then have "list_all2 (placed (j # used) rep) ms ds'"
      using Cons.IH by blast
    then have "list_all2 (placed used rep) ms ds'"
      by (rule list_all2_mono) (auto simp: placed_def split: option.splits)
    moreover have "placed used rep m (write_member m [(''_id'', BInt j)])"
      using None free_id_Some [OF j] by (auto simp: placed_def)
    ultimately show ?thesis
      using ds by simp
  next
    case (Some d)
    then show ?thesis
      using Cons by (auto simp: placed_def)
  qed
qed


lemma assigned_ids:
  assumes "assigned ms used rep = Some ds" and "distinct (map member_host ms)"
    and stored: "\<And>h d. map_of rep h = Some d \<Longrightarrow> \<exists>i\<in>set used. doc_id d = Some i"
    and inj: "\<And>h h' d d'. map_of rep h = Some d \<Longrightarrow> map_of rep h' = Some d' \<Longrightarrow> doc_id d = doc_id d' \<Longrightarrow> h = h'"
  shows "distinct (map doc_id ds) \<and> None \<notin> doc_id ` set ds"
  using assms
proof (induction ms arbitrary: used ds)
  case Nil
  then show ?case by simp
next
  case (Cons m ms)
  show ?case
  proof (cases "map_of rep (member_host m)")
    case None
    then obtain j ds' where j: "free_id used = Some j" and ds': "assigned ms (j # used) rep = Some ds'"
      and ds: "ds = write_member m [(''_id'', BInt j)] # ds'"
      using Cons.prems(1) by (auto split: option.splits)
    have IH: "distinct (map doc_id ds') \<and> None \<notin> doc_id ` set ds'"
      by (rule Cons.IH [OF ds']) (use Cons.prems in \<open>force+\<close>)
    have "doc_id d \<noteq> Some j" if "placed (j # used) rep m' d" for m' d
      using that Cons.prems(3) free_id_Some [OF j] by (fastforce simp: placed_def split: option.splits)
    then have "Some j \<notin> doc_id ` set ds'"
      using assigned_placed [OF ds'] by (force simp: list_all2_conv_all_nth in_set_conv_nth)
    then show ?thesis
      using IH by (simp add: ds)
  next
    case (Some d)
    then obtain ds' where ds': "assigned ms used rep = Some ds'" and ds: "ds = write_member m d # ds'"
      using Cons.prems(1) by auto
    have IH: "distinct (map doc_id ds') \<and> None \<notin> doc_id ` set ds'"
      by (rule Cons.IH [OF ds']) (use Cons.prems in \<open>force+\<close>)
    obtain i where i: "doc_id d = Some i" "i \<in> set used"
      using Cons.prems(3) [OF Some] by blast
    have "doc_id d' \<noteq> Some i" if "placed used rep m' d'" and "member_host m' \<noteq> member_host m" for m' d'
      using that i Cons.prems(4) [OF Some] by (fastforce simp: placed_def split: option.splits)
    moreover have "\<forall>k<length ms. member_host (ms ! k) \<noteq> member_host m"
      using Cons.prems(2) by (simp add: image_iff) (metis nth_mem)
    ultimately have "Some i \<notin> doc_id ` set ds'"
      using assigned_placed [OF ds'] by (force simp: list_all2_conv_all_nth in_set_conv_nth)
    then show ?thesis
      using IH i by (simp add: ds)
  qed
qed


section \<open>The member list\<close>

definition wanted_member :: "doc list \<Rightarrow> ReplicaSetMember \<Rightarrow> doc \<Rightarrow> bool" where
  "wanted_member docs m d \<longleftrightarrow>
    doc_host d = Some (member_host m) \<and> map_of d ''priority'' = Some (BFloat (Member_Priority m)) \<and>
    map_of d ''votes'' = Some (BInt (Member_Votes m)) \<and>
    (\<forall>d0\<in>set docs. doc_host d0 = doc_host d \<longrightarrow>
      (\<forall>k. k \<notin> {''host'', ''priority'', ''votes''} \<longrightarrow> map_of d k = map_of d0 k)) \<and>
    (doc_host d \<notin> doc_host ` set docs \<longrightarrow> doc_id d \<notin> doc_id ` set docs)"

text \<open>C11: for a current configuration whose members have different identifiers and hosts, and
  desired members with different addresses, the new list has one member for each desired one, in
  order, with its address, priority and votes.  A member that was there keeps its identifier and all
  its other settings, a new one gets an identifier no current member has, and no identifier is given
  twice.  It fails, with an error for the master, exactly if fewer of the 256 identifiers are free
  than there are new members.\<close>

theorem updateMembersList_correct:
  assumes current: "current_members config = Inr (map BDoc docs)"
    and typed: "\<forall>d\<in>set docs. doc_id d \<noteq> None \<and> doc_host d \<noteq> None"
    and ids: "distinct (map doc_id docs)" and hosts: "distinct (map doc_host docs)"
    and desired: "distinct (map Member_HostPort desired)"
  shows "if card {i \<in> {0..<256}. Some i \<notin> doc_id ` set docs} <
      length (filter (\<lambda>m. Some (member_host m) \<notin> doc_host ` set docs) desired)
    then updateMembersList config desired = Inl (Returned no_free_id)
    else \<exists>ds. updateMembersList config desired = Inr ds \<and> list_all2 (wanted_member docs) desired ds \<and>
      distinct (map doc_id ds) \<and> None \<notin> doc_id ` set ds"
proof -
  obtain used rep where scan: "scan_members (map BDoc docs) ([], []) = Inr (used, rep)"
    and used: "set used = {i. Some i \<in> doc_id ` set docs}"
    and found: "map_of rep h = (case find (\<lambda>d. doc_host d = Some h) (rev docs) of Some d \<Rightarrow> Some d | None \<Rightarrow> None)" for h
    using scan_members_docs [OF typed, of "[]" "[]", unfolded map_of.simps(1)] by auto
  have rep: "map_of rep h = Some d \<longleftrightarrow> d \<in> set docs \<and> doc_host d = Some h" for h d
    using find_rev_distinct [OF hosts, of "Some h" d] 
    by (cases "find (\<lambda>d. doc_host d = Some h) (rev docs)") (auto simp: found)
  have rep_None: "map_of rep h = None \<longleftrightarrow> Some h \<notin> doc_host ` set docs" for h
  proof -
    have "map_of rep h \<noteq> None \<longleftrightarrow> (\<exists>d. map_of rep h = Some d)" by simp
    also have "\<dots> \<longleftrightarrow> (\<exists>d\<in>set docs. Some h = doc_host d)" using rep by metis
    finally show ?thesis unfolding image_iff by metis
  qed
  have distinct_hosts: "distinct (map member_host desired)"
    using desired host_port_string_inj by (auto simp: distinct_map inj_on_def)
  have places: "case place_members desired (used, rep, []) of
      Inl f \<Rightarrow> f = Returned no_free_id \<and> assigned desired used rep = None
    | Inr (rep', refs) \<Rightarrow> assigned desired used rep = Some (map (deref rep') refs)"
    using place_members_assigned [OF distinct_hosts, of rep rep used "[]"] by (auto split: sum.splits)
  have free: "{i \<in> {0..<256}. Some i \<notin> doc_id ` set docs} = member_ids - set used"
    by (auto simp: used member_ids_def)
  have result: "updateMembersList config desired = (case assigned desired used rep of
      None \<Rightarrow> Inl (Returned no_free_id) | Some ds \<Rightarrow> Inr ds)"
    using places by (auto simp: updateMembersList_def current scan split: sum.splits)
  have few: "card (member_ids - set used) < length (filter (\<lambda>m. Some (member_host m) \<notin> doc_host ` set docs) desired) \<longleftrightarrow>
      assigned desired used rep = None"
    by (simp add: assigned_None_iff rep_None)
  show ?thesis
  proof (cases "assigned desired used rep")
    case None
    then show ?thesis
      unfolding free few result by simp
  next
    case (Some ds)
    have "wanted_member docs m d" if placed: "placed used rep m d" for m d
    proof (cases "map_of rep (member_host m)")
      case None
      then obtain j where "j \<notin> set used" and "d = write_member m [(''_id'', BInt j)]"
        using placed by (auto simp: placed_def)
      moreover have "Some (member_host m) \<notin> doc_host ` set docs"
        using None rep_None by blast
      ultimately show ?thesis
        by (auto simp: wanted_member_def map_of_write_member used image_iff)
    next
      case (Some d0)
      then have mem: "d0 \<in> set docs" "doc_host d0 = Some (member_host m)"
        using rep by blast+
      have only: "d0' = d0" if "d0' \<in> set docs" "doc_host d0' = Some (member_host m)" for d0'
        using that Some rep by (metis option.inject)
      have d: "d = write_member m d0"
        using placed Some by (simp add: placed_def)
      have keep: "map_of d k = map_of d0' k" if "d0' \<in> set docs" "doc_host d0' = doc_host d"
          and "k \<notin> {''host'', ''priority'', ''votes''}" for d0' k
        using that only by (simp add: d map_of_write_member)
      have "doc_host d \<in> doc_host ` set docs"
        using mem by (metis d imageI write_member_simps(2))
      moreover have "doc_host d = Some (member_host m)" "map_of d ''priority'' = Some (BFloat (Member_Priority m))"
        "map_of d ''votes'' = Some (BInt (Member_Votes m))"
        by (simp_all add: d map_of_write_member)
      ultimately show ?thesis
        unfolding wanted_member_def using keep by blast
    qed
    then have "list_all2 (wanted_member docs) desired ds"
      using assigned_placed [OF Some] by (auto elim: list_all2_mono)
    moreover have "distinct (map doc_id ds) \<and> None \<notin> doc_id ` set ds"
    proof (rule assigned_ids [OF Some distinct_hosts])
      show "\<exists>i\<in>set used. doc_id d = Some i" if "map_of rep h = Some d" for h d
        using that typed by (auto simp: rep used) (metis image_eqI)
      show "h = h'" if "map_of rep h = Some d" "map_of rep h' = Some d'" "doc_id d = doc_id d'" for h h' d d'
      proof -
        have "d \<in> set docs" "d' \<in> set docs" "doc_host d = Some h" "doc_host d' = Some h'"
          using that rep by blast+
        moreover from this have "d = d'"
          using ids \<open>doc_id d = doc_id d'\<close> by (metis distinct_map inj_onD)
        ultimately show ?thesis by simp
      qed
    qed
    ultimately show ?thesis
      using Some unfolding free few result by simp
  qed
qed

definition example_rs_member :: "string \<Rightarrow> PortNumber \<Rightarrow> ReplicaSetMember" where
  "example_rs_member host port =
    \<lparr>Member_HostPort = \<lparr>HostPort_Hostname = host, HostPort_Port = port\<rparr>, Member_Priority = 10, Member_Votes = 1\<rparr>"

definition example_doc :: doc where
  "example_doc = [(''_id'', BInt 0), (''host'', BString ''a:18080''), (''arbiterOnly'', BBool False)]"

definition example_config :: doc where
  "example_config = [(''_id'', BString ''rs''), (''version'', BInt 4), (''members'', BArray [BDoc example_doc])]"

theorem updateMembersList_correct_witness:
  "\<exists>ds. updateMembersList example_config [example_rs_member ''a'' 18080, example_rs_member ''b'' 18080] = Inr ds \<and>
    list_all2 (wanted_member [example_doc]) [example_rs_member ''a'' 18080, example_rs_member ''b'' 18080] ds \<and>
    distinct (map doc_id ds)"
proof -
  let ?desired = "[example_rs_member ''a'' 18080, example_rs_member ''b'' 18080]"
  have ids: "doc_id example_doc = Some 0" "doc_host example_doc = Some ''a:18080''"
    by (simp_all add: doc_id_def doc_host_def example_doc_def)
  have "{i \<in> {0..<256}. Some i \<notin> doc_id ` set [example_doc]} = {1..<256}"
    by (auto simp: ids)
  then have card: "card {i \<in> {0..<256}. Some i \<notin> doc_id ` set [example_doc]} = 255"
    by simp
  have "length (filter P ?desired) \<le> 2" for P
    using length_filter_le [of P ?desired] by simp
  then have "\<not> card {i \<in> {0..<256}. Some i \<notin> doc_id ` set [example_doc]} <
      length (filter (\<lambda>m. Some (member_host m) \<notin> doc_host ` set [example_doc]) ?desired)"
    unfolding card not_less by (rule le_trans) simp
  moreover have "current_members example_config = Inr (map BDoc [example_doc])"
    by (simp add: current_members_def example_config_def)
  moreover have "distinct (map Member_HostPort ?desired)"
    by (simp add: example_rs_member_def)
  ultimately show ?thesis
    using updateMembersList_correct [of example_config "[example_doc]" ?desired] ids by auto
qed

section \<open>Reading back what was written\<close>

lemma split_on_append: "c \<notin> set xs \<Longrightarrow> split_on c (xs @ c # ys) = xs # split_on c ys"
  by (induction xs) auto

lemma dec_first: "\<exists>d cs. dec n = digit_char d # cs \<and> d < 10"
  using dec_digits [of _ n] dec_nonempty [of n] by (cases "dec n") auto

lemma digit_char_not_sign: "d < 10 \<Longrightarrow> digit_char d \<noteq> CHR ''-'' \<and> digit_char d \<noteq> CHR ''+''"
proof -
  assume "d < 10"
  then have "char_digit (digit_char d) = Some d"
    by (rule char_digit_digit_char)
  moreover have "char_digit (CHR ''-'') = None" "char_digit (CHR ''+'') = None"
    by (simp_all add: char_digit_def)
  ultimately show ?thesis by auto
qed

lemma Atoi16_port_text: "Atoi16 (port_text p) = p"
proof -
  obtain d cs where dec: "dec (unat p) = digit_char d # cs" and "d < 10"
    using dec_first by blast
  then have "digit_char d \<noteq> CHR ''-''" "digit_char d \<noteq> CHR ''+''"
    using digit_char_not_sign by blast+
  moreover have "int (unat p) \<le> 2 ^ 63 - 1"
  proof -
    have "uint p < 2 ^ 16"
      using uint_bounded [of p] by simp
    then show ?thesis by simp
  qed
  ultimately show ?thesis
    using parse_digits_dec [of "unat p"]
    by (simp add: Atoi16_def port_text_def dec min_def del: parse_digits.simps)
qed

lemma read_write_member:
  assumes "CHR '':'' \<notin> set (HostPort_Hostname (Member_HostPort m))"
  shows "read_member (BDoc (write_member m d)) = Inr m"
proof -
  have "split_on (CHR '':'') (member_host m) =
      [HostPort_Hostname (Member_HostPort m), port_text (HostPort_Port (Member_HostPort m))]"
    using assms by (simp add: host_port_string_def split_on_append split_on_notin port_text_def colon_notin_dec)
  then show ?thesis
    by (simp add: read_member_def map_of_write_member Atoi16_port_text)
qed

lemma read_placed:
  assumes "list_all2 (placed used rep) ms ds"
    and "\<forall>m\<in>set ms. CHR '':'' \<notin> set (HostPort_Hostname (Member_HostPort m))"
  shows "read_members (map BDoc ds) = Inr ms"
  using assms
proof (induction rule: list_all2_induct)
  case Nil
  then show ?case by simp
next
  case (Cons m ms d ds)
  then have "\<exists>d0. d = write_member m d0"
    by (auto simp: placed_def split: option.splits)
  then show ?case
    using Cons read_write_member by auto
qed

lemma updateMembersList_read:
  assumes "updateMembersList config desired = Inr ds" and "distinct (map Member_HostPort desired)"
    and "\<forall>m\<in>set desired. CHR '':'' \<notin> set (HostPort_Hostname (Member_HostPort m))"
  shows "read_members (map BDoc ds) = Inr desired"
proof -
  obtain vs used rep rep' refs where "scan_members vs ([], []) = Inr (used, rep)"
    and "place_members desired (used, rep, []) = Inr (rep', refs)" and ds: "ds = map (deref rep') refs"
    using assms(1) by (auto simp: updateMembersList_def split: sum.splits prod.splits)
  moreover have "distinct (map member_host desired)"
    using assms(2) host_port_string_inj by (auto simp: distinct_map inj_on_def)
  ultimately have "assigned desired used rep = Some ds"
    using place_members_assigned [of desired rep rep used "[]"] by auto
  then show ?thesis
    using assigned_placed read_placed assms(3) by blast
qed

definition answers :: "mongo \<Rightarrow> PortNumber \<Rightarrow> mongo_command \<Rightarrow> doc \<Rightarrow> bool" where
  "answers M port cmd reply \<longleftrightarrow> (\<forall>sent. mongo_run M port sent cmd = (reply, None))"

text \<open>The options a Mongod was started with, as MongoDB reports them.\<close>

definition command_line :: "string \<Rightarrow> doc" where
  "command_line role = [(''parsed'', BDoc (if role = [] then [] else [(''sharding'', BDoc [(''clusterRole'', BString role)])]))]"

lemma fetch_reconfigured:
  assumes config: "updateConfig current m = Inr config"
    and "distinct (map Member_HostPort (Config_ReplicaSetMembers (mspMongod_ReplicaSetConfig m)))"
    and "\<forall>x\<in>set (Config_ReplicaSetMembers (mspMongod_ReplicaSetConfig m)).
      CHR '':'' \<notin> set (HostPort_Hostname (Member_HostPort x))"
    and "mongo_dial M port = None"
    and "answers M port IsMaster isMasterRes" and "map_of isMasterRes ''setName'' \<noteq> None"
    and "answers M port ReplSetGetStatus status" and "map_of status ''myState'' = Some (BInt rs_state)" and "rs_state \<in> {1, 2}"
    and "map_of status ''set'' = Some (BString (Config_ReplicaSetName (mspMongod_ReplicaSetConfig m)))"
    and "answers M port ReplSetGetConfig [(''config'', BDoc config)]"
    and "answers M port GetCmdLineOpts (command_line role)"
  shows "fst (MongodConfiguration M port cred []) = Inr (zeroMspMongod\<lparr>mspMongod_Port := port,
    mspMongod_State := MongodStateRunning, mspMongod_ReplicaSetConfig := zeroReplicaSetConfig\<lparr>
      Config_ReplicaSetName := Config_ReplicaSetName (mspMongod_ReplicaSetConfig m),
      Config_ReplicaSetMembers := Config_ReplicaSetMembers (mspMongod_ReplicaSetConfig m),
      Config_ShardingRole :=
        (if Config_ShardingRole (mspMongod_ReplicaSetConfig m) = ShardingRoleConfigServer \<or> role = ''configsvr''
         then ShardingRoleConfigServer
         else if role = ''shardsvr'' then ShardingRoleShardServer else ShardingRoleNone)\<rparr>\<rparr>)"
proof -
  let ?rs = "mspMongod_ReplicaSetConfig m"
  obtain ds where ds: "updateMembersList (AList.update ''_id'' (BString (Config_ReplicaSetName ?rs)) current)
      (Config_ReplicaSetMembers ?rs) = Inr ds"
    using config by (auto simp: updateConfig_def Let_def split: sum.splits)
  have lookups: "map_of config ''members'' = Some (BArray (map BDoc ds))"
    "map_of config ''configsvr'' = Some (BBool (Config_ShardingRole ?rs = ShardingRoleConfigServer))"
    using config ds by (auto simp: updateConfig_def Let_def update_conv')
  have "read_members (map BDoc ds) = Inr (Config_ReplicaSetMembers ?rs)"
    using updateMembersList_read [OF ds] assms(2,3) by blast
  moreover have "state_of_replSet rs_state = MongodStateRunning"
    using assms(9) by (auto simp: state_of_replSet_def)
  moreover have "ctx_ParseCmdLineShardingRole M port sent = (Inr role, sent @ [GetCmdLineOpts])" for sent
    using assms(12) unfolding answers_def
    by (simp add: ctx_ParseCmdLineShardingRole_def run_command_def bindM_def returnM_def command_line_def)
  ultimately show ?thesis
    using assms(4-8,10,11) lookups unfolding answers_def
    by (auto simp: MongodConfiguration_def connect_def fetchConfiguration_def ctx_IsMaster_def ctx_ReplSetGetStatus_def
      ctx_ReplSetGetConfig_def role_of_def run_command_def lift_failure_def
      current_members_def bindM_def returnM_def raiseM_def Let_def)
qed

text \<open>C32: when MongoDB stores the configuration it was sent, as it promises, the slave reports of a
  primary or secondary exactly the name and the members the master wanted, and the role of a configuration
  server, or else the role its process was started with.\<close>

theorem fetch_after_reconfig:
  assumes config: "updateConfig current m = Inr config"
    and "distinct (map Member_HostPort (Config_ReplicaSetMembers (mspMongod_ReplicaSetConfig m)))"
    and "\<forall>x\<in>set (Config_ReplicaSetMembers (mspMongod_ReplicaSetConfig m)).
      CHR '':'' \<notin> set (HostPort_Hostname (Member_HostPort x))"
    and "mongo_dial M port = None"
    and "answers M port IsMaster isMasterRes" and "map_of isMasterRes ''setName'' \<noteq> None"
    and "answers M port ReplSetGetStatus status" and "map_of status ''myState'' = Some (BInt rs_state)" and "rs_state \<in> {1, 2}"
    and "map_of status ''set'' = Some (BString (Config_ReplicaSetName (mspMongod_ReplicaSetConfig m)))"
    and "answers M port ReplSetGetConfig [(''config'', BDoc config)]"
    and "answers M port GetCmdLineOpts (command_line role)"
  shows "fst (MongodConfiguration M port cred []) = Inr (zeroMspMongod\<lparr>mspMongod_Port := port,
    mspMongod_State := MongodStateRunning, mspMongod_ReplicaSetConfig := zeroReplicaSetConfig\<lparr>
      Config_ReplicaSetName := Config_ReplicaSetName (mspMongod_ReplicaSetConfig m),
      Config_ReplicaSetMembers := Config_ReplicaSetMembers (mspMongod_ReplicaSetConfig m),
      Config_ShardingRole :=
        (if Config_ShardingRole (mspMongod_ReplicaSetConfig m) = ShardingRoleConfigServer \<or> role = ''configsvr''
         then ShardingRoleConfigServer
         else if role = ''shardsvr'' then ShardingRoleShardServer else ShardingRoleNone)\<rparr>\<rparr>)"
  by (rule fetch_reconfigured [OF assms])

definition example_running :: mspMongod where
  "example_running = zeroMspMongod\<lparr>mspMongod_Port := 18080, mspMongod_State := MongodStateRunning,
     mspMongod_ReplicaSetConfig := zeroReplicaSetConfig\<lparr>Config_ReplicaSetName := ''rs'',
       Config_ReplicaSetMembers := [example_rs_member ''a'' 18080]\<rparr>\<rparr>"

definition example_new_config :: doc where
  "example_new_config = (case updateConfig example_config example_running of Inl _ \<Rightarrow> [] | Inr c \<Rightarrow> c)"

definition example_mongo :: mongo where
  "example_mongo = \<lparr>mongo_dial = (\<lambda>_. None), mongo_login = (\<lambda>_ _. True),
     mongo_run = (\<lambda>_ _ cmd. (case cmd of
         IsMaster \<Rightarrow> [(''setName'', BString ''rs''), (''ismaster'', BBool True)]
       | ReplSetGetStatus \<Rightarrow> [(''myState'', BInt 1), (''set'', BString ''rs'')]
       | ReplSetGetConfig \<Rightarrow> [(''config'', BDoc example_new_config)]
       | GetCmdLineOpts \<Rightarrow> [(''parsed'', BDoc [(''sharding'', BDoc [(''clusterRole'', BString ''shardsvr'')])])]
       | _ \<Rightarrow> [], None)),
     mongo_soft_shutdown = 15, mongo_print = (\<lambda>_. []), mongo_print_error = (\<lambda>_. [])\<rparr>"

lemma example_update: "updateConfig example_config example_running = Inr example_new_config"
proof -
  have host: "member_host (example_rs_member ''a'' 18080) = ''a:18080''"
    by (simp add: host_port_string_def port_text_def example_rs_member_def dec.simps digit_char_def char_of_def bit_0)
  have "\<exists>ds. updateMembersList (AList.update ''_id'' (BString ''rs'') example_config) [example_rs_member ''a'' 18080] = Inr ds"
    by (simp add: updateMembersList_def current_members_def example_config_def example_doc_def host Let_def)
  then show ?thesis
    by (auto simp: example_new_config_def updateConfig_def example_running_def Let_def)
qed

theorem fetch_after_reconfig_witness:
  "fst (MongodConfiguration example_mongo 18080 zeroCredential []) = Inr (zeroMspMongod\<lparr>mspMongod_Port := 18080,
     mspMongod_State := MongodStateRunning, mspMongod_ReplicaSetConfig := zeroReplicaSetConfig\<lparr>
       Config_ReplicaSetName := ''rs'', Config_ReplicaSetMembers := [example_rs_member ''a'' 18080],
       Config_ShardingRole := ShardingRoleShardServer\<rparr>\<rparr>)"
  using fetch_after_reconfig [OF example_update, of example_mongo 18080
      "[(''setName'', BString ''rs''), (''ismaster'', BBool True)]" "[(''myState'', BInt 1), (''set'', BString ''rs'')]"
      1 "''shardsvr''" zeroCredential]
  by (simp add: example_mongo_def example_running_def answers_def example_rs_member_def zeroReplicaSetConfig_def command_line_def)

section \<open>Which commands are sent\<close>

definition asked :: "mongo \<Rightarrow> PortNumber \<Rightarrow> mongo_command list \<Rightarrow> mongo_command \<Rightarrow> (doc \<times> mongo_error option) \<Rightarrow> bool" where
  "asked M port sent cmd reply \<longleftrightarrow> (\<exists>h. prefix (h @ [cmd]) sent \<and> mongo_run M port h cmd = reply)"

definition said_primary :: "mongo \<Rightarrow> PortNumber \<Rightarrow> mongo_command list \<Rightarrow> bool" where
  "said_primary M port sent \<longleftrightarrow> (\<exists>reply. asked M port sent IsMaster (reply, None) \<and> is_primary reply)"

definition said_removed :: "mongo \<Rightarrow> PortNumber \<Rightarrow> mongo_command list \<Rightarrow> bool" where
  "said_removed M port sent \<longleftrightarrow> (\<exists>reply err. asked M port sent ReplSetGetStatus (reply, err) \<and>
    map_of reply (if err \<noteq> None then ''state'' else ''myState'') = Some (BInt 10))"

definition permitted :: "mongo \<Rightarrow> mspMongod \<Rightarrow> mongo_command list \<Rightarrow> mongo_command \<Rightarrow> bool" where
  "permitted M m sent cmd = (let port = mspMongod_Port m; st = mspMongod_State m in case cmd of
     Shutdown _ \<Rightarrow> st = MongodStateNotRunning \<or> st = MongodStateDestroyed \<and> said_removed M port sent
   | ReplSetStepDown _ \<Rightarrow> st = MongodStateDestroyed \<and> said_primary M port sent \<and> \<not> said_removed M port sent
   | ReplSetReconfig config \<Rightarrow> st = MongodStateRunning \<and> said_primary M port sent \<and>
       (\<exists>reply current. asked M port sent ReplSetGetConfig (reply, None) \<and>
         map_of reply ''config'' = Some (BDoc current) \<and> updateConfig current m = Inr config)
   | ReplSetInitiate _ _ \<Rightarrow> False
   | _ \<Rightarrow> True)"

lemma asked_append [simp]:
  "asked M port (sent @ [cmd']) cmd reply \<longleftrightarrow> asked M port sent cmd reply \<or> cmd = cmd' \<and> mongo_run M port sent cmd = reply"
  by (auto simp: asked_def)

lemma asked_append2 [simp]:
  "asked M port (sent @ [a, b]) cmd reply \<longleftrightarrow> asked M port sent cmd reply \<or>
    cmd = a \<and> mongo_run M port sent cmd = reply \<or> cmd = b \<and> mongo_run M port (sent @ [a]) cmd = reply"
  using asked_append [of M port "sent @ [a]" b cmd reply] by auto

lemma run_run_command [run_simps]:
  "run (run_command M port cmd) Q R sent = Q (mongo_run M port sent cmd) (sent @ [cmd])"
  by (simp add: run_def run_command_def)

lemma asked_Nil [simp]: "\<not> asked M port [] cmd reply"
  by (simp add: asked_def)

lemma run_lift_failure [run_simps]:
  "run (lift_failure r) Q R sent = (case r of Inl f \<Rightarrow> R f sent | Inr x \<Rightarrow> Q x sent)"
  by (simp add: lift_failure_def run_simps split: sum.split)

abbreviation permitted_all :: "mongo \<Rightarrow> mspMongod \<Rightarrow> mongo_command list \<Rightarrow> bool" where
  "permitted_all M m sent \<equiv> list_all (permitted M m sent) sent"

definition harmless :: "mongo_command \<Rightarrow> bool" where
  "harmless cmd = (case cmd of Shutdown _ \<Rightarrow> False | ReplSetStepDown _ \<Rightarrow> False | ReplSetReconfig _ \<Rightarrow> False
     | ReplSetInitiate _ _ \<Rightarrow> False | _ \<Rightarrow> True)"

lemma harmless_simps [simp]:
  "harmless IsMaster" "harmless ReplSetGetStatus" "harmless ReplSetGetConfig" "harmless (CreateUser u p)"
  by (simp_all add: harmless_def)

lemma harmless_permitted: "harmless cmd \<Longrightarrow> permitted M m sent cmd"
  by (cases cmd) (simp_all add: harmless_def permitted_def)

lemma permitted_harmless: "list_all harmless sent \<Longrightarrow> permitted_all M m sent"
  by (auto simp: list_all_iff harmless_permitted)

lemma permitted_last:
  "list_all harmless h \<Longrightarrow> harmless cmd \<or> permitted M m (h @ [cmd]) cmd \<Longrightarrow> permitted_all M m (h @ [cmd])"
  by (auto simp: list_all_iff harmless_permitted)

lemma run_ShutdownWithTimeout [run_simps]:
  "run (ctx_ShutdownWithTimeout M port sec) Q R sent =
    Q (map_option (\<lambda>e. slave_error SlaveShutdownError
        (''Could not shutdown Mongod with timeout `'' @ show_int sec @ ''` on port `'' @ port_text port @
          ''` (mongodb returned error)'')
        (''mgo/Session.Run('' @ [CHR 0x22] @ ''shutdown'' @ [CHR 0x22] @ '') failed with: '' @ me_text e))
      (snd (mongo_run M port sent (Shutdown sec)))) (sent @ [Shutdown sec])"
  by (simp add: ctx_ShutdownWithTimeout_def run_simps split: prod.split)

lemma run_apply_destroyed:
  assumes st: "mspMongod_State m = MongodStateDestroyed" and primary: "isMaster \<Longrightarrow> said_primary M (mspMongod_Port m) sent"
    and sent: "list_all harmless sent" and new: "ReplSetGetStatus \<notin> set sent"
  shows "run (apply_destroyed M m isMaster) (\<lambda>_. permitted_all M m) (\<lambda>_. permitted_all M m) sent"
proof -
  let ?port = "mspMongod_Port m"
  obtain status err where reply: "mongo_run M ?port sent ReplSetGetStatus = (status, err)"
    by fastforce
  have status_sent: "list_all harmless (sent @ [ReplSetGetStatus])"
    using sent by simp
  have fresh: "\<not> asked M ?port sent ReplSetGetStatus r" for r
    using new by (auto simp: asked_def prefix_def)
  show ?thesis
  proof (cases "map_of status (if err \<noteq> None then ''state'' else ''myState'') = Some (BInt 10)")
    case True
    moreover have "asked M ?port ((sent @ [ReplSetGetStatus]) @ [Shutdown (mongo_soft_shutdown M)]) ReplSetGetStatus (status, err)"
      unfolding asked_append using reply by blast
    ultimately have "said_removed M ?port ((sent @ [ReplSetGetStatus]) @ [Shutdown (mongo_soft_shutdown M)])"
      unfolding said_removed_def by blast
    then show ?thesis
      using True st permitted_last [OF status_sent, of "Shutdown (mongo_soft_shutdown M)" M m]
      by (simp add: apply_destroyed_def ctx_ReplSetGetStatus_def run_simps reply permitted_def Let_def)
  next
    case False
    have "permitted_all M m ((sent @ [ReplSetGetStatus]) @ [ReplSetStepDown 120])" if isMaster
    proof (rule permitted_last [OF status_sent])
      have "\<not> said_removed M ?port ((sent @ [ReplSetGetStatus]) @ [ReplSetStepDown 120])"
        using False reply fresh by (auto simp: said_removed_def)
      then show "harmless (ReplSetStepDown 120) \<or>
          permitted M m ((sent @ [ReplSetGetStatus]) @ [ReplSetStepDown 120]) (ReplSetStepDown 120)"
        using st primary [OF that] by (simp add: permitted_def Let_def said_primary_def)
    qed
    then show ?thesis
      using False permitted_harmless [OF status_sent]
      by (auto simp: apply_destroyed_def ctx_ReplSetGetStatus_def ctx_ReplSetStepDown_def run_simps reply
        split: option.split bson.split)
  qed
qed

lemma run_apply_running:
  assumes st: "mspMongod_State m = MongodStateRunning" and primary: "isMaster \<Longrightarrow> said_primary M (mspMongod_Port m) sent"
    and sent: "list_all harmless sent"
  shows "run (apply_running M m isMaster) (\<lambda>_. permitted_all M m) (\<lambda>_. permitted_all M m) sent"
proof (cases isMaster)
  case False
  then show ?thesis
    using permitted_harmless [OF sent] by (simp add: apply_running_def run_simps)
next
  case True
  let ?port = "mspMongod_Port m"
  obtain result err where reply: "mongo_run M ?port sent ReplSetGetConfig = (result, err)"
    by fastforce
  have config_sent: "list_all harmless (sent @ [ReplSetGetConfig])"
    using sent by simp
  have "permitted_all M m ((sent @ [ReplSetGetConfig]) @ [ReplSetReconfig config])"
    if "map_of result ''config'' = Some (BDoc current)" "err = None" "updateConfig current m = Inr config" for current config
  proof (rule permitted_last [OF config_sent])
    have "asked M ?port ((sent @ [ReplSetGetConfig]) @ [ReplSetReconfig config]) ReplSetGetConfig (result, None)"
      unfolding asked_append using reply that by blast
    then show "harmless (ReplSetReconfig config) \<or>
        permitted M m ((sent @ [ReplSetGetConfig]) @ [ReplSetReconfig config]) (ReplSetReconfig config)"
      using st primary [OF True] that unfolding permitted_def Let_def said_primary_def by auto
  qed
  then show ?thesis
    using True permitted_harmless [OF config_sent]
    by (auto simp: apply_running_def ctx_ReplSetGetConfig_def ctx_ReplSetReconfig_def run_simps reply
      split: option.split bson.split sum.split prod.split)
qed

lemma run_applied:
  assumes sent: "list_all harmless sent" and new: "ReplSetGetStatus \<notin> set sent"
  shows "run (apply_state M m) (\<lambda>_. permitted_all M m) (\<lambda>_. permitted_all M m) sent"
proof -
  let ?port = "mspMongod_Port m"
  obtain reply err where reply: "mongo_run M ?port sent IsMaster = (reply, err)"
    by fastforce
  have master_sent: "list_all harmless (sent @ [IsMaster])"
    using sent by simp
  have primary: "said_primary M ?port (sent @ [IsMaster])" if "is_primary reply" "err = None"
    using that reply by (auto simp: said_primary_def)
  have "permitted_all M m ((sent @ [IsMaster]) @ [Shutdown (mongo_soft_shutdown M)])"
    if "mspMongod_State m = MongodStateNotRunning"
    using that by (intro permitted_last [OF master_sent]) (simp add: permitted_def)
  then show ?thesis
    using permitted_harmless [OF master_sent] new primary
    by (auto simp: apply_state_def ctx_IsMaster_def run_simps reply split: option.split
      intro!: run_apply_destroyed run_apply_running master_sent)
qed

lemma run_returning: "run act (\<lambda>_. P) (\<lambda>_. P) s \<Longrightarrow> run (returning act) (\<lambda>_. P) (\<lambda>_. P) s"
  by (auto simp: returning_def run_simps elim!: run_mono split: failure.split)

text \<open>C10: while a configuration is applied, a Mongod is shut down only if it is to stop or if it
  is to be destroyed and has said that it was removed from its replica set; it is told to step
  down only if it is to be destroyed, is the primary and was not removed; and a replica set is
  reconfigured only through a running Mongod that has said it is the primary, with the configuration
  computed from the one it reported.\<close>

theorem apply_sends_permitted:
  "permitted_all M m (snd (ApplyMongodConfiguration M m []))"
proof -
  have "run (ApplyMongodConfiguration M m) (\<lambda>_. permitted_all M m) (\<lambda>_. permitted_all M m) []"
    unfolding ApplyMongodConfiguration_def connect_def create_root_user_def ctx_CreateUser_def
    by (intro run_returning) (auto simp: run_simps split: option.split intro!: run_applied split: prod.split)
  then show ?thesis
    by (auto simp: run_def split: prod.splits sum.splits)
qed

section \<open>What the slave reports\<close>

text \<open>The answer of \<open>MongodConfiguration\<close> on a new connection: a panic, an error, or the configuration.\<close>

definition query_configuration :: "mongo \<Rightarrow> PortNumber \<Rightarrow> MongodCredential \<Rightarrow> string + (mspError + mspMongod)" where
  "query_configuration M port cred = (case fst (MongodConfiguration M port cred []) of
     Inr m \<Rightarrow> Inr (Inr m) | Inl (Returned e) \<Rightarrow> Inr (Inl e) | Inl (Panics panic) \<Rightarrow> Inl panic)"

lemma run_bind_any:
  assumes "\<And>x s. run (f x) Q (\<lambda>_ _. True) s"
  shows "run (bindM act f) Q (\<lambda>_ _. True) s"
  unfolding run_bindM by (rule run_mono [OF run_trivial]) (simp_all add: assms)

lemma run_fetchConfiguration:
  "run (fetchConfiguration M port) (\<lambda>m _. mspMongod_Port m = port) (\<lambda>_ _. True) sent"
  unfolding fetchConfiguration_def Let_def
  by (intro run_bind_any) (auto simp: run_returnM intro!: run_bind_any)

lemma query_configuration_port:
  "query_configuration M port cred = Inr (Inr m) \<Longrightarrow> mspMongod_Port m = port"
proof -
  assume "query_configuration M port cred = Inr (Inr m)"
  then have "fst (MongodConfiguration M port cred []) = Inr m"
    by (auto simp: query_configuration_def split: sum.splits failure.splits)
  moreover have "run (MongodConfiguration M port cred) (\<lambda>m _. mspMongod_Port m = port) (\<lambda>_ _. True) []"
    unfolding MongodConfiguration_def run_bindM by (rule run_mono [OF run_trivial]) (simp_all add: run_fetchConfiguration)
  ultimately show ?thesis
    by (cases "MongodConfiguration M port cred []") (auto dest: run_InrD)
qed

interpretation concrete: configurator "query_configuration M" for M
  by unfold_locales (rule query_configuration_port)

text \<open>C33: a slave that has reached its state by answering requests, and can list its directories,
  reports each port for which it has a directory exactly once.  Of a running Mongod it reports what
  MongoDB answered, or the error of asking it, never a missing credential; of any other, that it
  does not run, with the replica set name of its directory.  The exception is an answer of MongoDB that makes
  \<open>MongodConfiguration\<close> panic, by a value of an unexpected type: the goroutine that asks does not recover, so
  one such Mongod ends the slave, and nothing is reported.\<close>

theorem RequestStatus_complete:
  assumes "env_query E = query_configuration M" and "slave_reach E s"
    and "\<And>ms. mset (arrival ms) = mset ms" and "parseProcessDirTree E s = (Inr found, s')"
  shows "if \<exists>(port, name)\<in>set found. port \<in> sl_running s \<and>
      (\<exists>cred panic. sl_credentials s port = Some cred \<and> query_configuration M port cred = Inl panic)
    then \<exists>panic. RequestStatus E arrival s = (Inl panic, s')
    else \<exists>ms. RequestStatus E arrival s = (Inr (Some ms, None), s') \<and>
    distinct (map mspMongod_Port ms) \<and> mset (map mspMongod_Port ms) = mset (map fst found) \<and>
    (\<forall>m\<in>set ms. \<exists>name. (mspMongod_Port m, name) \<in> set found \<and>
      (if mspMongod_Port m \<in> sl_running s then
         \<exists>cred. sl_credentials s (mspMongod_Port m) = Some cred \<and>
           (query_configuration M (mspMongod_Port m) cred = Inr (Inr m) \<or>
            (\<exists>err. query_configuration M (mspMongod_Port m) cred = Inr (Inl err) \<and> mspMongod_StatusError m = Some err))
       else mspMongod_StatusError m = None \<and> mspMongod_State m = MongodStateNotRunning \<and>
         Config_ReplicaSetName (mspMongod_ReplicaSetConfig m) = name))"
  by (rule concrete.report_complete [OF assms])

text \<open>Such an answer: the state as a floating point number.\<close>

definition float_state :: mongo where
  "float_state = example_mongo\<lparr>mongo_run := (\<lambda>_ _ cmd. (case cmd of
      IsMaster \<Rightarrow> [(''setName'', BString ''rs'')] | ReplSetGetStatus \<Rightarrow> [(''myState'', BFloat 1)] | _ \<Rightarrow> [], None))\<rparr>"

lemma float_state_panics: "\<exists>panic. query_configuration float_state port cred = Inl panic"
  by (simp add: query_configuration_def MongodConfiguration_def connect_def float_state_def example_mongo_def
    fetchConfiguration_def ctx_IsMaster_def ctx_ReplSetGetStatus_def run_command_def bindM_def returnM_def raiseM_def)

definition example_reporting :: slave_state where
  "example_reporting = example_slave_state\<lparr>sl_fs := [((True, [''srv'', ''mongods'', ''18080:rs'']), Directory),
     ((True, [''srv'', ''mongods'']), Directory), ((True, [''srv'']), Directory)]\<rparr>"

definition example_reporter :: environment where
  "example_reporter = example_environment\<lparr>env_query := query_configuration example_mongo\<rparr>"

lemma example_listing: "fst (parseProcessDirTree example_reporter example_reporting) = Inr [(18080, ''rs'')]"
proof -
  have managed: "managedDirMongods ''/srv'' = (True, [''srv'', ''mongods''])"
    by (simp add: managedDirMongods_def Clean_def Join_def)
  have "root_dirname (example_order MongodStateRunning) = ''18080:rs''"
    by (simp add: root_dirname_def example_order_def example_msp_mongod_def dec.simps digit_char_def char_of_def bit_0)
  then have "parseProcessRootDirentry ''18080:rs'' = Inr (18080, ''rs'')"
    using parse_root_dirname [of "example_order MongodStateRunning"]
    by (simp add: example_order_def example_msp_mongod_def)
  then show ?thesis
    by (simp add: parseProcessDirTree_def ReadDir_def example_reporter_def example_environment_def example_reporting_def
      example_slave_state_def managed children_def add_entry_def example_run sort_key_def)
qed

theorem RequestStatus_complete_witness:
  "\<exists>m s'. RequestStatus example_reporter id example_reporting = (Inr (Some [m], None), s') \<and>
    mspMongod_Port m = 18080 \<and> mspMongod_State m = MongodStateNotRunning"
proof -
  obtain s' where "parseProcessDirTree example_reporter example_reporting = (Inr [(18080, ''rs'')], s')"
    using example_listing by (cases "parseProcessDirTree example_reporter example_reporting") simp
  moreover have "slave_reach example_reporter example_reporting"
    by (rule slave_reach.start) (simp_all add: example_reporting_def example_slave_state_def)
  moreover have "env_query example_reporter = query_configuration example_mongo"
    by (simp add: example_reporter_def)
  ultimately obtain ms where ms: "RequestStatus example_reporter id example_reporting = (Inr (Some ms, None), s')"
    "mset (map mspMongod_Port ms) = mset [18080]" "\<forall>m\<in>set ms. mspMongod_State m = MongodStateNotRunning"
    using RequestStatus_complete [of example_reporter example_mongo example_reporting id "[(18080, ''rs'')]" s']
    by (auto simp: example_reporting_def example_slave_state_def)
  moreover from ms(2) obtain m where "ms = [m]" "mspMongod_Port m = 18080"
    by (cases ms) auto
  ultimately show ?thesis by auto
qed

end
