(* ===== verification/Protocol.thy ===== *)
theory Protocol
  imports SlaveProps
begin

text \<open>
  The protocol between master and slave: the client \<open>src/msp/protocolclient.go\<close> and the server
  \<open>src/msp/protocolserver.go\<close>, and the two put together around the slave's controller.

  \<open>encoding/json\<close> is modelled by the values it carries: encoding a value of the protocol and decoding it
  as the same type gives it back, \<open>null\<close> decodes to the zero value, and decoding as another type
  or an invalid text is an error.
\<close>

section \<open>Messages\<close>

datatype wire = WMongods "mspMongod list" | WMongod mspMongod | WInitiate RsInitiateMessage
  | WError mspError | WNull | WEmpty | WInvalid string

type_synonym http_reply = "nat \<times> wire"

abbreviation StatusOK :: nat where "StatusOK \<equiv> 200"
abbreviation InternalServerError :: nat where "InternalServerError \<equiv> 500"

definition wrong_json :: string where "wrong_json = ''json: cannot unmarshal value''"

definition decode_mongods :: "wire \<Rightarrow> string + mspMongod list" where
  "decode_mongods w = (case w of WMongods ms \<Rightarrow> Inr ms | WNull \<Rightarrow> Inr [] | WEmpty \<Rightarrow> Inl ''EOF''
     | WInvalid err \<Rightarrow> Inl err | _ \<Rightarrow> Inl wrong_json)"

definition decode_error :: "wire \<Rightarrow> string + mspError" where
  "decode_error w = (case w of WError e \<Rightarrow> Inr e | WNull \<Rightarrow> Inr zeroMspError | WEmpty \<Rightarrow> Inl ''EOF''
     | WInvalid err \<Rightarrow> Inl err | _ \<Rightarrow> Inl wrong_json)"

text \<open>The server drops the error of decoding: the zero value is left.\<close>

definition decode_mongod :: "wire \<Rightarrow> mspMongod" where
  "decode_mongod w = (case w of WMongod m \<Rightarrow> m | _ \<Rightarrow> zeroMspMongod)"

definition decode_initiate :: "wire \<Rightarrow> RsInitiateMessage" where
  "decode_initiate w = (case w of WInitiate m \<Rightarrow> m
     | _ \<Rightarrow> \<lparr>RsInitiate_Port = 0, RsInitiate_ReplicaSetConfig = zeroReplicaSetConfig\<rparr>)"

definition encode_error :: "mspError option \<Rightarrow> wire" where
  "encode_error e = (case e of None \<Rightarrow> WNull | Some err \<Rightarrow> WError err)"

section \<open>The client\<close>

definition communicationErrorFromError :: "string \<Rightarrow> mspError" where
  "communicationErrorFromError err = \<lparr>Error_Identifier = CommunicationError,
     Error_Description = ''Error communicating with slave.'', Error_LongDescription = err\<rparr>"

definition constructBaseUrl :: "HostPort \<Rightarrow> string" where
  "constructBaseUrl target =
    ''https://'' @ HostPort_Hostname target @ '':'' @ dec (unat (HostPort_Port target)) @ ''/''"

text \<open>What the client makes of the outcome of a request.  A nil slice is the empty list.\<close>

definition client_RequestStatus :: "string + http_reply \<Rightarrow> mspMongod list \<times> mspError option" where
  "client_RequestStatus resp = (case resp of
     Inl err \<Rightarrow> ([], Some (communicationErrorFromError err))
   | Inr (code, body) \<Rightarrow>
       if code = StatusOK then (case decode_mongods body of
           Inl decodeErr \<Rightarrow> ([], Some (communicationErrorFromError decodeErr))
         | Inr result \<Rightarrow> (result, None))
       else (case decode_error body of
           Inl decodeErr \<Rightarrow> ([], Some (communicationErrorFromError decodeErr))
         | Inr slaveError \<Rightarrow> (case validateFields slaveError of
             Some validationErr \<Rightarrow> ([], Some (communicationErrorFromError validationErr))
           | None \<Rightarrow> ([], Some slaveError))))"

definition reply_error :: "string + http_reply \<Rightarrow> mspError option" where
  "reply_error resp = (case resp of
     Inl err \<Rightarrow> Some (communicationErrorFromError err)
   | Inr (code, body) \<Rightarrow>
       if code = StatusOK then None
       else (case decode_error body of
           Inl decodeErr \<Rightarrow> Some (communicationErrorFromError decodeErr)
         | Inr slaveError \<Rightarrow> Some slaveError))"

definition establishMongodState_validate :: "mspMongod \<Rightarrow> mspError option" where
  "establishMongodState_validate m =
    (if mspMongod_State m = MongodStateRecovering
     then Some \<lparr>Error_Identifier = BadStateDescription, Error_Description = ''Invalid Mongod state'',
       Error_LongDescription = ''Mongod state `'' @ mspMongod_State m @ ''` can only by received, not established.''\<rparr>
     else None)"

text \<open>A round trip: the request is the URL and the body, and the peer may change its state.\<close>

type_synonym 's peer = "string \<Rightarrow> wire \<Rightarrow> 's \<Rightarrow> (string + http_reply) \<times> 's"

definition client_status :: "'s peer \<Rightarrow> HostPort \<Rightarrow> 's \<Rightarrow> (mspMongod list \<times> mspError option) \<times> 's" where
  "client_status peer target s = (case peer (constructBaseUrl target @ ''msp/status'') WEmpty s of
     (resp, s') \<Rightarrow> (client_RequestStatus resp, s'))"

text \<open>\<open>http.NewRequest\<close> parses the URL; \<open>bad_url\<close> is what \<open>net/url\<close> says against one.  The two POST requests panic
  then, which is an error on the left here and ends the master; the GET request returns the error as any other.\<close>

definition client_establish ::
  "(string \<Rightarrow> string option) \<Rightarrow> 's peer \<Rightarrow> HostPort \<Rightarrow> mspMongod \<Rightarrow> 's \<Rightarrow> (string + mspError option) \<times> 's" where
  "client_establish bad_url peer target m s = (case establishMongodState_validate m of
     Some err \<Rightarrow> (Inr (Some err), s)
   | None \<Rightarrow> (let url = constructBaseUrl target @ ''msp/establishMongodState'' in
       case bad_url url of
         Some err \<Rightarrow> (Inl err, s)
       | None \<Rightarrow> (case peer url (WMongod m) s of (resp, s') \<Rightarrow> (Inr (reply_error resp), s'))))"

definition client_initiate ::
  "(string \<Rightarrow> string option) \<Rightarrow> 's peer \<Rightarrow> HostPort \<Rightarrow> RsInitiateMessage \<Rightarrow> 's \<Rightarrow> (string + mspError option) \<times> 's" where
  "client_initiate bad_url peer target msg s =
    (let url = constructBaseUrl target @ ''msp/rsInitiate'' in
     case bad_url url of
       Some err \<Rightarrow> (Inl err, s)
     | None \<Rightarrow> (case peer url (WInitiate msg) s of (resp, s') \<Rightarrow> (Inr (reply_error resp), s')))"

section \<open>The server\<close>

text \<open>A consumer that returns a slice and an error.  Only the slice decides: one that is not nil is sent
  with status 200, whatever the error.\<close>

definition handleRequestStatus :: "mspMongod list option \<times> mspError option \<Rightarrow> http_reply" where
  "handleRequestStatus result = (case result of
     (Some status, err) \<Rightarrow> (StatusOK, WMongods status)
   | (None, err) \<Rightarrow> (InternalServerError, encode_error err))"

definition handle_error :: "mspError option \<Rightarrow> http_reply" where
  "handle_error err = (case err of None \<Rightarrow> (StatusOK, WEmpty) | Some e \<Rightarrow> (InternalServerError, WError e))"

text \<open>The routes of \<open>NewServer\<close> around the controller of a running slave.  A handler that panics answers nothing, the
  client sees the connection end; \<open>net/http\<close> recovers the panic, so that the slave goes on, but not one in a
  goroutine of \<open>RequestStatus\<close>, after which the slave has to be started again.\<close>

definition slave_server ::
  "environment \<Rightarrow> (mspMongod list \<Rightarrow> mspMongod list) \<Rightarrow> HostPort \<Rightarrow> slave_state peer" where
  "slave_server E arrival address url body s =
    (if url = constructBaseUrl address @ ''msp/status'' then
       (case RequestStatus E arrival s of
          (Inr result, s') \<Rightarrow> (Inr (handleRequestStatus result), s') | (Inl _, s') \<Rightarrow> (Inl ''EOF'', s'))
     else if url = constructBaseUrl address @ ''msp/establishMongodState'' then
       (case EstablishMongodState E (decode_mongod body) s of
          (Inr err, s') \<Rightarrow> (Inr (handle_error err), s') | (Inl _, s') \<Rightarrow> (Inl ''EOF'', s'))
     else if url = constructBaseUrl address @ ''msp/rsInitiate'' then
       (case RsInitiate E (decode_initiate body) s of
          (Inr err, s') \<Rightarrow> (Inr (handle_error err), s') | (Inl _, s') \<Rightarrow> (Inl ''EOF'', s'))
     else (Inr (404, WInvalid ''404 page not found''), s))"

section \<open>The protocol is transparent\<close>

lemma reply_handle_error: "reply_error (Inr (handle_error r)) = r"
  by (simp add: reply_error_def handle_error_def decode_error_def split: option.split)

lemma reply_lost: "reply_error (Inl err) = Some (communicationErrorFromError err)"
  by (simp add: reply_error_def)

text \<open>What the master sees of the end of a handler.\<close>

definition seen_by_master :: "string + mspError option \<Rightarrow> string + mspError option" where
  "seen_by_master r = (case r of Inr err \<Rightarrow> Inr err | Inl _ \<Rightarrow> Inr (Some (communicationErrorFromError ''EOF'')))"

lemma client_establish_transparent:
  assumes "mspMongod_State m \<noteq> MongodStateRecovering"
  shows "client_establish bad_url (slave_server E arrival target) target m s =
    (case bad_url (constructBaseUrl target @ ''msp/establishMongodState'') of
       Some err \<Rightarrow> (Inl err, s) | None \<Rightarrow> map_prod seen_by_master id (EstablishMongodState E m s))"
  using assms by (auto simp: client_establish_def establishMongodState_validate_def slave_server_def decode_mongod_def
    reply_handle_error seen_by_master_def reply_lost Let_def split: option.split prod.split sum.split)

lemma client_initiate_transparent:
  "client_initiate bad_url (slave_server E arrival target) target msg s =
    (case bad_url (constructBaseUrl target @ ''msp/rsInitiate'') of
       Some err \<Rightarrow> (Inl err, s) | None \<Rightarrow> map_prod seen_by_master id (RsInitiate E msg s))"
  by (auto simp: client_initiate_def slave_server_def decode_initiate_def reply_handle_error seen_by_master_def
    reply_lost Let_def split: option.split prod.split sum.split)

text \<open>C35: over a connection that works, the calls of the master have exactly the effect and the
  result of the calls of the slave's controller: what it is told to establish or to initiate arrives
  unchanged, an error of the controller comes back as it is, and no error is made up.  A
  state that can merely be observed is refused before it is sent, a panic of the controller comes back as an
  error of communication, and an address that makes no URL is a panic of the master.\<close>

theorem protocol_transparent:
  "client_establish bad_url (slave_server E arrival target) target m s =
    (if mspMongod_State m = MongodStateRecovering
     then (Inr (Some (slave_error BadStateDescription ''Invalid Mongod state''
        ''Mongod state `recovering` can only by received, not established.'')), s)
     else case bad_url (constructBaseUrl target @ ''msp/establishMongodState'') of
       Some err \<Rightarrow> (Inl err, s)
     | None \<Rightarrow> (case EstablishMongodState E m s of
         (Inr err, s') \<Rightarrow> (Inr err, s')
       | (Inl _, s') \<Rightarrow> (Inr (Some (communicationErrorFromError ''EOF'')), s'))) \<and>
   client_initiate bad_url (slave_server E arrival target) target msg s =
    (case bad_url (constructBaseUrl target @ ''msp/rsInitiate'') of
       Some err \<Rightarrow> (Inl err, s)
     | None \<Rightarrow> (case RsInitiate E msg s of
         (Inr err, s') \<Rightarrow> (Inr err, s')
       | (Inl _, s') \<Rightarrow> (Inr (Some (communicationErrorFromError ''EOF'')), s')))"
proof (cases "mspMongod_State m = MongodStateRecovering")
  case True
  then show ?thesis
    by (auto simp: client_initiate_transparent client_establish_def establishMongodState_validate_def slave_error_def
      seen_by_master_def split: option.split prod.split sum.split)
next
  case False
  then show ?thesis
    by (auto simp: client_initiate_transparent client_establish_transparent seen_by_master_def
      split: option.split prod.split sum.split)
qed

lemma client_status_controller:
  assumes "RequestStatus E arrival s = (Inr (Some ms, err), s')"
  shows "client_status (slave_server E arrival target) target s = ((ms, None), s')"
  using assms by (simp add: client_status_def slave_server_def handleRequestStatus_def client_RequestStatus_def
      decode_mongods_def)

lemma unlistable_status:
  assumes "parseProcessDirTree E s = (Inl err, s')"
  shows "\<exists>e. RequestStatus E arrival s = (Inr (Some [], Some e), s')"
  using assms by (simp add: RequestStatus_def tryM_def catchM_def bindM_def returnM_def)

text \<open>What the controller reports arrives unchanged, but its errors do not: a slave that
  cannot list its directories answers with an error and an empty list, and the master receives
  the empty list without an error.\<close>

theorem status_error_lost:
  assumes "parseProcessDirTree E s = (Inl err, s')"
  shows "(\<exists>e. RequestStatus E arrival s = (Inr (Some [], Some e), s')) \<and>
    client_status (slave_server E arrival target) target s = (([], None), s')"
  using unlistable_status [OF assms, of arrival] client_status_controller [of E arrival s "[]" _ s' target] by auto

lemma example_unlistable:
  "\<exists>err s'. parseProcessDirTree example_environment example_slave_state = (Inl err, s')"
proof -
  have "managedDirMongods ''/srv'' = (True, [''srv'', ''mongods''])"
    by (simp add: managedDirMongods_def Clean_def Join_def)
  then show ?thesis
    by (simp add: parseProcessDirTree_def ReadDir_def syscall_def syscall_part_def bindM_def example_environment_def
      example_slave_state_def)
qed

definition example_address :: HostPort where
  "example_address = \<lparr>HostPort_Hostname = ''slave'', HostPort_Port = 8081\<rparr>"

theorem status_error_lost_witness:
  "\<exists>e s'. RequestStatus example_environment id example_slave_state = (Inr (Some [], Some e), s') \<and>
    client_status (slave_server example_environment id example_address) example_address example_slave_state = (([], None), s')"
proof -
  obtain err s' where "parseProcessDirTree example_environment example_slave_state = (Inl err, s')"
    using example_unlistable by blast
  from status_error_lost [OF this] show ?thesis by blast
qed

end
