(* ===== verification/Notifier.thy ===== *)
theory Notifier
  imports Secrets
begin

text \<open>
  The notifier, a program of its own that polls the problems of the API and mails the new ones:
  \<open>src/notifier/controller.go\<close>, \<open>src/notifier/apiclient.go\<close>, \<open>src/notifier/notifiers.go\<close> and
  \<open>src/notifier/parser.go\<close>.

  The HTTP client, the SMTP client and the reader of INI files are parameters.  A file of the
  latter is the list of its sections in the order in which Go's map iteration visits them.
\<close>

section \<open>Data\<close>

record EmailContact =
  Contact_Name :: string
  Contact_Address :: string

record SMTPRelay =
  Relay_Hostname :: string
  Relay_MailFrom :: string

record notified_problem =
  np_Id :: nat
  np_Description :: string
  np_LongDescription :: string
  np_FirstOccured :: int
  np_LastUpdate :: int
  np_Slave :: "nat option"
  np_ReplicaSet :: "nat option"

record EmailNotifier =
  Email_Contacts :: "EmailContact list"
  Email_Relay :: SMTPRelay
  Email_MamidHost :: string

record notifier_config =
  cfg_relay :: SMTPRelay
  cfg_apiHost :: string
  cfg_contactsFile :: string
  cfg_masterCA :: string
  cfg_apiCert :: string
  cfg_apiKey :: string

section \<open>Receiving problems\<close>

text \<open>\<open>Receive\<close>: the outcome of the request, with the outcome of decoding its body.  The slice is nil
  when there is an error.\<close>

definition Receive :: "string + (nat \<times> (string + notified_problem list)) \<Rightarrow> notified_problem list \<times> string option" where
  "Receive resp = (case resp of
     Inl err \<Rightarrow> ([], Some err)
   | Inr (code, body) \<Rightarrow>
       if code = 200 then (case body of Inl err \<Rightarrow> ([], Some err) | Inr ps \<Rightarrow> (ps, None))
       else ([], Some (''API returned non 200 '' @ dec code)))"

section \<open>Which problems are new\<close>

type_synonym last_problems = "nat \<rightharpoonup> notified_problem"

definition clean_old :: "notified_problem list \<Rightarrow> last_problems \<Rightarrow> last_problems" where
  "clean_old received seen = (\<lambda>i. if list_ex (\<lambda>p. np_Id p = i) received then seen i else None)"

text \<open>The loop over the slice, with its index: a known problem is cut out of the slice and the index
  stays, a new one is entered.\<close>

function diff_loop :: "nat \<Rightarrow> notified_problem list \<Rightarrow> last_problems \<Rightarrow> notified_problem list \<times> last_problems" where
  "diff_loop i received seen =
    (if i < length received then
       (case seen (np_Id (received ! i)) of
          Some _ \<Rightarrow> diff_loop i (take i received @ drop (Suc i) received) seen
        | None \<Rightarrow> diff_loop (Suc i) received (seen(np_Id (received ! i) \<mapsto> received ! i)))
     else (received, seen))"
  by pat_completeness auto
termination
  by (relation "measure (\<lambda>(i, received, seen). length received - i)") auto

declare diff_loop.simps [simp del]

definition diffProblems :: "notified_problem list \<Rightarrow> last_problems \<Rightarrow> notified_problem list \<times> last_problems" where
  "diffProblems received seen = diff_loop 0 received (clean_old received seen)"

section \<open>Mails\<close>

abbreviation CRLF :: string where "CRLF \<equiv> [CHR 0x0D, CHR 0x0A]"

definition bytes_of :: "string \<Rightarrow> 8 word list" where
  "bytes_of str = map (\<lambda>c. word_of_nat (of_char c)) str"

definition mail_content :: "notified_problem \<Rightarrow> string" where
  "mail_content p = ''A Problem occured: '' @ np_Description p @ CRLF @
    (case np_ReplicaSet p of None \<Rightarrow> [] | Some i \<Rightarrow> ''Replica Set id: '' @ dec i @ '' '' @ CRLF) @
    (case np_Slave p of None \<Rightarrow> [] | Some i \<Rightarrow> ''Slave id: '' @ dec i @ '' '' @ CRLF) @
    ''Detailed Description: '' @ np_LongDescription p @ CRLF"

definition mail_subject :: "notified_problem \<Rightarrow> string" where
  "mail_subject p = ''Subject: =?utf-8?B?'' @ base64_encode (bytes_of (''[MAMID] Problem: '' @ np_Description p)) @ ''?=''"

definition mail_header :: "EmailNotifier \<Rightarrow> notified_problem \<Rightarrow> string" where
  "mail_header n p = ''From: '' @ Relay_MailFrom (Email_Relay n) @ CRLF @
    ''Content-Type: text/plain; charset=UTF-8'' @ CRLF @ ''Content-transfer-encoding: binary'' @ CRLF @ mail_subject p"

definition mail_links :: "EmailNotifier \<Rightarrow> notified_problem \<Rightarrow> string" where
  "mail_links n p =
    (case np_ReplicaSet p of None \<Rightarrow> [] | Some i \<Rightarrow> CRLF @ ''Inspect affected Replica Set: '' @ Email_MamidHost n @
       ''/#/replicasets/'' @ dec i @ '' '' @ CRLF) @
    (case np_Slave p of None \<Rightarrow> [] | Some i \<Rightarrow> CRLF @ ''Inspect affected Slave: '' @ Email_MamidHost n @
       ''/#/slaves/'' @ dec i @ '' '' @ CRLF)"

definition mail_message :: "EmailNotifier \<Rightarrow> notified_problem \<Rightarrow> string" where
  "mail_message n p = mail_header n p @ CRLF @ CRLF @ mail_content p @ mail_links n p"

text \<open>One mail per contact, in order, until one cannot be sent.  \<open>smtp\<close> answers to the address and the text;
  the state is the list of the mails that were accepted.\<close>

type_synonym mails = "(string \<times> string) list"

fun sendMailToContacts :: "(mails \<Rightarrow> string \<times> string \<Rightarrow> string option) \<Rightarrow> string \<Rightarrow> EmailContact list \<Rightarrow> mails \<Rightarrow> string option \<times> mails" where
  "sendMailToContacts smtp msg [] sent = (None, sent)"
| "sendMailToContacts smtp msg (c # cs) sent =
    (let mail = (Contact_Address c, ''To: '' @ Contact_Address c @ CRLF @ msg) in
     case smtp sent mail of Some err \<Rightarrow> (Some err, sent) | None \<Rightarrow> sendMailToContacts smtp msg cs (sent @ [mail]))"

definition SendProblem :: "(mails \<Rightarrow> string \<times> string \<Rightarrow> string option) \<Rightarrow> EmailNotifier \<Rightarrow> notified_problem \<Rightarrow> mails \<Rightarrow> string option \<times> mails" where
  "SendProblem smtp n p sent = sendMailToContacts smtp (mail_message n p) (Email_Contacts n) sent"

text \<open>\<open>notify\<close>: the errors of the notifiers are only logged.\<close>

definition notify :: "(mails \<Rightarrow> string \<times> string \<Rightarrow> string option) \<Rightarrow> EmailNotifier list \<Rightarrow> notified_problem \<Rightarrow> mails \<Rightarrow> mails" where
  "notify smtp notifiers p sent = fold (\<lambda>n sent. snd (SendProblem smtp n p sent)) notifiers sent"

text \<open>One round of the main loop: an error of \<open>Receive\<close> is logged, and its empty slice is compared all the same.\<close>

definition main_round :: "(mails \<Rightarrow> string \<times> string \<Rightarrow> string option) \<Rightarrow> EmailNotifier list \<Rightarrow>
    string + (nat \<times> (string + notified_problem list)) \<Rightarrow> last_problems \<times> mails \<Rightarrow> last_problems \<times> mails" where
  "main_round smtp notifiers resp state = (case state of (seen, sent) \<Rightarrow>
     (case diffProblems (fst (Receive resp)) seen of (currentProblems, seen') \<Rightarrow>
       (seen', fold (notify smtp notifiers) currentProblems sent)))"

section \<open>Configuration files\<close>

type_synonym ini_section = "(string \<times> string) list"
type_synonym ini_file = "(string \<times> ini_section) list"

definition Parse :: "string + ini_file \<Rightarrow> string + EmailContact list" where
  "Parse file = (case file of Inl err \<Rightarrow> Inl err
     | Inr sections \<Rightarrow> Inr [\<lparr>Contact_Name = name, Contact_Address = val\<rparr>.
         (name, entries) \<leftarrow> sections, (key, val) \<leftarrow> entries, key = ''email''])"

definition zeroConfig :: notifier_config where
  "zeroConfig = \<lparr>cfg_relay = \<lparr>Relay_Hostname = [], Relay_MailFrom = []\<rparr>, cfg_apiHost = [], cfg_contactsFile = [],
     cfg_masterCA = [], cfg_apiCert = [], cfg_apiKey = []\<rparr>"

definition val_of :: "ini_section \<Rightarrow> string \<Rightarrow> string" where
  "val_of s k = (case map_of s k of None \<Rightarrow> [] | Some v \<Rightarrow> v)"

definition missing_variable :: "string \<Rightarrow> string \<Rightarrow> string" where
  "missing_variable key sect = ''Missing '' @ [CHR 0x27] @ key @ [CHR 0x27] @ '' veriable in '' @ [CHR 0x27] @ sect @
     [CHR 0x27] @ '' section in config file''"

definition missing_section :: "string \<Rightarrow> string" where
  "missing_section sect = ''Missing '' @ [CHR 0x27] @ sect @ [CHR 0x27] @ '' section in config file''"

text \<open>\<open>ParseConfig\<close>: the configuration as far as it was read, and the error.\<close>

definition ParseConfig :: "string + ini_file \<Rightarrow> notifier_config \<times> string option" where
  "ParseConfig file = (case file of Inl err \<Rightarrow> (zeroConfig, Some err)
   | Inr sections \<Rightarrow> (case map_of sections ''notifier'' of
       None \<Rightarrow> (zeroConfig, Some (missing_section ''notifier''))
     | Some notifier \<Rightarrow> (case map_of notifier ''api_host'' of
         None \<Rightarrow> (zeroConfig, Some (missing_variable ''api_host'' ''notifier''))
       | Some host \<Rightarrow>
         let c = zeroConfig\<lparr>cfg_apiHost := host, cfg_apiKey := val_of notifier ''api_key'', cfg_apiCert := val_of notifier ''api_cert''\<rparr> in
         if cfg_apiCert c @ cfg_apiKey c \<noteq> [] \<and> (cfg_apiCert c = [] \<or> cfg_apiKey c = [])
         then (c, Some (''Both, `api_key` and `api_cert` have to be defined in the '' @ [CHR 0x27] @ ''notifier'' @ [CHR 0x27] @
           '' section in config file''))
         else
         let c = c\<lparr>cfg_masterCA := val_of notifier ''master_ca''\<rparr> in
         (case map_of notifier ''contacts'' of
           None \<Rightarrow> (c, Some (missing_variable ''contacts'' ''notifier''))
         | Some contacts \<Rightarrow>
           let c = c\<lparr>cfg_contactsFile := contacts\<rparr> in
           (case map_of sections ''smtp'' of
             None \<Rightarrow> (c, Some (missing_section ''smtp''))
           | Some smtp \<Rightarrow> (case map_of smtp ''mail_from'' of
               None \<Rightarrow> (c, Some (missing_variable ''mail_from'' ''smtp''))
             | Some mail_from \<Rightarrow> (case map_of smtp ''relay_host'' of
                 None \<Rightarrow> (c\<lparr>cfg_relay := (cfg_relay c)\<lparr>Relay_MailFrom := mail_from\<rparr>\<rparr>, Some (missing_variable ''relay_host'' ''smtp''))
               | Some relay_host \<Rightarrow>
                   (c\<lparr>cfg_relay := \<lparr>Relay_Hostname = relay_host, Relay_MailFrom = mail_from\<rparr>\<rparr>, None))))))))"

section \<open>A problem is notified when it appears\<close>

text \<open>What a problem list adds to known identifiers, without the index and the cutting.\<close>

fun new_problems :: "notified_problem list \<Rightarrow> nat set \<Rightarrow> notified_problem list" where
  "new_problems [] known = []"
| "new_problems (p # ps) known =
    (if np_Id p \<in> known then new_problems ps known else p # new_problems ps (insert (np_Id p) known))"

fun entered :: "notified_problem list \<Rightarrow> last_problems \<Rightarrow> last_problems" where
  "entered [] seen = seen"
| "entered (p # ps) seen = (case seen (np_Id p) of Some _ \<Rightarrow> entered ps seen | None \<Rightarrow> entered ps (seen(np_Id p \<mapsto> p)))"

lemma diff_loop_eq:
  "i \<le> length received \<Longrightarrow>
    diff_loop i received seen = (take i received @ new_problems (drop i received) (dom seen), entered (drop i received) seen)"
proof (induction i received seen rule: diff_loop.induct)
  case (1 i received seen)
  show ?case
  proof (cases "i < length received")
    case True
    then have drop: "drop i received = received ! i # drop (Suc i) received"
      by (rule Cons_nth_drop_Suc [symmetric])
    show ?thesis
    proof (cases "seen (np_Id (received ! i))")
      case None
      then have "diff_loop i received seen = diff_loop (Suc i) received (seen(np_Id (received ! i) \<mapsto> received ! i))"
        using True by (simp add: diff_loop.simps [of i])
      moreover have "diff_loop (Suc i) received (seen(np_Id (received ! i) \<mapsto> received ! i)) =
          (take (Suc i) received @ new_problems (drop (Suc i) received) (insert (np_Id (received ! i)) (dom seen)),
           entered (drop (Suc i) received) (seen(np_Id (received ! i) \<mapsto> received ! i)))"
        using 1(1) [OF True None] True unfolding dom_fun_upd by (simp del: fun_upd_apply)
      ultimately show ?thesis
        using True None by (simp add: drop domIff take_Suc_conv_app_nth del: fun_upd_apply)
    next
      case (Some p)
      then have "diff_loop i received seen = diff_loop i (take i received @ drop (Suc i) received) seen"
        using True by (simp add: diff_loop.simps [of i received])
      then show ?thesis
        using 1(2) [OF True Some] True Some by (auto simp: drop domIff min_def)
    qed
  next
    case False
    then show ?thesis
      using 1(3) by (simp add: diff_loop.simps [of _ received seen])
  qed
qed

lemma dom_entered: "dom (entered ps seen) = dom seen \<union> np_Id ` set ps"
  by (induction ps arbitrary: seen) (auto split: option.split)

lemma dom_clean_old: "dom (clean_old received seen) = dom seen \<inter> np_Id ` set received"
  by (auto simp: clean_old_def list_ex_iff split: if_splits)

lemma new_problems_ids: "np_Id ` set (new_problems ps known) = np_Id ` set ps - known"
  by (induction ps arbitrary: known) auto

lemma new_problems_distinct: "distinct (map np_Id (new_problems ps known))"
proof (induction ps arbitrary: known)
  case (Cons p ps)
  have "np_Id p \<notin> np_Id ` set (new_problems ps (insert (np_Id p) known))"
    by (simp add: new_problems_ids)
  then show ?case
    using Cons by simp
qed simp

text \<open>C37: the loop that cuts known problems out of the slice computes the problems whose
  identifier is not among those remembered from the previous round, the first of each identifier,
  in order; and exactly the identifiers of this round are remembered.\<close>

theorem diffProblems_equivalence:
  "fst (diffProblems received seen) = new_problems received (dom seen \<inter> np_Id ` set received) \<and>
   dom (snd (diffProblems received seen)) = np_Id ` set received \<and>
   np_Id ` set (fst (diffProblems received seen)) = np_Id ` set received - dom seen"
  by (auto simp: diffProblems_def diff_loop_eq dom_entered dom_clean_old new_problems_ids)

section \<open>Rounds\<close>

definition ids_of :: "string + (nat \<times> (string + notified_problem list)) \<Rightarrow> nat set" where
  "ids_of resp = np_Id ` set (fst (Receive resp))"

text \<open>The problems found new in each of several rounds.\<close>

fun poll :: "(string + (nat \<times> (string + notified_problem list))) list \<Rightarrow> last_problems \<Rightarrow> notified_problem list list" where
  "poll [] seen = []"
| "poll (resp # resps) seen = (case diffProblems (fst (Receive resp)) seen of (new, seen') \<Rightarrow> new # poll resps seen')"

fun onsets :: "nat set \<Rightarrow> nat set list \<Rightarrow> nat set list" where
  "onsets prev [] = []"
| "onsets prev (S # Ss) = (S - prev) # onsets S Ss"

definition mails_for :: "EmailNotifier \<Rightarrow> notified_problem \<Rightarrow> mails" where
  "mails_for n p = map (\<lambda>c. (Contact_Address c, ''To: '' @ Contact_Address c @ CRLF @ mail_message n p)) (Email_Contacts n)"

lemma diffProblems_facts:
  "dom (snd (diffProblems received seen)) = np_Id ` set received"
  "np_Id ` set (fst (diffProblems received seen)) = np_Id ` set received - dom seen"
  "distinct (map np_Id (fst (diffProblems received seen)))"
  by (auto simp: diffProblems_def diff_loop_eq dom_entered dom_clean_old new_problems_ids new_problems_distinct)

lemma poll_onsets: "map (\<lambda>new. np_Id ` set new) (poll resps seen) = onsets (dom seen) (map ids_of resps)"
proof (induction resps arbitrary: seen)
  case (Cons resp resps)
  obtain new seen' where diff: "diffProblems (fst (Receive resp)) seen = (new, seen')"
    by fastforce
  then have "np_Id ` set new = ids_of resp - dom seen" "dom seen' = ids_of resp"
    using diffProblems_facts [of "fst (Receive resp)" seen] by (simp_all add: ids_of_def)
  then show ?case
    using Cons.IH [of seen'] diff by simp
qed simp

lemma poll_distinct: "list_all (\<lambda>new. distinct (map np_Id new)) (poll resps seen)"
  using diffProblems_facts(3) by (induction resps arbitrary: seen) (auto split: prod.split, metis fst_conv)

lemma sendMailToContacts_all:
  "(\<And>sent mail. smtp sent mail = None) \<Longrightarrow>
    sendMailToContacts smtp msg cs sent = (None, sent @ map (\<lambda>c. (Contact_Address c, ''To: '' @ Contact_Address c @ CRLF @ msg)) cs)"
  by (induction cs arbitrary: sent) (simp_all add: Let_def)

lemma notify_all:
  assumes "\<And>sent mail. smtp sent mail = None"
  shows "fold (notify smtp [n]) ps sent = sent @ concat (map (mails_for n) ps)"
proof (induction ps arbitrary: sent)
  case (Cons p ps)
  have "notify smtp [n] p sent = sent @ mails_for n p"
    by (simp add: notify_def SendProblem_def sendMailToContacts_all [OF assms] mails_for_def)
  then show ?case
    using Cons.IH by simp
qed simp

lemma main_rounds_poll:
  assumes "\<And>sent mail. smtp sent mail = None"
  shows "snd (fold (main_round smtp [n]) resps (seen, sent)) = sent @ concat (map (mails_for n) (concat (poll resps seen)))"
proof (induction resps arbitrary: seen sent)
  case (Cons resp resps)
  obtain new seen' where diff: "diffProblems (fst (Receive resp)) seen = (new, seen')"
    by fastforce
  then show ?case
    using Cons.IH [of seen' "sent @ concat (map (mails_for n) new)"]
    by (simp add: main_round_def notify_all [OF assms])
qed simp

text \<open>Over any number of rounds in which the mail server accepts every mail, each contact
  gets one mail for each problem in each round in which it is listed and was not listed in the
  round before, and no other mail.  A round in which the API cannot be read counts as an empty
  list, so all problems that persist are mailed again afterwards.\<close>

theorem mailed_on_onset:
  assumes "\<And>sent mail. smtp sent mail = None"
  shows "\<exists>rounds. snd (fold (main_round smtp [n]) resps (\<lambda>_. None, [])) = concat (map (mails_for n) (concat rounds)) \<and>
    map (\<lambda>new. np_Id ` set new) rounds = onsets {} (map ids_of resps) \<and>
    list_all (\<lambda>new. distinct (map np_Id new)) rounds"
  using main_rounds_poll [OF assms, where n = n and resps = resps and seen = "\<lambda>_. None" and sent = "[]"] poll_onsets [of resps "\<lambda>_. None"] poll_distinct
  by auto

definition example_np :: notified_problem where
  "example_np = \<lparr>np_Id = 7, np_Description = ''down'', np_LongDescription = [], np_FirstOccured = 0, np_LastUpdate = 0,
     np_Slave = Some 1, np_ReplicaSet = None\<rparr>"

definition example_notifier :: EmailNotifier where
  "example_notifier = \<lparr>Email_Contacts = [\<lparr>Contact_Name = ''ops'', Contact_Address = ''ops@example.org''\<rparr>],
     Email_Relay = \<lparr>Relay_Hostname = ''mail:25'', Relay_MailFrom = ''mamid@example.org''\<rparr>, Email_MamidHost = ''https://mamid''\<rparr>"

theorem mailed_on_onset_witness:
  "\<exists>rounds. snd (fold (main_round (\<lambda>_ _. None) [example_notifier])
      [Inr (200, Inr [example_np]), Inl ''timeout'', Inr (200, Inr [example_np])] (\<lambda>_. None, [])) =
      concat (map (mails_for example_notifier) (concat rounds)) \<and>
    map (\<lambda>new. np_Id ` set new) rounds = [{7}, {}, {7}]"
  using mailed_on_onset [of "\<lambda>_ _. None" example_notifier
      "[Inr (200, Inr [example_np]), Inl ''timeout'', Inr (200, Inr [example_np])]"]
  by (auto simp: ids_of_def Receive_def example_np_def)

section \<open>Headers and configuration\<close>

lemma base64_encode_chars: "set (base64_encode bs) \<subseteq> set base64_alphabet \<union> {CHR ''=''}"
proof -
  have char: "base64_char k \<in> set base64_alphabet" for k
    by (rule base64_char_alphabet)
  show ?thesis
    by (induction bs rule: base64_encode.induct) (auto simp: Let_def char)
qed

text \<open>The description of a problem cannot add a line to the header of a mail: the header has
  its four lines, and those that are in the configured sender.\<close>

theorem mail_header_lines:
  "count_list (mail_header n p) (CHR 0x0A) = 3 + count_list (Relay_MailFrom (Email_Relay n)) (CHR 0x0A) \<and>
   count_list (mail_header n p) (CHR 0x0D) = 3 + count_list (Relay_MailFrom (Email_Relay n)) (CHR 0x0D)"
proof -
  have "CHR 0x0A \<notin> set (base64_encode bs) \<and> CHR 0x0D \<notin> set (base64_encode bs)" for bs
    using base64_encode_chars [of bs] by (auto simp: base64_alphabet_def)
  then show ?thesis
    by (simp add: mail_header_def mail_subject_def count_list_0_iff [symmetric])
qed

text \<open>A configuration file is accepted exactly if it names the API host, the contacts file,
  the sender and the relay, and either both or none of certificate and key; and the values are
  those of the file.\<close>

theorem ParseConfig_correct:
  "(\<exists>c. ParseConfig (Inr f) = (c, None)) \<longleftrightarrow>
     (\<exists>s m host contacts mail_from relay. map_of f ''notifier'' = Some s \<and> map_of f ''smtp'' = Some m \<and>
       map_of s ''api_host'' = Some host \<and> map_of s ''contacts'' = Some contacts \<and>
       map_of m ''mail_from'' = Some mail_from \<and> map_of m ''relay_host'' = Some relay \<and>
       (val_of s ''api_cert'' = [] \<longleftrightarrow> val_of s ''api_key'' = []) \<and>
       ParseConfig (Inr f) = (\<lparr>cfg_relay = \<lparr>Relay_Hostname = relay, Relay_MailFrom = mail_from\<rparr>, cfg_apiHost = host,
         cfg_contactsFile = contacts, cfg_masterCA = val_of s ''master_ca'', cfg_apiCert = val_of s ''api_cert'',
         cfg_apiKey = val_of s ''api_key''\<rparr>, None))"
  by (auto simp: ParseConfig_def Let_def zeroConfig_def split: option.split)

end
