(* ===== verification/BusyTable.thy ===== *)
theory BusyTable
  imports Msp
begin

text \<open>
  The busy table of a slave, \<open>src/slave/controller_synchronization.go\<close>: one mutex per port, in a map
  that has a mutex of its own.  The requests of the master run in threads of their own, numbered
  here, which interleave at each access to the map and each operation on a mutex.  \<open>EstablishMongodState\<close> and
  \<open>InitiateReplicaSet\<close> of \<open>src/slave/controller.go\<close> hold the mutex of their port throughout.

  A mutex is an address of a store, which says which thread has locked it.
\<close>

section \<open>State\<close>

datatype busy_place =
    Outside
  | Calling PortNumber \<comment> \<open>before \<open>t.mutexesLock.Lock()\<close>\<close>
  | Looking PortNumber \<comment> \<open>before the map is asked for the port\<close>
  | Adding PortNumber \<comment> \<open>before a new mutex is put into the map\<close>
  | Reading PortNumber \<comment> \<open>before the mutex is read from the map\<close>
  | Found PortNumber nat \<comment> \<open>before \<open>t.mutexesLock.Unlock()\<close>\<close>
  | Waiting PortNumber nat \<comment> \<open>before \<open>mutex.Lock()\<close>\<close>
  | Inside PortNumber nat \<comment> \<open>after the return, before the caller's \<open>Unlock()\<close>\<close>
  | Panicked \<comment> \<open>the map had no mutex, and \<open>nil\<close> cannot be locked\<close>

record busyTable =
  bt_mutexes :: "PortNumber \<rightharpoonup> nat"
  bt_mutexesLock :: "nat option"
  bt_locked :: "nat \<Rightarrow> nat option"
  bt_next :: nat
  bt_places :: "nat \<Rightarrow> busy_place"

definition NewBusyTable :: busyTable where
  "NewBusyTable = \<lparr>bt_mutexes = \<lambda>_. None, bt_mutexesLock = None, bt_locked = \<lambda>_. None, bt_next = 0,
     bt_places = \<lambda>_. Outside\<rparr>"

definition at_place :: "nat \<Rightarrow> busy_place \<Rightarrow> busyTable \<Rightarrow> busyTable" where
  "at_place t place s = s\<lparr>bt_places := (bt_places s)(t := place)\<rparr>"

text \<open>The next operation of a thread within \<open>AcquireLock\<close>; none if it has to wait.\<close>

definition AcquireLock_step :: "nat \<Rightarrow> busyTable \<Rightarrow> busyTable option" where
  "AcquireLock_step t s = (case bt_places s t of
     Calling port \<Rightarrow>
       (case bt_mutexesLock s of
          Some _ \<Rightarrow> None
        | None \<Rightarrow> Some (at_place t (Looking port) (s\<lparr>bt_mutexesLock := Some t\<rparr>)))
   | Looking port \<Rightarrow>
       (case bt_mutexes s port of
          Some _ \<Rightarrow> Some (at_place t (Reading port) s)
        | None \<Rightarrow> Some (at_place t (Adding port) s))
   | Adding port \<Rightarrow> Some (at_place t (Reading port)
       (s\<lparr>bt_mutexes := (bt_mutexes s)(port \<mapsto> bt_next s), bt_next := Suc (bt_next s)\<rparr>))
   | Reading port \<Rightarrow>
       (case bt_mutexes s port of
          Some mutex \<Rightarrow> Some (at_place t (Found port mutex) s)
        | None \<Rightarrow> Some (at_place t Panicked s))
   | Found port mutex \<Rightarrow> Some (at_place t (Waiting port mutex) (s\<lparr>bt_mutexesLock := None\<rparr>))
   | Waiting port mutex \<Rightarrow>
       (case bt_locked s mutex of
          Some _ \<Rightarrow> None
        | None \<Rightarrow> Some (at_place t (Inside port mutex) (s\<lparr>bt_locked := (bt_locked s)(mutex \<mapsto> t)\<rparr>)))
   | _ \<Rightarrow> None)"

text \<open>The deferred \<open>Unlock()\<close> of the handlers.\<close>

definition Unlock_step :: "nat \<Rightarrow> busyTable \<Rightarrow> busyTable option" where
  "Unlock_step t s = (case bt_places s t of
     Inside port mutex \<Rightarrow> Some (at_place t Outside (s\<lparr>bt_locked := (bt_locked s)(mutex := None)\<rparr>))
   | _ \<Rightarrow> None)"

inductive busy_step :: "busyTable \<Rightarrow> busyTable \<Rightarrow> bool" where
  call: "bt_places s t = Outside \<Longrightarrow> busy_step s (at_place t (Calling port) s)"
| acquire: "AcquireLock_step t s = Some s' \<Longrightarrow> busy_step s s'"
| unlock: "Unlock_step t s = Some s' \<Longrightarrow> busy_step s s'"

inductive busy_reach :: "busyTable \<Rightarrow> bool" where
  start: "busy_reach NewBusyTable"
| step: "busy_reach s \<Longrightarrow> busy_step s s' \<Longrightarrow> busy_reach s'"

section \<open>Invariant\<close>

fun holds_table :: "busy_place \<Rightarrow> bool" where
  "holds_table (Looking _) \<longleftrightarrow> True"
| "holds_table (Adding _) \<longleftrightarrow> True"
| "holds_table (Reading _) \<longleftrightarrow> True"
| "holds_table (Found _ _) \<longleftrightarrow> True"
| "holds_table _ \<longleftrightarrow> False"

fun known :: "busy_place \<Rightarrow> (PortNumber \<times> nat) option" where
  "known (Found port mutex) = Some (port, mutex)"
| "known (Waiting port mutex) = Some (port, mutex)"
| "known (Inside port mutex) = Some (port, mutex)"
| "known _ = None"

fun held :: "busy_place \<Rightarrow> nat option" where
  "held (Inside port mutex) = Some mutex"
| "held _ = None"

text \<open>What the holder of the table knows about the map.\<close>

fun map_seen :: "(PortNumber \<rightharpoonup> nat) \<Rightarrow> busy_place \<Rightarrow> bool" where
  "map_seen m (Adding port) \<longleftrightarrow> m port = None"
| "map_seen m (Reading port) \<longleftrightarrow> m port \<noteq> None"
| "map_seen m Panicked \<longleftrightarrow> False"
| "map_seen m _ \<longleftrightarrow> True"

lemma map_seen_elsewhere: "map_seen m place \<Longrightarrow> \<not> holds_table place \<Longrightarrow> map_seen m' place"
  by (cases place) auto

definition thread_ok :: "busyTable \<Rightarrow> nat \<Rightarrow> bool" where
  "thread_ok s t \<longleftrightarrow> (holds_table (bt_places s t) \<longleftrightarrow> bt_mutexesLock s = Some t) \<and>
     map_seen (bt_mutexes s) (bt_places s t) \<and>
     (\<forall>port mutex. known (bt_places s t) = Some (port, mutex) \<longrightarrow> bt_mutexes s port = Some mutex) \<and>
     (\<forall>mutex. held (bt_places s t) = Some mutex \<longleftrightarrow> bt_locked s mutex = Some t)"

definition table_ok :: "busyTable \<Rightarrow> bool" where
  "table_ok s \<longleftrightarrow> (\<forall>port mutex. bt_mutexes s port = Some mutex \<longrightarrow> mutex < bt_next s) \<and>
     (\<forall>p q mutex. bt_mutexes s p = Some mutex \<longrightarrow> bt_mutexes s q = Some mutex \<longrightarrow> p = q)"

definition busy_ok :: "busyTable \<Rightarrow> bool" where
  "busy_ok s \<longleftrightarrow> (\<forall>t. thread_ok s t) \<and> table_ok s"

lemma busy_okI: "(\<And>t. thread_ok s t) \<Longrightarrow> table_ok s \<Longrightarrow> busy_ok s"
  by (simp add: busy_ok_def)

lemma busy_okD: "busy_ok s \<Longrightarrow> thread_ok s t" "busy_ok s \<Longrightarrow> table_ok s"
  by (simp_all add: busy_ok_def)

lemma places_at [simp]: "bt_places (at_place t place s) u = (if u = t then place else bt_places s u)"
  by (simp add: at_place_def)

lemma table_at [simp]:
  "bt_mutexesLock (at_place t place s) = bt_mutexesLock s" "bt_mutexes (at_place t place s) = bt_mutexes s"
  "bt_locked (at_place t place s) = bt_locked s" "bt_next (at_place t place s) = bt_next s"
  "table_ok (at_place t place s) = table_ok s"
  by (simp_all add: at_place_def table_ok_def)

lemma inside_locked: "thread_ok s t \<Longrightarrow> bt_places s t = Inside port mutex \<Longrightarrow> bt_locked s mutex = Some t"
  unfolding thread_ok_def by (metis held.simps(1))

lemma known_mutex:
  "thread_ok s t \<Longrightarrow> bt_places s t = Inside port mutex \<Longrightarrow> bt_mutexes s port = Some mutex"
  "thread_ok s t \<Longrightarrow> bt_places s t = Waiting port mutex \<Longrightarrow> bt_mutexes s port = Some mutex"
  unfolding thread_ok_def by simp_all

lemma table_less: "table_ok s \<Longrightarrow> bt_mutexes s port \<noteq> Some (bt_next s)"
  unfolding table_ok_def by (metis less_irrefl)

lemma busy_ok_start: "busy_ok NewBusyTable"
  by (simp add: busy_ok_def thread_ok_def table_ok_def NewBusyTable_def)

lemma busy_ok_acquire:
  assumes ok: "busy_ok s" and step: "AcquireLock_step t s = Some s'"
  shows "busy_ok s'"
proof (rule busy_okI)
  have t: "thread_ok s t" and table: "table_ok s"
    by (rule busy_okD [OF ok])+
  show "thread_ok s' u" for u
    using t busy_okD(1) [OF ok, of u] step
    by (cases "bt_places s t") (auto simp: AcquireLock_step_def thread_ok_def split: option.splits if_splits elim: map_seen_elsewhere)
  show "table_ok s'"
    using step table table_less [OF table]
    by (cases "bt_places s t") (auto simp: AcquireLock_step_def table_ok_def less_Suc_eq split: option.splits if_splits)
qed

lemma busy_ok_unlock:
  assumes ok: "busy_ok s" and step: "Unlock_step t s = Some s'"
  shows "busy_ok s'"
proof (rule busy_okI)
  have t: "thread_ok s t" and table: "table_ok s"
    by (rule busy_okD [OF ok])+
  show "thread_ok s' u" for u
  proof (cases "bt_places s t")
    case (Inside port mutex)
    moreover have "bt_locked s mutex = Some t"
      by (rule inside_locked [OF t Inside])
    ultimately show ?thesis
      using t busy_okD(1) [OF ok, of u] step by (auto simp: Unlock_step_def thread_ok_def split: if_splits)
  qed (use step in \<open>simp_all add: Unlock_step_def\<close>)
  show "table_ok s'"
    using step table by (cases "bt_places s t") (auto simp: Unlock_step_def table_ok_def)
qed

lemma busy_ok_call:
  assumes "busy_ok s" and "bt_places s t = Outside"
  shows "busy_ok (at_place t (Calling port) s)"
proof (rule busy_okI)
  show "thread_ok (at_place t (Calling port) s) u" for u
    using busy_okD(1) [OF assms(1), of u] assms(2) by (auto simp: thread_ok_def split: if_splits)
qed (use busy_okD(2) [OF assms(1)] in simp)

inductive_cases busy_stepE: "busy_step s s'"

lemma busy_reach_ok: "busy_reach s \<Longrightarrow> busy_ok s"
  by (induction rule: busy_reach.induct)
    (auto simp: busy_ok_start elim!: busy_stepE intro: busy_ok_call busy_ok_acquire busy_ok_unlock)

section \<open>Exclusion and progress\<close>

text \<open>C34: in every interleaving, at most one request is inside for a port, a
  request waits for a mutex only while another request of the same port is inside, none finds the map without a mutex, and as long as
  a request has called and not released, some request can go on: requests cannot deadlock.\<close>

theorem busyTable_exclusive:
  assumes "busy_reach s"
  shows "(bt_places s t = Inside port a \<and> bt_places s u = Inside port b \<longrightarrow> t = u) \<and>
    (bt_places s t = Waiting port a \<and> AcquireLock_step t s = None \<longrightarrow> (\<exists>v. bt_places s v = Inside port a)) \<and>
    bt_places s t \<noteq> Panicked \<and>
    (bt_places s t \<noteq> Outside \<longrightarrow> (\<exists>v. AcquireLock_step v s \<noteq> None \<or> Unlock_step v s \<noteq> None))"
proof -
  have ok: "thread_ok s v" and table: "table_ok s" for v
    by (rule busy_okD [OF busy_reach_ok [OF assms]])+
  have "t = u" if "bt_places s t = Inside port a" "bt_places s u = Inside port b"
  proof -
    have "a = b"
      using known_mutex(1) [OF ok that(1)] known_mutex(1) [OF ok that(2)] by simp
    then show ?thesis
      using inside_locked [OF ok that(1)] inside_locked [OF ok that(2)] by simp
  qed
  moreover have holder: "\<exists>v. bt_places s v = Inside port a"
    if here: "bt_places s t = Waiting port a" and blocked: "AcquireLock_step t s = None" for t port a
  proof -
    obtain v where "bt_locked s a = Some v"
      using here blocked by (auto simp: AcquireLock_step_def split: option.splits)
    then obtain p where p: "bt_places s v = Inside p a"
      using ok [of v] by (cases "bt_places s v") (auto simp: thread_ok_def)
    then have "p = port"
      using known_mutex(1) [OF ok p] known_mutex(2) [OF ok here] table by (auto simp: table_ok_def)
    then show ?thesis
      using p by blast
  qed
  moreover have fine: "bt_places s t \<noteq> Panicked" for t
    using ok [of t] by (auto simp: thread_ok_def)
  moreover have "\<exists>v. AcquireLock_step v s \<noteq> None \<or> Unlock_step v s \<noteq> None" if away: "bt_places s t \<noteq> Outside"
  proof (cases "bt_mutexesLock s")
    case (Some v)
    then have "holds_table (bt_places s v)"
      using ok [of v] by (simp add: thread_ok_def)
    then have "AcquireLock_step v s \<noteq> None"
      by (cases "bt_places s v") (auto simp: AcquireLock_step_def split: option.splits)
    then show ?thesis
      by blast
  next
    case None
    show ?thesis
    proof (cases "\<exists>p m. bt_places s t = Waiting p m \<and> AcquireLock_step t s = None")
      case True
      then obtain v p m where "bt_places s v = Inside p m"
        using holder by blast
      then show ?thesis
        by (auto simp: Unlock_step_def intro: exI [of _ v])
    next
      case False
      then have "AcquireLock_step t s \<noteq> None \<or> Unlock_step t s \<noteq> None"
        using None away fine [of t] by (cases "bt_places s t") (auto simp: AcquireLock_step_def Unlock_step_def split: option.splits)
      then show ?thesis
        by blast
    qed
  qed
  ultimately show ?thesis
    by blast
qed

fun acquire_many :: "nat list \<Rightarrow> busyTable \<Rightarrow> busyTable option" where
  "acquire_many [] s = Some s"
| "acquire_many (t # ts) s = (case AcquireLock_step t s of None \<Rightarrow> None | Some s' \<Rightarrow> acquire_many ts s')"

lemma busy_reach_many: "busy_reach s \<Longrightarrow> acquire_many ts s = Some s' \<Longrightarrow> busy_reach s'"
  by (induction ts arbitrary: s) (auto split: option.splits intro: busy_reach.step [OF _ busy_step.acquire])

text \<open>Three requests, two of them for one port.\<close>

definition three_requests :: busyTable where
  "three_requests = at_place 2 (Calling 27017) (at_place 1 (Calling 27018) (at_place 0 (Calling 27017) NewBusyTable))"

lemma three_requests_reach: "busy_reach three_requests"
  unfolding three_requests_def
  by (intro busy_reach.step [OF _ busy_step.call] busy_reach.start) (simp_all add: NewBusyTable_def)

definition interleaved :: busyTable where
  "interleaved = the (acquire_many [0, 0, 0, 0, 0, 1, 1, 1, 1, 1, 2, 2, 2, 2, 0, 1] three_requests)"

lemmas busy_eval = interleaved_def three_requests_def AcquireLock_step_def NewBusyTable_def at_place_def

lemma interleaved_reach: "busy_reach interleaved"
  by (rule busy_reach_many [OF three_requests_reach, of "[0, 0, 0, 0, 0, 1, 1, 1, 1, 1, 2, 2, 2, 2, 0, 1]"]) (simp add: busy_eval)

lemma interleaved_places:
  "bt_places interleaved 0 = Inside 27017 0" "bt_places interleaved 1 = Inside 27018 1"
  "bt_places interleaved 2 = Waiting 27017 0" "AcquireLock_step 2 interleaved = None"
  by (simp_all add: busy_eval)

theorem busyTable_exclusive_witness:
  "(\<exists>v. bt_places interleaved v = Inside 27017 0) \<and>
   (\<exists>v. AcquireLock_step v interleaved \<noteq> None \<or> Unlock_step v interleaved \<noteq> None)"
  using busyTable_exclusive [OF interleaved_reach, of 2 27017 0 2 0] interleaved_places by simp

text \<open>The mutexes exclude requests of one port only: two requests of different ports
  can be inside together, so the maps that all ports share, such as \<open>mongodCredentials\<close>, are not protected.\<close>

theorem busyTable_shares:
  "\<exists>s t u p q a b. busy_reach s \<and> t \<noteq> u \<and> p \<noteq> q \<and> bt_places s t = Inside p a \<and> bt_places s u = Inside q b"
proof -
  have "(0 :: nat) \<noteq> 1" "(27017 :: PortNumber) \<noteq> 27018"
    by simp_all
  then show ?thesis
    using interleaved_reach interleaved_places(1,2) by blast
qed

end
