(* ===== verification/ProcessTable.thy ===== *)
theory ProcessTable
  imports BusyTable SlaveController
begin

text \<open>
  The table of processes of a slave, \<open>src/slave/processmanager.go\<close>, under concurrency: the threads of the
  requests, which hold the mutex of their port in the busy table while they look up, spawn and
  kill; one goroutine per process that waits for its end and sends its port to \<open>killChan\<close>; and the
  goroutine of \<open>Run\<close> that receives ports and deletes their entries.

  \<open>SlaveController\<close> models what one request does and lets entries disappear at any call to the
  outside; here the entries disappear as the code deletes them.  A process, with its \<open>exec.Cmd\<close>, is a
  number, which is never used again.  \<open>Process.Wait\<close> returns only when the process has ended, and the
  operations on the map, which the code does not synchronise, are taken to be atomic.
\<close>

section \<open>State\<close>

text \<open>The goroutine of a process: before \<open>Wait\<close> returns, and at \<open>p.killChan <- m.Port\<close>; and a thread between
  \<open>HasProcess\<close> and the end of \<open>SpawnProcess\<close>: when it has found no process, and when it has started one
  that is not registered.\<close>

datatype waiter = Awaiting PortNumber | Notifying PortNumber

datatype spawner = NoSpawn | Checked PortNumber | Started PortNumber nat

record process_table =
  pt_busy :: busyTable
  pt_spawner :: "nat \<Rightarrow> spawner"
  pt_running :: "PortNumber \<rightharpoonup> nat"
  pt_alive :: "nat set"
  pt_waiter :: "nat \<rightharpoonup> waiter"
  pt_received :: "PortNumber option"
  pt_next :: nat

definition NewProcessManager :: process_table where
  "NewProcessManager = \<lparr>pt_busy = NewBusyTable, pt_spawner = \<lambda>_. NoSpawn, pt_running = \<lambda>_. None, pt_alive = {},
     pt_waiter = \<lambda>_. None, pt_received = None, pt_next = 0\<rparr>"

definition table_HasProcess :: "PortNumber \<Rightarrow> process_table \<Rightarrow> bool" where
  "table_HasProcess port s \<longleftrightarrow> port \<in> dom (pt_running s)"

text \<open>The ports in the order in which the map is iterated.\<close>

definition RunningProcesses :: "PortNumber list \<Rightarrow> process_table \<Rightarrow> PortNumber list" where
  "RunningProcesses order s = filter (\<lambda>port. table_HasProcess port s) order"

section \<open>Operations\<close>

text \<open>A request inside for \<open>port\<close> looks for a process and goes on to spawn one.\<close>

definition check_step :: "nat \<Rightarrow> process_table \<Rightarrow> process_table option" where
  "check_step t s = (case (bt_places (pt_busy s) t, pt_spawner s t) of
     (Inside port _, NoSpawn) \<Rightarrow>
       if table_HasProcess port s then None
       else Some (s\<lparr>pt_spawner := (pt_spawner s)(t := Checked port)\<rparr>)
   | _ \<Rightarrow> None)"

text \<open>An error before or at \<open>cmd.Start()\<close>.\<close>

definition abandon_step :: "nat \<Rightarrow> process_table \<Rightarrow> process_table option" where
  "abandon_step t s = (case pt_spawner s t of
     Checked _ \<Rightarrow> Some (s\<lparr>pt_spawner := (pt_spawner s)(t := NoSpawn)\<rparr>)
   | _ \<Rightarrow> None)"

text \<open>\<open>cmd.Start()\<close> and the \<open>go\<close> statement, then the assignment to the map.\<close>

definition start_step :: "nat \<Rightarrow> process_table \<Rightarrow> process_table option" where
  "start_step t s = (case pt_spawner s t of
     Checked port \<Rightarrow> Some (s\<lparr>pt_spawner := (pt_spawner s)(t := Started port (pt_next s)),
       pt_alive := insert (pt_next s) (pt_alive s), pt_waiter := (pt_waiter s)(pt_next s \<mapsto> Awaiting port),
       pt_next := Suc (pt_next s)\<rparr>)
   | _ \<Rightarrow> None)"

definition register_step :: "nat \<Rightarrow> process_table \<Rightarrow> process_table option" where
  "register_step t s = (case pt_spawner s t of
     Started port n \<Rightarrow> Some (s\<lparr>pt_spawner := (pt_spawner s)(t := NoSpawn), pt_running := (pt_running s)(port \<mapsto> n)\<rparr>)
   | _ \<Rightarrow> None)"

text \<open>A process ends, by itself or killed; the goroutine that waits for it.\<close>

definition exit_process :: "nat \<Rightarrow> process_table \<Rightarrow> process_table" where
  "exit_process n s = s\<lparr>pt_alive := pt_alive s - {n}\<rparr>"

definition wait_step :: "nat \<Rightarrow> process_table \<Rightarrow> process_table option" where
  "wait_step n s = (case pt_waiter s n of
     Some (Awaiting port) \<Rightarrow>
       if n \<in> pt_alive s then None else Some (s\<lparr>pt_waiter := (pt_waiter s)(n \<mapsto> Notifying port)\<rparr>)
   | _ \<Rightarrow> None)"

text \<open>The unbuffered channel: the send and the receive of \<open>Run\<close> happen together; then \<open>Run\<close> deletes.\<close>

definition receive_step :: "nat \<Rightarrow> process_table \<Rightarrow> process_table option" where
  "receive_step n s = (case (pt_received s, pt_waiter s n) of
     (None, Some (Notifying port)) \<Rightarrow> Some (s\<lparr>pt_waiter := (pt_waiter s)(n := None), pt_received := Some port\<rparr>)
   | _ \<Rightarrow> None)"

definition delete_step :: "process_table \<Rightarrow> process_table option" where
  "delete_step s = (case pt_received s of
     None \<Rightarrow> None
   | Some port \<Rightarrow> Some (s\<lparr>pt_running := (pt_running s)(port := None), pt_received := None\<rparr>))"

text \<open>Killing; \<open>refuse\<close> is the error of \<open>Process.Kill\<close>, and \<open>KillProcesses\<close> returns the first one.\<close>

definition Process_Kill :: "(nat \<Rightarrow> string option) \<Rightarrow> nat \<Rightarrow> process_table \<Rightarrow> string option \<times> process_table" where
  "Process_Kill refuse n s = (case refuse n of
     Some err \<Rightarrow> (Some err, s) | None \<Rightarrow> (None, exit_process n s))"

definition table_KillProcess :: "(nat \<Rightarrow> string option) \<Rightarrow> PortNumber \<Rightarrow> process_table \<Rightarrow> string option \<times> process_table" where
  "table_KillProcess refuse port s = (case pt_running s port of
     Some n \<Rightarrow> Process_Kill refuse n s | None \<Rightarrow> (None, s))"

fun kill_each :: "(nat \<Rightarrow> string option) \<Rightarrow> PortNumber list \<Rightarrow> process_table \<Rightarrow> string option \<times> process_table" where
  "kill_each refuse [] s = (None, s)"
| "kill_each refuse (port # ports) s =
    (let (curErr, s1) = table_KillProcess refuse port s; (err, s2) = kill_each refuse ports s1
     in (if curErr = None then err else curErr, s2))"

definition KillProcesses :: "(nat \<Rightarrow> string option) \<Rightarrow> PortNumber list \<Rightarrow> process_table \<Rightarrow> string option \<times> process_table" where
  "KillProcesses refuse order s =
    (let (err, s1) = kill_each refuse (RunningProcesses order s) s in (err, s1\<lparr>pt_running := \<lambda>_. None\<rparr>))"

section \<open>Interleaving\<close>

text \<open>A thread in the middle of \<open>SpawnProcess\<close> does not operate on the busy table.\<close>

definition undisturbed :: "process_table \<Rightarrow> busyTable \<Rightarrow> bool" where
  "undisturbed s b \<longleftrightarrow> (\<forall>t. pt_spawner s t \<noteq> NoSpawn \<longrightarrow> bt_places b t = bt_places (pt_busy s) t)"

inductive process_step :: "process_table \<Rightarrow> process_table \<Rightarrow> bool" where
  busy: "busy_step (pt_busy s) b \<Longrightarrow> undisturbed s b \<Longrightarrow> process_step s (s\<lparr>pt_busy := b\<rparr>)"
| check: "check_step t s = Some s' \<Longrightarrow> process_step s s'"
| abandon: "abandon_step t s = Some s' \<Longrightarrow> process_step s s'"
| started: "start_step t s = Some s' \<Longrightarrow> process_step s s'"
| register: "register_step t s = Some s' \<Longrightarrow> process_step s s'"
| exit: "process_step s (exit_process n s)"
| killed: "process_step s (snd (table_KillProcess refuse port s))"
| waited: "wait_step n s = Some s' \<Longrightarrow> process_step s s'"
| receive: "receive_step n s = Some s' \<Longrightarrow> process_step s s'"
| delete: "delete_step s = Some s' \<Longrightarrow> process_step s s'"

inductive_cases process_stepE: "process_step s s'"

inductive process_reach :: "process_table \<Rightarrow> bool" where
  start: "process_reach NewProcessManager"
| step: "process_reach s \<Longrightarrow> process_step s s' \<Longrightarrow> process_reach s'"

section \<open>Invariant\<close>

primrec waiter_port :: "waiter \<Rightarrow> PortNumber" where
  "waiter_port (Awaiting port) = port"
| "waiter_port (Notifying port) = port"

text \<open>The process that a port has: registered, or started and about to be registered.\<close>

definition occupies :: "process_table \<Rightarrow> PortNumber \<Rightarrow> nat \<Rightarrow> bool" where
  "occupies s port n \<longleftrightarrow> pt_running s port = Some n \<or> (\<exists>t. pt_spawner s t = Started port n)"

definition inside :: "process_table \<Rightarrow> nat \<Rightarrow> PortNumber \<Rightarrow> bool" where
  "inside s t port \<longleftrightarrow> (\<exists>mutex. bt_places (pt_busy s) t = Inside port mutex)"

primrec spawner_ok :: "process_table \<Rightarrow> nat \<Rightarrow> spawner \<Rightarrow> bool" where
  "spawner_ok s t NoSpawn \<longleftrightarrow> True"
| "spawner_ok s t (Checked port) \<longleftrightarrow> inside s t port \<and> pt_running s port = None"
| "spawner_ok s t (Started port n) \<longleftrightarrow> inside s t port \<and> pt_running s port = None"

definition process_ok :: "process_table \<Rightarrow> bool" where
  "process_ok s \<longleftrightarrow> busy_reach (pt_busy s) \<and> (\<forall>t. spawner_ok s t (pt_spawner s t)) \<and>
    (\<forall>port n. occupies s port n \<longrightarrow> n < pt_next s) \<and>
    (\<forall>port port' n. occupies s port n \<longrightarrow> occupies s port' n \<longrightarrow> port = port') \<and>
    (\<forall>n w. pt_waiter s n = Some w \<longrightarrow> occupies s (waiter_port w) n) \<and>
    (\<forall>n. n \<in> pt_alive s \<longrightarrow> (\<exists>port. pt_waiter s n = Some (Awaiting port))) \<and>
    (\<forall>port. pt_received s = Some port \<longrightarrow> (\<exists>n. occupies s port n \<and> pt_waiter s n = None))"

lemma process_okD:
  assumes "process_ok s"
  shows "busy_reach (pt_busy s)" "spawner_ok s t (pt_spawner s t)"
    "occupies s port n \<Longrightarrow> n < pt_next s"
    "occupies s port n \<Longrightarrow> occupies s port' n \<Longrightarrow> port = port'"
    "pt_waiter s n = Some w \<Longrightarrow> occupies s (waiter_port w) n"
    "n \<in> pt_alive s \<Longrightarrow> \<exists>port. pt_waiter s n = Some (Awaiting port)"
    "pt_received s = Some port \<Longrightarrow> \<exists>n. occupies s port n \<and> pt_waiter s n = None"
  using assms unfolding process_ok_def by blast+

lemma inside_exclusive:
  assumes "process_ok s" and "inside s t port" and "inside s u port"
  shows "t = u"
proof -
  have ok: "thread_ok (pt_busy s) v" for v
    by (rule busy_okD [OF busy_reach_ok [OF process_okD(1) [OF assms(1)]]])
  obtain a b where a: "bt_places (pt_busy s) t = Inside port a" and b: "bt_places (pt_busy s) u = Inside port b"
    using assms(2,3) by (auto simp: inside_def)
  have "a = b"
    using known_mutex(1) [OF ok a] known_mutex(1) [OF ok b] by simp
  then show ?thesis
    using inside_locked [OF ok a] inside_locked [OF ok b] by simp
qed

lemma started_inside:
  assumes "process_ok s" and "pt_spawner s t = Started port n"
  shows "inside s t port" "pt_running s port = None"
  using process_okD(2) [OF assms(1), of t] assms(2) by simp_all

lemma checked_inside:
  assumes "process_ok s" and "pt_spawner s t = Checked port"
  shows "inside s t port" "pt_running s port = None"
  using process_okD(2) [OF assms(1), of t] assms(2) by simp_all

text \<open>A port has at most one process.\<close>

lemma occupies_unique:
  assumes ok: "process_ok s" and "occupies s port m" and "occupies s port n"
  shows "m = n"
proof -
  have started: "m = n" if "pt_spawner s t = Started port m" "pt_spawner s u = Started port n" for t u m n
    using inside_exclusive [OF ok started_inside(1) [OF ok that(1)] started_inside(1) [OF ok that(2)]] that by simp
  show ?thesis
    using assms(2,3) started started_inside(2) [OF ok] unfolding occupies_def by auto
qed

lemma occupies_running: "process_ok s \<Longrightarrow> pt_running s port = Some m \<Longrightarrow> occupies s port n \<longleftrightarrow> n = m"
  using occupies_unique unfolding occupies_def by blast

lemma occupies_started: "process_ok s \<Longrightarrow> pt_spawner s t = Started port m \<Longrightarrow> occupies s port n \<longleftrightarrow> n = m"
  using occupies_unique unfolding occupies_def by blast

text \<open>While a thread is about to start a process, its port has none.\<close>

lemma checked_free:
  assumes ok: "process_ok s" and "pt_spawner s t = Checked port"
  shows "\<not> occupies s port n"
proof
  assume "occupies s port n"
  then obtain u where u: "pt_spawner s u = Started port n"
    using checked_inside(2) [OF assms] by (auto simp: occupies_def)
  have "u = t"
    by (rule inside_exclusive [OF ok started_inside(1) [OF ok u] checked_inside(1) [OF assms]])
  with u assms(2) show False
    by simp
qed

section \<open>Every step keeps the invariant\<close>

lemma process_okI:
  assumes "busy_reach (pt_busy s)" and "\<And>t. spawner_ok s t (pt_spawner s t)"
    and "\<And>port n. occupies s port n \<Longrightarrow> n < pt_next s"
    and "\<And>port port' n. occupies s port n \<Longrightarrow> occupies s port' n \<Longrightarrow> port = port'"
    and "\<And>n w. pt_waiter s n = Some w \<Longrightarrow> occupies s (waiter_port w) n"
    and "\<And>n. n \<in> pt_alive s \<Longrightarrow> \<exists>port. pt_waiter s n = Some (Awaiting port)"
    and "\<And>port. pt_received s = Some port \<Longrightarrow> \<exists>n. occupies s port n \<and> pt_waiter s n = None"
  shows "process_ok s"
  using assms unfolding process_ok_def by blast

lemma spawner_ok_cong:
  assumes "pt_running s' = pt_running s" and "pt_busy s' = pt_busy s"
  shows "spawner_ok s' t p = spawner_ok s t p"
  using assms by (cases p) (simp_all add: inside_def)

lemma ex_updated:
  assumes "f t \<noteq> y"
  shows "(\<exists>u. (f(t := x)) u = y) \<longleftrightarrow> x = y \<or> (\<exists>u. f u = y)"
  using assms by (metis fun_upd_other fun_upd_same)

lemma process_ok_start: "process_ok NewProcessManager"
  by (rule process_okI) (simp_all add: NewProcessManager_def occupies_def busy_reach.start)

lemma process_ok_busy:
  assumes ok: "process_ok s" and "busy_step (pt_busy s) b" and "undisturbed s b"
  shows "process_ok (s\<lparr>pt_busy := b\<rparr>)"
proof (rule process_okI)
  show "spawner_ok (s\<lparr>pt_busy := b\<rparr>) t (pt_spawner (s\<lparr>pt_busy := b\<rparr>) t)" for t
    using process_okD(2) [OF ok, of t] assms(3)
    by (cases "pt_spawner s t") (auto simp: inside_def undisturbed_def)
qed (use assms process_okD [OF ok] in \<open>auto simp: occupies_def intro: busy_reach.step\<close>)

lemma process_ok_check:
  assumes ok: "process_ok s" and step: "check_step t s = Some s'"
  shows "process_ok s'"
proof -
  obtain port where s': "s' = s\<lparr>pt_spawner := (pt_spawner s)(t := Checked port)\<rparr>"
    and here: "inside s t port" "pt_running s port = None" "pt_spawner s t = NoSpawn"
    using step by (auto simp: check_step_def table_HasProcess_def inside_def domIff
        split: busy_place.splits spawner.splits if_splits)
  have "occupies s' p n = occupies s p n" for p n
    using here(3) by (simp add: s' occupies_def ex_updated del: fun_upd_apply)
  moreover have "spawner_ok s' u p = spawner_ok s u p" for u p
    by (rule spawner_ok_cong) (simp_all add: s')
  ultimately show ?thesis
    using here process_okD [OF ok] by (intro process_okI) (auto simp: s')
qed

lemma process_ok_abandon:
  assumes ok: "process_ok s" and step: "abandon_step t s = Some s'"
  shows "process_ok s'"
proof -
  obtain port where s': "s' = s\<lparr>pt_spawner := (pt_spawner s)(t := NoSpawn)\<rparr>" and here: "pt_spawner s t = Checked port"
    using step by (auto simp: abandon_step_def split: spawner.splits)
  have "occupies s' p n = occupies s p n" for p n
    using here by (simp add: s' occupies_def ex_updated del: fun_upd_apply)
  moreover have "spawner_ok s' u p = spawner_ok s u p" for u p
    by (rule spawner_ok_cong) (simp_all add: s')
  ultimately show ?thesis
    using process_okD [OF ok] by (intro process_okI) (auto simp: s')
qed

lemma process_ok_started:
  assumes ok: "process_ok s" and step: "start_step t s = Some s'"
  shows "process_ok s'"
proof -
  obtain port where here: "pt_spawner s t = Checked port"
    and s': "s' = s\<lparr>pt_spawner := (pt_spawner s)(t := Started port (pt_next s)),
       pt_alive := insert (pt_next s) (pt_alive s), pt_waiter := (pt_waiter s)(pt_next s \<mapsto> Awaiting port),
       pt_next := Suc (pt_next s)\<rparr>"
    using step by (auto simp: start_step_def split: spawner.splits)
  have occ: "occupies s' p n \<longleftrightarrow> occupies s p n \<or> (p = port \<and> n = pt_next s)" for p n
    using here by (auto simp: s' occupies_def ex_updated simp del: fun_upd_apply)
  have new: "\<not> occupies s p (pt_next s)" for p
    using process_okD(3) [OF ok] by blast
  have sp: "spawner_ok s' u p = spawner_ok s u p" for u p
    by (rule spawner_ok_cong) (simp_all add: s')
  show ?thesis
  proof (rule process_okI)
    show "\<exists>n. occupies s' p n \<and> pt_waiter s' n = None" if r: "pt_received s' = Some p" for p
    proof -
      obtain n where n: "occupies s p n" "pt_waiter s n = None"
        using r process_okD(7) [OF ok, of p] by (auto simp: s')
      then have "n \<noteq> pt_next s"
        using new by blast
      then have "pt_waiter s' n = None"
        using n(2) by (simp add: s')
      with n(1) show ?thesis
        unfolding occ by blast
    qed
    show "n < pt_next s'" if "occupies s' p n" for p n
      using that [unfolded occ] process_okD(3) [OF ok, of p n] by (auto simp: s')
    show "p = q" if "occupies s' p n" "occupies s' q n" for p q n
      using that [unfolded occ] process_okD(4) [OF ok, of p n q] new by auto
    show "spawner_ok s' u (pt_spawner s' u)" for u
      using process_okD(2) [OF ok, of u] process_okD(2) [OF ok, of t] here by (auto simp: sp) (auto simp: s' sp inside_def)
    show "occupies s' (waiter_port w) n" if "pt_waiter s' n = Some w" for n w
      using that process_okD(5) [OF ok, of n w] by (auto simp: occ) (auto simp: s' split: if_splits)
    show "\<exists>p. pt_waiter s' n = Some (Awaiting p)" if "n \<in> pt_alive s'" for n
      using that process_okD(6) [OF ok, of n] by (auto simp: s')
  qed (use process_okD(1) [OF ok] in \<open>simp add: s'\<close>)
qed

lemma process_ok_register:
  assumes ok: "process_ok s" and step: "register_step t s = Some s'"
  shows "process_ok s'"
proof -
  obtain port n where here: "pt_spawner s t = Started port n"
    and s': "s' = s\<lparr>pt_spawner := (pt_spawner s)(t := NoSpawn), pt_running := (pt_running s)(port \<mapsto> n)\<rparr>"
    using step by (auto simp: register_step_def split: spawner.splits)
  have occ: "occupies s' p m = occupies s p m" for p m
  proof (cases "p = port")
    case True
    then show ?thesis
      using occupies_started [OF ok here, of m] started_inside(2) [OF ok here] here by (auto simp: s' occupies_def)
  next
    case False
    then show ?thesis
      using here by (simp add: s' occupies_def ex_updated del: fun_upd_apply) simp
  qed
  have other: "port' \<noteq> port" if "inside s u port'" "u \<noteq> t" for u port'
    using that started_inside(1) [OF ok here] inside_exclusive [OF ok] by blast
  show ?thesis
  proof (rule process_okI)
    show "spawner_ok s' u (pt_spawner s' u)" for u
      using process_okD(2) [OF ok, of u] other
      by (cases "pt_spawner s u") (auto simp: s' inside_def)
  qed (use process_okD [OF ok] occ in \<open>auto simp: s'\<close>)
qed

lemma process_ok_exit: "process_ok s \<Longrightarrow> process_ok (exit_process n s)"
  using process_okD spawner_ok_cong [of "exit_process n s" s]
  by (intro process_okI) (auto simp: exit_process_def occupies_def)

lemma process_ok_killed: "process_ok s \<Longrightarrow> process_ok (snd (table_KillProcess refuse port s))"
  by (auto simp: table_KillProcess_def Process_Kill_def process_ok_exit split: option.split)

lemma process_ok_waited:
  assumes ok: "process_ok s" and step: "wait_step n s = Some s'"
  shows "process_ok s'"
proof -
  obtain port where here: "pt_waiter s n = Some (Awaiting port)" "n \<notin> pt_alive s"
    and s': "s' = s\<lparr>pt_waiter := (pt_waiter s)(n \<mapsto> Notifying port)\<rparr>"
    using step by (auto simp: wait_step_def split: option.splits waiter.splits if_splits)
  have occ: "occupies s' p m = occupies s p m" for p m
    by (simp add: s' occupies_def)
  have sp: "spawner_ok s' u p = spawner_ok s u p" for u p
    by (rule spawner_ok_cong) (simp_all add: s')
  have "occupies s port n"
    using process_okD(5) [OF ok here(1)] by simp
  then show ?thesis
  proof (intro process_okI)
    show "\<exists>m. occupies s' p m \<and> pt_waiter s' m = None" if r: "pt_received s' = Some p" for p
    proof -
      obtain m where m: "occupies s p m" "pt_waiter s m = None"
        using r process_okD(7) [OF ok, of p] by (auto simp: s')
      then have "m \<noteq> n"
        using here(1) by auto
      then have "pt_waiter s' m = None"
        using m(2) by (simp add: s')
      with m(1) show ?thesis
        unfolding occ by blast
    qed
    show "occupies s' (waiter_port w) m" if "pt_waiter s' m = Some w" for m w
      using that process_okD(5) [OF ok, of m] \<open>occupies s port n\<close> by (auto simp: occ) (auto simp: s' split: if_splits)
  qed (use process_okD [OF ok] here in \<open>auto simp: occ sp\<close>, auto simp: s')
qed

lemma process_ok_receive:
  assumes ok: "process_ok s" and step: "receive_step n s = Some s'"
  shows "process_ok s'"
proof -
  obtain port where here: "pt_waiter s n = Some (Notifying port)"
    and s': "s' = s\<lparr>pt_waiter := (pt_waiter s)(n := None), pt_received := Some port\<rparr>"
    using step by (auto simp: receive_step_def split: option.splits waiter.splits)
  have occ: "occupies s' p m = occupies s p m" for p m
    by (simp add: s' occupies_def)
  have sp: "spawner_ok s' u p = spawner_ok s u p" for u p
    by (rule spawner_ok_cong) (simp_all add: s')
  have here': "occupies s port n"
    using process_okD(5) [OF ok here] by simp
  show ?thesis
  proof (rule process_okI)
    show "\<exists>p. pt_waiter s' m = Some (Awaiting p)" if "m \<in> pt_alive s'" for m
      using that process_okD(6) [OF ok, of m] here by (auto simp: s')
    show "occupies s' (waiter_port w) m" if "pt_waiter s' m = Some w" for m w
      using that process_okD(5) [OF ok, of m] by (auto simp: occ) (auto simp: s' split: if_splits)
    show "\<exists>m. occupies s' p m \<and> pt_waiter s' m = None" if "pt_received s' = Some p" for p
      using that here' by (auto simp: occ) (auto simp: s')
  qed (use process_okD [OF ok] in \<open>auto simp: occ sp\<close>, auto simp: s')
qed

lemma process_ok_delete:
  assumes ok: "process_ok s" and step: "delete_step s = Some s'"
  shows "process_ok s'"
proof -
  obtain port where here: "pt_received s = Some port"
    and s': "s' = s\<lparr>pt_running := (pt_running s)(port := None), pt_received := None\<rparr>"
    using step by (auto simp: delete_step_def split: option.splits)
  obtain n where n: "occupies s port n" "pt_waiter s n = None"
    using process_okD(7) [OF ok here] by blast
  have occ: "occupies s' p m" if "occupies s p m" "m \<noteq> n" for p m
  proof -
    have "p \<noteq> port"
      using that n(1) occupies_unique [OF ok] by blast
    with that show ?thesis
      by (auto simp: s' occupies_def)
  qed
  have less: "occupies s p m" if "occupies s' p m" for p m
    using that by (auto simp: s' occupies_def split: if_splits)
  show ?thesis
  proof (rule process_okI)
    show "occupies s' (waiter_port w) m" if "pt_waiter s' m = Some w" for m w
    proof -
      have w: "pt_waiter s m = Some w"
        using that by (simp add: s')
      then have "m \<noteq> n"
        using n(2) by auto
      then show ?thesis
        by (rule occ [OF process_okD(5) [OF ok w]])
    qed
    show "spawner_ok s' u (pt_spawner s' u)" for u
      using process_okD(2) [OF ok, of u] by (cases "pt_spawner s u") (auto simp: s' inside_def)
    show "p = q" if "occupies s' p m" "occupies s' q m" for p q m
      by (rule process_okD(4) [OF ok less [OF that(1)] less [OF that(2)]])
    show "m < pt_next s'" if "occupies s' p m" for p m
      using process_okD(3) [OF ok less [OF that]] by (simp add: s')
  qed (use process_okD [OF ok] in \<open>simp_all add: s'\<close>)
qed

lemmas process_ok_steps = process_ok_busy process_ok_check process_ok_abandon process_ok_started process_ok_register
  process_ok_exit process_ok_killed process_ok_waited process_ok_receive process_ok_delete

lemma process_step_ok: "process_ok s \<Longrightarrow> process_step s s' \<Longrightarrow> process_ok s'"
  by (erule process_stepE) (auto intro: process_ok_steps)

lemma process_reach_ok: "process_reach s \<Longrightarrow> process_ok s"
  by (induction rule: process_reach.induct) (auto intro: process_ok_start process_step_ok)

section \<open>What the table says of the processes\<close>

text \<open>The port a live process was started for.\<close>

definition serves :: "process_table \<Rightarrow> PortNumber \<Rightarrow> nat \<Rightarrow> bool" where
  "serves s port n \<longleftrightarrow> n \<in> pt_alive s \<and> pt_waiter s n = Some (Awaiting port)"

lemma alive_serves: "process_ok s \<Longrightarrow> n \<in> pt_alive s \<Longrightarrow> \<exists>port. serves s port n"
  using process_okD(6) unfolding serves_def by blast

lemma serves_occupies: "process_ok s \<Longrightarrow> serves s port n \<Longrightarrow> occupies s port n"
  using process_okD(5) [of s n "Awaiting port"] by (simp add: serves_def)

text \<open>C12: in every interleaving of requests, processes and the goroutines of the process manager, a
  port has at most one live process, every live process is registered or about to be registered by the
  request that started it, and so a request that is inside for a port and finds no entry in the table,
  as before it spawns a Mongod or removes its data, can rely on there being no process.\<close>

theorem live_process_known:
  assumes "process_reach s" and "serves s port n"
  shows "(\<forall>m. serves s port m \<longrightarrow> m = n) \<and>
    (pt_running s port = Some n \<or> (\<exists>t. pt_spawner s t = Started port n \<and> inside s t port)) \<and>
    (\<forall>t. inside s t port \<and> pt_spawner s t = NoSpawn \<longrightarrow> table_HasProcess port s)"
proof -
  have ok: "process_ok s"
    by (rule process_reach_ok [OF assms(1)])
  have n: "occupies s port n"
    by (rule serves_occupies [OF ok assms(2)])
  have "t = u" if "inside s t port" "pt_spawner s u = Started port n" for t u
    by (rule inside_exclusive [OF ok that(1) started_inside(1) [OF ok that(2)]])
  then have "table_HasProcess port s" if "inside s t port" "pt_spawner s t = NoSpawn" for t
    using that n by (fastforce simp: occupies_def table_HasProcess_def)
  then show ?thesis
    using n started_inside(1) [OF ok] occupies_unique [OF ok] serves_occupies [OF ok] unfolding occupies_def by blast
qed

text \<open>The goroutines of the process manager: those that wait for the processes, and \<open>Run\<close>.\<close>

inductive goroutine_step :: "process_table \<Rightarrow> process_table \<Rightarrow> bool" where
  waited: "wait_step n s = Some s' \<Longrightarrow> goroutine_step s s'"
| receive: "receive_step n s = Some s' \<Longrightarrow> goroutine_step s s'"
| delete: "delete_step s = Some s' \<Longrightarrow> goroutine_step s s'"

lemma goroutine_stepE:
  assumes "goroutine_step s s'"
  obtains (waited) n port where "pt_waiter s n = Some (Awaiting port)" "n \<notin> pt_alive s"
      "s' = s\<lparr>pt_waiter := (pt_waiter s)(n \<mapsto> Notifying port)\<rparr>"
    | (receive) n port where "pt_received s = None" "pt_waiter s n = Some (Notifying port)"
      "s' = s\<lparr>pt_waiter := (pt_waiter s)(n := None), pt_received := Some port\<rparr>"
    | (delete) port where "pt_received s = Some port"
      "s' = s\<lparr>pt_running := (pt_running s)(port := None), pt_received := None\<rparr>"
  using assms
  by cases (auto simp: wait_step_def receive_step_def delete_step_def split: option.splits waiter.splits if_splits)

lemma goroutine_process_step: "goroutine_step s s' \<Longrightarrow> process_step s s'"
  by (auto elim!: goroutine_step.cases intro: process_step.waited process_step.receive process_step.delete)

lemma goroutine_reach: "goroutine_step s s' \<Longrightarrow> process_reach s \<Longrightarrow> process_reach s'"
  by (rule process_reach.step [OF _ goroutine_process_step])

lemma goroutine_steps_reach: "goroutine_step\<^sup>*\<^sup>* s s' \<Longrightarrow> process_reach s \<Longrightarrow> process_reach s'"
  by (induction rule: rtranclp_induct) (auto intro: goroutine_reach)

text \<open>Each goroutine has at most two steps left, and \<open>Run\<close> one for each of them.\<close>

definition steps_left :: "process_table \<Rightarrow> nat" where
  "steps_left s = (\<Sum>n<pt_next s. case pt_waiter s n of None \<Rightarrow> 0 | Some (Awaiting _) \<Rightarrow> 3 | Some (Notifying _) \<Rightarrow> 2) +
     (if pt_received s = None then 0 else 1)"

lemma steps_left_bound: "steps_left s \<le> 3 * pt_next s + 1"
proof -
  have "(\<Sum>n<pt_next s. case pt_waiter s n of None \<Rightarrow> 0 | Some (Awaiting _) \<Rightarrow> 3 | Some (Notifying _) \<Rightarrow> 2) \<le>
      (\<Sum>n<pt_next s. 3 :: nat)"
    by (rule sum_mono) (auto split: option.split waiter.split)
  then show ?thesis
    by (simp add: steps_left_def)
qed

lemma goroutine_step_decreases:
  assumes "process_reach s" and "goroutine_step s s'"
  shows "steps_left s' < steps_left s" and "pt_next s' = pt_next s"
proof -
  have known: "n < pt_next s" if "pt_waiter s n = Some w" for n w
    using process_okD(3,5) [OF process_reach_ok [OF assms(1)]] that by blast
  let ?w = "\<lambda>w. case w of None \<Rightarrow> 0 :: nat | Some (Awaiting _) \<Rightarrow> 3 | Some (Notifying _) \<Rightarrow> 2"
  have changed: "(\<Sum>i<pt_next s. ?w (((pt_waiter s)(n := w)) i)) + ?w (pt_waiter s n) = (\<Sum>i<pt_next s. ?w (pt_waiter s i)) + ?w w"
    if "n < pt_next s" for n w
    using that by (simp add: sum.remove [of "{..<pt_next s}" n])
  show "steps_left s' < steps_left s" and "pt_next s' = pt_next s"
    using assms(2)
  proof (atomize (full), cases rule: goroutine_stepE)
    case (waited n port)
    then show "steps_left s' < steps_left s \<and> pt_next s' = pt_next s"
      using changed [OF known [OF waited(1)], of "Some (Notifying port)"] by (simp add: steps_left_def)
  next
    case (receive n port)
    then show "steps_left s' < steps_left s \<and> pt_next s' = pt_next s"
      using changed [OF known [OF receive(2)], of None] by (simp add: steps_left_def)
  qed (simp add: steps_left_def)
qed

lemma goroutine_steps_bounded:
  "(goroutine_step ^^ m) s s' \<Longrightarrow> process_reach s \<Longrightarrow> m + steps_left s' \<le> steps_left s"
proof (induction m arbitrary: s')
  case (Suc m)
  then obtain s1 where s1: "(goroutine_step ^^ m) s s1" "goroutine_step s1 s'"
    by auto
  then have "process_reach s1"
    using goroutine_steps_reach [OF relpowp_imp_rtranclp Suc.prems(2)] by blast
  then show ?case
    using Suc.IH [OF s1(1) Suc.prems(2)] goroutine_step_decreases(1) [OF _ s1(2)] by fastforce
qed simp

text \<open>An ended process whose entry is gone or will be deleted.\<close>

definition leaving :: "PortNumber \<Rightarrow> nat \<Rightarrow> process_table \<Rightarrow> bool" where
  "leaving port n s \<longleftrightarrow> n \<notin> pt_alive s \<and> (pt_running s port = None \<or>
     pt_running s port = Some n \<and> (pt_waiter s n \<noteq> None \<or> pt_received s = Some port))"

lemma leaving_step:
  assumes "process_reach s" and "goroutine_step s s'" and "leaving port n s"
  shows "leaving port n s' \<and> pt_busy s' = pt_busy s"
  using assms(2)
proof (cases rule: goroutine_stepE)
  case (receive m q)
  have "q = port" if "pt_running s port = Some n" "m = n"
    using process_okD(4) [OF process_reach_ok [OF assms(1)] process_okD(5) [OF process_reach_ok [OF assms(1)] receive(2)], of port] that
    by (simp add: occupies_def)
  then show ?thesis
    using receive assms(3) by (auto simp: leaving_def)
qed (use assms(3) in \<open>auto simp: leaving_def\<close>)

lemma leaving_steps:
  "goroutine_step\<^sup>*\<^sup>* s s' \<Longrightarrow> process_reach s \<Longrightarrow> leaving port n s \<Longrightarrow>
    process_reach s' \<and> leaving port n s' \<and> pt_busy s' = pt_busy s"
  by (induction rule: rtranclp_induct) (auto dest: leaving_step goroutine_reach)

lemma leaving_over:
  assumes "leaving port n s" and "\<nexists>s'. goroutine_step s s'"
  shows "\<not> table_HasProcess port s"
proof -
  have received: "pt_received s = None"
    using assms(2) goroutine_step.delete [of s] by (cases "pt_received s") (auto simp: delete_step_def)
  have "pt_waiter s n = None"
  proof (cases "pt_waiter s n")
    case (Some w)
    have "wait_step n s \<noteq> None \<or> receive_step n s \<noteq> None"
      using Some received assms(1) by (cases w) (auto simp: wait_step_def receive_step_def leaving_def)
    then show ?thesis
      using assms(2) goroutine_step.waited goroutine_step.receive by blast
  qed
  then show ?thesis
    using assms(1) received by (auto simp: leaving_def table_HasProcess_def)
qed

text \<open>C38: in every reachable state, a registered process that has ended while its goroutine has
  not been heard is removed from the table by the goroutines of the process manager alone: however they are scheduled, they come to
  rest within three steps for each process ever started and one more, and when they rest the port has no process, the busy table is as it was
  and every request that is inside for the port and not spawning can go on to spawn one.\<close>

theorem ended_process_unregistered:
  assumes "process_reach s" and "pt_running s port = Some n" and "pt_waiter s n \<noteq> None" and "n \<notin> pt_alive s"
  shows "(\<forall>m s'. (goroutine_step ^^ m) s s' \<longrightarrow> m \<le> 3 * pt_next s + 1) \<and>
    (\<forall>s'. goroutine_step\<^sup>*\<^sup>* s s' \<and> (\<nexists>s''. goroutine_step s' s'') \<longrightarrow>
      \<not> table_HasProcess port s' \<and> pt_busy s' = pt_busy s \<and>
      (\<forall>t. inside s' t port \<and> pt_spawner s' t = NoSpawn \<longrightarrow> check_step t s' \<noteq> None))"
proof (intro conjI allI impI; (elim conjE)?)
  fix m s' assume "(goroutine_step ^^ m) s s'"
  then show "m \<le> 3 * pt_next s + 1"
    using goroutine_steps_bounded [OF _ assms(1)] steps_left_bound [of s] by (meson add_leE le_trans)
next
  fix s' assume steps: "goroutine_step\<^sup>*\<^sup>* s s'" and over: "\<nexists>s''. goroutine_step s' s''"
  have "leaving port n s"
    using assms by (simp add: leaving_def)
  note s' = leaving_steps [OF steps assms(1) this]
  then show gone: "\<not> table_HasProcess port s'" and "pt_busy s' = pt_busy s"
    using leaving_over [OF _ over] by blast+
  fix t assume "inside s' t port" and "pt_spawner s' t = NoSpawn"
  then show "check_step t s' \<noteq> None"
    using gone by (auto simp: check_step_def inside_def)
qed

text \<open>The steps from a notification on the way to the deletion.\<close>

lemma notified_steps:
  assumes "pt_waiter s n = Some w" and "waiter_port w = port" and "n \<notin> pt_alive s" and "pt_received s = None"
  shows "process_step\<^sup>*\<^sup>* s (s\<lparr>pt_waiter := (pt_waiter s)(n := None), pt_running := (pt_running s)(port := None)\<rparr>)"
proof -
  let ?s1 = "s\<lparr>pt_waiter := (pt_waiter s)(n \<mapsto> Notifying port)\<rparr>"
  let ?s2 = "s\<lparr>pt_waiter := (pt_waiter s)(n := None), pt_received := Some port\<rparr>"
  let ?s3 = "s\<lparr>pt_waiter := (pt_waiter s)(n := None), pt_running := (pt_running s)(port := None)\<rparr>"
  have "process_step\<^sup>*\<^sup>* s ?s1"
  proof (cases w)
    case (Awaiting q)
    then have "wait_step n s = Some ?s1"
      using assms by (simp add: wait_step_def)
    then show ?thesis
      by (blast intro: process_step.waited)
  next
    case (Notifying q)
    then have "?s1 = s"
      using assms(1,2) by (simp add: fun_upd_idem)
    then show ?thesis
      by simp
  qed
  moreover have "receive_step n ?s1 = Some ?s2"
    using assms(4) by (simp add: receive_step_def)
  moreover have "delete_step ?s2 = Some ?s3"
    using assms(4) by (cases s) (simp add: delete_step_def)
  ultimately show ?thesis
    by (meson process_step.receive process_step.delete rtranclp.rtrancl_into_rtrancl)
qed

section \<open>A process that ends before it is registered\<close>

text \<open>An entry whose goroutine is gone and whose deletion is not under way.\<close>

definition stuck :: "PortNumber \<Rightarrow> process_table \<Rightarrow> bool" where
  "stuck port s \<longleftrightarrow> (\<exists>n. pt_running s port = Some n \<and> pt_waiter s n = None) \<and> pt_received s \<noteq> Some port"

lemma stuckE:
  assumes "stuck port s"
  obtains n where "pt_running s port = Some n" and "pt_waiter s n = None" and "pt_received s \<noteq> Some port"
  using assms unfolding stuck_def by blast

lemma stuck_same:
  "stuck port s \<Longrightarrow> pt_running s' = pt_running s \<Longrightarrow> pt_waiter s' = pt_waiter s \<Longrightarrow>
    pt_received s' = pt_received s \<Longrightarrow> stuck port s'"
  by (simp add: stuck_def)

lemma stuck_step:
  assumes ok: "process_ok s" and "process_step s s'" and stuck: "stuck port s"
  shows "stuck port s'"
proof -
  obtain n where n: "pt_running s port = Some n" "pt_waiter s n = None" "pt_received s \<noteq> Some port"
    by (rule stuckE [OF stuck])
  have occ: "occupies s port m \<longleftrightarrow> m = n" for m
    by (rule occupies_running [OF ok n(1)])
  show ?thesis
    using assms(2)
  proof (cases rule: process_step.cases)
    case (started t)
    then show ?thesis
      using n process_okD(3) [OF ok, of port n] occ
      by (auto simp: start_step_def stuck_def split: spawner.splits)
  next
    case (register t)
    then show ?thesis
      using n started_inside(2) [OF ok, of t port]
      by (auto simp: register_step_def stuck_def split: spawner.splits)
  next
    case (receive m)
    then obtain p where m: "pt_waiter s m = Some (Notifying p)"
      and s': "s' = s\<lparr>pt_waiter := (pt_waiter s)(m := None), pt_received := Some p\<rparr>"
      by (auto simp: receive_step_def split: option.splits waiter.splits)
    have "p \<noteq> port"
      using process_okD(5) [OF ok m] occ n(2) m by auto
    then show ?thesis
      using n by (auto simp: s' stuck_def)
  qed (use n in \<open>auto intro: stuck_same [OF stuck] simp: check_step_def abandon_step_def exit_process_def wait_step_def
      delete_step_def table_KillProcess_def Process_Kill_def stuck_def
      split: busy_place.splits spawner.splits option.splits waiter.splits if_splits\<close>)
qed

lemma stuck_steps:
  assumes "process_step\<^sup>*\<^sup>* s s'" and "process_ok s" and "stuck port s"
  shows "process_ok s' \<and> stuck port s'"
  using assms by (induction rule: rtranclp_induct) (auto intro: stuck_step process_step_ok)

text \<open>The goroutine that waits for a process is started before the process is registered.  If the
  process ends at once and its port is received and deleted before the registration, the entry is
  there although the process is not, and it stays, whatever happens: the slave answers that the port has a
  process, and no request can ever spawn one on it.\<close>

theorem stuck_for_ever:
  assumes "process_reach s" and "stuck port s" and "process_step\<^sup>*\<^sup>* s s'"
  shows "table_HasProcess port s' \<and> \<not> (\<exists>n. serves s' port n) \<and> (\<forall>t. inside s' t port \<longrightarrow> check_step t s' = None)"
proof -
  have ok: "process_ok s'" and stuck: "stuck port s'"
    using stuck_steps [OF assms(3) process_reach_ok [OF assms(1)] assms(2)] by simp_all
  obtain n where n: "pt_running s' port = Some n" "pt_waiter s' n = None"
    by (rule stuckE [OF stuck])
  have "\<not> serves s' port m" for m
    using serves_occupies [OF ok, of port m] occupies_running [OF ok n(1), of m] n(2) by (auto simp: serves_def)
  then show ?thesis
    using n(1) by (auto simp: table_HasProcess_def check_step_def inside_def split: spawner.split)
qed

text \<open>This order of steps is possible, and it is the only way to such an entry.\<close>

lemma idle_reach: "busy_reach b \<Longrightarrow> process_reach (NewProcessManager\<lparr>pt_busy := b\<rparr>)"
proof (induction rule: busy_reach.induct)
  case start
  have "NewProcessManager\<lparr>pt_busy := NewBusyTable\<rparr> = NewProcessManager"
    by (simp add: NewProcessManager_def)
  then show ?case
    by (simp add: process_reach.start)
next
  case (step b b')
  have "process_step (NewProcessManager\<lparr>pt_busy := b\<rparr>) (NewProcessManager\<lparr>pt_busy := b, pt_busy := b'\<rparr>)"
    by (rule process_step.busy) (simp_all add: step.hyps undisturbed_def NewProcessManager_def)
  with step.IH show ?case
    by (auto intro: process_reach.step)
qed

definition checked_table :: process_table where
  "checked_table = NewProcessManager\<lparr>pt_busy := interleaved, pt_spawner := (\<lambda>_. NoSpawn)(0 := Checked 27017)\<rparr>"

lemma checked_table_reach: "process_reach checked_table"
proof -
  have "check_step 0 (NewProcessManager\<lparr>pt_busy := interleaved\<rparr>) = Some checked_table"
    using interleaved_places(1) by (simp add: check_step_def NewProcessManager_def table_HasProcess_def checked_table_def)
  then show ?thesis
    by (blast intro: process_reach.step [OF idle_reach [OF interleaved_reach]] process_step.check)
qed

definition started_table :: process_table where
  "started_table = checked_table\<lparr>pt_spawner := (\<lambda>_. NoSpawn)(0 := Started 27017 0), pt_alive := {0},
     pt_waiter := (\<lambda>_. None)(0 \<mapsto> Awaiting 27017), pt_next := 1\<rparr>"

lemma started_table_reach: "process_reach started_table"
proof -
  have "start_step 0 checked_table = Some started_table"
    by (simp add: start_step_def started_table_def checked_table_def NewProcessManager_def)
  then show ?thesis
    by (blast intro: process_reach.step [OF checked_table_reach] process_step.started)
qed

definition stuck_table :: process_table where
  "stuck_table = checked_table\<lparr>pt_spawner := (\<lambda>_. NoSpawn), pt_running := [27017 \<mapsto> 0], pt_next := 1\<rparr>"

lemma stuck_table_reach: "process_reach stuck_table" and stuck_table: "stuck 27017 stuck_table"
proof -
  let ?s1 = "exit_process 0 started_table"
  have s1: "process_reach ?s1"
    by (rule process_reach.step [OF started_table_reach process_step.exit])
  have "process_step\<^sup>*\<^sup>* ?s1 (?s1\<lparr>pt_waiter := (pt_waiter ?s1)(0 := None), pt_running := (pt_running ?s1)(27017 := None)\<rparr>)"
    by (rule notified_steps [where w = "Awaiting 27017"])
      (simp_all add: exit_process_def started_table_def checked_table_def NewProcessManager_def)
  then have "process_reach (?s1\<lparr>pt_waiter := (pt_waiter ?s1)(0 := None), pt_running := (pt_running ?s1)(27017 := None)\<rparr>)"
    using s1 by (induction rule: rtranclp_induct) (auto intro: process_reach.step)
  moreover have "register_step 0 (?s1\<lparr>pt_waiter := (pt_waiter ?s1)(0 := None), pt_running := (pt_running ?s1)(27017 := None)\<rparr>)
      = Some stuck_table"
    by (simp add: register_step_def exit_process_def started_table_def checked_table_def NewProcessManager_def stuck_table_def
        fun_upd_idem)
  ultimately show "process_reach stuck_table"
    by (blast intro: process_reach.step process_step.register)
  show "stuck 27017 stuck_table"
    by (simp add: stuck_def stuck_table_def checked_table_def NewProcessManager_def)
qed

theorem stuck_for_ever_witness:
  "process_reach stuck_table \<and> table_HasProcess 27017 stuck_table \<and> \<not> (\<exists>n. serves stuck_table 27017 n) \<and>
    check_step 0 stuck_table = None"
  using stuck_for_ever [OF stuck_table_reach stuck_table rtranclp.rtrancl_refl] stuck_table_reach interleaved_places(1)
  by (simp add: inside_def stuck_table_def checked_table_def)

lemma stuck_origin:
  assumes "process_ok s" and "process_step s s'" and "\<not> stuck port s" and "stuck port s'"
  shows "\<exists>t n. pt_spawner s t = Started port n \<and> pt_waiter s n = None \<and> register_step t s = Some s'"
  using assms(2)
proof (cases rule: process_step.cases)
  case (register t)
  then obtain p n where n: "pt_spawner s t = Started p n"
    and s': "s' = s\<lparr>pt_spawner := (pt_spawner s)(t := NoSpawn), pt_running := (pt_running s)(p \<mapsto> n)\<rparr>"
    by (auto simp: register_step_def split: spawner.splits)
  have "p = port \<and> pt_waiter s n = None"
    using assms(3,4) by (auto simp: s' stuck_def split: if_splits)
  with n register show ?thesis
    by blast
next
  case (started t)
  then show ?thesis
    using assms(3,4) by (auto simp: start_step_def stuck_def split: spawner.splits if_splits)
next
  case (receive n)
  then obtain p where n: "pt_waiter s n = Some (Notifying p)"
    and s': "s' = s\<lparr>pt_waiter := (pt_waiter s)(n := None), pt_received := Some p\<rparr>"
    and free: "pt_received s = None"
    by (auto simp: receive_step_def split: option.splits waiter.splits)
  obtain m where m: "pt_running s port = Some m" "m = n \<or> pt_waiter s m = None" "p \<noteq> port"
    using assms(4) by (auto simp: s' stuck_def split: if_splits)
  have "m \<noteq> n"
    using process_okD(4) [OF assms(1) process_okD(5) [OF assms(1) n], of port] m by (auto simp: occupies_def)
  then have "stuck port s"
    using m free by (simp add: stuck_def)
  with assms(3) show ?thesis
    by simp
next
  case (delete)
  then obtain p where p: "pt_received s = Some p"
    and s': "s' = s\<lparr>pt_running := (pt_running s)(p := None), pt_received := None\<rparr>"
    by (auto simp: delete_step_def split: option.splits)
  then have "stuck port s"
    using assms(4) by (auto simp: s' stuck_def split: if_splits)
  with assms(3) show ?thesis
    by simp
qed (use assms(3,4) in \<open>auto simp: check_step_def abandon_step_def exit_process_def wait_step_def
      table_KillProcess_def Process_Kill_def stuck_def
      split: busy_place.splits spawner.splits option.splits waiter.splits if_splits\<close>)

theorem live_process_known_witness:
  "process_reach started_table \<and> (\<exists>t. pt_spawner started_table t = Started 27017 0 \<and> inside started_table t 27017)"
proof -
  have "serves started_table 27017 0" "pt_running started_table 27017 = None"
    by (simp_all add: serves_def started_table_def checked_table_def NewProcessManager_def)
  then show ?thesis
    using live_process_known [OF started_table_reach, of 27017 0] started_table_reach by simp
qed

definition registered_table :: process_table where
  "registered_table = started_table\<lparr>pt_spawner := (\<lambda>_. NoSpawn), pt_running := [27017 \<mapsto> 0]\<rparr>"

lemma registered_table_reach: "process_reach registered_table"
proof -
  have "register_step 0 started_table = Some registered_table"
    by (simp add: register_step_def registered_table_def started_table_def checked_table_def NewProcessManager_def fun_upd_idem)
  then show ?thesis
    by (blast intro: process_reach.step [OF started_table_reach] process_step.register)
qed

lemmas table_eval = registered_table_def started_table_def checked_table_def NewProcessManager_def

text \<open>The goroutines can come to rest, and then a request of the port goes on.\<close>

theorem ended_process_unregistered_witness:
  "\<exists>s'. goroutine_step\<^sup>*\<^sup>* (exit_process 0 registered_table) s' \<and> \<not> table_HasProcess 27017 s' \<and> check_step 0 s' \<noteq> None"
proof -
  let ?s0 = "exit_process 0 registered_table"
  let ?s1 = "?s0\<lparr>pt_waiter := [0 \<mapsto> Notifying 27017]\<rparr>"
  let ?s2 = "?s0\<lparr>pt_waiter := (\<lambda>_. None), pt_received := Some 27017\<rparr>"
  let ?s3 = "?s0\<lparr>pt_waiter := (\<lambda>_. None), pt_running := (\<lambda>_. None)\<rparr>"
  have "wait_step 0 ?s0 = Some ?s1" "receive_step 0 ?s1 = Some ?s2" "delete_step ?s2 = Some ?s3"
    by (simp_all add: exit_process_def table_eval wait_step_def receive_step_def delete_step_def)
  then have steps: "goroutine_step\<^sup>*\<^sup>* ?s0 ?s3"
    by (meson goroutine_step.intros converse_rtranclp_into_rtranclp rtranclp.rtrancl_refl)
  have over: "\<nexists>s''. goroutine_step ?s3 s''"
    by (auto simp: exit_process_def table_eval elim!: goroutine_stepE)
  have "process_reach ?s0"
    by (rule process_reach.step [OF registered_table_reach process_step.exit])
  then have "\<not> table_HasProcess 27017 ?s3 \<and> (\<forall>t. inside ?s3 t 27017 \<and> pt_spawner ?s3 t = NoSpawn \<longrightarrow> check_step t ?s3 \<noteq> None)"
    using ended_process_unregistered [of ?s0 27017 0] steps over by (auto simp: exit_process_def table_eval)
  moreover have "inside ?s3 0 27017 \<and> pt_spawner ?s3 0 = NoSpawn"
    using interleaved_places(1) by (simp add: inside_def exit_process_def table_eval)
  ultimately show ?thesis
    using steps by blast
qed

section \<open>The table as a set of ports\<close>

text \<open>The set of ports that \<open>SlaveController\<close> keeps is the domain of the table: in
  every step of every interleaving it either stays, loses ports, as that model lets it at any call
  to the outside, or gains the port of a request that ends its spawning, which is inside for the port and
  found it free.\<close>

theorem table_refines_ports:
  assumes "process_reach s" and "process_step s s'"
  shows "(\<exists>exits. dom (pt_running s') = dom (pt_running s) - exits) \<or>
    (\<exists>t port. inside s t port \<and> \<not> table_HasProcess port s \<and> register_step t s = Some s' \<and>
      dom (pt_running s') = insert port (dom (pt_running s)))"
  using assms(2)
proof (cases rule: process_step.cases)
  case (register t)
  then obtain p n where n: "pt_spawner s t = Started p n"
    and s': "s' = s\<lparr>pt_spawner := (pt_spawner s)(t := NoSpawn), pt_running := (pt_running s)(p \<mapsto> n)\<rparr>"
    by (auto simp: register_step_def split: spawner.splits)
  have "dom (pt_running s') = insert p (dom (pt_running s))"
    by (simp add: s')
  then show ?thesis
    using register started_inside [OF process_reach_ok [OF assms(1)] n] by (auto simp: table_HasProcess_def)
next
  case (delete)
  then obtain p where "s' = s\<lparr>pt_running := (pt_running s)(p := None), pt_received := None\<rparr>"
    by (auto simp: delete_step_def split: option.splits)
  then have "dom (pt_running s') = dom (pt_running s) - {p}"
    by simp
  then show ?thesis
    by blast
qed (auto intro!: exI [of _ "{}"] simp: check_step_def abandon_step_def start_step_def exit_process_def wait_step_def
      receive_step_def table_KillProcess_def Process_Kill_def
      split: busy_place.splits spawner.splits option.splits waiter.splits if_splits)

theorem table_refines_ports_witness:
  "\<exists>exits. dom (pt_running (exit_process 0 registered_table)) = dom (pt_running registered_table) - exits"
  using table_refines_ports [OF registered_table_reach process_step.exit [of registered_table 0]]
  by (auto simp: register_step_def registered_table_def)

section \<open>Killing all processes\<close>

lemma kill_one:
  "table_KillProcess refuse port s = (case pt_running s port of
     None \<Rightarrow> (None, s)
   | Some n \<Rightarrow> (refuse n, s\<lparr>pt_alive := pt_alive s - (if refuse n = None then {n} else {})\<rparr>))"
  by (auto simp: table_KillProcess_def Process_Kill_def exit_process_def split: option.split)

definition killable :: "(nat \<Rightarrow> string option) \<Rightarrow> PortNumber set \<Rightarrow> process_table \<Rightarrow> nat set" where
  "killable refuse ports s = {n. refuse n = None \<and> (\<exists>port \<in> ports. pt_running s port = Some n)}"

lemma killable_empty [simp]: "killable refuse {} s = {}"
  by (simp add: killable_def)

lemma killable_insert [simp]: "killable refuse (insert port ports) s =
    (case pt_running s port of None \<Rightarrow> {} | Some n \<Rightarrow> if refuse n = None then {n} else {}) \<union> killable refuse ports s"
  by (auto simp: killable_def split: option.split)

lemma killable_alive [simp]: "killable refuse ports (s\<lparr>pt_alive := A\<rparr>) = killable refuse ports s"
  by (simp add: killable_def)

lemma kill_each_effect:
  "snd (kill_each refuse ports s) = s\<lparr>pt_alive := pt_alive s - killable refuse (set ports) s\<rparr> \<and>
    (fst (kill_each refuse ports s) = None \<longleftrightarrow> (\<forall>port \<in> set ports. \<forall>n. pt_running s port = Some n \<longrightarrow> refuse n = None))"
proof (induction ports arbitrary: s)
  case (Cons port ports)
  show ?case
  proof (cases "pt_running s port")
    case None
    then show ?thesis
      using Cons.IH [of s] by (simp add: Let_def case_prod_beta kill_one)
  next
    case (Some n)
    then show ?thesis
      using Cons.IH [of s] Cons.IH [of "s\<lparr>pt_alive := pt_alive s - {n}\<rparr>"]
      by (cases "refuse n") (simp_all add: Let_def case_prod_beta kill_one
          Diff_insert2 [of _ n "killable refuse (set ports) s"])
  qed
qed simp

text \<open>After \<open>KillProcesses\<close> the table is empty and every registered process is dead, except those whose killing was
  refused; an error is answered exactly if one was.\<close>

theorem KillProcesses_correct:
  assumes "dom (pt_running s) \<subseteq> set order"
  shows "case KillProcesses refuse order s of (err, s') \<Rightarrow>
    RunningProcesses order s' = [] \<and>
    pt_alive s' = pt_alive s - {n. refuse n = None \<and> n \<in> ran (pt_running s)} \<and>
    (err = None \<longleftrightarrow> (\<forall>n \<in> ran (pt_running s). refuse n = None))"
proof -
  have ports: "set (RunningProcesses order s) = dom (pt_running s)"
    using assms by (auto simp: RunningProcesses_def table_HasProcess_def)
  have "killable refuse (dom (pt_running s)) s = {n. refuse n = None \<and> n \<in> ran (pt_running s)}"
    by (auto simp: killable_def ran_def)
  moreover have "(\<forall>port \<in> dom (pt_running s). \<forall>n. pt_running s port = Some n \<longrightarrow> refuse n = None) \<longleftrightarrow>
      (\<forall>n \<in> ran (pt_running s). refuse n = None)"
    by (auto simp: ran_def)
  moreover have "RunningProcesses order (s'\<lparr>pt_running := \<lambda>_. None\<rparr>) = []" for s' :: process_table
    by (simp add: RunningProcesses_def table_HasProcess_def)
  ultimately show ?thesis
    using kill_each_effect [of refuse "RunningProcesses order s" s]
    by (simp add: KillProcesses_def case_prod_beta ports)
qed

theorem KillProcesses_correct_witness:
  "fst (KillProcesses (\<lambda>_. None) [27017] registered_table) = None \<and>
    pt_alive (snd (KillProcesses (\<lambda>_. None) [27017] registered_table)) = {}"
  using KillProcesses_correct [of registered_table "[27017]" "\<lambda>_. None"] by (auto simp: table_eval)

text \<open>The emptied table forgets that notifications are on their way: if the port is used again before the old
  process is heard, its notification removes the entry of the new, live process.  The reservation
  in the code, to use the function for a shutdown only, is needed.\<close>

definition killed_table :: process_table where
  "killed_table = snd (KillProcesses (\<lambda>_. None) [27017] registered_table)"

lemma killed_table: "killed_table = started_table\<lparr>pt_spawner := (\<lambda>_. NoSpawn), pt_alive := {}\<rparr>"
  using kill_each_effect [of "\<lambda>_. None" "RunningProcesses [27017] registered_table" registered_table]
  by (auto simp: killed_table_def KillProcesses_def case_prod_beta table_eval RunningProcesses_def table_HasProcess_def)

theorem killed_then_lost:
  "\<exists>s'. process_step\<^sup>*\<^sup>* killed_table s' \<and> serves s' 27017 1 \<and> \<not> table_HasProcess 27017 s' \<and>
    inside s' 0 27017 \<and> pt_spawner s' 0 = NoSpawn"
proof -
  let ?s1 = "killed_table\<lparr>pt_spawner := (\<lambda>_. NoSpawn)(0 := Checked 27017)\<rparr>"
  let ?s2 = "?s1\<lparr>pt_spawner := (\<lambda>_. NoSpawn)(0 := Started 27017 1), pt_alive := {1},
    pt_waiter := [0 \<mapsto> Awaiting 27017, 1 \<mapsto> Awaiting 27017], pt_next := 2\<rparr>"
  let ?s3 = "?s2\<lparr>pt_spawner := (\<lambda>_. NoSpawn), pt_running := [27017 \<mapsto> 1]\<rparr>"
  let ?s4 = "?s3\<lparr>pt_waiter := (pt_waiter ?s3)(0 := None), pt_running := (pt_running ?s3)(27017 := None)\<rparr>"
  have "check_step 0 killed_table = Some ?s1"
    using interleaved_places(1) by (simp add: check_step_def killed_table table_eval table_HasProcess_def)
  moreover have "start_step 0 ?s1 = Some ?s2"
    by (simp add: start_step_def killed_table table_eval)
  moreover have "register_step 0 ?s2 = Some ?s3"
    by (simp add: register_step_def killed_table table_eval fun_upd_idem)
  moreover have "process_step\<^sup>*\<^sup>* ?s3 ?s4"
    by (rule notified_steps [where w = "Awaiting 27017"]) (simp_all add: killed_table table_eval)
  ultimately have "process_step\<^sup>*\<^sup>* killed_table ?s4"
    by (meson process_step.check process_step.started process_step.register converse_rtranclp_into_rtranclp)
  then show ?thesis
    using interleaved_places(1)
    by (intro exI [of _ ?s4]) (simp add: serves_def table_HasProcess_def inside_def killed_table table_eval)
qed

end
