(* ===== verification/Certificates.thy ===== *)
theory Certificates
  imports Prelude
begin

text \<open>
  What the three programs share at their start: the command line, the ways a program ends, loading
  certificates (\<open>loadCertificateFromFile\<close>, which \<open>src/master/cmd/master.go\<close> and \<open>src/notifier/controller.go\<close> both
  define), and the HTTP servers and clients they configure.

  Reading files, decoding PEM, parsing certificates and key pairs, and listening are done by Go's
  \<open>crypto\<close> and \<open>net/http\<close> packages, whose answers are parameters.  A certificate is a string.
\<close>

section \<open>The end of a program\<close>

text \<open>An error of the command line, \<open>log.Fatal\<close>, a panic, and a return from \<open>main\<close>.  A program that goes on
  for ever does not end.\<close>

datatype stop = Usage string | Fatal string | Panicked string | Returned

text \<open>\<open>dieOnError\<close>.\<close>

definition dieOnError :: "string option \<Rightarrow> ('s, stop, unit) sem" where
  "dieOnError err = (case err of None \<Rightarrow> returnM () | Some e \<Rightarrow> raiseM (Panicked e))"

section \<open>The command line\<close>

text \<open>An argument \<open>-name=value\<close>, and \<open>flag.Parse\<close>, which sets the variables one after the other and ends the program
  at the first argument that is refused.  The texts of durations and log levels are read by
  \<open>time.ParseDuration\<close> and \<open>logrus.ParseLevel\<close>.\<close>

type_synonym argument = "string \<times> string"
type_synonym level = "8 word"

record flag_readers =
  read_Duration :: "string \<Rightarrow> string + int"
  read_Level :: "string \<Rightarrow> level \<times> string option"
  DebugLevel :: level

fun parse_flags :: "('f \<Rightarrow> argument \<Rightarrow> string + 'f) \<Rightarrow> argument list \<Rightarrow> 'f \<Rightarrow> string + 'f" where
  "parse_flags set_flag [] fl = Inr fl"
| "parse_flags set_flag (arg # args) fl = (case set_flag fl arg of
     Inl err \<Rightarrow> Inl err | Inr fl' \<Rightarrow> parse_flags set_flag args fl')"

definition set_duration :: "flag_readers \<Rightarrow> string \<Rightarrow> (int \<Rightarrow> 'f) \<Rightarrow> string + 'f" where
  "set_duration R val f = (case read_Duration R val of Inl err \<Rightarrow> Inl err | Inr d \<Rightarrow> Inr (f d))"

definition unknown_flag :: "string \<Rightarrow> string" where
  "unknown_flag name = ''flag provided but not defined: -'' @ name"

section \<open>Certificates\<close>

record certificates =
  file_content :: "string \<Rightarrow> string + string"
  pem_Decode :: "string \<Rightarrow> string option"
  ParseCertificate :: "string \<Rightarrow> string + string"
  pem_certificates :: "string \<Rightarrow> string list"
  LoadX509KeyPair :: "string \<Rightarrow> string \<Rightarrow> string + string"

text \<open>\<open>loadCertificateFromFile\<close>: \<open>pem.Decode\<close> answers nil when there is no PEM block, and the code takes the
  bytes of the block without looking.\<close>

definition nil_dereference :: stop where
  "nil_dereference = Panicked ''runtime error: invalid memory address or nil pointer dereference''"

definition loadCertificateFromFile :: "certificates \<Rightarrow> string \<Rightarrow> ('s, stop, string + string) sem" where
  "loadCertificateFromFile C file = (case file_content C file of
     Inl err \<Rightarrow> returnM (Inl err)
   | Inr certFile \<Rightarrow> (case pem_Decode C certFile of
       None \<Rightarrow> raiseM nil_dereference
     | Some block \<Rightarrow> returnM (ParseCertificate C block)))"

section \<open>Servers and clients\<close>

datatype client_auth = NoClientCert | RequireAndVerifyClientCert "string list"

record http_server =
  server_Addr :: string
  server_TLS :: "((string \<times> string) \<times> client_auth) option"

record http_transport =
  RootCAs :: "string list option"
  Certificates :: "string list"

definition zero_transport :: http_transport where
  "zero_transport = \<lparr>RootCAs = None, Certificates = []\<rparr>"

text \<open>Which clients a server lets in: with \<open>RequireAndVerifyClientCert\<close> those with a certificate signed by one of
  the pool.\<close>

definition admits :: "(string \<Rightarrow> string \<Rightarrow> bool) \<Rightarrow> http_server \<Rightarrow> string list \<Rightarrow> bool" where
  "admits signed_by srv certs = (case server_TLS srv of
     None \<Rightarrow> True
   | Some (_, NoClientCert) \<Rightarrow> True
   | Some (_, RequireAndVerifyClientCert pool) \<Rightarrow> list_ex (\<lambda>cert. list_ex (signed_by cert) pool) certs)"

definition encrypted :: "http_server \<Rightarrow> bool" where
  "encrypted srv \<longleftrightarrow> server_TLS srv \<noteq> None"

text \<open>A client with \<open>RootCAs\<close> talks only to servers whose certificate one of them has signed.\<close>

definition trusts :: "(string \<Rightarrow> string \<Rightarrow> bool) \<Rightarrow> http_transport \<Rightarrow> string \<Rightarrow> bool" where
  "trusts signed_by tr server_cert = (case RootCAs tr of
     None \<Rightarrow> True | Some pool \<Rightarrow> list_ex (signed_by server_cert) pool)"

lemma parse_flags_keeps:
  assumes "parse_flags set_flag args fl = Inr fl'" and "P fl"
    and "\<And>fl arg fl'. set_flag fl arg = Inr fl' \<Longrightarrow> P fl \<Longrightarrow> P fl'"
  shows "P fl'"
  using assms by (induction args arbitrary: fl) (auto split: sum.splits)

lemma run_dieOnError [run_simps]:
  "run (dieOnError err) Q R s = (case err of None \<Rightarrow> Q () s | Some e \<Rightarrow> R (Panicked e) s)"
  by (simp add: dieOnError_def run_simps split: option.split)

lemma run_loadCertificateFromFile [run_simps]:
  "run (loadCertificateFromFile C file) Q R s = (case file_content C file of
     Inl err \<Rightarrow> Q (Inl err) s
   | Inr content \<Rightarrow> (case pem_Decode C content of
       None \<Rightarrow> R nil_dereference s | Some block \<Rightarrow> Q (ParseCertificate C block) s))"
  by (simp add: loadCertificateFromFile_def run_simps split: sum.split option.split)

text \<open>Files that are certificates themselves.\<close>

definition example_certificates :: certificates where
  "example_certificates = \<lparr>file_content = \<lambda>file. Inr file, pem_Decode = Some, ParseCertificate = Inr,
     pem_certificates = \<lambda>content. [content], LoadX509KeyPair = \<lambda>cert key. Inr cert\<rparr>"

end
