(* ===== verification/MasterMain.thy ===== *)
theory MasterMain
  imports Certificates Migration Secrets Bus
begin

text \<open>
  The start of the master, \<open>src/master/cmd/master.go\<close>: the command line and its checks, and \<open>main\<close>, which
  creates the bus, opens the database, creates the secrets, connects and starts the components and
  serves the API.  It calls the models of these parts: \<open>NewBus\<close> and the channels of \<open>Bus\<close>, \<open>InitializeDB\<close> of
  \<open>Migration\<close> and \<open>InitializeGlobalSecrets\<close> of \<open>Secrets\<close>.

  The state is what \<open>main\<close> sees: the database, the bus and what it has started, in order.  What the
  started goroutines do is modelled in their own theories.
\<close>

section \<open>Flags\<close>

record master_flags =
  mf_logLevel :: level
  mf_listen :: string
  mf_slaveVerifyCA :: string
  mf_slaveAuthCert :: string
  mf_slaveAuthKey :: string
  mf_apiCert :: string
  mf_apiKey :: string
  mf_apiVerifyCA :: string
  mf_dbDriver :: string
  mf_dbDSN :: string
  mf_monitorInterval :: int
  mf_slaveTimeout :: int

definition second :: int where "second = 1000000000"

definition default_master_flags :: "flag_readers \<Rightarrow> master_flags" where
  "default_master_flags R = \<lparr>mf_logLevel = DebugLevel R, mf_listen = '':8080'', mf_slaveVerifyCA = [], mf_slaveAuthCert = [],
     mf_slaveAuthKey = [], mf_apiCert = [], mf_apiKey = [], mf_apiVerifyCA = [], mf_dbDriver = ''postgres'', mf_dbDSN = [],
     mf_monitorInterval = 10 * second, mf_slaveTimeout = 5 * second\<rparr>"

text \<open>\<open>LogLevelFlag.Set\<close> has a value receiver: it writes to a copy of the flag.  The caller gets the error, and
  the flag it had.\<close>

definition LogLevelFlag_Set :: "flag_readers \<Rightarrow> level \<Rightarrow> string \<Rightarrow> (level \<times> string option) \<times> level" where
  "LogLevelFlag_Set R f val =
    (let (l, err) = read_Level R val; receiver = (if err \<noteq> None then l else f) in ((receiver, err), f))"

definition set_master_flag :: "flag_readers \<Rightarrow> master_flags \<Rightarrow> argument \<Rightarrow> string + master_flags" where
  "set_master_flag R fl arg = (case arg of (name, val) \<Rightarrow>
    if name = ''log.level'' then
      (case LogLevelFlag_Set R (mf_logLevel fl) val of
         ((_, Some err), _) \<Rightarrow> Inl err | ((_, None), lvl) \<Rightarrow> Inr (fl\<lparr>mf_logLevel := lvl\<rparr>))
    else if name = ''db.driver'' then Inr (fl\<lparr>mf_dbDriver := val\<rparr>)
    else if name = ''db.dsn'' then Inr (fl\<lparr>mf_dbDSN := val\<rparr>)
    else if name = ''listen'' then Inr (fl\<lparr>mf_listen := val\<rparr>)
    else if name = ''slave.verifyCA'' then Inr (fl\<lparr>mf_slaveVerifyCA := val\<rparr>)
    else if name = ''slave.auth.cert'' then Inr (fl\<lparr>mf_slaveAuthCert := val\<rparr>)
    else if name = ''slave.auth.key'' then Inr (fl\<lparr>mf_slaveAuthKey := val\<rparr>)
    else if name = ''slave.timeout'' then set_duration R val (\<lambda>d. fl\<lparr>mf_slaveTimeout := d\<rparr>)
    else if name = ''api.cert'' then Inr (fl\<lparr>mf_apiCert := val\<rparr>)
    else if name = ''api.key'' then Inr (fl\<lparr>mf_apiKey := val\<rparr>)
    else if name = ''api.verifyCA'' then Inr (fl\<lparr>mf_apiVerifyCA := val\<rparr>)
    else if name = ''monitor.interval'' then set_duration R val (\<lambda>d. fl\<lparr>mf_monitorInterval := d\<rparr>)
    else Inl (unknown_flag name))"

text \<open>The checks after parsing, with the message of the first that fails.\<close>

definition flag_complaint :: "master_flags \<Rightarrow> string option" where
  "flag_complaint fl =
    (let check = mf_apiKey fl @ mf_apiCert fl in
     if mf_dbDriver fl \<noteq> ''postgres'' then
       Some (''-db.driver: only '' @ [CHR 0x27] @ ''postgres'' @ [CHR 0x27] @ '' is supported'')
     else if mf_dbDSN fl = [] then Some ''-db.dsn cannot be empty''
     else if mf_slaveVerifyCA fl = [] then
       Some ''No root certificate for the slave server communication passed. Specify with -slave.verifyCA''
     else if mf_slaveAuthCert fl = [] then
       Some ''No client certificate for the slave server communication passed. Specify with -slave.auth.cert''
     else if mf_slaveAuthKey fl = [] then
       Some ''No key for the client certificate for the slave server communication passed. Specify with -slave.auth.key''
     else if check \<noteq> [] \<and> (check = mf_apiKey fl \<or> check = mf_apiCert fl) then
       Some ''Either -apiCert specified without -apiKey or vice versa.''
     else None)"

section \<open>State and environment\<close>

text \<open>A component with the channel of the bus it got and its configuration.\<close>

datatype master_component =
    BusLoop
  | AllocatorLoop nat
  | ApiRoutes
  | MonitorLoop nat http_transport int int
  | DeployerLoop nat http_transport int
  | ProblemManagerLoop nat
  | Serving http_server

record master_world =
  mw_store :: store
  mw_bus :: "StatusMessage Bus"
  mw_started :: "master_component list"

record master_env =
  me_readers :: flag_readers
  me_certs :: certificates
  me_opening :: db_opening
  me_dbms :: dbms
  me_show_err :: "err \<Rightarrow> string"
  me_rand :: entropy
  me_listen :: "http_server \<Rightarrow> string option"

type_synonym 'a master_action = "(master_world, stop, 'a) sem"

definition start_component :: "master_component \<Rightarrow> unit master_action" where
  "start_component c = modifyM (\<lambda>w. w\<lparr>mw_started := mw_started w @ [c]\<rparr>)"

text \<open>The channels of the bus are numbered.\<close>

definition new_write_channel :: "nat master_action" where
  "new_write_channel = bindM (getM (\<lambda>w. length (writeChannels (mw_bus w)))) (\<lambda>k.
     bindM (modifyM (\<lambda>w. w\<lparr>mw_bus := GetNewWriteChannel (mw_bus w)\<rparr>)) (\<lambda>_. returnM k))"

definition new_read_channel :: "nat master_action" where
  "new_read_channel = bindM (getM (\<lambda>w. length (readChannels (mw_bus w)))) (\<lambda>k.
     bindM (modifyM (\<lambda>w. w\<lparr>mw_bus := GetNewReadChannel (mw_bus w)\<rparr>)) (\<lambda>_. returnM k))"

section \<open>The parts of main\<close>

definition open_database :: "master_env \<Rightarrow> unit master_action" where
  "open_database E = (\<lambda>w. case InitializeDB (me_opening E) (mw_store w) of
     (Inl err, st) \<Rightarrow> (Inl (Panicked err), w\<lparr>mw_store := st\<rparr>)
   | (Inr _, st) \<Rightarrow> (Inr (), w\<lparr>mw_store := st\<rparr>))"

text \<open>The transaction around \<open>InitializeGlobalSecrets\<close>; the error of \<open>tx.Commit()\<close> is dropped.\<close>

definition secrets_tx :: "master_env \<Rightarrow> unit action" where
  "secrets_tx E = bindM (getM txDB) (\<lambda>db0.
     bindM (attempt (InitializeGlobalSecrets (me_dbms E) (me_show_err E) (me_rand E))) (\<lambda>r. case r of
       Inl err \<Rightarrow> bindM (rollback db0) (\<lambda>_. raiseM (Failed err))
     | Inr _ \<Rightarrow> bindM (attempt (commit (me_dbms E) db0)) (\<lambda>_. returnM ())))"

definition stop_of :: "master_env \<Rightarrow> failure \<Rightarrow> stop" where
  "stop_of E f = (case f of
     Failed err \<Rightarrow> Fatal (''Error initializing global secrets: '' @ me_show_err E err)
   | Panic err \<Rightarrow> Panicked (me_show_err E err) | OutOfFuel \<Rightarrow> Panicked [])"

definition initialize_secrets :: "master_env \<Rightarrow> unit master_action" where
  "initialize_secrets E = (\<lambda>w. case st_schema (mw_store w) of
     None \<Rightarrow> (Inl (Fatal ''Error initializing global secrets: relation does not exist''), w)
   | Some (db, rows) \<Rightarrow>
       (let (r, s) = secrets_tx E (begin_tx db); w' = w\<lparr>mw_store := (mw_store w)\<lparr>st_schema := Some (txDB s, rows)\<rparr>\<rparr> in
        case r of Inl f \<Rightarrow> (Inl (stop_of E f), w') | Inr _ \<Rightarrow> (Inr (), w')))"

text \<open>The transport for requests to the slaves.\<close>

definition slave_transport :: "certificates \<Rightarrow> master_flags \<Rightarrow> http_transport master_action" where
  "slave_transport C fl =
    bindM (loadCertificateFromFile C (mf_slaveVerifyCA fl)) (\<lambda>r. case r of
      Inl err \<Rightarrow> raiseM (Panicked err)
    | Inr cert \<Rightarrow> (case LoadX509KeyPair C (mf_slaveAuthCert fl) (mf_slaveAuthKey fl) of
        Inl err \<Rightarrow> raiseM (Panicked err)
      | Inr clientAuthCert \<Rightarrow> returnM \<lparr>RootCAs = Some [cert], Certificates = [clientAuthCert]\<rparr>))"

definition serve :: "master_env \<Rightarrow> http_server \<Rightarrow> unit master_action" where
  "serve E srv = bindM (start_component (Serving srv)) (\<lambda>_. dieOnError (me_listen E srv))"

definition listenAndServe :: "master_env \<Rightarrow> string \<Rightarrow> string \<Rightarrow> string \<Rightarrow> string \<Rightarrow> unit master_action" where
  "listenAndServe E listenString apiCert apiKey apiVerifyCA =
    (if apiCert \<noteq> [] then
       if apiVerifyCA = [] then
         serve E \<lparr>server_Addr = listenString, server_TLS = Some ((apiCert, apiKey), NoClientCert)\<rparr>
       else (case file_content (me_certs E) apiVerifyCA of
           Inl err \<Rightarrow> dieOnError (Some err)
         | Inr caCertContent \<Rightarrow>
             serve E \<lparr>server_Addr = listenString, server_TLS = Some ((apiCert, apiKey),
               RequireAndVerifyClientCert (pem_certificates (me_certs E) caCertContent))\<rparr>)
     else serve E \<lparr>server_Addr = listenString, server_TLS = None\<rparr>)"

section \<open>main\<close>

definition master_setup :: "master_env \<Rightarrow> master_flags \<Rightarrow> unit master_action" where
  "master_setup E fl =
    bindM (modifyM (\<lambda>w. w\<lparr>mw_bus := NewBus\<rparr>)) (\<lambda>_.
    bindM (start_component BusLoop) (\<lambda>_.
    bindM (open_database E) (\<lambda>_.
    bindM new_write_channel (\<lambda>clusterAllocatorBusWriteChannel.
    bindM (initialize_secrets E) (\<lambda>_.
    bindM (start_component (AllocatorLoop clusterAllocatorBusWriteChannel)) (\<lambda>_.
    bindM (start_component ApiRoutes) (\<lambda>_.
    bindM (slave_transport (me_certs E) fl) (\<lambda>httpTransport.
    bindM new_write_channel (\<lambda>monitorBusWriteChannel.
    bindM (start_component (MonitorLoop monitorBusWriteChannel httpTransport (mf_slaveTimeout fl) (mf_monitorInterval fl))) (\<lambda>_.
    bindM new_read_channel (\<lambda>deployerBusReadChannel.
    bindM (start_component (DeployerLoop deployerBusReadChannel httpTransport (mf_slaveTimeout fl))) (\<lambda>_.
    bindM new_read_channel (\<lambda>problemManagerBusReadChannel.
    bindM (start_component (ProblemManagerLoop problemManagerBusReadChannel)) (\<lambda>_.
    listenAndServe E (mf_listen fl) (mf_apiCert fl) (mf_apiKey fl) (mf_apiVerifyCA fl)))))))))))))))"

definition master_main :: "master_env \<Rightarrow> argument list \<Rightarrow> unit master_action" where
  "master_main E args =
    (case parse_flags (set_master_flag (me_readers E)) args (default_master_flags (me_readers E)) of
       Inl err \<Rightarrow> raiseM (Usage err)
     | Inr fl \<Rightarrow> (case flag_complaint fl of
         Some msg \<Rightarrow> raiseM (Fatal msg)
       | None \<Rightarrow> master_setup E fl))"

section \<open>The database at the start\<close>

text \<open>Whatever fails, \<open>InitializeDB\<close> reports success only with a schema of this version, which is the one that
  was there or an empty one.\<close>

lemma run_store_call:
  assumes "\<And>x s'. f (s\<lparr>st_calls := Suc (st_calls s)\<rparr>) = Inr (x, s') \<Longrightarrow> Q x s'"
    and "\<And>e. R e (s\<lparr>st_calls := Suc (st_calls s)\<rparr>)"
  shows "run (store_call Op f) Q R s"
  using assms by (auto simp: run_def store_call_def Let_def split: option.split sum.split prod.split)

lemma run_prefixed: "run m Q (\<lambda>_ _. True) s \<Longrightarrow> run (prefixed pre m) Q (\<lambda>_ _. True) s"
  unfolding prefixed_def run_catchM by (erule run_mono) (simp_all add: run_raiseM)

definition opened_as :: "(DB \<times> metadata_rows) option \<Rightarrow> store \<Rightarrow> bool" where
  "opened_as before st \<longleftrightarrow> (\<exists>schema. st_schema st = Some schema \<and> current_version schema \<and>
    (before = Some schema \<or> before = None \<and> fst schema = empty_DB))"

text \<open>What is stored satisfies the foreign keys.\<close>

definition stored_ok :: "store \<Rightarrow> bool" where
  "stored_ok st \<longleftrightarrow> (case st_schema st of None \<Rightarrow> True | Some (db, _) \<Rightarrow> foreign_keys_ok db)"

lemma opened_stored_ok: "opened_as (st_schema st) st' \<Longrightarrow> stored_ok st \<Longrightarrow> stored_ok st'"
  by (auto simp: opened_as_def stored_ok_def empty_DB_def foreign_keys_ok_def split: option.splits)

lemma run_HasTable:
  "run (HasTable Op) (\<lambda>found s'. st_schema s' = st_schema s \<and> (found \<longrightarrow> st_schema s \<noteq> None)) (\<lambda>_ _. True) s"
  unfolding HasTable_def run_catchM by (rule run_store_call) (auto simp: run_simps)

lemma run_schemaVersion:
  "run (schemaVersion Op) (\<lambda>version s'. st_schema s' = st_schema s \<and>
     (version = SCHEMA_VERSION \<longrightarrow> (\<exists>schema. st_schema s = Some schema \<and> current_version schema))) (\<lambda>_ _. True) s"
  unfolding schemaVersion_def metadata_def run_catchM
  by (rule run_store_call) (auto simp: run_simps SCHEMA_VERSION_def current_version_def split: option.splits)

lemma run_create_schema:
  "run (bindM (prefixed a (run_ddl Op)) (\<lambda>_. prefixed b (setMetadata Op ''schema_version'' SCHEMA_VERSION)))
    (\<lambda>_. opened_as (st_schema s)) (\<lambda>_ _. True) s"
  unfolding run_bindM run_ddl_def setMetadata_def
  by (cases "st_schema s"; intro run_prefixed run_store_call)
    (auto simp: opened_as_def current_version_def split: option.splits if_splits intro!: run_prefixed run_store_call)

lemma run_check_schema:
  "run (bindM (prefixed pre (schemaVersion Op)) (\<lambda>version.
      if version \<noteq> SCHEMA_VERSION then raiseM err else returnM ()))
    (\<lambda>_. opened_as (st_schema s)) (\<lambda>_ _. True) s"
  by (rule run_bind_seq [OF run_prefixed [OF run_schemaVersion]]) (auto simp: run_simps opened_as_def)

lemma run_InitializeDB: "run (InitializeDB Op) (\<lambda>_. opened_as (st_schema st)) (\<lambda>_ _. True) st"
proof -
  have "run (if \<not> has_table then (case op_asset Op of
         Some err \<Rightarrow> raiseM (''sql DDL data not found: '' @ err)
       | None \<Rightarrow> bindM (prefixed a (run_ddl Op)) (\<lambda>_. prefixed b (setMetadata Op ''schema_version'' SCHEMA_VERSION)))
      else bindM (prefixed c (schemaVersion Op)) (\<lambda>version. if version \<noteq> SCHEMA_VERSION then raiseM d else returnM ()))
      (\<lambda>_. opened_as (st_schema s')) (\<lambda>_ _. True) s'" for has_table a b c d s'
    using run_create_schema [of a Op b s'] run_check_schema [of c Op d s'] by (simp add: run_simps split: option.split)
  then have "run (migrate Op) (\<lambda>_. opened_as (st_schema st)) (\<lambda>_ _. True) st"
    unfolding migrate_def by (intro run_bind_seq [OF run_HasTable]) metis
  then show ?thesis
    unfolding InitializeDB_def by (simp add: run_raiseM run_prefixed split: option.split)
qed

definition has_secrets :: "DB \<Rightarrow> bool" where
  "has_secrets db \<longleftrightarrow> mongod_keyfiles db \<noteq> [] \<and> mongodb_root_credentials db \<noteq> []"

lemma run_ensure_keyfile_any:
  assumes "dbms_ok D"
  shows "run (ensure_keyfile D show_err rand) (\<lambda>_ s'. mongod_keyfiles (txDB s') \<noteq> []) (\<lambda>_ _. True) s"
  unfolding ensure_keyfile_def run_bindM sql_query_def
  by (intro run_sql_stmt)
    (auto simp: case_limit1_order_by [OF assms] run_simps create_keyfile_def
      intro!: run_randomBase64_any run_wrapErr_any run_sql_stmt)

lemma run_ensure_root_credential_any:
  assumes "dbms_ok D"
  shows "run (ensure_root_credential D show_err rand)
    (\<lambda>_ s'. mongodb_root_credentials (txDB s') \<noteq> [] \<and> mongod_keyfiles (txDB s') = mongod_keyfiles (txDB s)) (\<lambda>_ _. True) s"
  unfolding ensure_root_credential_def run_bindM sql_query_def
  by (intro run_sql_stmt)
    (auto simp: case_limit1_order_by [OF assms] run_simps create_root_credential_def
      intro!: run_randomBase64_any run_wrapErr_any run_sql_stmt)

lemma run_secrets_exist:
  assumes "dbms_ok D"
  shows "run (InitializeGlobalSecrets D show_err rand)
    (\<lambda>_ s'. has_secrets (txDB s') \<and> foreign_keys_ok (txDB s') = foreign_keys_ok (txDB s)) (\<lambda>_ _. True) s"
proof -
  have "run (InitializeGlobalSecrets D show_err rand) (\<lambda>_ s'. has_secrets (txDB s')) (\<lambda>_ _. True) s"
    unfolding InitializeGlobalSecrets_def
    by (rule run_bind_seq [OF run_ensure_keyfile_any [OF assms]])
      (rule run_mono [OF run_ensure_root_credential_any [OF assms]], auto simp: has_secrets_def)
  from run_conj [OF this run_InitializeGlobalSecrets_any] show ?thesis
    by (rule run_mono) (simp_all add: same_cluster_eq(1))
qed

text \<open>The error of the commit is dropped, so the secrets may be missing after it.\<close>

lemma run_secrets_tx:
  assumes "dbms_ok (me_dbms E)"
    and "foreign_keys_ok (txDB s)"
  shows "run (secrets_tx E) (\<lambda>_ s'. fault_free (me_dbms E) \<longrightarrow> has_secrets (txDB s')) (\<lambda>_ _. True) s"
  unfolding secrets_tx_def run_bindM run_getM run_attempt run_case_sum
  by (rule run_mono [OF run_secrets_exist [OF assms(1)]])
    (use assms(2) in \<open>auto simp: run_simps commit_def fault_free_def split: failure.split intro!: run_sql_stmt\<close>)

section \<open>The order of the start\<close>

definition uses_database :: "master_component \<Rightarrow> bool" where
  "uses_database c \<longleftrightarrow> c \<noteq> BusLoop"

definition database_ready :: "master_env \<Rightarrow> master_world \<Rightarrow> bool" where
  "database_ready E w \<longleftrightarrow> (\<exists>db rows. st_schema (mw_store w) = Some (db, rows) \<and> current_version (db, rows) \<and>
    (fault_free (me_dbms E) \<longrightarrow> has_secrets db))"

definition started_safely :: "master_env \<Rightarrow> master_world \<Rightarrow> bool" where
  "started_safely E w \<longleftrightarrow> ((\<exists>c \<in> set (mw_started w). uses_database c) \<longrightarrow> database_ready E w)"

lemma run_initialize_secrets:
  assumes "dbms_ok (me_dbms E)" and "opened_as before (mw_store w)" and "mw_started w = [BusLoop]"
    and "stored_ok (mw_store w)"
  shows "run (initialize_secrets E) (\<lambda>_. database_ready E) (\<lambda>_ w'. mw_started w' = [BusLoop]) w"
proof -
  obtain db rows where st: "st_schema (mw_store w) = Some (db, rows)" "current_version (db, rows)"
    using assms(2) by (auto simp: opened_as_def)
  show ?thesis
    using run_secrets_tx [OF assms(1), of "begin_tx db"] assms(3,4) st unfolding stored_ok_def
    by (auto simp: initialize_secrets_def run_def database_ready_def current_version_def split: prod.splits sum.splits)
qed

lemma run_open_database:
  "run (open_database E) (\<lambda>_ w'. opened_as (st_schema (mw_store w)) (mw_store w') \<and> mw_started w' = mw_started w)
    (\<lambda>_ w'. mw_started w' = mw_started w) w"
  using run_InitializeDB [of "me_opening E" "mw_store w"]
  by (auto simp: run_def open_database_def split: prod.splits sum.splits)

text \<open>From here on the database is left to the components.\<close>

lemmas start_defs = start_component_def new_write_channel_def new_read_channel_def slave_transport_def serve_def
  listenAndServe_def

lemma ready_started: "database_ready E w \<Longrightarrow> started_safely E w"
  by (simp add: started_safely_def)

lemma ready_bus [simp]: "database_ready E (w\<lparr>mw_bus := b\<rparr>) = database_ready E w"
  "database_ready E (w\<lparr>mw_started := cs\<rparr>) = database_ready E w"
  by (simp_all add: database_ready_def)

lemma run_listenAndServe_ready:
  "database_ready E w \<Longrightarrow> run (listenAndServe E l c k ca) (\<lambda>_. database_ready E) (\<lambda>_. database_ready E) w"
  by (auto simp: start_defs run_simps split: sum.split option.split)

lemma run_slave_transport_same:
  "run (slave_transport C fl) (\<lambda>_ w'. w' = w) (\<lambda>_ w'. w' = w) w"
  by (auto simp: slave_transport_def run_simps split: sum.split option.split)

lemma run_connect:
  assumes "database_ready E w"
  shows "run (bindM (start_component c1) (\<lambda>_. bindM (start_component c2) (\<lambda>_.
    bindM (slave_transport (me_certs E) fl) (\<lambda>tr. bindM new_write_channel (\<lambda>k.
    bindM (start_component (c3 tr k)) (\<lambda>_. bindM new_read_channel (\<lambda>i.
    bindM (start_component (c4 tr i)) (\<lambda>_. bindM new_read_channel (\<lambda>j.
    bindM (start_component (c5 j)) (\<lambda>_. listenAndServe E l c k' ca)))))))))) (\<lambda>_. database_ready E) (\<lambda>_. database_ready E) w"
  using assms
  by (auto simp: run_bindM start_component_def new_write_channel_def new_read_channel_def run_modifyM run_getM run_returnM
      intro!: run_listenAndServe_ready run_mono [OF run_slave_transport_same])

lemma run_master_setup:
  assumes "dbms_ok (me_dbms E)" and "mw_started w = []" and "stored_ok (mw_store w)"
  shows "run (master_setup E fl) (\<lambda>_. started_safely E) (\<lambda>_. started_safely E) w"
proof -
  have bus: "started_safely E w'" if "mw_started w' = [BusLoop]" for w'
    using that by (simp add: started_safely_def uses_database_def)
  have *: "run (bindM (open_database E) (\<lambda>_. bindM new_write_channel (\<lambda>k. bindM (initialize_secrets E) (\<lambda>_. rest k))))
      (\<lambda>_. started_safely E) (\<lambda>_. started_safely E) w'"
    if start: "mw_started w' = [BusLoop]" "stored_ok (mw_store w')"
      and rest: "\<And>k w'. database_ready E w' \<Longrightarrow> run (rest k) (\<lambda>_. database_ready E) (\<lambda>_. database_ready E) w'"
    for rest w'
    using start
    by (auto simp: run_bindM new_write_channel_def run_getM run_modifyM run_returnM bus ready_started opened_stored_ok
        intro!: run_mono [OF run_open_database] run_mono [OF run_initialize_secrets [OF assms(1)]] run_mono [OF rest])
  show ?thesis
    unfolding master_setup_def run_bindM [of "modifyM _"] run_bindM [of "start_component BusLoop"]
    by (simp add: run_modifyM start_component_def [of BusLoop] assms(2), rule *)
      (simp, simp add: assms(3), rule run_connect)
qed

text \<open>Whatever fails and wherever the start stops, no component that uses the database
  has been started unless the database holds the schema of this version; and, if the statements of the
  secrets' transaction do not fail, the key file and the root credential too.\<close>

theorem master_starts_in_order:
  assumes "dbms_ok (me_dbms E)" and "mw_started w = []" and "stored_ok (mw_store w)"
  shows "case master_main E args w of (_, w') \<Rightarrow>
    (\<exists>c \<in> set (mw_started w'). uses_database c) \<longrightarrow>
    (\<exists>db rows. st_schema (mw_store w') = Some (db, rows) \<and> current_version (db, rows) \<and>
      (fault_free (me_dbms E) \<longrightarrow> has_secrets db))"
proof -
  have "run (master_main E args) (\<lambda>_. started_safely E) (\<lambda>_. started_safely E) w"
    using run_master_setup [OF assms] assms(2)
    by (auto simp: master_main_def run_raiseM started_safely_def split: sum.split option.split)
  then show ?thesis
    by (auto simp: run_def started_safely_def database_ready_def split: prod.splits sum.splits)
qed

section \<open>A start that succeeds\<close>

definition api_server :: "certificates \<Rightarrow> master_flags \<Rightarrow> http_server \<Rightarrow> bool" where
  "api_server C fl srv \<longleftrightarrow> server_Addr srv = mf_listen fl \<and>
    server_TLS srv = (if mf_apiCert fl = [] then None
      else Some ((mf_apiCert fl, mf_apiKey fl), if mf_apiVerifyCA fl = [] then NoClientCert
        else RequireAndVerifyClientCert (case file_content C (mf_apiVerifyCA fl) of
          Inl _ \<Rightarrow> [] | Inr content \<Rightarrow> pem_certificates C content)))"

definition wired :: "master_flags \<Rightarrow> http_transport \<Rightarrow> http_server \<Rightarrow> master_component list" where
  "wired fl tr srv = [BusLoop, AllocatorLoop 1, ApiRoutes, MonitorLoop 2 tr (mf_slaveTimeout fl) (mf_monitorInterval fl),
     DeployerLoop 0 tr (mf_slaveTimeout fl), ProblemManagerLoop 1, Serving srv]"

definition wired_bus :: "StatusMessage Bus" where
  "wired_bus = GetNewReadChannel (GetNewReadChannel (GetNewWriteChannel (GetNewWriteChannel NewBus)))"

text \<open>The files that the flags name can be loaded, and listening does not fail.\<close>

definition files_load :: "master_env \<Rightarrow> master_flags \<Rightarrow> string \<Rightarrow> string \<Rightarrow> bool" where
  "files_load E fl ca pair \<longleftrightarrow>
    (\<exists>content block. file_content (me_certs E) (mf_slaveVerifyCA fl) = Inr content \<and>
      pem_Decode (me_certs E) content = Some block \<and> ParseCertificate (me_certs E) block = Inr ca) \<and>
    LoadX509KeyPair (me_certs E) (mf_slaveAuthCert fl) (mf_slaveAuthKey fl) = Inr pair \<and>
    (mf_apiCert fl \<noteq> [] \<and> mf_apiVerifyCA fl \<noteq> [] \<longrightarrow> (\<exists>content. file_content (me_certs E) (mf_apiVerifyCA fl) = Inr content)) \<and>
    (\<forall>srv. me_listen E srv = None)"

lemma bus_run_wired: "\<exists>h. bus_run NewBus wired_bus h"
proof -
  have room: "has_room 0 NewBus" "has_room 0 (GetNewWriteChannel NewBus)"
    by (simp_all add: has_room_def NewBus_def GetNewWriteChannel_def bus_write_def capacity_def)
  show ?thesis
    unfolding wired_bus_def using room by (blast intro: bus_run.intros)
qed

lemma wired_bus_channels: "length (writeChannels wired_bus) = 3" "length (readChannels wired_bus) = 2"
  by (simp_all add: wired_bus_def GetNewReadChannel_def GetNewWriteChannel_def bus_write_def NewBus_def)

lemma open_database_total:
  assumes "sound (me_opening E)" and "case st_schema (mw_store w) of None \<Rightarrow> True | Some schema \<Rightarrow> current_version schema"
    and "stored_ok (mw_store w)"
  shows "\<exists>schema st. open_database E w = (Inr (), w\<lparr>mw_store := st\<rparr>) \<and> st_schema st = Some schema \<and> current_version schema \<and>
    foreign_keys_ok (fst schema)"
proof -
  have "\<exists>schema st. InitializeDB (me_opening E) (mw_store w) = (Inr (), st) \<and> st_schema st = Some schema \<and> current_version schema"
    using assms(2) InitializeDB_existing [OF assms(1), of "mw_store w"] InitializeDB_fresh [OF assms(1), of "mw_store w"]
    by (cases "st_schema (mw_store w)") (auto simp: current_version_def)
  then obtain schema st where st: "InitializeDB (me_opening E) (mw_store w) = (Inr (), st)" "st_schema st = Some schema"
    "current_version schema" by blast
  then have "stored_ok st"
    using opened_stored_ok [of "mw_store w" st] run_InrD [OF run_InitializeDB st(1)] assms(3) by simp
  with st show ?thesis
    by (fastforce simp: open_database_def stored_ok_def)
qed

lemma run_secrets_tx_total:
  assumes "dbms_ok (me_dbms E)" and "fault_free (me_dbms E)" and "entropy_total (me_rand E)"
    and "foreign_keys_ok (txDB s)"
  shows "run (secrets_tx E) (\<lambda>_ s'. has_secrets (txDB s')) (\<lambda>_ _. False) s"
proof -
  have secrets: "run (InitializeGlobalSecrets (me_dbms E) (me_show_err E) (me_rand E))
      (\<lambda>_ s'. has_secrets (txDB s')) (\<lambda>_ _. False) s"
    unfolding InitializeGlobalSecrets_def
    by (rule run_bind_seq [OF run_ensure_keyfile [OF assms(1-3)]], rule run_mono [OF run_ensure_root_credential [OF assms(1-3)]])
      (auto simp: keyfile_post_def credential_post_def has_secrets_def split: if_splits)
  have "run (InitializeGlobalSecrets (me_dbms E) (me_show_err E) (me_rand E))
      (\<lambda>_ s'. has_secrets (txDB s') \<and> foreign_keys_ok (txDB s')) (\<lambda>_ _. False) s"
    by (rule run_mono [OF run_conj [OF secrets run_InitializeGlobalSecrets_any]]) (auto simp: same_cluster_eq(1) assms(4))
  then have "run (attempt (InitializeGlobalSecrets (me_dbms E) (me_show_err E) (me_rand E)))
      (\<lambda>r s'. (\<exists>u. r = Inr u) \<and> has_secrets (txDB s') \<and> foreign_keys_ok (txDB s')) (\<lambda>_ _. False) s"
    by (intro run_attempt_total) (auto elim: run_mono)
  then show ?thesis
    unfolding secrets_tx_def run_bindM run_getM
    by (rule run_mono)
      (auto simp: run_simps assms(2) intro!: run_attempt_total run_commit_total [OF assms(2)])
qed

lemma initialize_secrets_total:
  assumes "dbms_ok (me_dbms E)" and "fault_free (me_dbms E)" and "entropy_total (me_rand E)"
    and "st_schema (mw_store w) = Some (db, rows)" and "foreign_keys_ok db"
  shows "\<exists>db' st. initialize_secrets E w = (Inr (), w\<lparr>mw_store := st\<rparr>) \<and> st_schema st = Some (db', rows) \<and> has_secrets db'"
proof -
  obtain s where "secrets_tx E (begin_tx db) = (Inr (), s)" "has_secrets (txDB s)"
    using run_total [OF run_secrets_tx_total [OF assms(1-3), of "begin_tx db"]] assms(5) by auto
  then show ?thesis
    using assms(4)
    by (intro exI [of _ "txDB s"] exI [of _ "(mw_store w)\<lparr>st_schema := Some (txDB s, rows)\<rparr>"])
      (simp add: initialize_secrets_def)
qed

lemma master_setup_total:
  assumes "sound (me_opening E)" and "case st_schema (mw_store w) of None \<Rightarrow> True | Some schema \<Rightarrow> current_version schema"
    and "dbms_ok (me_dbms E)" and "fault_free (me_dbms E)" and "entropy_total (me_rand E)"
    and "files_load E fl ca pair" and "mw_started w = []" and "stored_ok (mw_store w)"
  shows "\<exists>srv w'. master_setup E fl w = (Inr (), w') \<and> api_server (me_certs E) fl srv \<and>
    mw_started w' = wired fl \<lparr>RootCAs = Some [ca], Certificates = [pair]\<rparr> srv \<and> mw_bus w' = wired_bus \<and> database_ready E w'"
proof -
  let ?w1 = "w\<lparr>mw_bus := NewBus, mw_started := [BusLoop]\<rparr>"
  obtain db rows st1 where st1: "open_database E ?w1 = (Inr (), ?w1\<lparr>mw_store := st1\<rparr>)"
    "st_schema st1 = Some (db, rows)" "current_version (db, rows)" "foreign_keys_ok db"
    using open_database_total [of E ?w1] assms(1,2,8) by auto
  let ?w2 = "?w1\<lparr>mw_store := st1, mw_bus := GetNewWriteChannel NewBus\<rparr>"
  obtain db' st2 where st2: "initialize_secrets E ?w2 = (Inr (), ?w2\<lparr>mw_store := st2\<rparr>)"
    "st_schema st2 = Some (db', rows)" "has_secrets db'"
    using initialize_secrets_total [OF assms(3-5), of ?w2 db rows] st1(2,4) by auto
  have ready: "database_ready E (w'\<lparr>mw_store := st2\<rparr>)" for w'
    using st1(3) st2(2,3) by (simp add: database_ready_def current_version_def)
  obtain content block where files: "file_content (me_certs E) (mf_slaveVerifyCA fl) = Inr content"
    "pem_Decode (me_certs E) content = Some block" "ParseCertificate (me_certs E) block = Inr ca"
    "LoadX509KeyPair (me_certs E) (mf_slaveAuthCert fl) (mf_slaveAuthKey fl) = Inr pair"
    using assms(6) by (auto simp: files_load_def)
  obtain srv where srv: "api_server (me_certs E) fl srv" and listen: "\<And>w. listenAndServe E (mf_listen fl) (mf_apiCert fl) (mf_apiKey fl) (mf_apiVerifyCA fl) w =
      (Inr (), w\<lparr>mw_started := mw_started w @ [Serving srv]\<rparr>)"
  proof
    let ?srv = "\<lparr>server_Addr = mf_listen fl, server_TLS = (if mf_apiCert fl = [] then None
      else Some ((mf_apiCert fl, mf_apiKey fl), if mf_apiVerifyCA fl = [] then NoClientCert
        else RequireAndVerifyClientCert (case file_content (me_certs E) (mf_apiVerifyCA fl) of
          Inl _ \<Rightarrow> [] | Inr content \<Rightarrow> pem_certificates (me_certs E) content)))\<rparr>"
    show "api_server (me_certs E) fl ?srv"
      by (simp add: api_server_def)
    show "listenAndServe E (mf_listen fl) (mf_apiCert fl) (mf_apiKey fl) (mf_apiVerifyCA fl) w =
        (Inr (), w\<lparr>mw_started := mw_started w @ [Serving ?srv]\<rparr>)" for w
      using assms(6)
      by (auto simp: files_load_def listenAndServe_def serve_def start_component_def bindM_def modifyM_def returnM_def dieOnError_def)
  qed
  show ?thesis
    using st1(1) st2(1) files assms(7) srv ready
    by (intro exI [of _ srv] exI [of _ "w\<lparr>mw_bus := wired_bus, mw_store := st2,
        mw_started := wired fl \<lparr>RootCAs = Some [ca], Certificates = [pair]\<rparr> srv\<rparr>"])
      (simp add: master_setup_def bindM_def getM_def modifyM_def returnM_def start_component_def new_write_channel_def
        new_read_channel_def slave_transport_def loadCertificateFromFile_def listen wired_def wired_bus_def
        GetNewReadChannel_def GetNewWriteChannel_def bus_write_def NewBus_def)
qed

text \<open>C13: with accepted flags, files that load, a database that is empty or of this version and does not fail, and
  a random source that works, \<open>main\<close> ends up serving.  It has started the components in the order of the code and
  given each its own channel of the bus: two writers beside the internal channel, two readers; the bus is in a
  state that its model reaches; the schema and the secrets are there.\<close>

theorem master_starts:
  assumes "parse_flags (set_master_flag (me_readers E)) args (default_master_flags (me_readers E)) = Inr fl"
    and "flag_complaint fl = None"
    and "sound (me_opening E)" and "case st_schema (mw_store w) of None \<Rightarrow> True | Some schema \<Rightarrow> current_version schema"
    and "dbms_ok (me_dbms E)" and "fault_free (me_dbms E)" and "entropy_total (me_rand E)"
    and "files_load E fl ca pair" and "mw_started w = []" and "stored_ok (mw_store w)"
  shows "\<exists>srv w'. master_main E args w = (Inr (), w') \<and> api_server (me_certs E) fl srv \<and>
    mw_started w' = [BusLoop, AllocatorLoop 1, ApiRoutes,
      MonitorLoop 2 \<lparr>RootCAs = Some [ca], Certificates = [pair]\<rparr> (mf_slaveTimeout fl) (mf_monitorInterval fl),
      DeployerLoop 0 \<lparr>RootCAs = Some [ca], Certificates = [pair]\<rparr> (mf_slaveTimeout fl), ProblemManagerLoop 1, Serving srv] \<and>
    (\<exists>h. bus_run NewBus (mw_bus w') h) \<and> length (writeChannels (mw_bus w')) = 3 \<and> length (readChannels (mw_bus w')) = 2 \<and>
    (\<exists>db rows. st_schema (mw_store w') = Some (db, rows) \<and> current_version (db, rows) \<and> has_secrets db)"
  using master_setup_total [OF assms(3-10)] assms(1,2,6) bus_run_wired wired_bus_channels
  by (auto simp: master_main_def wired_def database_ready_def)

text \<open>How the API is served depends on the flags alone.  It is encrypted exactly if a
  certificate is given.  Clients without a certificate are let in unless both a certificate and a verification
  CA are given; then only those are let in that present a certificate signed by one in the CA file.  In particular
  \<open>-api.verifyCA\<close> without \<open>-api.cert\<close> protects nothing.\<close>

theorem api_protection:
  "case listenAndServe E l apiCert apiKey apiVerifyCA w of (_, w') \<Rightarrow>
    \<exists>srvs. mw_started w' = mw_started w @ map Serving srvs \<and> length srvs \<le> 1 \<and>
      (\<forall>srv \<in> set srvs. server_Addr srv = l \<and> (encrypted srv \<longleftrightarrow> apiCert \<noteq> []) \<and>
        (\<forall>certs. admits signed_by srv certs \<longleftrightarrow> apiCert = [] \<or> apiVerifyCA = [] \<or>
          (\<exists>content. file_content (me_certs E) apiVerifyCA = Inr content \<and>
            (\<exists>cert \<in> set certs. \<exists>ca \<in> set (pem_certificates (me_certs E) content). signed_by cert ca))))"
proof -
  have serve: "mw_started (snd (serve E srv w)) = mw_started w @ map Serving [srv]" for srv
    by (simp add: serve_def start_component_def bindM_def modifyM_def dieOnError_def returnM_def raiseM_def split: option.split)
  have one: "\<exists>srvs. mw_started (snd (serve E srv w)) = mw_started w @ map Serving srvs \<and> length srvs \<le> 1 \<and>
      (\<forall>srv \<in> set srvs. P srv)" if "P srv" for srv P
    using that serve [of srv] by (intro exI [of _ "[srv]"]) simp
  have none: "\<exists>srvs. mw_started (snd (dieOnError (Some e) w)) = mw_started w @ map Serving srvs \<and> length srvs \<le> 1 \<and>
      (\<forall>srv \<in> set srvs. P srv)" for e P
    by (intro exI [of _ "[]"]) (simp add: dieOnError_def raiseM_def)
  define protected where "protected srv \<longleftrightarrow> server_Addr srv = l \<and> (encrypted srv \<longleftrightarrow> apiCert \<noteq> []) \<and>
    (\<forall>certs. admits signed_by srv certs \<longleftrightarrow> apiCert = [] \<or> apiVerifyCA = [] \<or>
      (\<exists>content. file_content (me_certs E) apiVerifyCA = Inr content \<and>
        (\<exists>cert \<in> set certs. \<exists>ca \<in> set (pem_certificates (me_certs E) content). signed_by cert ca)))" for srv
  have plain: "protected \<lparr>server_Addr = l, server_TLS = None\<rparr>" if "apiCert = []"
    using that by (simp add: protected_def encrypted_def admits_def)
  have open_tls: "protected \<lparr>server_Addr = l, server_TLS = Some ((apiCert, apiKey), NoClientCert)\<rparr>"
    if "apiCert \<noteq> []" "apiVerifyCA = []"
    using that by (simp add: protected_def encrypted_def admits_def)
  have verified: "protected \<lparr>server_Addr = l, server_TLS = Some ((apiCert, apiKey),
      RequireAndVerifyClientCert (pem_certificates (me_certs E) content))\<rparr>"
    if "apiCert \<noteq> []" "apiVerifyCA \<noteq> []" "file_content (me_certs E) apiVerifyCA = Inr content" for content
    using that by (simp add: protected_def encrypted_def admits_def list_ex_iff)
  have "\<exists>srvs. mw_started (snd (listenAndServe E l apiCert apiKey apiVerifyCA w)) = mw_started w @ map Serving srvs \<and>
      length srvs \<le> 1 \<and> (\<forall>srv \<in> set srvs. protected srv)"
    unfolding listenAndServe_def
    using one [of protected, OF plain] one [of protected, OF open_tls] one [of protected, OF verified] none [of _ protected]
    by (simp split: sum.split)
  then show ?thesis
    by (simp add: case_prod_beta protected_def)
qed

text \<open>Whatever the command line says, the log level is the default: \<open>Set\<close> stores the level only
  when it could not be read, and it stores it in a copy.\<close>

theorem log_level_fixed:
  assumes "parse_flags (set_master_flag R) args (default_master_flags R) = Inr fl"
  shows "mf_logLevel fl = DebugLevel R"
  by (rule parse_flags_keeps [OF assms])
    (auto simp: default_master_flags_def set_master_flag_def LogLevelFlag_Set_def set_duration_def Let_def
      split: if_splits sum.splits option.splits prod.splits)

text \<open>The flags are accepted exactly if the driver is PostgreSQL, the data source and the three files for the
  slaves are given, and certificate and key of the API are given both or not at all; the trick with the
  concatenated strings tests just that.\<close>

theorem flags_accepted:
  "flag_complaint fl = None \<longleftrightarrow> mf_dbDriver fl = ''postgres'' \<and> mf_dbDSN fl \<noteq> [] \<and> mf_slaveVerifyCA fl \<noteq> [] \<and>
    mf_slaveAuthCert fl \<noteq> [] \<and> mf_slaveAuthKey fl \<noteq> [] \<and> (mf_apiCert fl = [] \<longleftrightarrow> mf_apiKey fl = [])"
  by (auto simp: flag_complaint_def Let_def)

subsection \<open>An example\<close>

definition example_readers :: flag_readers where
  "example_readers = \<lparr>read_Duration = \<lambda>_. Inl ''invalid duration'',
     read_Level = \<lambda>val. if val = ''error'' then (2, None) else (0, Some ''not a valid logrus Level''), DebugLevel = 5\<rparr>"

definition example_master :: master_env where
  "example_master = \<lparr>me_readers = example_readers, me_certs = example_certificates, me_opening = example_opening,
     me_dbms = plain_dbms, me_show_err = \<lambda>_. [], me_rand = \<lambda>n len. Inr (replicate len 0), me_listen = \<lambda>_. None\<rparr>"

definition example_world :: master_world where
  "example_world = \<lparr>mw_store = \<lparr>st_schema = None, st_calls = 0\<rparr>, mw_bus = NewBus, mw_started = []\<rparr>"

definition example_arguments :: "argument list" where
  "example_arguments = [(''db.dsn'', ''mamid''), (''slave.verifyCA'', ''ca''), (''slave.auth.cert'', ''cert''),
     (''slave.auth.key'', ''key''), (''log.level'', ''error''), (''api.verifyCA'', ''users'')]"

definition example_flags :: master_flags where
  "example_flags = (default_master_flags example_readers)\<lparr>mf_dbDSN := ''mamid'', mf_slaveVerifyCA := ''ca'',
     mf_slaveAuthCert := ''cert'', mf_slaveAuthKey := ''key'', mf_apiVerifyCA := ''users''\<rparr>"

lemma example_flags:
  "parse_flags (set_master_flag example_readers) example_arguments (default_master_flags example_readers) = Inr example_flags"
  "flag_complaint example_flags = None"
  by (simp_all add: example_arguments_def set_master_flag_def LogLevelFlag_Set_def example_readers_def default_master_flags_def
      example_flags_def flag_complaint_def)

lemma example_sound: "sound (me_opening example_master)" "dbms_ok (me_dbms example_master)" "fault_free (me_dbms example_master)"
  "entropy_total (me_rand example_master)" "files_load example_master example_flags ''ca'' ''cert''"
  using plain_dbms_ok plain_dbms_fault_free
  by (simp_all add: sound_def example_master_def example_opening_def entropy_total_def files_load_def example_certificates_def
      example_flags_def)

theorem master_starts_witness:
  "\<exists>srv w'. master_main example_master example_arguments example_world = (Inr (), w') \<and> server_TLS srv = None \<and>
    Serving srv \<in> set (mw_started w')"
  using master_starts [of example_master example_arguments example_flags example_world "''ca''" "''cert''"]
    example_flags example_sound
  by (auto simp: example_world_def stored_ok_def api_server_def example_flags_def default_master_flags_def example_master_def)

theorem log_level_fixed_witness: "mf_logLevel example_flags = 5"
  using log_level_fixed [OF example_flags(1)] by (simp add: example_readers_def)

theorem master_starts_in_order_witness:
  "\<exists>w' db rows. master_main example_master example_arguments example_world = (Inr (), w') \<and>
    st_schema (mw_store w') = Some (db, rows) \<and> has_secrets db"
proof -
  have "master_main example_master example_arguments example_world = master_setup example_master example_flags example_world"
    using example_flags by (simp add: master_main_def example_master_def)
  moreover obtain srv w' where "master_setup example_master example_flags example_world = (Inr (), w')"
    and started: "mw_started w' = wired example_flags \<lparr>RootCAs = Some [''ca''], Certificates = [''cert'']\<rparr> srv"
    using master_setup_total [OF example_sound(1) _ example_sound(2-5), of example_world]
    by (auto simp: example_world_def stored_ok_def)
  ultimately have main: "master_main example_master example_arguments example_world = (Inr (), w')"
    by simp
  have "\<exists>c \<in> set (mw_started w'). uses_database c"
    by (simp add: started wired_def uses_database_def)
  then show ?thesis
    using master_starts_in_order [OF example_sound(2), of example_world example_arguments] main example_sound(3)
    by (auto simp: example_world_def stored_ok_def)
qed

end
