(* ===== verification/SlaveMain.thy ===== *)
theory SlaveMain
  imports Certificates SlaveProps
begin

text \<open>
  The start of a slave, \<open>src/slave/cmd/slave.go\<close>, with the server it serves, \<open>NewServer\<close> and \<open>Run\<close> of
  \<open>src/msp/protocolserver.go\<close>, and \<open>NewController\<close> of \<open>src/slave/controller.go\<close>.

  The state is the slave's own, which \<open>SlaveController\<close> models, and what \<open>main\<close> has started, in order.
\<close>

section \<open>Flags\<close>

record slave_flags =
  sf_dataDir :: string
  sf_mongodExecutable :: string
  sf_mongodResponseTimeout :: int
  sf_mongodSoftShutdownTimeout :: int
  sf_mongodHardShutdownTimeout :: int
  sf_listen :: string
  sf_x509CertFile :: string
  sf_x509KeyFile :: string
  sf_caCert :: string

definition nanoseconds :: "int \<Rightarrow> int" where "nanoseconds s = s * 1000000000"

text \<open>The default of the executable is what \<open>exec.LookPath\<close> finds, or empty.\<close>

definition default_slave_flags :: "string \<Rightarrow> slave_flags" where
  "default_slave_flags lookupPath = \<lparr>sf_dataDir = [], sf_mongodExecutable = lookupPath,
     sf_mongodResponseTimeout = nanoseconds 3, sf_mongodSoftShutdownTimeout = nanoseconds 3,
     sf_mongodHardShutdownTimeout = nanoseconds 5, sf_listen = '':8081'', sf_x509CertFile = [], sf_x509KeyFile = [],
     sf_caCert = []\<rparr>"

definition set_slave_flag :: "flag_readers \<Rightarrow> slave_flags \<Rightarrow> argument \<Rightarrow> string + slave_flags" where
  "set_slave_flag R fl arg = (case arg of (name, val) \<Rightarrow>
    if name = ''data'' then Inr (fl\<lparr>sf_dataDir := val\<rparr>)
    else if name = ''mongodExecutable'' then Inr (fl\<lparr>sf_mongodExecutable := val\<rparr>)
    else if name = ''mongod.responseTimeout'' then set_duration R val (\<lambda>d. fl\<lparr>sf_mongodResponseTimeout := d\<rparr>)
    else if name = ''mongod.shutdownTimeout.soft'' then set_duration R val (\<lambda>d. fl\<lparr>sf_mongodSoftShutdownTimeout := d\<rparr>)
    else if name = ''mongod.shutdownTimeout.hard'' then set_duration R val (\<lambda>d. fl\<lparr>sf_mongodHardShutdownTimeout := d\<rparr>)
    else if name = ''listen'' then Inr (fl\<lparr>sf_listen := val\<rparr>)
    else if name = ''slave.auth.cert'' then Inr (fl\<lparr>sf_x509CertFile := val\<rparr>)
    else if name = ''slave.auth.key'' then Inr (fl\<lparr>sf_x509KeyFile := val\<rparr>)
    else if name = ''master.verifyCA'' then Inr (fl\<lparr>sf_caCert := val\<rparr>)
    else Inl (unknown_flag name))"

definition slave_complaint :: "slave_flags \<Rightarrow> string option" where
  "slave_complaint fl =
    (if sf_dataDir fl = [] then Some ''No root data directory passed; specify with -data=/path/to/root/dir''
     else if sf_x509CertFile fl = [] then Some ''No server cert file passed; specify with -slave.auth.cert=/path/to/cert''
     else if sf_x509KeyFile fl = [] then Some ''No server cert key file passed; specify with -slave.auth.key=/path/to/cert''
     else if sf_caCert fl = [] then Some ''No master verification ca passed; specify with -master.verifyCA=/path/to/cert''
     else None)"

section \<open>State and environment\<close>

text \<open>The configuration of the controller and the configurator.\<close>

record slave_limits =
  limit_response :: int
  limit_softShutdown :: int
  limit_hardShutdown :: int

datatype slave_component = ProcessManagerLoop string string | SlaveServer http_server slave_limits

record slave_world =
  sw_slave :: slave_state
  sw_started :: "slave_component list"

record slave_env =
  se_readers :: flag_readers
  se_certs :: certificates
  se_lookPath :: string
  se_environment :: environment
  se_listen :: "http_server \<Rightarrow> string option"

type_synonym 'a slave_main_action = "(slave_world, stop, 'a) sem"

definition start_slave_component :: "slave_component \<Rightarrow> unit slave_main_action" where
  "start_slave_component c = modifyM (\<lambda>w. w\<lparr>sw_started := sw_started w @ [c]\<rparr>)"

text \<open>An operation of the process manager, with the data directory of the flags.\<close>

definition on_slave :: "(string \<Rightarrow> stop) \<Rightarrow> 'a slave_action \<Rightarrow> 'a slave_main_action" where
  "on_slave failing m = (\<lambda>w. case m (sw_slave w) of
     (Inl err, s) \<Rightarrow> (Inl (failing err), w\<lparr>sw_slave := s\<rparr>)
   | (Inr x, s) \<Rightarrow> (Inr x, w\<lparr>sw_slave := s\<rparr>))"

section \<open>The server of the protocol\<close>

definition NewServer :: "certificates \<Rightarrow> string \<Rightarrow> string \<Rightarrow> string \<Rightarrow> string \<Rightarrow> http_server slave_main_action" where
  "NewServer C listenString caFile certFile keyFile =
    (case file_content C caFile of
       Inl err \<Rightarrow> raiseM (Fatal err)
     | Inr caCertContent \<Rightarrow> returnM \<lparr>server_Addr = listenString,
         server_TLS = Some ((certFile, keyFile), RequireAndVerifyClientCert (pem_certificates C caCertContent))\<rparr>)"

definition server_Run :: "slave_env \<Rightarrow> slave_limits \<Rightarrow> http_server \<Rightarrow> string option slave_main_action" where
  "server_Run E limits srv = bindM (start_slave_component (SlaveServer srv limits)) (\<lambda>_. returnM (se_listen E srv))"

section \<open>main\<close>

definition NewController :: "slave_flags \<Rightarrow> slave_limits" where
  "NewController fl = \<lparr>limit_response = sf_mongodResponseTimeout fl, limit_softShutdown = sf_mongodSoftShutdownTimeout fl,
     limit_hardShutdown = sf_mongodHardShutdownTimeout fl\<rparr>"

definition slave_setup :: "slave_env \<Rightarrow> slave_flags \<Rightarrow> unit slave_main_action" where
  "slave_setup E fl =
    bindM (on_slave (\<lambda>err. Fatal (''cannot not create or access slave data directory `'' @ sf_dataDir fl @ ''` (-data): '' @ err))
        (CreateManagedDirs ((se_environment E)\<lparr>env_dataDir := sf_dataDir fl\<rparr>))) (\<lambda>_.
    bindM (start_slave_component (ProcessManagerLoop (sf_mongodExecutable fl) (sf_dataDir fl))) (\<lambda>_.
    bindM (NewServer (se_certs E) (sf_listen fl) (sf_caCert fl) (sf_x509CertFile fl) (sf_x509KeyFile fl)) (\<lambda>server.
    bindM (server_Run E (NewController fl) server) (\<lambda>err. case err of
      Some e \<Rightarrow> raiseM (Fatal e)
    | None \<Rightarrow> returnM ()))))"

definition slave_main :: "slave_env \<Rightarrow> argument list \<Rightarrow> unit slave_main_action" where
  "slave_main E args =
    (case parse_flags (set_slave_flag (se_readers E)) args (default_slave_flags (se_lookPath E)) of
       Inl err \<Rightarrow> raiseM (Usage err)
     | Inr fl \<Rightarrow> (case slave_complaint fl of
         Some msg \<Rightarrow> raiseM (Fatal msg)
       | None \<Rightarrow> slave_setup E fl))"

section \<open>Properties\<close>

definition managed :: "string \<Rightarrow> slave_state \<Rightarrow> bool" where
  "managed dataDir s \<longleftrightarrow> map_of (sl_fs s) (Clean dataDir) \<noteq> None \<and> map_of (sl_fs s) (managedDirMongods dataDir) \<noteq> None"

lemma run_CreateManagedDirs:
  "run (CreateManagedDirs E) (\<lambda>_ s'. managed (env_dataDir E) s' \<and> sl_running s' = sl_running s \<and>
      sl_credentials s' = sl_credentials s) (\<lambda>_ s'. sl_running s' = sl_running s) s"
  by (auto simp: CreateManagedDirs_def run_def bindM_def tryM_def catchM_def returnM_def raiseM_def syscall_def syscall_part_def
      count_call_def managed_def split: option.splits sum.splits prod.splits if_splits)

definition authenticated :: "certificates \<Rightarrow> slave_flags \<Rightarrow> slave_component \<Rightarrow> bool" where
  "authenticated C fl c \<longleftrightarrow> (case c of
     ProcessManagerLoop command dataDir \<Rightarrow> command = sf_mongodExecutable fl \<and> dataDir = sf_dataDir fl
   | SlaveServer srv limits \<Rightarrow> encrypted srv \<and> limits = NewController fl \<and>
       (\<exists>content. file_content C (sf_caCert fl) = Inr content \<and>
         (\<forall>signed_by certs. admits signed_by srv certs \<longleftrightarrow>
           (\<exists>cert \<in> set certs. \<exists>ca \<in> set (pem_certificates C content). signed_by cert ca))))"

definition slave_started :: "slave_env \<Rightarrow> slave_flags \<Rightarrow> slave_world \<Rightarrow> bool" where
  "slave_started E fl w \<longleftrightarrow> (sw_started w \<noteq> [] \<longrightarrow> managed (sf_dataDir fl) (sw_slave w)) \<and>
    (\<forall>c \<in> set (sw_started w). authenticated (se_certs E) fl c)"

lemma run_on_slave:
  assumes "run m (\<lambda>x s. Q x (w\<lparr>sw_slave := s\<rparr>)) (\<lambda>e s. R (failing e) (w\<lparr>sw_slave := s\<rparr>)) (sw_slave w)"
  shows "run (on_slave failing m) Q R w"
  using assms by (auto simp: run_def on_slave_def split: prod.splits sum.splits)

lemma run_slave_setup:
  assumes "sw_started w = []"
  shows "run (slave_setup E fl) (\<lambda>_. slave_started E fl) (\<lambda>_. slave_started E fl) w"
proof -
  have "run (bindM (start_slave_component (ProcessManagerLoop (sf_mongodExecutable fl) (sf_dataDir fl))) (\<lambda>_.
      bindM (NewServer (se_certs E) (sf_listen fl) (sf_caCert fl) (sf_x509CertFile fl) (sf_x509KeyFile fl)) (\<lambda>server.
      bindM (server_Run E (NewController fl) server) (\<lambda>err. case err of
        Some e \<Rightarrow> raiseM (Fatal e) | None \<Rightarrow> returnM ()))))
      (\<lambda>_. slave_started E fl) (\<lambda>_. slave_started E fl) w'"
    if "managed (sf_dataDir fl) (sw_slave w')" "sw_started w' = []" for w'
    using that
    by (auto simp: run_simps start_slave_component_def NewServer_def server_Run_def slave_started_def authenticated_def
        encrypted_def admits_def list_ex_iff split: sum.split option.split)
  then show ?thesis
    unfolding slave_setup_def run_bindM [of "on_slave _ _"]
    by (intro run_on_slave run_mono [OF run_CreateManagedDirs]) (simp_all add: assms slave_started_def)
qed

text \<open>A slave starts its process manager and its server only with flags that name a data directory, a
  certificate, its key and the CA of the master, and only when the data directory is there with the directory for the
  Mongods in it.  The server is encrypted and lets in exactly the clients with a certificate that one in the CA file
  has signed; the process manager works in the directory that was checked.\<close>

theorem slave_serves_authenticated:
  assumes "sw_started w = []"
  shows "case slave_main E args w of (_, w') \<Rightarrow>
    sw_started w' = [] \<or>
    (\<exists>fl. parse_flags (set_slave_flag (se_readers E)) args (default_slave_flags (se_lookPath E)) = Inr fl \<and>
      sf_dataDir fl \<noteq> [] \<and> sf_x509CertFile fl \<noteq> [] \<and> sf_x509KeyFile fl \<noteq> [] \<and> sf_caCert fl \<noteq> [] \<and>
      managed (sf_dataDir fl) (sw_slave w') \<and> (\<forall>c \<in> set (sw_started w'). authenticated (se_certs E) fl c))"
proof (cases "parse_flags (set_slave_flag (se_readers E)) args (default_slave_flags (se_lookPath E))")
  case (Inr fl)
  show ?thesis
  proof (cases "slave_complaint fl")
    case None
    then have "sf_dataDir fl \<noteq> [] \<and> sf_x509CertFile fl \<noteq> [] \<and> sf_x509KeyFile fl \<noteq> [] \<and> sf_caCert fl \<noteq> []"
      by (auto simp: slave_complaint_def split: if_splits)
    then show ?thesis
      using run_slave_setup [OF assms, of E fl] Inr None
      by (auto simp: run_def slave_main_def slave_started_def split: prod.splits sum.splits)
  qed (simp add: slave_main_def Inr raiseM_def assms)
qed (simp add: slave_main_def raiseM_def assms)

definition example_slave_env :: slave_env where
  "example_slave_env = \<lparr>se_readers = \<lparr>read_Duration = \<lambda>_. Inl ''invalid duration'', read_Level = \<lambda>_. (5, None), DebugLevel = 5\<rparr>,
     se_certs = example_certificates, se_lookPath = ''/usr/bin/mongod'', se_environment = example_environment,
     se_listen = \<lambda>_. None\<rparr>"

definition example_slave_arguments :: "argument list" where
  "example_slave_arguments = [(''data'', ''/srv''), (''slave.auth.cert'', ''cert''), (''slave.auth.key'', ''key''),
     (''master.verifyCA'', ''ca'')]"

definition example_slave_world :: slave_world where
  "example_slave_world = \<lparr>sw_slave = example_slave_state, sw_started = []\<rparr>"

lemma example_slave_starts:
  "\<exists>w'. slave_main example_slave_env example_slave_arguments example_slave_world = (Inr (), w') \<and> length (sw_started w') = 2"
proof -
  define E where "E = example_environment\<lparr>env_dataDir := ''/srv''\<rparr>"
  have [simp]: "env_dataDir E = ''/srv''" "env_sys E n = None" for n
    by (simp_all add: E_def example_environment_def)
  have "\<exists>s. CreateManagedDirs E example_slave_state = (Inr (), s)"
    by (simp add: CreateManagedDirs_def example_run managedDirMongods_def example_slave_state_def Clean_def Join_def)
  then obtain s where s: "CreateManagedDirs E example_slave_state = (Inr (), s)"
    by blast
  have "parse_flags (set_slave_flag (se_readers example_slave_env)) example_slave_arguments
      (default_slave_flags (se_lookPath example_slave_env)) = Inr (default_slave_flags ''/usr/bin/mongod''
        \<lparr>sf_dataDir := ''/srv'', sf_x509CertFile := ''cert'', sf_x509KeyFile := ''key'', sf_caCert := ''ca''\<rparr>)"
    by (simp add: example_slave_arguments_def set_slave_flag_def example_slave_env_def default_slave_flags_def)
  then show ?thesis
    using s
    by (simp add: slave_main_def slave_complaint_def slave_setup_def on_slave_def bindM_def start_slave_component_def modifyM_def
        NewServer_def server_Run_def returnM_def example_slave_env_def example_certificates_def
        example_slave_world_def default_slave_flags_def E_def [symmetric])
qed

theorem slave_serves_authenticated_witness:
  "\<exists>w'. slave_main example_slave_env example_slave_arguments example_slave_world = (Inr (), w') \<and>
    sl_fs (sw_slave w') \<noteq> [] \<and> (\<exists>fl. \<forall>c \<in> set (sw_started w'). authenticated example_certificates fl c)"
proof -
  obtain w' where w': "slave_main example_slave_env example_slave_arguments example_slave_world = (Inr (), w')" "length (sw_started w') = 2"
    using example_slave_starts by blast
  then show ?thesis
    using slave_serves_authenticated [of example_slave_world example_slave_env example_slave_arguments]
    by (auto simp: example_slave_world_def example_slave_env_def managed_def)
qed

end
