(* ===== verification/NotifierMain.thy ===== *)
theory NotifierMain
  imports MasterMain Notifier
begin

text \<open>
  The start of the notifier, \<open>main\<close> of \<open>src/notifier/controller.go\<close>: it reads its configuration and the contacts,
  prepares the client of the API and polls it for ever.  The rounds are those of \<open>Notifier\<close>.  At the end, the notifier
  meets the server of the API that \<open>MasterMain\<close> starts.
\<close>

section \<open>main\<close>

text \<open>\<open>ne_show\<close> is the \<open>%#v\<close> of a message.\<close>

record notifier_env =
  ne_ini :: "string \<Rightarrow> string + ini_file"
  ne_certs :: certificates
  ne_show :: "string \<Rightarrow> string"

text \<open>What the loop works with: the notifier, the transport of the client and the address of the API.\<close>

record notifier_setup_result =
  ns_email :: EmailNotifier
  ns_transport :: http_transport
  ns_apiHost :: string

type_synonym 'a notifier_action = "(unit, stop, 'a) sem"

definition fatal_load :: "notifier_env \<Rightarrow> string \<Rightarrow> string \<Rightarrow> 'a notifier_action" where
  "fatal_load E what err = raiseM (Fatal (''Error loading '' @ what @ '': '' @ ne_show E err))"

text \<open>The certificate of the master's CA, if one is configured.\<close>

definition server_trust :: "notifier_env \<Rightarrow> string \<Rightarrow> http_transport notifier_action" where
  "server_trust E masterCA =
    (if masterCA = [] then returnM zero_transport
     else bindM (loadCertificateFromFile (ne_certs E) masterCA) (\<lambda>r. case r of
       Inl err \<Rightarrow> fatal_load E (''matser CA file `'' @ masterCA @ ''`'') err
     | Inr cert \<Rightarrow> returnM (zero_transport\<lparr>RootCAs := Some [cert]\<rparr>)))"

definition client_identity :: "notifier_env \<Rightarrow> string \<Rightarrow> string \<Rightarrow> http_transport \<Rightarrow> http_transport notifier_action" where
  "client_identity E apiCert apiKey httpTransport =
    (if apiCert = [] then returnM httpTransport
     else (case LoadX509KeyPair (ne_certs E) apiCert apiKey of
       Inl err \<Rightarrow> fatal_load E (''keypair `'' @ apiCert @ ''`, `'' @ apiKey @ ''`'') err
     | Inr clientAuthCert \<Rightarrow> returnM (httpTransport\<lparr>Certificates := [clientAuthCert]\<rparr>)))"

definition notifier_setup :: "notifier_env \<Rightarrow> string list \<Rightarrow> notifier_setup_result notifier_action" where
  "notifier_setup E args =
    (if length args \<noteq> 2 then raiseM Returned
     else (case ParseConfig (ne_ini E (args ! 1)) of
       (config, Some configError) \<Rightarrow> fatal_load E ''config'' configError
     | (config, None) \<Rightarrow> (case Parse (ne_ini E (cfg_contactsFile config)) of
         Inl contactsParseErr \<Rightarrow> fatal_load E (''contacts file `'' @ cfg_contactsFile config @ ''`'') contactsParseErr
       | Inr contacts \<Rightarrow>
           bindM (server_trust E (cfg_masterCA config)) (\<lambda>httpTransport.
           bindM (client_identity E (cfg_apiCert config) (cfg_apiKey config) httpTransport) (\<lambda>httpTransport.
           returnM \<lparr>ns_email = \<lparr>Email_Contacts = contacts, Email_Relay = cfg_relay config, Email_MamidHost = cfg_apiHost config\<rparr>,
             ns_transport = httpTransport, ns_apiHost = cfg_apiHost config\<rparr>)))))"

text \<open>The first rounds of the loop, one for each answer of the API.\<close>

definition notifier_main :: "notifier_env \<Rightarrow> (mails \<Rightarrow> string \<times> string \<Rightarrow> string option) \<Rightarrow> string list \<Rightarrow>
    (string + (nat \<times> (string + notified_problem list))) list \<Rightarrow> (last_problems \<times> mails) notifier_action" where
  "notifier_main E smtp args resps = bindM (notifier_setup E args) (\<lambda>ns.
     returnM (fold (main_round smtp [ns_email ns]) resps (\<lambda>_. None, [])))"

section \<open>What the notifier needs and what it then does\<close>

lemma notifier_setup_result:
  assumes "notifier_setup E args u = (Inr ns, u')"
  shows "\<exists>program file config contacts. args = [program, file] \<and> ParseConfig (ne_ini E file) = (config, None) \<and>
    Parse (ne_ini E (cfg_contactsFile config)) = Inr contacts \<and>
    ns_email ns = \<lparr>Email_Contacts = contacts, Email_Relay = cfg_relay config, Email_MamidHost = cfg_apiHost config\<rparr> \<and>
    ns_apiHost ns = cfg_apiHost config \<and>
    (RootCAs (ns_transport ns) = None \<longleftrightarrow> cfg_masterCA config = []) \<and>
    Certificates (ns_transport ns) = (if cfg_apiCert config = [] then []
      else [projr (LoadX509KeyPair (ne_certs E) (cfg_apiCert config) (cfg_apiKey config))])"
proof -
  have "length args = 2"
    using assms by (auto simp: notifier_setup_def raiseM_def split: if_splits)
  then obtain prog conf where args: "args = [prog, conf]"
    by (auto simp: length_Suc_conv numeral_2_eq_2)
  show ?thesis
    using assms
    by (auto simp: args notifier_setup_def fatal_load_def server_trust_def client_identity_def loadCertificateFromFile_def
        zero_transport_def bindM_def raiseM_def returnM_def split: prod.splits option.splits sum.splits if_splits)
qed

lemma notifier_main_start:
  assumes "notifier_main E smtp args resps u = (Inr r, u')"
  obtains ns u1 where "notifier_setup E args u = (Inr ns, u1)" and "r = fold (main_round smtp [ns_email ns]) resps (\<lambda>_. None, [])"
  using assms by (auto simp: notifier_main_def bindM_def returnM_def split: prod.splits sum.splits)

text \<open>The addresses of a contacts file.\<close>

definition email_entries :: "ini_file \<Rightarrow> string list" where
  "email_entries sections = [val. (name, entries) \<leftarrow> sections, (key, val) \<leftarrow> entries, key = ''email'']"

lemma Parse_addresses: "Parse (Inr sections) = Inr contacts \<Longrightarrow> map Contact_Address contacts = email_entries sections"
  by (auto simp: Parse_def email_entries_def map_concat comp_def case_prod_unfold if_distrib [of "map Contact_Address"] cong: if_cong)

lemma mails_for_addresses: "map fst (mails_for n p) = map Contact_Address (Email_Contacts n)"
  by (simp add: mails_for_def comp_def)

text \<open>C39: a notifier that starts has read a complete configuration and a contacts file, and then, as long
  as the mail server accepts every mail, the addresses mailed over any number of rounds are, for each problem in
  each round in which it appears, exactly the \<open>email\<close> entries of the contacts file.\<close>

theorem notifier_delivers:
  assumes "notifier_main E smtp args resps () = (Inr (seen, sent), u)" and "\<And>sent mail. smtp sent mail = None"
  shows "\<exists>program file config sections (rounds :: notified_problem list list). args = [program, file] \<and> ParseConfig (ne_ini E file) = (config, None) \<and>
    ne_ini E (cfg_contactsFile config) = Inr sections \<and>
    map fst sent = concat (map (\<lambda>p. email_entries sections) (concat rounds)) \<and>
    map (\<lambda>new. np_Id ` set new) rounds = onsets {} (map ids_of resps) \<and>
    list_all (\<lambda>new. distinct (map np_Id new)) rounds"
proof -
  obtain ns u1 where start: "notifier_setup E args () = (Inr ns, u1)"
    and main: "(seen, sent) = fold (main_round smtp [ns_email ns]) resps (\<lambda>_. None, [])"
    by (rule notifier_main_start [OF assms(1)])
  obtain prog conf config contacts where config: "args = [prog, conf]" "ParseConfig (ne_ini E conf) = (config, None)"
    "Parse (ne_ini E (cfg_contactsFile config)) = Inr contacts" "Email_Contacts (ns_email ns) = contacts"
    using notifier_setup_result [OF start] by auto
  obtain sections where sections: "ne_ini E (cfg_contactsFile config) = Inr sections"
    using config(3) by (cases "ne_ini E (cfg_contactsFile config)") (auto simp: Parse_def)
  have addresses: "map Contact_Address (Email_Contacts (ns_email ns)) = email_entries sections"
    using Parse_addresses [of sections contacts] config(3,4) sections by simp
  have sent: "sent = concat (map (mails_for (ns_email ns)) (concat (poll resps (\<lambda>_. None))))"
    using arg_cong [OF main, of snd] by (simp add: main_rounds_poll [OF assms(2)])
  have "map fst sent = concat (map (\<lambda>p. email_entries sections) (concat (poll resps (\<lambda>_. None))))"
    by (simp add: sent map_concat comp_def mails_for_addresses addresses)
  then have *: "args = [prog, conf] \<and> ParseConfig (ne_ini E conf) = (config, None) \<and>
    ne_ini E (cfg_contactsFile config) = Inr sections \<and>
    map fst sent = concat (map (\<lambda>p. email_entries sections) (concat (poll resps (\<lambda>_. None)))) \<and>
    map (\<lambda>new. np_Id ` set new) (poll resps (\<lambda>_. None)) = onsets {} (map ids_of resps) \<and>
    list_all (\<lambda>new. distinct (map np_Id new)) (poll resps (\<lambda>_. None))"
    using config(1,2) sections poll_onsets [of resps "\<lambda>_. None"] poll_distinct [of resps "\<lambda>_. None"] by simp
  show ?thesis
    by (rule exI [where x = prog], rule exI [where x = conf], rule exI [where x = config], rule exI [where x = sections],
        rule exI [where x = "poll resps (\<lambda>_. None)"], rule *)
qed

definition example_notifier_env :: notifier_env where
  "example_notifier_env = \<lparr>ne_ini = \<lambda>file. if file = ''notifier.ini''
       then Inr [(''notifier'', [(''api_host'', ''https://mamid''), (''contacts'', ''contacts.ini''), (''api_cert'', ''cert''),
           (''api_key'', ''key'')]), (''smtp'', [(''mail_from'', ''mamid@example.org''), (''relay_host'', ''mail:25'')])]
       else Inr [(''ops'', [(''email'', ''ops@example.org'')]), (''dev'', [(''email'', ''dev@example.org'')])],
     ne_certs = example_certificates, ne_show = \<lambda>err. err\<rparr>"

lemma example_notifier_setup:
  "\<exists>ns. notifier_setup example_notifier_env [''notifier'', ''notifier.ini''] () = (Inr ns, ()) \<and>
    Certificates (ns_transport ns) = [''cert'']"
  by (simp add: notifier_setup_def ParseConfig_def zeroConfig_def val_of_def Parse_def server_trust_def client_identity_def
      example_notifier_env_def example_certificates_def bindM_def returnM_def zero_transport_def Let_def)

theorem notifier_delivers_witness:
  "\<exists>seen sent. notifier_main example_notifier_env (\<lambda>_ _. None) [''notifier'', ''notifier.ini'']
      [Inr (200, Inr [example_np])] () = (Inr (seen, sent), ()) \<and>
    set (map fst sent) \<subseteq> {''ops@example.org'', ''dev@example.org''}"
proof -
  obtain ns where "notifier_setup example_notifier_env [''notifier'', ''notifier.ini''] () = (Inr ns, ())"
    using example_notifier_setup by blast
  then obtain seen sent where main: "notifier_main example_notifier_env (\<lambda>_ _. None) [''notifier'', ''notifier.ini'']
      [Inr (200, Inr [example_np])] () = (Inr (seen, sent), ())"
    by (simp add: notifier_main_def bindM_def returnM_def) (metis surj_pair)
  have contacts: "email_entries sections = [''ops@example.org'', ''dev@example.org'']"
    if "ParseConfig (ne_ini example_notifier_env ''notifier.ini'') = (config, None)"
      "ne_ini example_notifier_env (cfg_contactsFile config) = Inr sections" for config sections
    using that by (auto simp: example_notifier_env_def ParseConfig_def zeroConfig_def val_of_def Let_def email_entries_def)
  obtain prog conf config sections rounds where args: "[''notifier'', ''notifier.ini''] = [prog, conf]"
    and conf: "ParseConfig (ne_ini example_notifier_env conf) = (config, None)"
      "ne_ini example_notifier_env (cfg_contactsFile config) = Inr sections"
    and sent: "map fst sent = concat (map (\<lambda>p. email_entries sections) (concat (rounds :: notified_problem list list)))"
    using notifier_delivers [OF main refl] by (elim exE conjE) (rule that, assumption+)
  then have "map fst sent = concat (map (\<lambda>p. [''ops@example.org'', ''dev@example.org'']) (concat rounds))"
    using contacts [of config sections] args by simp
  then have "set (map fst sent) \<subseteq> {''ops@example.org'', ''dev@example.org''}"
    by (simp only: set_concat) auto
  with main show ?thesis
    by blast
qed

end
