(* ===== verification/Schema.thy ===== *)
theory Schema
  imports AllocRun
begin

text \<open>
  The constraints of the schema beside the foreign keys: serial primary keys, unique names and the domain of
  sharding roles; and what a consistent set of tables is, inside a transaction and between transactions.  The
  model's statements check the names, as the unique indices do; that the other constraints never refuse a statement
  of the master is shown here and in the theories that build on this one.
\<close>

section \<open>Constraints\<close>

definition serial :: "('r \<Rightarrow> ID) \<Rightarrow> 'r list \<Rightarrow> bool" where
  "serial key rows \<longleftrightarrow> distinct (map key rows) \<and> (\<forall>r \<in> set rows. 0 < key r)"

definition ids_ok :: "DB \<Rightarrow> bool" where
  "ids_ok db \<longleftrightarrow> serial RiskGroup_ID (risk_groups db) \<and> serial ReplicaSet_ID (replica_sets db) \<and>
     serial MSPError_ID (msp_errors db) \<and> serial Slave_ID (slaves db) \<and> serial State_ID (mongod_states db) \<and>
     serial Mongod_ID (mongods db) \<and> serial Problem_ID (problems db)"

definition names_ok :: "DB \<Rightarrow> bool" where
  "names_ok db \<longleftrightarrow> distinct (map RiskGroup_Name (risk_groups db)) \<and> distinct (map ReplicaSet_Name (replica_sets db)) \<and>
     distinct (map Slave_Hostname (slaves db))"

definition sharding_role :: "ShardingRole \<Rightarrow> bool" where
  "sharding_role role \<longleftrightarrow> role \<in> {ShardingRoleNone, ShardingRoleShardServer, ShardingRoleConfigServer}"

definition roles_ok :: "DB \<Rightarrow> bool" where
  "roles_ok db \<longleftrightarrow> (\<forall>r \<in> set (replica_sets db). sharding_role (ReplicaSet_ShardingRole r)) \<and>
     (\<forall>st \<in> set (mongod_states db). sharding_role (State_ShardingRole st))"

definition constraints_ok :: "DB \<Rightarrow> bool" where
  "constraints_ok db \<longleftrightarrow> ids_ok db \<and> names_ok db \<and> roles_ok db"

text \<open>The states of a Mongod are its own.  Inside a transaction the foreign keys are not yet checked.\<close>

definition states_owned :: "DB \<Rightarrow> Mongod \<Rightarrow> bool" where
  "states_owned db m \<longleftrightarrow> owns_state db m (Mongod_DesiredStateID m) \<and>
     (case Mongod_ObservedStateID m of None \<Rightarrow> True | Some i \<Rightarrow> i \<noteq> Mongod_DesiredStateID m \<and> owns_state db m i)"

definition tx_ok :: "DB \<Rightarrow> bool" where
  "tx_ok db \<longleftrightarrow> constraints_ok db \<and> (\<forall>m \<in> set (mongods db). states_owned db m)"

definition cluster_ok :: "DB \<Rightarrow> bool" where
  "cluster_ok db \<longleftrightarrow> tx_ok db \<and> foreign_keys_ok db"

lemma owns_state_columns [simp]:
  "owns_state db (m\<lparr>Mongod_ObservationErrorID := e\<rparr>) i = owns_state db m i"
  "owns_state db (m\<lparr>Mongod_ObservedStateID := r\<rparr>) i = owns_state db m i"
  "owns_state db (m\<lparr>Mongod_DesiredStateID := j\<rparr>) i = owns_state db m i"
  by (simp_all add: owns_state_def split: option.split)

lemma refers_lookup: "refers (Some i) (map key rows) \<longleftrightarrow> find_row key i rows \<noteq> None"
  by (auto simp: find_row_None_iff)

lemma cluster_ok_wf:
  assumes "cluster_ok db"
  shows "db_wf db"
proof -
  have "mongod_ok db m" if "m \<in> set (mongods db)" for m
  proof -
    have "mongod_keys_ok db m" and "states_owned db m"
      using assms that by (auto simp: cluster_ok_def tx_ok_def foreign_keys_ok_def)
    then show ?thesis
      by (auto simp: mongod_ok_def states_owned_def mongod_keys_ok_def refers_lookup simp del: refers_Some split: option.splits)
  qed
  then show ?thesis
    using assms by (auto simp: db_wf_def keys_ok_def cluster_ok_def tx_ok_def constraints_ok_def ids_ok_def serial_def)
qed

lemma wf_tx_ok: "db_wf db \<Longrightarrow> constraints_ok db \<Longrightarrow> tx_ok db"
  by (auto simp: tx_ok_def states_owned_def dest!: db_wf_mongod_ok split: option.splits)
    (auto simp: mongod_ok_def)

lemma empty_cluster_ok: "cluster_ok empty_DB"
  by (simp add: cluster_ok_def tx_ok_def constraints_ok_def ids_ok_def names_ok_def roles_ok_def serial_def empty_DB_def
      foreign_keys_ok_def)

section \<open>Rows added, changed and removed\<close>

lemma serial_append: "serial key rows \<Longrightarrow> 0 < key r \<Longrightarrow> key r \<notin> key ` set rows \<Longrightarrow> serial key (rows @ [r])"
  by (auto simp: serial_def)

lemma serial_filter: "serial key rows \<Longrightarrow> serial key (filter P rows)"
  by (auto simp: serial_def distinct_map_filter_key)

lemma serial_keys: "map key rows' = map key rows \<Longrightarrow> serial key rows' = serial key rows"
  by (metis (no_types) serial_def list.set_map imageE imageI)

lemma serial_map: "(\<And>x. key (f x) = key x) \<Longrightarrow> serial key (map f rows) = serial key rows"
  by (rule serial_keys) simp

lemma serial_new:
  assumes "dbms_ok D" and "serial key rows" and "key r = newID D n (map key rows)"
  shows "serial key (rows @ [r])"
  using assms(2) dbms_ok_newID [OF assms(1), of n "map key rows"] dbms_ok_newID_pos [OF assms(1), of n "map key rows"]
  by (intro serial_append) (simp_all add: assms(3))

text \<open>Replacing the row with a given key keeps the keys; names stay distinct if the new one is not among the
  others.\<close>

lemma distinct_replace:
  assumes "distinct (map name rows)" and "serial key rows"
    and "name r \<notin> set (map name (filter (\<lambda>q. key q \<noteq> key r) rows))"
  shows "distinct (map name (map (\<lambda>q. if key q = key r then r else q) rows))"
  using assms by (induction rows) (auto simp: serial_def image_iff split: if_splits)

section \<open>The allocator\<close>

lemma delete_mongods_constraints: "constraints_ok db \<Longrightarrow> constraints_ok (delete_mongods ids db)"
proof -
  assume "constraints_ok db"
  moreover have "serial Mongod_ID (map (\<lambda>m. case Mongod_ObservedStateID m of None \<Rightarrow> m
      | Some i \<Rightarrow> if i \<in> X then m\<lparr>Mongod_ObservedStateID := None\<rparr> else m) ms) = serial Mongod_ID ms" for X and ms :: "Mongod list"
    by (rule serial_map) (simp split: option.split)
  ultimately show ?thesis
    by (auto simp: constraints_ok_def ids_ok_def names_ok_def roles_ok_def delete_mongods_def Let_def serial_filter)
qed

lemma set_exec_constraints: "constraints_ok db \<Longrightarrow> constraints_ok (set_exec c e db)"
proof -
  assume "constraints_ok db"
  moreover have "serial State_ID (map (\<lambda>st. if c st then st\<lparr>State_ExecutionState := e\<rparr> else st) sts) = serial State_ID sts" for sts :: "MongodStateRow list"
    by (rule serial_map) simp
  ultimately show ?thesis
    by (auto simp: constraints_ok_def ids_ok_def names_ok_def roles_ok_def set_exec_def)
qed

lemma spawn_constraints:
  assumes "constraints_ok db" and "fresh_ids mid stid db" and "r \<in> set (replica_sets db)"
  shows "constraints_ok (spawn_db mid stid port s r db)"
  using assms by (auto simp: constraints_ok_def ids_ok_def names_ok_def roles_ok_def spawn_db_def fresh_ids_def new_state_def
      intro!: serial_append)

lemma alloc_step_constraints: "alloc_step db db' \<Longrightarrow> constraints_ok db \<Longrightarrow> constraints_ok db'"
  by (auto elim!: alloc_step.cases mark_step.cases spawn_step.cases
      simp: mark_orphaned_eq set_exec_constraints mark_db_def spawn_constraints remove_destroyed_def delete_mongods_constraints)

lemma alloc_steps_constraints: "alloc_step\<^sup>*\<^sup>* db db' \<Longrightarrow> constraints_ok db \<Longrightarrow> constraints_ok db'"
  by (induction rule: rtranclp_induct) (auto intro: alloc_step_constraints)

section \<open>Statements\<close>

text \<open>What a computation that returns has kept.\<close>

definition maintains :: "(DB \<Rightarrow> bool) \<Rightarrow> 'a action \<Rightarrow> bool" where
  "maintains I m \<longleftrightarrow> (\<forall>s. I (txDB s) \<longrightarrow> run m (\<lambda>_ s'. I (txDB s')) (\<lambda>_ _. True) s)"

named_theorems maintaining \<open>computations that keep a predicate on the tables\<close>

lemma maintains_run: "maintains I m \<Longrightarrow> I (txDB s) \<Longrightarrow> run m (\<lambda>_ s'. I (txDB s')) (\<lambda>_ _. True) s"
  by (simp add: maintains_def)

lemma maintains_stmt:
  assumes "\<And>n db x db'. I db \<Longrightarrow> f n db = Inr (x, db') \<Longrightarrow> I db'"
  shows "maintains I (sql_stmt D f)"
  unfolding maintains_def by (intro allI impI run_sql_stmt) (auto intro: assms)

lemma maintains_query [maintaining]: "maintains I (sql_query D q)"
  unfolding sql_query_def by (rule maintains_stmt) simp

lemma maintains_exec: "(\<And>db. I db \<Longrightarrow> I (u db)) \<Longrightarrow> maintains I (sql_exec D u)"
  unfolding sql_exec_def by (rule maintains_stmt) auto

text \<open>A statement that fails changes nothing.\<close>

lemma maintains_attempt_exec: "(\<And>db. I db \<Longrightarrow> I (u db)) \<Longrightarrow> maintains I (attempt (sql_exec D u))"
  unfolding maintains_def run_attempt by (intro allI impI run_exec_any) auto

lemma maintains_basic [maintaining]: "maintains I (returnM x)" "maintains I (raiseM f)" "maintains I (send msg)"
  by (simp_all add: maintains_def run_simps)

lemma maintains_bind [maintaining]:
  assumes "maintains I m" and "\<And>x. maintains I (f x)"
  shows "maintains I (bindM m f)"
  unfolding maintains_def run_bindM
  by (intro allI impI run_mono [OF maintains_run [OF assms(1)]]) (simp_all add: maintains_run [OF assms(2)])

lemma maintains_wrapErr [maintaining]: "maintains I m \<Longrightarrow> maintains I (wrapErr show_err pre m)"
  by (simp add: maintains_def run_wrapErr_any)

lemma maintains_if [maintaining]: "maintains I m \<Longrightarrow> maintains I m' \<Longrightarrow> maintains I (if b then m else m')"
  by simp

lemma maintains_case_option [maintaining]:
  "maintains I m \<Longrightarrow> (\<And>x. maintains I (f x)) \<Longrightarrow> maintains I (case r of None \<Rightarrow> m | Some x \<Rightarrow> f x)"
  by (cases r) simp_all

lemma maintains_Let [maintaining]: "maintains I (f x) \<Longrightarrow> maintains I (Let x f)"
  by simp

lemma maintains_forM [maintaining]: "(\<And>x. maintains I (f x)) \<Longrightarrow> maintains I (forM xs f)"
  by (induction xs) (simp_all add: maintaining)

lemma maintains_foldM [maintaining]: "(\<And>x a. maintains I (f x a)) \<Longrightarrow> maintains I (foldM f xs a)"
  by (induction xs arbitrary: a) (simp_all add: maintaining)

section \<open>Tables inside a transaction\<close>

lemma tx_ok_ids:
  assumes "tx_ok db"
  shows "serial MSPError_ID (msp_errors db)" and "serial Slave_ID (slaves db)" and "serial State_ID (mongod_states db)"
    and "serial Mongod_ID (mongods db)" and "serial Problem_ID (problems db)"
  using assms by (simp_all add: tx_ok_def constraints_ok_def ids_ok_def)

lemma states_owned_same:
  "mongod_states db' = mongod_states db \<Longrightarrow> states_owned db' m = states_owned db m"
  by (simp add: states_owned_def owns_state_def cong: option.case_cong)

lemmas tx_ok_defs = tx_ok_def constraints_ok_def ids_ok_def names_ok_def roles_ok_def

lemma tx_ok_mongods:
  assumes "tx_ok db" and "serial Mongod_ID ms" and "\<And>m. m \<in> set ms \<Longrightarrow> states_owned db m"
  shows "tx_ok (db\<lparr>mongods := ms\<rparr>)"
  using assms states_owned_same [of "db\<lparr>mongods := ms\<rparr>" db] by (simp add: tx_ok_defs)

lemma tx_ok_other_tables:
  assumes "tx_ok db"
  shows "serial MSPError_ID es \<Longrightarrow> tx_ok (db\<lparr>msp_errors := es\<rparr>)"
    and "serial Problem_ID ps \<Longrightarrow> tx_ok (db\<lparr>problems := ps\<rparr>)"
    and "map Slave_ID ss = map Slave_ID (slaves db) \<Longrightarrow> map Slave_Hostname ss = map Slave_Hostname (slaves db) \<Longrightarrow> tx_ok (db\<lparr>slaves := ss\<rparr>)"
  using assms serial_keys [of Slave_ID ss "slaves db"] states_owned_same [of "db\<lparr>msp_errors := es\<rparr>" db]
    states_owned_same [of "db\<lparr>problems := ps\<rparr>" db] states_owned_same [of "db\<lparr>slaves := ss\<rparr>" db]
  by (simp_all add: tx_ok_defs)

lemma tx_ok_replica_sets:
  assumes "tx_ok db" and "serial ReplicaSet_ID rs" and "distinct (map ReplicaSet_Name rs)"
    and "\<And>r. r \<in> set rs \<Longrightarrow> sharding_role (ReplicaSet_ShardingRole r)"
  shows "tx_ok (db\<lparr>replica_sets := rs\<rparr>)"
  using assms states_owned_same [of "db\<lparr>replica_sets := rs\<rparr>" db] by (simp add: tx_ok_defs)

lemma states_owned_mono:
  assumes "states_owned db m" and "\<And>i. owns_state db m i \<Longrightarrow> owns_state db' m i"
  shows "states_owned db' m"
  using assms by (auto simp: states_owned_def split: option.splits)

lemma tx_ok_states:
  assumes "tx_ok db" and "serial State_ID sts" and "\<And>st. st \<in> set sts \<Longrightarrow> sharding_role (State_ShardingRole st)"
    and "\<And>m i. owns_state db m i \<Longrightarrow> owns_state (db\<lparr>mongod_states := sts\<rparr>) m i"
  shows "tx_ok (db\<lparr>mongod_states := sts\<rparr>)"
  using assms(1-3) by (auto simp: tx_ok_defs intro: states_owned_mono assms(4))

text \<open>A state added, and a state replaced by one of the same Mongod.\<close>

lemma owns_state_append:
  "owns_state db m i \<Longrightarrow> owns_state (db\<lparr>mongod_states := mongod_states db @ [st]\<rparr>) m i"
  by (auto simp: owns_state_def find_row_append split: option.splits)

lemma owns_new_state:
  assumes "State_ID st \<notin> State_ID ` set (mongod_states db)" and "State_ParentMongodID st = Mongod_ID m"
  shows "owns_state (db\<lparr>mongod_states := mongod_states db @ [st]\<rparr>) m (State_ID st)"
    and "\<not> owns_state db x (State_ID st)"
proof -
  have "lookup_state db (State_ID st) = None"
    using assms(1) by (simp add: find_row_None_iff)
  then show "owns_state (db\<lparr>mongod_states := mongod_states db @ [st]\<rparr>) m (State_ID st)" and "\<not> owns_state db x (State_ID st)"
    using assms(2) by (simp_all add: owns_state_def find_row_append)
qed

lemma tx_ok_new_state:
  assumes "tx_ok db" and "serial State_ID (mongod_states db @ [st])" and "sharding_role (State_ShardingRole st)"
  shows "tx_ok (db\<lparr>mongod_states := mongod_states db @ [st]\<rparr>)"
  using assms by (intro tx_ok_states owns_state_append) (auto simp: tx_ok_def constraints_ok_def roles_ok_def)

lemma find_row_replace:
  "find_row key i (map (\<lambda>r. if key r = key x then x else r) rows) =
    (if i = key x \<and> find_row key i rows \<noteq> None then Some x else find_row key i rows)"
  by (induction rows) auto

lemma tx_ok_replaced_state:
  assumes "tx_ok db" and "sharding_role (State_ShardingRole st)"
    and "\<And>old. lookup_state db (State_ID st) = Some old \<Longrightarrow> State_ParentMongodID st = State_ParentMongodID old"
  shows "tx_ok (db\<lparr>mongod_states := map (\<lambda>r. if State_ID r = State_ID st then st else r) (mongod_states db)\<rparr>)" (is "tx_ok (db\<lparr>mongod_states := ?sts\<rparr>)")
proof (rule tx_ok_states [OF assms(1)])
  show "serial State_ID ?sts"
    using tx_ok_ids(3) [OF assms(1)] by (subst serial_map) auto
  show "sharding_role (State_ShardingRole r)" if "r \<in> set ?sts" for r
    using that assms(1,2) by (auto simp: tx_ok_def constraints_ok_def roles_ok_def)
  show "owns_state (db\<lparr>mongod_states := ?sts\<rparr>) m i" if "owns_state db m i" for m i
    using that assms(3) by (auto simp: owns_state_def find_row_replace split: option.splits)
qed

end
