(* ===== verification/ApiInvariant.thy ===== *)
theory ApiInvariant
  imports ApiCreate Schema
begin

text \<open>
  Every request to the API keeps the stored tables consistent, whatever the database does: each statement of a
  handler keeps the constraints of the schema and the ownership of states, the allocator it runs does too, and
  the commit checks the foreign keys.
\<close>

section \<open>Statements\<close>

text \<open>Tables a handler may hand to the allocator: references of Mongods are sound; those of slaves and
  problems are checked by the commit.\<close>

definition ready :: "DB \<Rightarrow> bool" where
  "ready db \<longleftrightarrow> db_wf db \<and> constraints_ok db"

lemma cluster_ok_ready: "cluster_ok db \<Longrightarrow> ready db"
  by (simp add: ready_def cluster_ok_wf) (simp add: cluster_ok_def tx_ok_def)

lemma ready_committed: "ready db \<Longrightarrow> foreign_keys_ok db \<Longrightarrow> cluster_ok db"
  by (simp add: ready_def cluster_ok_def wf_tx_ok)

lemma ready_ids:
  assumes "ready db"
  shows "serial RiskGroup_ID (risk_groups db)" and "serial ReplicaSet_ID (replica_sets db)" and "serial Slave_ID (slaves db)"
  using assms by (simp_all add: ready_def constraints_ok_def ids_ok_def)

lemma ready_names:
  assumes "ready db"
  shows "distinct (map RiskGroup_Name (risk_groups db))" and "distinct (map ReplicaSet_Name (replica_sets db))"
    and "distinct (map Slave_Hostname (slaves db))" and "r \<in> set (replica_sets db) \<Longrightarrow> sharding_role (ReplicaSet_ShardingRole r)"
  using assms by (simp_all add: ready_def constraints_ok_def names_ok_def roles_ok_def)

abbreviation careful :: "'a action \<Rightarrow> bool" where
  "careful \<equiv> maintains ready"

named_theorems carefully \<open>statements that keep the tables ready\<close>

lemmas careful_stmt = maintains_stmt [of ready]

lemma ready_slaves:
  assumes "ready db" and "serial Slave_ID rows" and "distinct (map Slave_Hostname rows)"
    and "Slave_ID ` set (slaves db) \<subseteq> Slave_ID ` set rows"
  shows "ready (db\<lparr>slaves := rows\<rparr>)"
proof -
  have "find_row Slave_ID i rows \<noteq> None" if "lookup_slave db i \<noteq> None" for i
    using that assms(4) by (auto simp: find_row_None_iff)
  then have "mongod_ok (db\<lparr>slaves := rows\<rparr>) m" if "mongod_ok db m" for m
    using that by (simp add: mongod_ok_def owns_state_def cong: option.case_cong)
  then show ?thesis
    using assms by (auto simp: ready_def db_wf_def keys_ok_def constraints_ok_def ids_ok_def names_ok_def roles_ok_def serial_def)
qed

lemma careful_Create_slave [carefully]: "dbms_ok D \<Longrightarrow> careful (Create_slave D s)"
  unfolding Create_slave_def
  by (rule careful_stmt)
    (auto simp: Let_def ready_ids ready_names split: if_splits intro!: ready_slaves serial_new)

lemma update_slave_ready:
  assumes "ready db" and "\<And>s. Slave_ID s = i \<Longrightarrow> Slave_ID (f s) = i"
    and "distinct (map Slave_Hostname (slaves (update_slave i f db)))"
  shows "ready (update_slave i f db)"
proof -
  have keys: "map Slave_ID (slaves (update_slave i f db)) = map Slave_ID (slaves db)"
    using assms(2) by (auto simp: update_slave_def)
  have serial: "serial Slave_ID (slaves (update_slave i f db))"
    unfolding serial_keys [OF keys] by (rule ready_ids [OF assms(1)])
  have "Slave_ID ` set (slaves db) \<subseteq> Slave_ID ` set (slaves (update_slave i f db))"
    using keys by (metis list.set_map order_refl)
  then have "ready (db\<lparr>slaves := slaves (update_slave i f db)\<rparr>)"
    by (rule ready_slaves [OF assms(1) serial assms(3)])
  then show ?thesis
    by (simp add: update_slave_def)
qed

lemma careful_Save_slave [carefully]: "careful (Save_slave D s)"
  unfolding Save_slave_def
proof (rule careful_stmt)
  fix n x and db db' :: DB assume db: "ready db"
    and ok: "(if 255 < length (Slave_Hostname s) then Inl value_too_long
      else if Slave_Hostname s \<in> set (map Slave_Hostname (filter (\<lambda>q. Slave_ID q \<noteq> Slave_ID s) (slaves db)))
      then Inl (IntegrityConstraintViolation ''slaves_hostname_key'')
      else Inr ((), update_slave (Slave_ID s) (\<lambda>_. s) db)) = Inr (x, db')"
  then have db': "db' = update_slave (Slave_ID s) (\<lambda>_. s) db"
    and name: "Slave_Hostname s \<notin> set (map Slave_Hostname (filter (\<lambda>q. Slave_ID q \<noteq> Slave_ID s) (slaves db)))"
    by (auto split: if_splits)
  have "distinct (map Slave_Hostname (slaves db'))"
    using distinct_replace [OF ready_names(3) [OF db] ready_ids(3) [OF db] name]
    by (simp add: db' update_slave_def del: map_map)
  with db show "ready db'"
    unfolding db' by (intro update_slave_ready) simp_all
qed

lemma careful_set_risk_group [carefully]: "careful (sql_exec D (set_risk_group i g))"
  unfolding sql_exec_def set_risk_group_def
proof (rule careful_stmt)
  fix n x and db db' :: DB assume db: "ready db" and "(Inr ((), update_slave i (Slave_RiskGroupID_update (\<lambda>_. g)) db) :: DBError + _) = Inr (x, db')"
  then have db': "db' = update_slave i (Slave_RiskGroupID_update (\<lambda>_. g)) db" by simp
  have "map Slave_Hostname (slaves db') = map Slave_Hostname (slaves db)"
    by (auto simp: db' update_slave_def)
  then show "ready db'"
    using db ready_names(3) [OF db] unfolding db' by (intro update_slave_ready) simp_all
qed

lemma delete_slave_ready:
  assumes "ready db"
  shows "ready (delete_slave i db)"
proof -
  let ?gone = "map Slave_ID (filter (\<lambda>s. i = 0 \<or> Slave_ID s = i) (slaves db))"
  let ?ids = "map Mongod_ID (filter (\<lambda>m. Mongod_ParentSlaveID m \<in> set ?gone) (mongods db))"
  let ?db1 = "delete_mongods ?ids db" and ?db = "delete_slave i db"
  have wf: "db_wf db" and ids: "set ?ids \<subseteq> Mongod_ID ` set (mongods db)"
    using assms by (auto simp: ready_def)
  have wf1: "db_wf ?db1"
    by (rule delete_mongods_db_wf [OF wf ids])
  have same: "slaves ?db1 = slaves db"
    by (simp add: delete_mongods_def Let_def)
  have db: "slaves ?db = filter (\<lambda>s. Slave_ID s \<notin> set ?gone) (slaves db)" "mongods ?db = mongods ?db1"
    "mongod_states ?db = mongod_states ?db1" "replica_sets ?db = replica_sets ?db1"
    "problems ?db = filter (\<lambda>p. case Problem_SlaveID p of None \<Rightarrow> True | Some j \<Rightarrow> j \<notin> set ?gone) (problems ?db1)"
    "risk_groups ?db = risk_groups ?db1" "msp_errors ?db = msp_errors ?db1"
    unfolding delete_slave_def Let_def by (simp_all add: same del: set_map set_filter)
  have "mongod_ok ?db m" if m: "m \<in> set (mongods ?db1)" for m
  proof -
    have eq: "mongods ?db1 = filter (\<lambda>m. Mongod_ID m \<notin> set ?ids) (mongods db)"
      by (simp only: delete_mongods_wf [OF wf ids]) simp
    have "Mongod_ID m \<notin> set ?ids \<and> m \<in> set (mongods db)"
      using m unfolding eq set_filter by blast
    then have "Mongod_ParentSlaveID m \<notin> set ?gone"
      by auto
    then have "lookup_slave ?db (Mongod_ParentSlaveID m) = lookup_slave ?db1 (Mongod_ParentSlaveID m)"
      by (auto simp: db same find_row_filter [OF db_wf_keys(1) [OF wf]] simp del: set_map set_filter split: option.split dest: find_row_key)
    then show ?thesis
      using db_wf_mongod_ok [OF wf1 m] by (simp add: mongod_ok_def owns_state_def db cong: option.case_cong)
  qed
  moreover have "keys_ok ?db"
    using wf1 by (simp add: db_wf_def keys_ok_def db same distinct_map_filter_key del: set_map set_filter)
  moreover have "constraints_ok ?db"
  proof -
    have "constraints_ok ?db1"
      using assms by (intro delete_mongods_constraints) (simp add: ready_def)
    then show ?thesis
      unfolding constraints_ok_def ids_ok_def names_ok_def roles_ok_def db same by (intro conjI serial_filter distinct_map_filter_key) blast+
  qed
  ultimately show ?thesis
    by (simp add: ready_def db_wf_def db)
qed

lemma careful_Delete_slave [carefully]: "careful (Delete_slave D i)"
  unfolding Delete_slave_def by (rule careful_stmt) (auto intro: delete_slave_ready)

lemma replica_set_row_error_None:
  "replica_set_row_error r others = None \<Longrightarrow> ReplicaSet_Name r \<notin> set (map ReplicaSet_Name others)"
  by (auto simp: replica_set_row_error_def split: if_splits)

lemma ready_replica_sets:
  assumes "ready db" and "serial ReplicaSet_ID rows" and "distinct (map ReplicaSet_Name rows)"
    and "ReplicaSet_ID ` set (replica_sets db) \<subseteq> ReplicaSet_ID ` set rows"
    and "\<forall>r \<in> set rows. sharding_role (ReplicaSet_ShardingRole r)"
  shows "ready (db\<lparr>replica_sets := rows\<rparr>)"
proof -
  have "find_row ReplicaSet_ID i rows \<noteq> None" if "lookup_replica_set db i \<noteq> None" for i
    using that assms(4) by (auto simp: find_row_None_iff)
  then have "mongod_ok (db\<lparr>replica_sets := rows\<rparr>) m" if "mongod_ok db m" for m
    using that by (auto simp: mongod_ok_def owns_state_def split: option.splits)
  then show ?thesis
    using assms by (auto simp: ready_def db_wf_def keys_ok_def constraints_ok_def ids_ok_def names_ok_def roles_ok_def serial_def)
qed

lemma careful_Create_replica_set [carefully]:
  assumes "dbms_ok D" and "sharding_role (ReplicaSet_ShardingRole r)"
  shows "careful (Create_replica_set D r)"
  unfolding Create_replica_set_def
proof (rule careful_stmt)
  fix n x and db db' :: DB
  let ?r = "r\<lparr>ReplicaSet_ID := newID D n (map ReplicaSet_ID (replica_sets db))\<rparr>"
  assume "ready db" and ok: "(case replica_set_row_error r (replica_sets db) of Some e \<Rightarrow> Inl e
    | None \<Rightarrow> let r' = ?r in Inr (r', db\<lparr>replica_sets := replica_sets db @ [r']\<rparr>)) = Inr (x, db')"
  moreover have "serial ReplicaSet_ID (replica_sets db @ [?r])"
    using \<open>ready db\<close> by (intro serial_new [OF assms(1)]) (simp_all add: ready_def constraints_ok_def ids_ok_def)
  ultimately show "ready db'"
    using assms(2) ready_replica_sets [of db "replica_sets db @ [?r]"] replica_set_row_error_None [of r "replica_sets db"]
    by (auto simp: ready_def constraints_ok_def names_ok_def roles_ok_def Let_def split: option.splits)
qed

lemma careful_Save_replica_set [carefully]:
  assumes "sharding_role (ReplicaSet_ShardingRole r)"
  shows "careful (Save_replica_set D r)"
  unfolding Save_replica_set_def
proof (rule careful_stmt)
  fix n x and db db' :: DB
  let ?rows = "map (\<lambda>q. if ReplicaSet_ID q = ReplicaSet_ID r then r else q) (replica_sets db)"
  assume db: "ready db" and ok: "(case replica_set_row_error r (filter (\<lambda>q. ReplicaSet_ID q \<noteq> ReplicaSet_ID r) (replica_sets db)) of
      Some e \<Rightarrow> Inl e | None \<Rightarrow> Inr ((), db\<lparr>replica_sets := ?rows\<rparr>)) = Inr (x, db')"
  have keys: "map ReplicaSet_ID ?rows = map ReplicaSet_ID (replica_sets db)"
    by auto
  have rows: "serial ReplicaSet_ID (replica_sets db)" "distinct (map ReplicaSet_Name (replica_sets db))"
    "\<forall>q \<in> set (replica_sets db). sharding_role (ReplicaSet_ShardingRole q)"
    using db by (simp_all add: ready_def constraints_ok_def ids_ok_def names_ok_def roles_ok_def)
  have db': "db' = db\<lparr>replica_sets := ?rows\<rparr>" and name: "ReplicaSet_Name r \<notin>
      set (map ReplicaSet_Name (filter (\<lambda>q. ReplicaSet_ID q \<noteq> ReplicaSet_ID r) (replica_sets db)))"
    using ok by (auto dest: replica_set_row_error_None split: option.splits)
  have "ReplicaSet_ID ` set (replica_sets db) \<subseteq> ReplicaSet_ID ` set ?rows"
    using arg_cong [OF keys, of set] unfolding list.set_map by blast
  then show "ready db'"
    unfolding db' using serial_keys [OF keys] rows assms distinct_replace [OF rows(2,1) name] db
    by (intro ready_replica_sets) auto
qed

lemma careful_Delete_replica_set [carefully]: "careful (Delete_replica_set D i)"
  unfolding Delete_replica_set_def
proof (rule careful_stmt)
  fix n x and db db' :: DB assume db: "ready db"
    and "Inr (length (selected_replica_sets i db), delete_replica_set i db) = (Inr (x, db') :: DBError + _)"
  then have db': "db' = delete_replica_set i db" by simp
  have "constraints_ok (delete_replica_set i db)"
    using db by (auto simp: ready_def constraints_ok_def ids_ok_def names_ok_def roles_ok_def delete_replica_set_rows
        delete_replica_set_problems delete_replica_set_mongods serial_filter serial_map distinct_map_filter_key)
  then show "ready db'"
    using db by (simp add: db' ready_def delete_replica_set_wf)
qed

lemma ready_risk_groups:
  "ready db \<Longrightarrow> serial RiskGroup_ID rows \<Longrightarrow> distinct (map RiskGroup_Name rows) \<Longrightarrow> ready (db\<lparr>risk_groups := rows\<rparr>)"
  by (simp add: ready_def db_wf_def keys_ok_def mongod_ok_def owns_state_def constraints_ok_def ids_ok_def names_ok_def roles_ok_def
      cong: option.case_cong)

lemma risk_group_row_error_None:
  "risk_group_row_error r others = None \<Longrightarrow> RiskGroup_Name r \<notin> set (map RiskGroup_Name others)"
  by (auto simp: risk_group_row_error_def split: if_splits)

lemma careful_Create_risk_group [carefully]:
  assumes "dbms_ok D"
  shows "careful (Create_risk_group D r)"
  unfolding Create_risk_group_def
  by (rule careful_stmt)
    (use risk_group_row_error_None in \<open>fastforce simp: ready_names ready_ids Let_def intro!: ready_risk_groups serial_new [OF assms]
      split: option.splits\<close>)

lemma careful_Save_risk_group [carefully]: "careful (Save_risk_group D r)"
  unfolding Save_risk_group_def
proof (rule careful_stmt)
  fix n x and db db' :: DB
  let ?rows = "map (\<lambda>q. if RiskGroup_ID q = RiskGroup_ID r then r else q) (risk_groups db)"
  assume db: "ready db" and ok: "(case risk_group_row_error r (filter (\<lambda>q. RiskGroup_ID q \<noteq> RiskGroup_ID r) (risk_groups db)) of
      Some e \<Rightarrow> Inl e | None \<Rightarrow> Inr ((), db\<lparr>risk_groups := ?rows\<rparr>)) = Inr (x, db')"
  have keys: "map RiskGroup_ID ?rows = map RiskGroup_ID (risk_groups db)"
    by auto
  have rows: "serial RiskGroup_ID (risk_groups db)" "distinct (map RiskGroup_Name (risk_groups db))"
    using db by (simp_all add: ready_def constraints_ok_def ids_ok_def names_ok_def)
  have "db' = db\<lparr>risk_groups := ?rows\<rparr>" and name: "RiskGroup_Name r \<notin>
      set (map RiskGroup_Name (filter (\<lambda>q. RiskGroup_ID q \<noteq> RiskGroup_ID r) (risk_groups db)))"
    using ok by (auto dest: risk_group_row_error_None split: option.splits)
  then show "ready db'"
    using serial_keys [OF keys] rows distinct_replace [OF rows(2,1) name] db by (simp add: ready_risk_groups)
qed

lemma careful_Delete_risk_group [carefully]: "careful (Delete_risk_group D i)"
  unfolding Delete_risk_group_def
  by (rule careful_stmt)
    (auto simp: ready_ids ready_names serial_filter distinct_map_filter_key intro!: ready_risk_groups)

section \<open>Handlers\<close>

text \<open>A handler that answers has left the tables as they were, or committed consistent ones.\<close>

definition settles :: "DB \<Rightarrow> handler \<Rightarrow> tx \<Rightarrow> bool" where
  "settles db0 h s \<longleftrightarrow> run h (\<lambda>_ s'. txDB s' = db0 \<or> cluster_ok (txDB s')) (\<lambda>_ _. True) s"

named_theorems settling \<open>handlers that end with consistent tables\<close>

lemma settles_returnM: "txDB s = db0 \<or> cluster_ok (txDB s) \<Longrightarrow> settles db0 (returnM ws) s"
  by (simp add: settles_def run_simps)

lemma settles_raiseM [settling]: "settles db0 (raiseM f) s"
  by (simp add: settles_def run_simps)

lemma settles_rollback_with [settling]: "settles db0 (rollback_with db0 ws) s"
  by (simp add: settles_def rollback_with_def run_simps)

lemma settles_refuse [settling]: "settles db0 (refuse show_err db0 e) s"
  by (simp add: refuse_def settling)

lemma settles_in_tx: "txDB s = db0 \<Longrightarrow> settles db0 (f db0) s \<Longrightarrow> settles db0 (in_tx f) s"
  by (simp add: settles_def in_tx_def run_simps)

lemma settles_if [settling]: "(b \<Longrightarrow> settles db0 m s) \<Longrightarrow> (\<not> b \<Longrightarrow> settles db0 m' s) \<Longrightarrow> settles db0 (if b then m else m') s"
  by simp

lemma settles_Let [settling]: "settles db0 (f a) s \<Longrightarrow> settles db0 (Let a f) s"
  by simp

lemma settles_case_option [settling]:
  "settles db0 m s \<Longrightarrow> (\<And>x. r = Some x \<Longrightarrow> settles db0 (f x) s) \<Longrightarrow> settles db0 (case r of None \<Rightarrow> m | Some x \<Rightarrow> f x) s"
  by (cases r) simp_all

lemma settles_case_sum [settling]:
  "(\<And>x. settles db0 (f x) s) \<Longrightarrow> (\<And>x. r = Inr x \<Longrightarrow> settles db0 (g x) s) \<Longrightarrow> settles db0 (case r of Inl x \<Rightarrow> f x | Inr x \<Rightarrow> g x) s"
  by (cases r) simp_all

lemma settles_case_prod [settling]: "(\<And>x y. settles db0 (f x y) s) \<Longrightarrow> settles db0 (case r of (x, y) \<Rightarrow> f x y) s"
  by (cases r) simp

lemma settles_reads:
  assumes "reads_only m" and "\<And>e s'. settles db0 (h e) s'" and "\<And>x s'. txDB s' = txDB s \<Longrightarrow> settles db0 (k x) s'"
  shows "settles db0 (onError m h k) s"
  unfolding settles_def by (rule run_onError_reads) (use assms in \<open>auto simp: settles_def\<close>)

lemma settles_careful:
  assumes "careful m" and "ready (txDB s)"
    and "\<And>e s'. settles db0 (h e) s'" and "\<And>x s'. ready (txDB s') \<Longrightarrow> settles db0 (k x) s'"
  shows "settles db0 (onError m h k) s"
proof -
  have "run m (\<lambda>_ s'. ready (txDB s')) (\<lambda>_ _. True) s"
    by (rule maintains_run [OF assms(1,2)])
  then show ?thesis
    unfolding settles_def onError_def run_bindM run_attempt
    by (rule run_mono) (use assms(3,4) in \<open>auto simp: settles_def split: failure.split\<close>)
qed

lemma run_attemptCommit_ready:
  assumes "broken = None \<Longrightarrow> ready (txDB s)"
  shows "run (attemptCommit D show_err db0 broken) (\<lambda>_ s'. txDB s' = db0 \<or> cluster_ok (txDB s')) (\<lambda>_ _. True) s"
proof (cases broken)
  case None
  then show ?thesis
    using assms unfolding attemptCommit_def onError_def run_bindM run_attempt
    by (auto simp: run_simps intro!: run_commit ready_committed)
next
  case (Some e)
  then show ?thesis
    by (simp add: attemptCommit_def onError_def run_attempt run_simps)
qed

lemma run_allocator_ready:
  assumes "dbms_ok D" and "broken = None \<Longrightarrow> ready (txDB s)"
  shows "run (attemptClusterAllocator D show_err hasBus db0 broken)
    (\<lambda>(_, err, broken') s'. err = None \<and> (broken' = None \<longrightarrow> ready (txDB s'))) (\<lambda>_ _. True) s"
proof (cases broken)
  case None
  then have "db_wf (txDB s)" and "constraints_ok (txDB s)"
    using assms(2) by (simp_all add: ready_def)
  moreover from this have "run (CompileMongodLayout D hasBus) (\<lambda>_. layout_post D hasBus s) (tolerated False) s"
    by (intro run_CompileMongodLayout [OF assms(1)]) simp_all
  ultimately have "run (CompileMongodLayout D hasBus) (\<lambda>_ s'. ready (txDB s')) (\<lambda>_ _. True) s"
    by (elim run_mono) (auto simp: ready_def dest!: layout_post_steps intro: alloc_steps_db_wf alloc_steps_constraints)
  then show ?thesis
    unfolding attemptClusterAllocator_def onError_def run_bindM run_attempt None option.case
    by (rule run_mono) (auto simp: run_simps split: failure.split)
next
  case (Some e)
  then show ?thesis
    by (simp add: attemptClusterAllocator_def onError_def run_attempt run_simps)
qed

lemma settles_commit:
  assumes "broken = None \<Longrightarrow> ready (txDB s)"
    and "\<And>ws s'. txDB s' = db0 \<or> cluster_ok (txDB s') \<Longrightarrow> settles db0 (f ws) s'"
  shows "settles db0 (bindM (attemptCommit D show_err db0 broken) f) s"
  unfolding settles_def run_bindM
  by (rule run_mono [OF run_attemptCommit_ready]) (use assms in \<open>auto simp: settles_def\<close>)

lemma settles_attemptCommit: "(broken = None \<Longrightarrow> ready (txDB s)) \<Longrightarrow> settles db0 (attemptCommit D show_err db0 broken) s"
  unfolding settles_def by (rule run_attemptCommit_ready)

lemma settles_allocator:
  assumes "dbms_ok D" and "b = None \<Longrightarrow> ready (txDB s)"
    and "\<And>ws broken s'. broken = None \<longrightarrow> ready (txDB s') \<Longrightarrow> settles db0 (f ws broken) s'"
  shows "settles db0 (bindM (attemptClusterAllocator D show_err hasBus db0 b) (\<lambda>(ws, err, broken).
    if err \<noteq> None then returnM ws else f ws broken)) s"
  unfolding settles_def run_bindM
  by (rule run_mono [OF run_allocator_ready [OF assms(1,2)]]) (auto intro: assms(3) [unfolded settles_def])

lemma settles_allocate_and_commit:
  "dbms_ok D \<Longrightarrow> (b = None \<Longrightarrow> ready (txDB s)) \<Longrightarrow> settles db0 (allocate_and_commit D show_err hasBus db0 b) s"
  unfolding allocate_and_commit_def by (intro settles_allocator settles_commit settles_returnM) auto

lemma reads_only_First [reading]: "reads_only (First D table key i)"
  unfolding First_def by (rule reads_only_query)

lemma reads_only_mongods_of [reading]: "reads_only (mongods_of D i)"
  unfolding mongods_of_def by (rule reads_only_query)

lemma reads_only_changeToSlaveAllowed [reading]: "reads_only (changeToSlaveAllowed D current updated)"
  unfolding changeToSlaveAllowed_def by (intro reading)

lemma reads_only_ProjectModelSlave [reading]: "reads_only (ProjectModelSlaveToSlave D m)"
  unfolding ProjectModelSlaveToSlave_def SlaveConfiguredStateTransitioning_def
  by (cases "Slave_ConfiguredState m") (simp_all only: SlaveState.case reading)

lemma reads_only_project_slave_in [reading]: "reads_only (project_slave_in D broken m)"
  unfolding project_slave_in_def by (intro reading)

lemma settles_project_replica_set:
  assumes "\<And>out. settles db0 (returnM (f out)) s"
  shows "settles db0 (bindM (project_replica_set r) (\<lambda>out. returnM (f out))) s"
  using assms by (cases "ProjectModelReplicaSetToReplicaSet r") (simp_all add: settles_def project_replica_set_def run_simps)

lemma projected_role:
  assumes "ProjectReplicaSetToModelReplicaSet r = Inr m"
  shows "sharding_role (ReplicaSet_ShardingRole m)"
  using assms by (auto simp: ProjectReplicaSetToModelReplicaSet_def ProjectShardingRoleToModelShardingRole_def sharding_role_def
      split: if_splits sum.splits)

lemma settles_find_mongods [settling]:
  assumes "\<And>e s'. settles db0 (h e) s'" and "\<And>x s'. txDB s' = txDB s \<Longrightarrow> settles db0 (k x) s'"
  shows "settles db0 (onError (bindM (find_or_err D q) (\<lambda>x. bindM (mongods_of D (f x)) (\<lambda>ms. returnM (g x ms)))) h k) s"
  by (rule settles_reads [OF _ assms]) (intro reading)

lemma settles_find_slaves [settling]:
  assumes "\<And>e s'. settles db0 (h e) s'" and "\<And>x s'. txDB s' = txDB s \<Longrightarrow> settles db0 (k x) s'"
  shows "settles db0 (onError (bindM (find_or_err D q) (\<lambda>x. sql_query D (f x))) h k) s"
  by (rule settles_reads [OF _ assms]) (intro reading)

lemmas settles_read [settling] = settles_reads [OF reads_only_First] settles_reads [OF reads_only_changeToSlaveAllowed]
  settles_reads [OF reads_only_project_slave_in] settles_reads [OF reads_only_find_or_err]

lemmas settles_statement = settles_careful [OF careful_Create_slave] settles_careful [OF careful_Save_slave]
  settles_careful [OF careful_Delete_slave] settles_careful [OF careful_set_risk_group]
  settles_careful [OF careful_Create_replica_set] settles_careful [OF careful_Save_replica_set]
  settles_careful [OF careful_Delete_replica_set] settles_careful [OF careful_Create_risk_group]
  settles_careful [OF careful_Save_risk_group] settles_careful [OF careful_Delete_risk_group]

lemmas settles_rules = settling settles_returnM settles_in_tx settles_statement settles_allocator settles_commit
  settles_attemptCommit settles_allocate_and_commit settles_project_replica_set

lemma settles_rollback_then_commit:
  "settles db0 (bindM (rollback_with db0 ws) (\<lambda>ws. bindM (attemptCommit D show_err db0 (Some TxDone))
    (\<lambda>ws'. returnM (ws @ ws')))) s"
  unfolding settles_def rollback_with_def run_bindM run_rollback run_returnM
  by (rule run_mono [OF run_attemptCommit_ready]) auto

text \<open>The handlers that change something.\<close>

lemmas change_handlers = SlavePut_def SlaveUpdate_def SlaveDelete_def ReplicaSetPut_def ReplicaSetUpdate_def ReplicaSetDelete_def
  RiskGroupPut_def RiskGroupUpdate_def RiskGroupDelete_def RiskGroupAssignSlave_def RiskGroupRemoveSlave_def

lemma settles_change:
  assumes "dbms_ok D" and "cluster_ok (txDB s)"
  shows "settles (txDB s) (SlavePut D show_err hasBus slave) s"
    and "settles (txDB s) (SlaveUpdate D show_err hasBus i slave) s"
    and "settles (txDB s) (SlaveDelete D show_err hasBus i) s"
    and "settles (txDB s) (ReplicaSetPut D show_err hasBus rs) s"
    and "settles (txDB s) (ReplicaSetUpdate D show_err hasBus i rs) s"
    and "settles (txDB s) (ReplicaSetDelete D show_err hasBus i) s"
    and "settles (txDB s) (RiskGroupPut D show_err hasBus rg) s"
    and "settles (txDB s) (RiskGroupUpdate D show_err hasBus i rg) s"
    and "settles (txDB s) (RiskGroupDelete D show_err hasBus i) s"
    and "settles (txDB s) (RiskGroupAssignSlave D show_err g i) s"
    and "settles (txDB s) (RiskGroupRemoveSlave D show_err hasBus g i) s"
  unfolding change_handlers using cluster_ok_ready [OF assms(2)]
  by - (intro settles_rules settles_rollback_then_commit assms(1) refl; auto dest: projected_role)+

text \<open>Any request.\<close>

lemma settles_api_change:
  "api_change D show_err C hasBus verb path body = Some h \<Longrightarrow> dbms_ok D \<Longrightarrow> cluster_ok (txDB s) \<Longrightarrow> settles (txDB s) h s"
  by (induction D show_err C hasBus verb path body rule: api_change.induct)
    (auto simp: settles_change split: if_splits)

lemma settles_api_route:
  assumes "api_route D show_err C hasBus verb path body = Some h" and "dbms_ok D" and "cluster_ok (txDB s)"
  shows "settles (txDB s) h s"
proof (cases "verb = GET")
  case True
  then have "untouched h s"
    using assms(1) untouched_api_get by (simp add: api_route_def)
  then show ?thesis
    unfolding untouched_def settles_def by (rule run_mono) simp_all
next
  case False
  with assms show ?thesis
    by (simp add: api_route_def settles_api_change)
qed

end
