(* ===== verification/MonitorInvariant.thy ===== *)
theory MonitorInvariant
  imports Monitor Schema
begin

text \<open>
  The monitor keeps the stored tables consistent: what it writes about a slave and its Mongods, known or not,
  keeps the constraints of the schema and the ownership of states, so a commit that checks the foreign keys leaves
  consistent tables, and every other end of the transaction leaves the tables as they were.
\<close>

section \<open>Saving a struct with the structs it holds\<close>

text \<open>What gorm documents of \<open>Save\<close>: a struct that is held and not blank is saved first, inserted if its key is
  zero and written over its row otherwise, and the foreign key is set to its key; then all columns are written.\<close>

definition row_saved ::
  "('r \<Rightarrow> ID) \<Rightarrow> (ID \<Rightarrow> 'r \<Rightarrow> 'r) \<Rightarrow> 'r \<Rightarrow> 'r \<Rightarrow> ID option \<Rightarrow> 'r list \<Rightarrow> ID option \<Rightarrow> 'r list \<Rightarrow> bool" where
  "row_saved key with_key blank x fk rows fk' rows' \<longleftrightarrow>
    (if x = blank then fk' = fk \<and> rows' = rows
     else if key x = 0 then (case fk' of None \<Rightarrow> False
       | Some i \<Rightarrow> 0 < i \<and> i \<notin> key ` set rows \<and> rows' = rows @ [with_key i x])
     else fk' = Some (key x) \<and> rows' = map (\<lambda>r. if key r = key x then x else r) rows)"

definition with_state_id :: "ID \<Rightarrow> MongodStateRow \<Rightarrow> MongodStateRow" where
  "with_state_id i st = st\<lparr>State_ID := i\<rparr>"

definition with_error_id :: "ID \<Rightarrow> MSPError \<Rightarrow> MSPError" where
  "with_error_id i e = e\<lparr>MSPError_ID := i\<rparr>"

definition mongod_saved :: "Mongod \<Rightarrow> MongodStateRow \<Rightarrow> MSPError \<Rightarrow> DB \<Rightarrow> DB \<Rightarrow> bool" where
  "mongod_saved m st e db db' \<longleftrightarrow> (\<exists>observed error.
     row_saved State_ID with_state_id zeroState st (Mongod_ObservedStateID m) (mongod_states db) observed (mongod_states db') \<and>
     row_saved MSPError_ID with_error_id zeroMSPError e (Mongod_ObservationErrorID m) (msp_errors db) error (msp_errors db') \<and>
     db' = db\<lparr>mongod_states := mongod_states db', msp_errors := msp_errors db',
       mongods := map (\<lambda>q. if Mongod_ID q = Mongod_ID m
         then m\<lparr>Mongod_ObservedStateID := observed, Mongod_ObservationErrorID := error\<rparr> else q) (mongods db)\<rparr>)"

definition saves_as_documented :: "save_mongod \<Rightarrow> bool" where
  "saves_as_documented saveMongod \<longleftrightarrow>
    (\<forall>m st e n db db'. saveMongod m st e n db = Inr db' \<longrightarrow> mongod_saved m st e db db')"

lemma row_saved_serial:
  assumes "row_saved key with_key blank x fk rows fk' rows'" and "serial key rows" and "\<And>i r. key (with_key i r) = i"
  shows "serial key rows'"
proof -
  have "serial key (map (\<lambda>r. if key r = key x then x else r) rows)"
    using assms(2) by (subst serial_map) auto
  then show ?thesis
    using assms by (auto simp: row_saved_def intro!: serial_append split: if_splits option.splits)
qed

text \<open>The observed state: none yet, or the one of the Mongod.\<close>

definition state_of :: "Mongod \<Rightarrow> MongodStateRow \<Rightarrow> bool" where
  "state_of m st \<longleftrightarrow> (if st = zeroState then Mongod_ObservedStateID m = None
     else State_ParentMongodID st = Mongod_ID m \<and> sharding_role (State_ShardingRole st) \<and>
       (if State_ID st = 0 then Mongod_ObservedStateID m = None else Mongod_ObservedStateID m = Some (State_ID st)))"

lemma observed_row_saved:
  assumes "row_saved State_ID with_state_id zeroState st (Mongod_ObservedStateID m) (mongod_states db) observed sts"
    and "state_of m st" and "tx_ok db" and "states_owned db m"
  shows "tx_ok (db\<lparr>mongod_states := sts\<rparr>)"
    and "states_owned (db\<lparr>mongod_states := sts\<rparr>) (m\<lparr>Mongod_ObservedStateID := observed, Mongod_ObservationErrorID := error\<rparr>)"
proof -
  let ?db = "db\<lparr>mongod_states := sts\<rparr>" and ?m = "m\<lparr>Mongod_ObservedStateID := observed, Mongod_ObservationErrorID := error\<rparr>"
  consider (blank) "st = zeroState" | (new) i where "st \<noteq> zeroState" "State_ID st = 0" "observed = Some i" "0 < i"
      "i \<notin> State_ID ` set (mongod_states db)" "sts = mongod_states db @ [with_state_id i st]"
    | (old) "st \<noteq> zeroState" "State_ID st \<noteq> 0" "observed = Some (State_ID st)"
      "sts = map (\<lambda>r. if State_ID r = State_ID st then st else r) (mongod_states db)"
    using assms(1) by (auto simp: row_saved_def split: if_splits option.splits)
  then have "tx_ok ?db \<and> states_owned ?db ?m"
  proof cases
    case blank
    then have "observed = Mongod_ObservedStateID m" and "sts = mongod_states db"
      using assms(1) by (simp_all add: row_saved_def)
    then show ?thesis
      using assms(3,4) by (simp add: states_owned_def split: option.splits)
  next
    case new
    let ?st = "with_state_id i st"
    have st: "State_ID ?st = i" "State_ParentMongodID ?st = Mongod_ID m" "sharding_role (State_ShardingRole ?st)"
      using new(1,2) assms(2) by (simp_all add: with_state_id_def state_of_def)
    have "owns_state ?db m i" and "\<not> owns_state db m i"
      using owns_new_state [of ?st db m] owns_new_state(2) [of ?st db m m] new(5) by (simp_all add: st new(6))
    moreover have "tx_ok ?db"
      unfolding new(6) by (rule tx_ok_new_state [OF assms(3) serial_append st(3)]) (use tx_ok_ids(3) [OF assms(3)] new st in simp_all)
    moreover have "owns_state ?db m (Mongod_DesiredStateID m)"
      unfolding new(6) by (rule owns_state_append) (use assms(4) in \<open>simp add: states_owned_def\<close>)
    ultimately show ?thesis
      using assms(4) by (auto simp: states_owned_def new(3))
  next
    case old
    have st: "Mongod_ObservedStateID m = Some (State_ID st)" "State_ParentMongodID st = Mongod_ID m"
        "sharding_role (State_ShardingRole st)"
      using old(1,2) assms(2) by (simp_all add: state_of_def)
    then have own: "owns_state db m (State_ID st)"
      using assms(4) by (simp add: states_owned_def)
    then have parent: "State_ParentMongodID st = State_ParentMongodID r" if "lookup_state db (State_ID st) = Some r" for r
      using that st(2) by (simp add: owns_state_def)
    then have "tx_ok ?db"
      unfolding old(4) by (intro tx_ok_replaced_state [OF assms(3) st(3)])
    moreover have "owns_state ?db m i" if "owns_state db m i" for i
      using that parent by (auto simp: owns_state_def old(4) find_row_replace split: option.splits)
    ultimately show ?thesis
      using assms(4) st(1) by (simp add: states_owned_def old(3))
  qed
  then show "tx_ok ?db" and "states_owned ?db ?m" by simp_all
qed

lemma mongod_saved_tx_ok:
  assumes "mongod_saved m st e db db'" and "tx_ok db" and "states_owned db m" and "state_of m st"
  shows "tx_ok db'"
proof -
  obtain observed error where
      st: "row_saved State_ID with_state_id zeroState st (Mongod_ObservedStateID m) (mongod_states db) observed (mongod_states db')"
    and e: "row_saved MSPError_ID with_error_id zeroMSPError e (Mongod_ObservationErrorID m) (msp_errors db) error (msp_errors db')"
    and db': "db' = db\<lparr>mongod_states := mongod_states db', msp_errors := msp_errors db',
       mongods := map (\<lambda>q. if Mongod_ID q = Mongod_ID m
         then m\<lparr>Mongod_ObservedStateID := observed, Mongod_ObservationErrorID := error\<rparr> else q) (mongods db)\<rparr>"
    using assms(1) unfolding mongod_saved_def by blast
  let ?db1 = "db\<lparr>mongod_states := mongod_states db'\<rparr>" and ?m = "m\<lparr>Mongod_ObservedStateID := observed, Mongod_ObservationErrorID := error\<rparr>"
  let ?db2 = "?db1\<lparr>msp_errors := msp_errors db'\<rparr>"
  let ?ms = "map (\<lambda>q. if Mongod_ID q = Mongod_ID m then ?m else q) (mongods db)"
  have db1: "tx_ok ?db1" and m: "states_owned ?db1 ?m"
    by (rule observed_row_saved [OF st assms(4,2,3)])+
  have "serial MSPError_ID (msp_errors db')"
    by (rule row_saved_serial [OF e tx_ok_ids(1) [OF assms(2)]]) (simp add: with_error_id_def)
  then have db2: "tx_ok ?db2"
    by (rule tx_ok_other_tables(1) [OF db1])
  have same: "states_owned ?db2 q = states_owned ?db1 q" for q
    by (rule states_owned_same) simp
  have "serial Mongod_ID ?ms"
    using tx_ok_ids(4) [OF assms(2)] by (subst serial_map) auto
  moreover have "states_owned ?db2 q" if "q \<in> set ?ms" for q
    using that m db1 by (auto simp: tx_ok_def same)
  ultimately have "tx_ok (?db2\<lparr>mongods := ?ms\<rparr>)"
    by (rule tx_ok_mongods [OF db2])
  then show ?thesis
    by (subst db') simp
qed

section \<open>Mongods a slave reports\<close>

lemma model_role_ok: "sharding_role (model_role om)"
  by (auto simp: model_role_def ProjectMSPShardingRoleToModelShardingRole_def sharding_role_def split: sum.split)

text \<open>Between the two inserts a new Mongod has no desired state yet.\<close>

definition tx_ok_but :: "Mongod \<Rightarrow> DB \<Rightarrow> bool" where
  "tx_ok_but new db \<longleftrightarrow> constraints_ok db \<and> new \<in> set (mongods db) \<and> Mongod_ObservedStateID new = None \<and>
    (\<forall>m \<in> set (mongods db). m \<noteq> new \<longrightarrow> states_owned db m)"

lemma tx_ok_new_mongod:
  assumes "tx_ok db" and "serial Mongod_ID (mongods db @ [m])" and "Mongod_ObservedStateID m = None"
  shows "tx_ok_but m (db\<lparr>mongods := mongods db @ [m]\<rparr>)"
  using assms states_owned_same [of "db\<lparr>mongods := mongods db @ [m]\<rparr>" db] by (auto simp: tx_ok_but_def tx_ok_defs)

lemma tx_ok_desired_state:
  assumes "tx_ok_but m db" and "serial State_ID (mongod_states db @ [st])" and "sharding_role (State_ShardingRole st)"
    and "State_ParentMongodID st = Mongod_ID m"
  defines "db1 \<equiv> db\<lparr>mongod_states := mongod_states db @ [st]\<rparr>"
  shows "tx_ok_but m db1" and "owns_state db1 m (State_ID st)"
proof -
  have "State_ID st \<notin> State_ID ` set (mongod_states db)"
    using assms(2) by (auto simp: serial_def)
  then show "owns_state db1 m (State_ID st)"
    unfolding db1_def by (rule owns_new_state) (rule assms(4))
  show "tx_ok_but m db1"
    using assms(1-3) unfolding tx_ok_but_def db1_def
    by (auto simp: tx_ok_defs intro: states_owned_mono owns_state_append)
qed

lemma tx_ok_desired_set:
  assumes "tx_ok_but m db" and "owns_state db m i"
  defines "db1 \<equiv> update_mongod (Mongod_ID m) (\<lambda>q. q\<lparr>Mongod_DesiredStateID := i\<rparr>) db"
  shows "tx_ok db1" and "m\<lparr>Mongod_DesiredStateID := i\<rparr> \<in> set (mongods db1)"
proof -
  let ?ms = "map (\<lambda>q. if Mongod_ID q = Mongod_ID m then q\<lparr>Mongod_DesiredStateID := i\<rparr> else q) (mongods db)"
  have m: "m \<in> set (mongods db)" "Mongod_ObservedStateID m = None" and con: "constraints_ok db"
    and others: "\<And>q. q \<in> set (mongods db) \<Longrightarrow> q \<noteq> m \<Longrightarrow> states_owned db q"
    using assms(1) by (simp_all add: tx_ok_but_def)
  have only: "q = m" if "q \<in> set (mongods db)" "Mongod_ID q = Mongod_ID m" for q
    using that m con by (auto simp: constraints_ok_def ids_ok_def serial_def distinct_map inj_on_def)
  have serial: "serial Mongod_ID ?ms"
    using con by (subst serial_map) (auto simp: constraints_ok_def ids_ok_def)
  show "m\<lparr>Mongod_DesiredStateID := i\<rparr> \<in> set (mongods db1)"
    using m(1) by (auto simp: db1_def image_iff intro!: bexI [where x = m])
  have "states_owned db1 q = states_owned db q" for q
    by (rule states_owned_same) (simp add: db1_def)
  moreover have "states_owned db (m\<lparr>Mongod_DesiredStateID := i\<rparr>)"
    using assms(2) m(2) by (simp add: states_owned_def)
  ultimately have "states_owned db1 q" if "q \<in> set ?ms" for q
    using that only others by auto
  then show "tx_ok db1"
    using con serial unfolding db1_def by (simp add: tx_ok_def constraints_ok_def ids_ok_def names_ok_def roles_ok_def update_mongod_def)
qed

lemma run_create_unknown:
  assumes "dbms_ok D" and "tx_ok (txDB s)"
  shows "run (create_unknown D show_err slave om) (\<lambda>m s'. tx_ok (txDB s') \<and> m \<in> set (mongods (txDB s'))) (\<lambda>_ _. True) s"
proof -
  have mongod: "run (insert_mongod D m) (\<lambda>m' s'. tx_ok_but m' (txDB s')) (\<lambda>_ _. True) s" if "Mongod_ObservedStateID m = None" for m
    unfolding insert_mongod_def
    by (rule run_sql_stmt) (use assms that in \<open>auto simp: Let_def tx_ok_ids intro!: tx_ok_new_mongod serial_new\<close>)
  have state: "run (insert_state D st) (\<lambda>st' s'. tx_ok_but m (txDB s') \<and> owns_state (txDB s') m (State_ID st')) (\<lambda>_ _. True) s1"
    if "tx_ok_but m (txDB s1)" "State_ParentMongodID st = Mongod_ID m" "sharding_role (State_ShardingRole st)" for m st and s1 :: tx
  proof -
    have "serial State_ID (mongod_states (txDB s1))"
      using that(1) by (simp add: tx_ok_but_def constraints_ok_def ids_ok_def)
    then show ?thesis
      unfolding insert_state_def
      by (intro run_sql_stmt) (use that in \<open>auto simp: Let_def intro!: tx_ok_desired_state serial_new [OF assms(1)]\<close>)
  qed
  have set: "run (sql_exec D (update_mongod (Mongod_ID m) (\<lambda>q. q\<lparr>Mongod_DesiredStateID := i\<rparr>)))
      (\<lambda>_ s'. tx_ok (txDB s') \<and> m\<lparr>Mongod_DesiredStateID := i\<rparr> \<in> set (mongods (txDB s'))) (\<lambda>_ _. True) s1"
    if "tx_ok_but m (txDB s1) \<and> owns_state (txDB s1) m i" for m i and s1 :: tx
    by (rule run_exec_any) (use that in \<open>auto intro: tx_ok_desired_set simp del: update_mongod_simps\<close>)
  show ?thesis
    unfolding create_unknown_def
    by (rule run_bind_seq, rule run_wrapErr_any, rule mongod, simp, simp, rule run_bind_seq, rule run_wrapErr_any,
        erule state, simp, simp add: model_role_ok, simp, rule run_bind_seq, rule run_wrapErr_any, erule set, simp)
      (simp add: run_simps)
qed

text \<open>What an observation makes of the observed state is a state of the Mongod.\<close>

lemma state_of_read:
  assumes "tx_ok db" and "states_owned db m"
  shows "state_of m (case (case Mongod_ObservedStateID m of None \<Rightarrow> None | Some i \<Rightarrow> lookup_state db i) of
    None \<Rightarrow> zeroState | Some st \<Rightarrow> st)"
proof (cases "Mongod_ObservedStateID m")
  case None
  then show ?thesis by (simp add: state_of_def)
next
  case (Some i)
  then obtain st where st: "lookup_state db i = Some st" "State_ParentMongodID st = Mongod_ID m"
    using assms(2) by (auto simp: states_owned_def owns_state_def split: option.splits)
  then have row: "st \<in> set (mongod_states db)" "State_ID st = i"
    by (auto dest: find_row_key find_row_mem)
  then have "0 < i" and "sharding_role (State_ShardingRole st)"
    using assms(1) tx_ok_ids(3) [OF assms(1)] by (auto simp: tx_ok_def constraints_ok_def roles_ok_def serial_def)
  then show ?thesis
    using Some st row by (auto simp: state_of_def zeroState_def)
qed

lemma updated_not_zero:
  assumes "0 < Mongod_ID m"
  shows "updateObservedState om (st\<lparr>State_ParentMongodID := Mongod_ID m\<rparr>) \<noteq> zeroState" (is "?st \<noteq> _")
proof
  assume "?st = zeroState"
  then have "State_ParentMongodID ?st = 0"
    by (simp add: zeroState_def)
  then show False
    using assms by (simp add: updateObservedState_def)
qed

lemma state_of_updated:
  assumes "state_of m st" and "0 < Mongod_ID m"
  shows "state_of m (updateObservedState om (st\<lparr>State_ParentMongodID := Mongod_ID m\<rparr>))"
proof -
  let ?st = "updateObservedState om (st\<lparr>State_ParentMongodID := Mongod_ID m\<rparr>)"
  have st: "State_ParentMongodID ?st = Mongod_ID m" "State_ID ?st = State_ID st" "State_ShardingRole ?st = model_role om"
    by (simp_all add: updateObservedState_def)
  have "?st \<noteq> zeroState"
    by (rule updated_not_zero [OF assms(2)])
  moreover have "State_ID zeroState = 0"
    by (simp add: zeroState_def)
  ultimately show ?thesis
    using assms(1) model_role_ok [of om] by (auto simp: state_of_def st split: if_splits)
qed

lemma run_observe_mongod:
  assumes "dbms_ok D" and "saves_as_documented saveMongod" and "tx_ok (txDB s)"
  shows "run (observe_mongod D saveMongod show_err slave om observedMap) (\<lambda>_ s'. tx_ok (txDB s')) (\<lambda>_ _. True) s"
proof -
  have find: "run (find_observed D slave om) (\<lambda>found s'. tx_ok (txDB s') \<and>
      (case found of None \<Rightarrow> True | Some m \<Rightarrow> m \<in> set (mongods (txDB s')))) (\<lambda>_ _. True) s"
    unfolding find_observed_def sql_query_def
    by (rule run_sql_stmt) (use assms(1,3) in \<open>auto split: option.split dest: limit1_order_by_Some [OF assms(1)]\<close>)
  have found: "run (case found of Some m \<Rightarrow> returnM m | None \<Rightarrow> create_unknown D show_err slave om)
      (\<lambda>m s'. tx_ok (txDB s') \<and> m \<in> set (mongods (txDB s'))) (\<lambda>_ _. True) s1"
    if "tx_ok (txDB s1) \<and> (case found of None \<Rightarrow> True | Some m \<Rightarrow> m \<in> set (mongods (txDB s1)))" for found and s1 :: tx
    using that assms(1) by (cases found) (simp_all add: run_simps run_create_unknown)
  have save: "run (sql_stmt D (\<lambda>n db. map_sum id (\<lambda>db'. ((), db')) (saveMongod m st e n db))) (\<lambda>_ s'. tx_ok (txDB s')) (\<lambda>_ _. True) s1"
    if s1: "tx_ok (txDB s1)" "m \<in> set (mongods (txDB s1))" "state_of m st" for m st e and s1 :: tx
  proof -
    have m: "states_owned (txDB s1) m"
      using s1 by (simp add: tx_ok_def)
    have "tx_ok db'" if "saveMongod m st e (txCalls s1) (txDB s1) = Inr db'" for db'
      using assms(2) that by (intro mongod_saved_tx_ok [OF _ s1(1) m s1(3), where e = e]) (simp add: saves_as_documented_def)
    then show ?thesis
      by (intro run_sql_stmt) (auto simp: map_sum_def split: sum.splits)
  qed
  have saved: "run (bindM (wrapErr show_err p (sql_stmt D (\<lambda>n db. map_sum id (\<lambda>db'. ((), db')) (saveMongod m st e n db)))) (\<lambda>_. returnM x))
      (\<lambda>_ s'. tx_ok (txDB s')) (\<lambda>_ _. True) s1"
    if "tx_ok (txDB s1)" "m \<in> set (mongods (txDB s1))" "state_of m st" for m st e p x and s1 :: tx
    by (rule run_bind_seq, rule run_wrapErr_any, rule save [OF that]) (simp_all add: run_simps)
  have rest: "run (bindM (wrapErr show_err p (sql_query D (\<lambda>n db. lookup_state db (Mongod_DesiredStateID m)))) (\<lambda>_.
      bindM (wrapErr show_err p' (sql_query D (\<lambda>n db. case Mongod_ObservedStateID m of None \<Rightarrow> None | Some i \<Rightarrow> lookup_state db i))) f))
      Q (\<lambda>_ _. True) s1"
    if s1: "tx_ok (txDB s1) \<and> m \<in> set (mongods (txDB s1))"
      and f: "\<And>observed s2. txDB s2 = txDB s1 \<Longrightarrow> state_of m (case observed of None \<Rightarrow> zeroState | Some st \<Rightarrow> st) \<Longrightarrow>
        run (f observed) Q (\<lambda>_ _. True) s2"
    for m p p' Q and f :: "_ \<Rightarrow> (ID \<rightharpoonup> mspMongod) action" and s1 :: tx
  proof -
    have m: "states_owned (txDB s1) m"
      using s1 by (simp add: tx_ok_def)
    show ?thesis
      unfolding run_bindM sql_query_def
      by (intro run_wrapErr_any run_sql_stmt)
        (use state_of_read [OF conjunct1 [OF s1] m] in \<open>auto simp: tick_same intro!: f cong: option.case_cong\<close>)
  qed
  show ?thesis
    unfolding observe_mongod_def
  proof (rule run_bind_seq, rule run_wrapErr_any, rule find, simp, rule run_bind_seq, erule found, rule rest, assumption)
    fix m observed and s1 s2 :: tx
    let ?st = "case observed of None \<Rightarrow> zeroState | Some st \<Rightarrow> st"
    assume s1: "tx_ok (txDB s1) \<and> m \<in> set (mongods (txDB s1))" and s2: "txDB s2 = txDB s1" "state_of m ?st"
    have "0 < Mongod_ID m"
      using s1 tx_ok_ids(4) [of "txDB s1"] by (auto simp: serial_def)
    note st = s2(2) state_of_updated [OF s2(2) this]
    have s2: "tx_ok (txDB s2)" "m \<in> set (mongods (txDB s2))"
      using s1 s2(1) by simp_all
    show "run (let observedState = ?st; (observedState', observationError) =
          (case mspMongod_StatusError om of
             None \<Rightarrow> (updateObservedState om (observedState\<lparr>State_ParentMongodID := Mongod_ID m\<rparr>), zeroMSPError)
           | Some e \<Rightarrow> (observedState, mspErrorToModelMSPError e))
        in bindM (wrapErr show_err (''monitor: error persisting updated observed state for mongod `'' @ mongodTuple slave om @ ''`: '')
          (sql_stmt D (\<lambda>n db. map_sum id (\<lambda>db'. ((), db')) (saveMongod m observedState' observationError n db))))
          (\<lambda>_. returnM (observedMap(Mongod_ID m \<mapsto> om)))) (\<lambda>_ s'. tx_ok (txDB s')) (\<lambda>_ _. True) s2"
      by (cases "mspMongod_StatusError om"; simp only: option.case Let_def prod.case; rule saved [OF s2]; rule st)
  qed
qed

lemma maintains_updateOrCreate [maintaining]:
  assumes "dbms_ok D" and "saves_as_documented saveMongod"
  shows "maintains tx_ok (updateOrCreateObservedMongodStates D saveMongod show_err slave obs)"
  unfolding updateOrCreateObservedMongodStates_def
  by (intro maintains_foldM) (simp add: maintains_def run_observe_mongod [OF assms])

section \<open>Mongods a slave does not report\<close>

lemma update_state_exec_tx_ok:
  assumes "tx_ok db"
  shows "tx_ok (update_state i (\<lambda>st. st\<lparr>State_ExecutionState := e\<rparr>) db)"
proof -
  have db': "update_state i (\<lambda>st. st\<lparr>State_ExecutionState := e\<rparr>) db = set_exec (\<lambda>st. State_ID st = i) e db"
    by (simp add: update_state_def set_exec_def)
  have "owns_state (set_exec (\<lambda>st. State_ID st = i) e db) m j" if "owns_state db m j" for m j
    using that by (auto simp: owns_state_def lookup_state_set_exec split: option.splits)
  then show ?thesis
    using assms unfolding db' tx_ok_def
    by (auto simp: set_exec_constraints intro: states_owned_mono)
qed

lemma update_mongod_tx_ok:
  assumes "tx_ok db" and "\<And>m. Mongod_ID (f m) = Mongod_ID m"
    and "\<And>m. m \<in> set (mongods db) \<Longrightarrow> Mongod_ID m = i \<Longrightarrow> states_owned db (f m)"
  shows "tx_ok (update_mongod i f db)"
proof -
  let ?ms = "map (\<lambda>m. if Mongod_ID m = i then f m else m) (mongods db)"
  have "serial Mongod_ID ?ms"
    using assms(2) tx_ok_ids(4) [OF assms(1)] by (subst serial_map) auto
  moreover have "states_owned db m" if "m \<in> set ?ms" for m
    using that assms(1,3) by (auto simp: tx_ok_def)
  ultimately show ?thesis
    unfolding update_mongod_def by (rule tx_ok_mongods [OF assms(1)])
qed

text \<open>A state that the Mongods with the given id may have as observed state.\<close>

definition linkable :: "ID \<Rightarrow> ID \<Rightarrow> DB \<Rightarrow> bool" where
  "linkable p i db \<longleftrightarrow> tx_ok db \<and>
    (\<forall>m \<in> set (mongods db). Mongod_ID m = p \<longrightarrow> i \<noteq> Mongod_DesiredStateID m \<and> owns_state db m i)"

lemma linkable_new_state:
  assumes "tx_ok db" and "serial State_ID (mongod_states db @ [st])" and "sharding_role (State_ShardingRole st)"
  shows "linkable (State_ParentMongodID st) (State_ID st) (db\<lparr>mongod_states := mongod_states db @ [st]\<rparr>)"
proof -
  have fresh: "State_ID st \<notin> State_ID ` set (mongod_states db)"
    using assms(2) by (auto simp: serial_def)
  have "State_ID st \<noteq> Mongod_DesiredStateID m" if "m \<in> set (mongods db)" "Mongod_ID m = State_ParentMongodID st" for m
  proof -
    have "owns_state db m (Mongod_DesiredStateID m)"
      using assms(1) that(1) by (simp add: tx_ok_def states_owned_def)
    then show ?thesis
      using owns_new_state(2) [OF fresh] that(2) by metis
  qed
  then show ?thesis
    using tx_ok_new_state [OF assms] owns_new_state(1) [OF fresh] by (simp add: linkable_def)
qed

lemma linkable_link:
  assumes "linkable p i db"
  shows "tx_ok (update_mongod p (\<lambda>m. m\<lparr>Mongod_ObservedStateID := Some i\<rparr>) db)"
proof (rule update_mongod_tx_ok)
  show "tx_ok db"
    using assms by (simp add: linkable_def)
  then show "states_owned db (m\<lparr>Mongod_ObservedStateID := Some i\<rparr>)" if "m \<in> set (mongods db)" "Mongod_ID m = p" for m
    using assms that by (auto simp: linkable_def tx_ok_def states_owned_def)
qed simp

lemma maintains_unobserved_mongod [maintaining]:
  assumes "dbms_ok D"
  shows "maintains tx_ok (unobserved_mongod D show_err m)"
proof -
  have insert: "run (insert_state D st) (\<lambda>st' s'. linkable (State_ParentMongodID st) (State_ID st') (txDB s')) (\<lambda>_ _. True) s"
    if "tx_ok (txDB s)" "sharding_role (State_ShardingRole st)" for st and s :: tx
  proof -
    let ?st = "\<lambda>n. st\<lparr>State_ID := newID D n (map State_ID (mongod_states (txDB s)))\<rparr>"
    have "linkable (State_ParentMongodID st) (State_ID (?st n)) (txDB s\<lparr>mongod_states := mongod_states (txDB s) @ [?st n]\<rparr>)" for n
      using linkable_new_state [OF that(1) serial_new [OF assms tx_ok_ids(3) [OF that(1)]], of "?st n" n] that(2) by simp
    then show ?thesis
      unfolding insert_state_def by (intro run_sql_stmt) (auto simp: Let_def)
  qed
  have link: "run (sql_exec D (update_mongod p (\<lambda>m. m\<lparr>Mongod_ObservedStateID := Some i\<rparr>))) (\<lambda>_ s'. tx_ok (txDB s')) (\<lambda>_ _. True) s"
    if "linkable p i (txDB s)" for p i and s :: tx
    by (rule run_exec_any) (use that in \<open>simp_all add: linkable_link del: update_mongod_simps\<close>)
  have "maintains tx_ok (case Mongod_ObservedStateID m of
        Some i \<Rightarrow> bindM (attempt (sql_exec D (update_state i
            (\<lambda>st. st\<lparr>State_ExecutionState := MongodExecutionStateDestroyed\<rparr>)))) (\<lambda>_. returnM ())
      | None \<Rightarrow> bindM (wrapErr show_err pre (insert_state D \<lparr>State_ID = 0, State_ParentMongodID = Mongod_ID m,
               State_ShardingRole = ShardingRoleNone, State_ExecutionState = MongodExecutionStateDestroyed\<rparr>))
          (\<lambda>observedState. wrapErr show_err pre' (sql_exec D (update_mongod (Mongod_ID m)
              (\<lambda>m. m\<lparr>Mongod_ObservedStateID := Some (State_ID observedState)\<rparr>)))))" for pre pre'
  proof (cases "Mongod_ObservedStateID m")
    case None
    have new: "run (insert_state D \<lparr>State_ID = 0, State_ParentMongodID = Mongod_ID m, State_ShardingRole = ShardingRoleNone,
        State_ExecutionState = MongodExecutionStateDestroyed\<rparr>) (\<lambda>st' s'. linkable (Mongod_ID m) (State_ID st') (txDB s')) (\<lambda>_ _. True) s"
      if "tx_ok (txDB s)" for s :: tx
      using insert [OF that, of "\<lparr>State_ID = 0, State_ParentMongodID = Mongod_ID m, State_ShardingRole = ShardingRoleNone,
        State_ExecutionState = MongodExecutionStateDestroyed\<rparr>"] by (simp add: sharding_role_def)
    show ?thesis
      unfolding maintains_def None option.case
      by (intro allI impI, rule run_bind_seq, rule run_wrapErr_any, erule new, simp, rule run_wrapErr_any, erule link, simp)
  next
    case (Some i)
    then show ?thesis
      by (simp only: option.case) (intro maintaining maintains_attempt_exec update_state_exec_tx_ok)
  qed
  moreover have "tx_ok (update_mongod i (\<lambda>m. m\<lparr>Mongod_ObservationErrorID := None\<rparr>) db)" if "tx_ok db" for i db
    using that by (rule update_mongod_tx_ok) (use that in \<open>auto simp: tx_ok_def states_owned_def split: option.splits\<close>)
  ultimately show ?thesis
    unfolding unobserved_mongod_def by (intro maintains_bind maintains_if maintains_basic maintains_exec)
qed

lemma maintains_not_observed [maintaining]:
  "dbms_ok D \<Longrightarrow> maintains tx_ok (updateMongodStatesNotObservedOnSlave D show_err slave obs)"
  unfolding updateMongodStatesNotObservedOnSlave_def by (intro maintaining)

section \<open>The observation error of a slave\<close>

lemma update_slave_tx_ok:
  assumes "tx_ok db" and "\<And>s. Slave_ID (f s) = Slave_ID s" and "\<And>s. Slave_Hostname (f s) = Slave_Hostname s"
  shows "tx_ok (update_slave i f db)"
  unfolding update_slave_def by (rule tx_ok_other_tables(3) [OF assms(1)]) (auto simp: assms(2,3))

lemma update_msp_error_tx_ok:
  assumes "tx_ok db" and "\<And>e. MSPError_ID (f e) = i"
  shows "tx_ok (update_msp_error i f db)"
  unfolding update_msp_error_def
  by (rule tx_ok_other_tables(1) [OF assms(1)], subst serial_map) (auto simp: assms(2) tx_ok_ids [OF assms(1)])

lemma delete_msp_error_tx_ok:
  assumes "tx_ok db"
  shows "tx_ok (delete_msp_error i db)"
proof -
  let ?es = "filter (\<lambda>e. MSPError_ID e \<noteq> i) (msp_errors db)"
  let ?ss = "map (\<lambda>s. s\<lparr>Slave_ObservationErrorID := unref i (Slave_ObservationErrorID s)\<rparr>) (slaves db)"
  let ?ms = "map (\<lambda>m. m\<lparr>Mongod_ObservationErrorID := unref i (Mongod_ObservationErrorID m),
         Mongod_LastEstablishStateErrorID := unref i (Mongod_LastEstablishStateErrorID m)\<rparr>) (mongods db)"
  have "tx_ok (db\<lparr>msp_errors := ?es\<rparr>)"
    by (rule tx_ok_other_tables(1) [OF assms serial_filter [OF tx_ok_ids(1) [OF assms]]])
  then have db1: "tx_ok (db\<lparr>msp_errors := ?es, slaves := ?ss\<rparr>)"
    by (rule tx_ok_other_tables(3)) simp_all
  have "states_owned (db\<lparr>msp_errors := ?es, slaves := ?ss\<rparr>) m" if "m \<in> set ?ms" for m
    using that assms states_owned_same [of "db\<lparr>msp_errors := ?es, slaves := ?ss\<rparr>" db]
    by (auto simp: tx_ok_def states_owned_def owns_state_def cong: option.case_cong)
  then have "tx_ok (db\<lparr>msp_errors := ?es, slaves := ?ss, mongods := ?ms\<rparr>)"
    by (intro tx_ok_mongods [OF db1]) (simp_all add: serial_map tx_ok_ids [OF assms])
  then show ?thesis
    by (simp add: delete_msp_error_def)
qed

lemma maintains_slave_error [maintaining]:
  assumes "dbms_ok D"
  shows "maintains tx_ok (updateSlaveObservationError D show_err slave e)"
proof -
  have "maintains tx_ok (insert_msp_error D e)" for e
    unfolding insert_msp_error_def
    by (rule maintains_stmt) (auto simp: Let_def tx_ok_ids intro!: tx_ok_other_tables(1) serial_new [OF assms])
  moreover have "maintains tx_ok (sql_stmt D (\<lambda>n db. Inr (f db, delete_msp_error i db)))" for f i
    by (rule maintains_stmt) (auto simp: delete_msp_error_tx_ok)
  ultimately show ?thesis
    unfolding updateSlaveObservationError_def
    by (intro maintaining maintains_exec update_msp_error_tx_ok update_slave_tx_ok) simp_all
qed

section \<open>Observations\<close>

lemma tx_ok_committed: "tx_ok db \<Longrightarrow> foreign_keys_ok db \<Longrightarrow> cluster_ok db"
  by (simp add: cluster_ok_def)

lemma cluster_ok_tx_ok: "cluster_ok db \<Longrightarrow> tx_ok db"
  by (simp add: cluster_ok_def)

text \<open>After \<open>attempt\<close> the failed computation has left anything; its caller rolls back.\<close>

lemma run_attempt_maintains:
  assumes "maintains I m" and "I (txDB s)" and "\<And>x s'. I (txDB s') \<Longrightarrow> Q (Inr x) s'" and "\<And>e s'. Q (Inl e) s'"
  shows "run (attempt m) Q (\<lambda>_ _. True) s"
  unfolding run_attempt
  by (rule run_mono [OF maintains_run [OF assms(1,2)]]) (use assms(3,4) in \<open>auto split: failure.split\<close>)

lemma run_attempt_commit:
  assumes "tx_ok (txDB s)" and "cluster_ok db0" and "\<And>r s'. cluster_ok (txDB s') \<Longrightarrow> Q r s'"
  shows "run (attempt (commit D db0)) Q (\<lambda>_ _. True) s"
  unfolding run_attempt by (rule run_commit) (use assms in \<open>auto simp: cluster_ok_def\<close>)

lemma run_handleObservation:
  assumes "dbms_ok D" and "saves_as_documented saveMongod" and "cluster_ok (txDB s)"
  shows "run (handleObservation D saveMongod show_err show_mongod obs mspErr slave) (\<lambda>_ s'. cluster_ok (txDB s')) (\<lambda>_ _. True) s"
proof -
  let ?Q = "\<lambda>_ s'. cluster_ok (txDB s')"
  note ok = assms(3) cluster_ok_tx_ok [OF assms(3)]
  have sent: "run (bindM (getM txDB) (\<lambda>db1. bindM (attempt m) (\<lambda>_. rollback db1))) ?Q (\<lambda>_ _. True) s1"
    if "cluster_ok (txDB s1)" for m :: "unit action" and s1 :: tx
    unfolding run_bindM run_getM run_rollback
    by (rule run_mono [OF run_trivial]) (use that in simp_all)
  have reported: "run (handle_reported D saveMongod show_err show_mongod (txDB s) obs slave) ?Q (\<lambda>_ _. True) s1"
    if "tx_ok (txDB s1)" for s1
    unfolding handle_reported_def run_bindM [of "attempt _"]
    by (rule run_attempt_maintains [OF maintains_not_observed [OF assms(1)] that], unfold sum.case run_bindM [of "attempt _"],
        erule run_attempt_maintains [OF maintains_updateOrCreate [OF assms(1,2)]], unfold sum.case run_bindM [of "attempt (commit _ _)"],
        erule run_attempt_commit [OF _ ok(1)], erule sent)
      (simp_all add: run_simps ok)
  show ?thesis
    unfolding handleObservation_def run_bindM run_send run_getM
  proof (rule run_attempt_maintains [OF maintains_slave_error [OF assms(1)]])
    show "tx_ok (txDB (s\<lparr>txBus := txBus s @ [ConnectionStatusMsg (connection_status slave mspErr)]\<rparr>))"
      using ok by simp
    show "run (case Inl e of Inl _ \<Rightarrow> rollback (txDB (s\<lparr>txBus := b\<rparr>)) | Inr x \<Rightarrow> f x) ?Q (\<lambda>_ _. True) s1" for e b f and s1 :: tx
      by (simp add: run_simps ok)
  next
    fix x and s1 :: tx assume s1: "tx_ok (txDB s1)"
    then have "run (bindM (attempt (commit D (txDB s))) (\<lambda>_. returnM ())) ?Q (\<lambda>_ _. True) s1"
      unfolding run_bindM run_returnM by (rule run_attempt_commit [OF _ ok(1)])
    with reported [OF s1] show "run (case Inr x of Inl _ \<Rightarrow> rollback (txDB (s\<lparr>txBus := b\<rparr>))
        | Inr _ \<Rightarrow> if mspErr \<noteq> None then bindM (attempt (commit D (txDB (s\<lparr>txBus := b\<rparr>)))) (\<lambda>_. returnM ())
          else handle_reported D saveMongod show_err show_mongod (txDB (s\<lparr>txBus := b\<rparr>)) obs slave) ?Q (\<lambda>_ _. True) s1" for b
      by simp
  qed
qed

text \<open>A \<open>Save\<close> that does what is documented.\<close>

definition save_row :: "('r \<Rightarrow> ID) \<Rightarrow> (ID \<Rightarrow> 'r \<Rightarrow> 'r) \<Rightarrow> 'r \<Rightarrow> 'r \<Rightarrow> ID option \<Rightarrow> 'r list \<Rightarrow> ID option \<times> 'r list" where
  "save_row key with_key blank x fk rows =
    (if x = blank then (fk, rows)
     else if key x = 0 then (let i = newID plain_dbms 0 (map key rows) in (Some i, rows @ [with_key i x]))
     else (Some (key x), map (\<lambda>r. if key r = key x then x else r) rows))"

definition plain_save :: save_mongod where
  "plain_save m st e n db =
    (let (observed, sts) = save_row State_ID with_state_id zeroState st (Mongod_ObservedStateID m) (mongod_states db);
         (error, es) = save_row MSPError_ID with_error_id zeroMSPError e (Mongod_ObservationErrorID m) (msp_errors db)
     in Inr (db\<lparr>mongod_states := sts, msp_errors := es, mongods := map (\<lambda>q. if Mongod_ID q = Mongod_ID m
         then m\<lparr>Mongod_ObservedStateID := observed, Mongod_ObservationErrorID := error\<rparr> else q) (mongods db)\<rparr>))"

lemma save_row_saved: "save_row key with_key blank x fk rows = (fk', rows') \<Longrightarrow> row_saved key with_key blank x fk rows fk' rows'"
  using dbms_ok_newID [OF plain_dbms_ok, of 0 "map key rows"] dbms_ok_newID_pos [OF plain_dbms_ok, of 0 "map key rows"]
  by (auto simp: save_row_def row_saved_def Let_def split: if_splits)

lemma plain_save_documented: "saves_as_documented plain_save"
  unfolding saves_as_documented_def mongod_saved_def plain_save_def
  by (auto split: prod.splits dest!: save_row_saved)

end
