(* ===== verification/MasterRun.thy ===== *)
theory MasterRun
  imports ApiInvariant MonitorInvariant ProblemManager Periodic MasterMain
begin

text \<open>
  The running master, \<open>src/master/cmd/master.go\<close>: the API, the allocator, the monitor, the deployer and the problem
  manager work on the same database.  Their transactions are its steps, in any order, with any
  requests, any reports of the slaves and any messages, also stale ones; the database may fail at every statement.
\<close>

section \<open>Steps\<close>

text \<open>The tables after a transaction.  A panic ends it without a commit.\<close>

definition committed :: "'a action \<Rightarrow> DB \<Rightarrow> DB" where
  "committed m db = (case m (begin_tx db) of (Inl _, _) \<Rightarrow> db | (Inr _, s) \<Rightarrow> txDB s)"

inductive master_step :: "DB \<Rightarrow> DB \<Rightarrow> bool" where
  secrets: "dbms_ok (me_dbms E) \<Longrightarrow> master_step db (committed (secrets_tx E) db)"
| request: "dbms_ok D \<Longrightarrow> api_route D show_err C hasBus verb path body = Some h \<Longrightarrow> master_step db (committed h db)"
| allocate: "dbms_ok D \<Longrightarrow> master_step db (committed (allocator_tick D hasBus) db)"
| observe: "dbms_ok D \<Longrightarrow> saves_as_documented saveMongod \<Longrightarrow>
    master_step db (committed (handleObservation D saveMongod show_err show_mongod obs mspErr slave) db)"
| observe_sets: "dbms_ok D \<Longrightarrow> master_step db (committed (observeReplicaSets D) db)"
| deploy: "dbms_ok D \<Longrightarrow> master_step db (committed (Deployer_handle D show_err client msg) db)"
| report: "dbms_ok D \<Longrightarrow> master_step db (committed (ProblemManager_round D now first msg) db)"

inductive_cases master_stepE: "master_step db db'"

section \<open>Each step keeps the tables consistent\<close>

lemma committed_ok:
  assumes "run m (\<lambda>_ s'. cluster_ok (txDB s')) (\<lambda>_ _. True) (begin_tx db)" and "cluster_ok db"
  shows "cluster_ok (committed m db)"
  using assms by (auto simp: committed_def run_def split: prod.split sum.split)

lemma same_cluster_ok:
  assumes "same_cluster db db'"
  shows "cluster_ok db' = cluster_ok db"
proof -
  have "states_owned db' m = states_owned db m" for m
    by (rule states_owned_same) (use assms in \<open>simp add: same_cluster_def\<close>)
  then show ?thesis
    using assms same_cluster_eq(1) [OF assms] by (simp add: cluster_ok_def tx_ok_defs same_cluster_def)
qed

lemma secrets_step:
  assumes "cluster_ok (txDB s)"
  shows "run (secrets_tx E) (\<lambda>_ s'. cluster_ok (txDB s')) (\<lambda>_ _. True) s"
proof -
  have "run (attempt (InitializeGlobalSecrets (me_dbms E) (me_show_err E) (me_rand E)))
      (\<lambda>r s'. case r of Inl _ \<Rightarrow> True | Inr _ \<Rightarrow> same_cluster (txDB s) (txDB s')) (\<lambda>_ _. True) s"
    unfolding run_attempt
    by (rule run_mono [OF run_InitializeGlobalSecrets_any]) (simp_all split: failure.split)
  then show ?thesis
    unfolding secrets_tx_def run_bindM [of "getM _"] run_getM
    by (rule run_bind_seq)
      (auto simp: run_simps assms same_cluster_ok intro!: run_attempt_commit [OF cluster_ok_tx_ok assms] split: sum.split)
qed

lemma request_step:
  assumes "api_route D show_err C hasBus verb path body = Some h" and "dbms_ok D" and "cluster_ok (txDB s)"
  shows "run h (\<lambda>_ s'. cluster_ok (txDB s')) (\<lambda>_ _. True) s"
  using settles_api_route [OF assms] unfolding settles_def by (rule run_mono) (use assms(3) in auto)

lemma allocate_step:
  assumes "dbms_ok D" and "cluster_ok (txDB s)"
  shows "run (allocator_tick D hasBus) (\<lambda>_ s'. cluster_ok (txDB s')) (\<lambda>_ _. True) s"
proof -
  have "db_wf (txDB s)" and con: "constraints_ok (txDB s)"
    using assms(2) by (simp_all add: cluster_ok_wf cluster_ok_def tx_ok_def)
  then have "run (CompileMongodLayout D hasBus) (\<lambda>_ s'. ready (txDB s')) (\<lambda>_ _. True) s"
    by (intro run_mono [OF run_CompileMongodLayout [OF assms(1), where calm = False]])
      (auto simp: ready_def dest!: layout_post_steps intro: alloc_steps_db_wf alloc_steps_constraints)
  moreover have "run (commit_tick D (txDB s)) (\<lambda>_ s'. cluster_ok (txDB s')) (\<lambda>_ _. True) s1" if "ready (txDB s1)" for s1
    unfolding commit_tick_def run_catchM run_bindM
    by (rule run_commit) (use that assms(2) in \<open>auto simp: run_simps ready_committed\<close>)
  moreover have "run (failed_tick (txDB s) f) (\<lambda>_ s'. cluster_ok (txDB s')) (\<lambda>_ _. True) s1" for f s1
    by (cases f) (simp_all add: failed_tick_def run_simps assms(2))
  ultimately show ?thesis
    unfolding allocator_tick_def run_bindM run_getM run_catchM by (blast intro: run_mono)
qed

lemma observe_sets_step:
  assumes "cluster_ok (txDB s)"
  shows "run (observeReplicaSets D) (\<lambda>_ s'. cluster_ok (txDB s')) (\<lambda>_ _. True) s"
  unfolding observeReplicaSets_def run_bindM
proof (rule run_attempt_reads_only [OF reads_only_query])
  fix r and s1 :: tx assume s1: "txDB s1 = txDB s"
  have "maintains cluster_ok (case r of Inl _ \<Rightarrow> returnM () | Inr rows \<Rightarrow> forM rows (\<lambda>(status, replicaSet).
      bindM (send (ObservedConstraintMsg status)) (\<lambda>_. send (InitiationMsg \<lparr>Initiation_Initiated = ReplicaSet_Initiated replicaSet,
        Initiation_ReplicaSet = replicaSet\<rparr>))))"
    by (cases r) (auto simp: maintaining intro!: maintains_forM)
  then show "run (case r of Inl _ \<Rightarrow> returnM () | Inr rows \<Rightarrow> forM rows (\<lambda>(status, replicaSet).
      bindM (send (ObservedConstraintMsg status)) (\<lambda>_. send (InitiationMsg \<lparr>Initiation_Initiated = ReplicaSet_Initiated replicaSet,
        Initiation_ReplicaSet = replicaSet\<rparr>)))) (\<lambda>_ s'. cluster_ok (txDB s')) (\<lambda>_ _. True) s1"
    by (rule maintains_run) (simp add: s1 assms)
qed

text \<open>The deployer writes only the flag of a replica set.\<close>

lemma set_initiated_ok: "cluster_ok db \<Longrightarrow> cluster_ok (set_initiated r db)"
proof -
  assume db: "cluster_ok db"
  let ?f = "\<lambda>q. if ReplicaSet_ID r = 0 \<or> ReplicaSet_ID q = ReplicaSet_ID r then q\<lparr>ReplicaSet_Initiated := True\<rparr> else q"
  have names: "map ReplicaSet_Name (map ?f (replica_sets db)) = map ReplicaSet_Name (replica_sets db)"
    by simp
  have "serial ReplicaSet_ID (map ?f (replica_sets db))"
    using db by (subst serial_map) (auto simp: cluster_ok_def tx_ok_defs)
  then have "tx_ok (db\<lparr>replica_sets := map ?f (replica_sets db)\<rparr>)"
    using db by (intro tx_ok_replica_sets) (auto simp: names cluster_ok_def tx_ok_defs simp del: map_map)
  then show "cluster_ok (set_initiated r db)"
    using db by (simp add: cluster_ok_def) (simp add: set_initiated_def)
qed

lemma deploy_step:
  assumes "cluster_ok (txDB s)"
  shows "run (Deployer_handle D show_err client msg) (\<lambda>_ s'. cluster_ok (txDB s')) (\<lambda>_ _. True) s"
proof -
  have "run (handleMatchStatus D show_err m) (\<lambda>_ s'. cluster_ok (txDB s')) (\<lambda>_ _. True) s" for m
    unfolding handleMatchStatus_def pushMongodState_def run_if run_bindM run_getM
    by (auto simp: run_simps assms intro!: run_mono [OF run_trivial [of "attempt _"]] split: sum.split)
  moreover have "run (handleReplicaSetInitiationStatus D show_err client st) (\<lambda>_ s'. cluster_ok (txDB s')) (\<lambda>_ _. True) s" for st
  proof (cases "Initiation_Initiated st")
    case False
    then show ?thesis
      unfolding handleReplicaSetInitiationStatus_def if_not_P [OF False] run_bindM run_getM
      by (intro run_attempt_reads_only reading)
        (auto simp: run_simps run_rollback Let_def assms set_initiated_ok intro!: run_record_initiation split: sum.split)
  qed (simp add: handleReplicaSetInitiationStatus_def run_simps assms)
  ultimately show ?thesis
    using assms by (cases msg) (simp_all add: run_simps)
qed

lemma handle_status_keeps:
  assumes "dbms_ok D" and "tx_ok (txDB s)"
  shows "run (handle_status D now first msg) (\<lambda>_ s'. tx_ok (txDB s')) (\<lambda>f s'. tx_ok (txDB s') \<and> (\<exists>e. f = Failed e)) s"
proof -
  have create: "run (FirstOrCreate D key desc long now first) (\<lambda>_ s'. tx_ok (txDB s')) (\<lambda>f s'. tx_ok (txDB s') \<and> (\<exists>e. f = Failed e)) s" for key desc long
    unfolding FirstOrCreate_def
    by (rule run_sql_stmt)
      (use assms in \<open>auto simp: assign_problem_def serial_map tx_ok_ids intro!: tx_ok_other_tables(2) serial_new
        split: option.splits prod.splits\<close>)
  have remove: "run (DeleteProblems D key) (\<lambda>_ s'. tx_ok (txDB s')) (\<lambda>f s'. tx_ok (txDB s') \<and> (\<exists>e. f = Failed e)) s" for key
    unfolding DeleteProblems_def
    by (rule run_exec_any) (use assms in \<open>auto simp: tx_ok_ids serial_filter intro!: tx_ok_other_tables(2)\<close>)
  show ?thesis
    by (cases msg) (simp_all add: Let_def create remove run_returnM assms(2))
qed

lemma report_step:
  assumes "dbms_ok D" and "cluster_ok (txDB s)"
  shows "run (ProblemManager_round D now first msg) (\<lambda>_ s'. cluster_ok (txDB s')) (\<lambda>_ _. True) s"
proof -
  have "run (attempt (handle_status D now first msg)) (\<lambda>_ s'. tx_ok (txDB s')) (\<lambda>_ _. True) s"
    unfolding run_attempt
    by (rule run_mono [OF handle_status_keeps [OF assms(1) cluster_ok_tx_ok [OF assms(2)]]]) auto
  then show ?thesis
    unfolding ProblemManager_round_def run_bindM run_getM run_returnM
    by (rule run_mono) (auto intro: run_attempt_commit [OF _ assms(2)])
qed

lemma master_step_ok: "master_step db db' \<Longrightarrow> cluster_ok db \<Longrightarrow> cluster_ok db'"
  by (auto elim!: master_stepE intro!: committed_ok secrets_step request_step allocate_step observe_sets_step
      deploy_step report_step run_handleObservation)

lemma master_steps_ok: "master_step\<^sup>*\<^sup>* db db' \<Longrightarrow> cluster_ok db \<Longrightarrow> cluster_ok db'"
  by (induction rule: rtranclp_induct) (auto intro: master_step_ok)

section \<open>Properties\<close>

definition first_slave :: Slave where
  "first_slave = \<lparr>Slave_ID = 1, Slave_Hostname = ''host1'', Slave_Port = 8081, Slave_MongodPortRangeBegin = 18080,
     Slave_MongodPortRangeEnd = 18081, Slave_PersistentStorage = True, Slave_ConfiguredState = SlaveStateActive,
     Slave_RiskGroupID = None, Slave_ObservationErrorID = None\<rparr>"

definition reported_mongod :: "string \<Rightarrow> mspMongod" where
  "reported_mongod rs = zeroMspMongod\<lparr>mspMongod_Port := 18080, mspMongod_State := MongodStateRunning,
     mspMongod_ReplicaSetConfig := zeroReplicaSetConfig\<lparr>Config_ReplicaSetName := rs\<rparr>\<rparr>"

text \<open>A slave is entered, and reports a Mongod of the set \<open>a\<close> and later, on the same port, one of the set \<open>b\<close>.\<close>

definition entered :: DB where
  "entered = committed (SlavePut plain_dbms (\<lambda>_. []) True (Inr example_api_slave)) empty_DB"

definition reported :: "string \<Rightarrow> unit action" where
  "reported rs = handleObservation plain_dbms plain_save (\<lambda>_. []) (\<lambda>_. []) [reported_mongod rs] None first_slave"

definition unknown_mongod :: "ID \<Rightarrow> string \<Rightarrow> ID \<Rightarrow> ID \<Rightarrow> Mongod" where
  "unknown_mongod i rs desired observed = \<lparr>Mongod_ID = i, Mongod_Port = 18080, Mongod_ReplSetName = rs,
     Mongod_ObservationErrorID = None, Mongod_LastEstablishStateErrorID = None, Mongod_ParentSlaveID = 1,
     Mongod_ReplicaSetID = None, Mongod_DesiredStateID = desired, Mongod_ObservedStateID = Some observed\<rparr>"

definition state_row :: "ID \<Rightarrow> ID \<Rightarrow> MongodExecutionState \<Rightarrow> MongodStateRow" where
  "state_row i p e = \<lparr>State_ID = i, State_ParentMongodID = p, State_ShardingRole = ShardingRoleNone, State_ExecutionState = e\<rparr>"

definition first_unknown :: DB where
  "first_unknown = empty_DB\<lparr>slaves := [first_slave], mongods := [unknown_mongod 1 ''a'' 1 2],
     mongod_states := [state_row 1 1 MongodExecutionStateForceDestroyed, state_row 2 1 MongodExecutionStateRunning]\<rparr>"

definition second_unknown :: DB where
  "second_unknown = empty_DB\<lparr>slaves := [first_slave], mongods := [unknown_mongod 1 ''a'' 1 2, unknown_mongod 2 ''b'' 3 4],
     mongod_states := [state_row 1 1 MongodExecutionStateForceDestroyed, state_row 2 1 MongodExecutionStateDestroyed,
       state_row 3 2 MongodExecutionStateForceDestroyed, state_row 4 2 MongodExecutionStateRunning]\<rparr>"

lemma entered_db: "entered = empty_DB\<lparr>slaves := [first_slave]\<rparr>"
  by code_simp

lemma plain_simps: "newID plain_dbms n ids = 1 + foldr max ids 0" "scan plain_dbms n [] = []"
  "scan plain_dbms n [x] = [x]" "scan plain_dbms n [x, y] = [x, y]"
  by (simp_all add: plain_dbms_def scan_def permute_def)

lemma run_plain_stmt: "run (sql_stmt plain_dbms f) Q R s = (case f (txCalls s) (txDB s) of
    Inl e \<Rightarrow> R (Failed (ErrDB e)) (tick s) | Inr (x, db) \<Rightarrow> Q x ((tick s)\<lparr>txDB := db\<rparr>))"
  by (simp add: run_def sql_stmt_def plain_dbms_def split: sum.split prod.split)

lemma run_wrapErr: "run (wrapErr show_err p m) Q R s = run m Q (\<lambda>f. case f of
    Failed e \<Rightarrow> R (Failed (ErrMsg (p @ show_err e))) | _ \<Rightarrow> R f) s"
  unfolding wrapErr_def run_catchM
  by (rule arg_cong [where f = "\<lambda>R. run m Q R s"]) (simp add: fun_eq_iff run_simps split: failure.split)

lemmas plain_run = run_plain_stmt run_wrapErr run_attempt run_simps sql_query_def sql_exec_def commit_def plain_simps

lemma reported_mongod_simps [simp]:
  "MspMongodStateToModelExecutionState (mspMongod_State (reported_mongod rs)) = MongodExecutionStateRunning"
  "model_role (reported_mongod rs) = ShardingRoleNone" "mspMongod_Port (reported_mongod rs) = 18080"
  "Config_ReplicaSetName (mspMongod_ReplicaSetConfig (reported_mongod rs)) = rs" "mspMongod_StatusError (reported_mongod rs) = None"
  by (simp_all add: reported_mongod_def model_role_def zeroMspMongod_def zeroReplicaSetConfig_def
      ProjectMSPShardingRoleToModelShardingRole_def)

lemmas example_tables = entered_db first_unknown_def second_unknown_def unknown_mongod_def state_row_def empty_DB_def first_slave_def

lemma reports:
  "run (reported ''a'') (\<lambda>_ s. txDB s = first_unknown) (\<lambda>_ _. False) (begin_tx entered)"
  "run (reported ''b'') (\<lambda>_ s. txDB s = second_unknown) (\<lambda>_ _. False) (begin_tx first_unknown)"
  supply MspMongodStateToModelExecutionState.simps [simp del]
     apply (simp_all add: reported_def handleObservation_def handle_reported_def plain_run example_tables updateSlaveObservationError_def)
   apply (simp_all add: updateMongodStatesNotObservedOnSlave_def plain_run mongods_on_slave_def is_reported_def unobserved_mongod_def)
   apply (simp_all add: updateOrCreateObservedMongodStates_def observe_mongod_def plain_run find_observed_def order_by_def limit1_def
      matches_observed_def update_state_def)
   apply (simp_all add: create_unknown_def insert_mongod_def insert_state_def plain_run Let_def)
   apply (simp_all add: update_mongod_def plain_save_def save_row_def zeroState_def zeroMSPError_def updateObservedState_def plain_run with_state_id_def)
   apply (simp_all add: foreign_keys_ok_def mongod_keys_ok_def slave_keys_ok_def plain_run)
   apply (simp_all add: sendMongodMismatchStatusToBus_def compareStates_def mongods_on_slave_def plain_run)
  done

lemma committed_run: "run m (\<lambda>_ s. txDB s = db') (\<lambda>_ _. False) (begin_tx db) \<Longrightarrow> committed m db = db'"
  by (auto simp: committed_def run_def split: prod.splits sum.splits)

lemma example_steps:
  "master_step\<^sup>*\<^sup>* empty_DB second_unknown"
proof -
  let ?codec = "\<lparr>decodeSlave = \<lambda>_. Inr example_api_slave, decodeReplicaSet = \<lambda>_. Inl [], decodeRiskGroup = \<lambda>_. Inl []\<rparr>"
  have "master_step empty_DB entered"
    unfolding entered_def
    by (rule master_step.request [OF plain_dbms_ok, where C = ?codec and verb = PUT and path = "[''slaves'']" and body = "[]"])
      (simp add: api_route_def)
  moreover have step: "master_step db (committed (reported rs) db)" for db rs
    unfolding reported_def by (rule master_step.observe [OF plain_dbms_ok plain_save_documented])
  note step [of entered "''a''", unfolded reports(1) [THEN committed_run]]
    step [of first_unknown "''b''", unfolded reports(2) [THEN committed_run]]
  ultimately show ?thesis
    by (meson converse_rtranclp_into_rtranclp rtranclp.rtrancl_refl)
qed

text \<open>C1: whatever the requests, the reports of the slaves, the messages and the faults of the
  database are, and in whatever order the transactions of the parts of the master run, the tables stay consistent:
  no reference dangles, every Mongod has its own desired state and no other Mongod's observed state, the keys are
  positive and unique, the names of risk groups and replica sets and the hostnames are unique, and every sharding
  role is a valid one.\<close>

theorem reachable_consistent:
  assumes "master_step\<^sup>*\<^sup>* empty_DB db"
  shows "cluster_ok db \<and> db_wf db"
  using master_steps_ok [OF assms empty_cluster_ok] cluster_ok_wf by blast

theorem reachable_consistent_witness: "cluster_ok second_unknown \<and> db_wf second_unknown"
  by (rule reachable_consistent [OF example_steps])

text \<open>The schema does not make the port of a Mongod unique on its slave, and the monitor
  enters a Mongod of an unknown set also on a port that a Mongod in the tables has: the tables can come to
  hold two Mongods of a slave with the same port.\<close>

theorem port_recorded_twice: "\<exists>db. master_step\<^sup>*\<^sup>* empty_DB db \<and> \<not> ports_distinct db"
  by (intro exI [of _ second_unknown] conjI example_steps)
    (simp add: second_unknown_def unknown_mongod_def ports_distinct_def)

end
