(* ===== verification/Observations.thy ===== *)
theory Observations
  imports MonitorInvariant
begin

text \<open>
  What the monitor records of a report: \<open>updateOrCreateObservedMongodStates\<close> of \<open>src/master/monitor.go\<close> for one
  Mongod, with a database and a \<open>Save\<close> that do not fail.  The tables after it are given in full, row by row.
\<close>

section \<open>What an observation records\<close>

text \<open>Which row a report is about: a field that is zero in the report is not compared.\<close>

definition agrees :: "'a \<Rightarrow> 'a \<Rightarrow> 'a \<Rightarrow> bool" where
  "agrees zero reported stored \<longleftrightarrow> reported = zero \<or> stored = reported"

definition identifies :: "Slave \<Rightarrow> mspMongod \<Rightarrow> Mongod \<Rightarrow> bool" where
  "identifies slave om q \<longleftrightarrow> agrees 0 (Slave_ID slave) (Mongod_ParentSlaveID q) \<and>
     agrees 0 (mspMongod_Port om) (Mongod_Port q) \<and>
     agrees [] (Config_ReplicaSetName (mspMongod_ReplicaSetConfig om)) (Mongod_ReplSetName q)"

text \<open>The sharding role that is recorded: the reported one, or none if it is not one of the three.\<close>

definition recorded_role :: "mspMongod \<Rightarrow> ShardingRole" where
  "recorded_role om = (let role = Config_ShardingRole (mspMongod_ReplicaSetConfig om) in
     if role \<in> {ShardingRoleNone, ShardingRoleShardServer, ShardingRoleConfigServer} then role else ShardingRoleNone)"

definition state_row :: "mspMongod \<Rightarrow> ID \<Rightarrow> MongodExecutionState \<Rightarrow> ID \<Rightarrow> MongodStateRow" where
  "state_row om parent e i = \<lparr>State_ID = i, State_ParentMongodID = parent, State_ShardingRole = recorded_role om,
     State_ExecutionState = e\<rparr>"

definition put_row :: "Mongod \<Rightarrow> DB \<Rightarrow> DB" where
  "put_row q db = db\<lparr>mongods := map (\<lambda>p. if Mongod_ID p = Mongod_ID q then q else p) (mongods db)\<rparr>"

text \<open>A report without error: the observed state of the Mongod becomes the reported one, in its row or in a new one.\<close>

definition state_recorded :: "mspMongod \<Rightarrow> Mongod \<Rightarrow> DB \<Rightarrow> DB \<Rightarrow> bool" where
  "state_recorded om q db db' \<longleftrightarrow>
    (let row = state_row om (Mongod_ID q) (MspMongodStateToModelExecutionState (mspMongod_State om)) in
     case Mongod_ObservedStateID q of
       Some i \<Rightarrow> db' = db\<lparr>mongod_states := map (\<lambda>r. if State_ID r = i then row i else r) (mongod_states db)\<rparr>
     | None \<Rightarrow> \<exists>i. i \<notin> State_ID ` set (mongod_states db) \<and>
         db' = put_row (q\<lparr>Mongod_ObservedStateID := Some i\<rparr>) (db\<lparr>mongod_states := mongod_states db @ [row i]\<rparr>))"

text \<open>A report with an error: the error is a new row that the Mongod refers to.  A blank error is not recorded.\<close>

definition error_recorded :: "mspError \<Rightarrow> Mongod \<Rightarrow> DB \<Rightarrow> DB \<Rightarrow> bool" where
  "error_recorded e q db db' \<longleftrightarrow>
    (if Error_Identifier e = [] \<and> Error_Description e = [] \<and> Error_LongDescription e = [] then db' = db
     else \<exists>i. i \<notin> MSPError_ID ` set (msp_errors db) \<and>
       db' = put_row (q\<lparr>Mongod_ObservationErrorID := Some i\<rparr>) (db\<lparr>msp_errors := msp_errors db @
         [\<lparr>MSPError_ID = i, MSPError_Identifier = Error_Identifier e, MSPError_Description = Error_Description e,
           MSPError_LongDescription = Error_LongDescription e\<rparr>]\<rparr>))"

definition recorded :: "mspMongod \<Rightarrow> Mongod \<Rightarrow> DB \<Rightarrow> DB \<Rightarrow> bool" where
  "recorded om q db db' = (case mspMongod_StatusError om of
     None \<Rightarrow> state_recorded om q db db' | Some e \<Rightarrow> error_recorded e q db db')"

text \<open>A Mongod that is not in the tables is entered, to be destroyed by force.\<close>

definition entered :: "Slave \<Rightarrow> mspMongod \<Rightarrow> Mongod \<Rightarrow> DB \<Rightarrow> DB \<Rightarrow> bool" where
  "entered slave om q db db' \<longleftrightarrow> (\<exists>i j. i \<notin> Mongod_ID ` set (mongods db) \<and> j \<notin> State_ID ` set (mongod_states db) \<and>
     q = \<lparr>Mongod_ID = i, Mongod_Port = mspMongod_Port om,
       Mongod_ReplSetName = Config_ReplicaSetName (mspMongod_ReplicaSetConfig om), Mongod_ObservationErrorID = None,
       Mongod_LastEstablishStateErrorID = None, Mongod_ParentSlaveID = Slave_ID slave, Mongod_ReplicaSetID = None,
       Mongod_DesiredStateID = j, Mongod_ObservedStateID = None\<rparr> \<and>
     db' = db\<lparr>mongods := mongods db @ [q],
       mongod_states := mongod_states db @ [state_row om i MongodExecutionStateForceDestroyed j]\<rparr>)"

section \<open>The code records it\<close>

lemma recorded_role: "model_role om = recorded_role om"
  by (simp add: model_role_def recorded_role_def ProjectMSPShardingRoleToModelShardingRole_def Let_def)

lemma matches_identifies: "matches_observed slave om = identifies slave om"
  by (rule ext) (auto simp: matches_observed_def identifies_def agrees_def)

lemma updated_state_row:
  "updateObservedState om (st\<lparr>State_ParentMongodID := p\<rparr>) =
    state_row om p (MspMongodStateToModelExecutionState (mspMongod_State om)) (State_ID st)"
  by (simp add: updateObservedState_def state_row_def recorded_role)

lemma replace_same: "distinct (map key rows) \<Longrightarrow> x \<in> set rows \<Longrightarrow> map (\<lambda>r. if key r = key x then x else r) rows = rows"
  by (rule map_idI) (metis distinct_map inj_onD)

lemma tx_ok_distinct:
  assumes "tx_ok db"
  shows "distinct (map State_ID (mongod_states db))" and "distinct (map Mongod_ID (mongods db))"
  using tx_ok_ids [OF assms] by (simp_all add: serial_def)

text \<open>What was read of the observed state.\<close>

definition observed_row :: "DB \<Rightarrow> Mongod \<Rightarrow> MongodStateRow" where
  "observed_row db q = (case (case Mongod_ObservedStateID q of None \<Rightarrow> None | Some i \<Rightarrow> lookup_state db i) of
     None \<Rightarrow> zeroState | Some st \<Rightarrow> st)"

lemma observed_row_cases:
  assumes "tx_ok db" and "q \<in> set (mongods db)"
  obtains "Mongod_ObservedStateID q = None" "observed_row db q = zeroState"
  | i where "Mongod_ObservedStateID q = Some i" "0 < i" "observed_row db q \<in> set (mongod_states db)"
      "State_ID (observed_row db q) = i"
proof (cases "Mongod_ObservedStateID q")
  case (Some i)
  moreover have "states_owned db q"
    using assms by (simp add: tx_ok_def)
  ultimately obtain st where st: "lookup_state db i = Some st"
    by (auto simp: states_owned_def owns_state_def split: option.splits)
  then have "0 < State_ID st"
    using tx_ok_ids(3) [OF assms(1)] find_row_mem [OF st] by (auto simp: serial_def)
  then show ?thesis
    using that(2) Some st find_row_mem [OF st] find_row_key [OF st] by (simp add: observed_row_def)
qed (use that(1) in \<open>simp add: observed_row_def\<close>)

lemma columns_kept:
  "q\<lparr>Mongod_ObservedStateID := i, Mongod_ObservationErrorID := Mongod_ObservationErrorID q\<rparr> = q\<lparr>Mongod_ObservedStateID := i\<rparr>"
  "q\<lparr>Mongod_ObservedStateID := Mongod_ObservedStateID q, Mongod_ObservationErrorID := j\<rparr> = q\<lparr>Mongod_ObservationErrorID := j\<rparr>"
  by (cases q, simp)+

lemma saved_state_recorded:
  assumes saved: "mongod_saved q (updateObservedState om ((observed_row db q)\<lparr>State_ParentMongodID := Mongod_ID q\<rparr>)) zeroMSPError db db'"
    and ok: "tx_ok db" "q \<in> set (mongods db)"
  shows "state_recorded om q db db'"
proof -
  note MspMongodStateToModelExecutionState.simps [simp del]
  let ?row = "state_row om (Mongod_ID q) (MspMongodStateToModelExecutionState (mspMongod_State om))"
  have "0 < Mongod_ID q"
    using tx_ok_ids(4) [OF ok(1)] ok(2) by (auto simp: serial_def)
  then have row: "?row i \<noteq> zeroState" for i
    by (simp add: state_row_def zeroState_def)
  obtain observed error where
      st: "row_saved State_ID with_state_id zeroState (?row (State_ID (observed_row db q))) (Mongod_ObservedStateID q)
        (mongod_states db) observed (mongod_states db')"
    and "error = Mongod_ObservationErrorID q" "msp_errors db' = msp_errors db"
    and eq: "db' = put_row (q\<lparr>Mongod_ObservedStateID := observed, Mongod_ObservationErrorID := error\<rparr>)
        (db\<lparr>mongod_states := mongod_states db', msp_errors := msp_errors db'\<rparr>)"
    using saved unfolding mongod_saved_def updated_state_row put_row_def
    by (auto simp: row_saved_def [where blank = zeroMSPError])
  then have db': "db' = put_row (q\<lparr>Mongod_ObservedStateID := observed\<rparr>) (db\<lparr>mongod_states := mongod_states db'\<rparr>)"
    by (simp add: columns_kept)
  have key: "State_ID (?row i) = i" "with_state_id i (?row 0) = ?row i" for i
    by (simp_all add: state_row_def with_state_id_def)
  show ?thesis
    using ok
  proof (cases rule: observed_row_cases)
    case 1
    then show ?thesis
      using st db' row by (auto simp: row_saved_def state_recorded_def key zeroState_def split: option.splits
       )
  next
    case (2 i)
    then have "observed = Some i" and states: "mongod_states db' = map (\<lambda>r. if State_ID r = i then ?row i else r) (mongod_states db)"
      using st row by (simp_all add: row_saved_def key)
    then have "q\<lparr>Mongod_ObservedStateID := observed\<rparr> = q"
      using 2(1) by simp
    then have "db' = db\<lparr>mongod_states := mongod_states db'\<rparr>"
      using db' replace_same [OF tx_ok_distinct(2) [OF ok(1)] ok(2)] by (simp add: put_row_def)
    then show ?thesis
      using 2(1) states by (simp add: state_recorded_def)
  qed
qed

lemma saved_error_recorded:
  assumes saved: "mongod_saved q (observed_row db q) (mspErrorToModelMSPError e) db db'"
    and ok: "tx_ok db" "q \<in> set (mongods db)"
  shows "error_recorded e q db db'"
proof -
  obtain observed error where
      st: "row_saved State_ID with_state_id zeroState (observed_row db q) (Mongod_ObservedStateID q)
        (mongod_states db) observed (mongod_states db')"
    and err: "row_saved MSPError_ID with_error_id zeroMSPError (mspErrorToModelMSPError e) (Mongod_ObservationErrorID q)
        (msp_errors db) error (msp_errors db')"
    and db': "db' = put_row (q\<lparr>Mongod_ObservedStateID := observed, Mongod_ObservationErrorID := error\<rparr>)
        (db\<lparr>mongod_states := mongod_states db', msp_errors := msp_errors db'\<rparr>)"
    using saved unfolding mongod_saved_def by (auto simp: put_row_def)
  have "observed = Mongod_ObservedStateID q \<and> mongod_states db' = mongod_states db"
    using ok
  proof (cases rule: observed_row_cases)
    case (2 i)
    then have "observed_row db q \<noteq> zeroState"
      by (auto simp: zeroState_def)
    then show ?thesis
      using st 2 replace_same [OF tx_ok_distinct(1) [OF ok(1)] 2(3)] by (simp add: row_saved_def)
  qed (use st in \<open>simp add: row_saved_def\<close>)
  then have db': "db' = put_row (q\<lparr>Mongod_ObservationErrorID := error\<rparr>) (db\<lparr>msp_errors := msp_errors db'\<rparr>)"
    using db' by (simp add: put_row_def columns_kept)
  show ?thesis
  proof (cases "mspErrorToModelMSPError e = zeroMSPError")
    case True
    then have same: "error = Mongod_ObservationErrorID q" "msp_errors db' = msp_errors db"
      using err by (simp_all add: row_saved_def)
    then have "db' = db"
      using db' replace_same [OF tx_ok_distinct(2) [OF ok(1)] ok(2)] by (simp add: put_row_def)
    then show ?thesis
      using True by (simp add: error_recorded_def mspErrorToModelMSPError_def zeroMSPError_def)
  next
    case False
    then obtain i where i: "error = Some i" "i \<notin> MSPError_ID ` set (msp_errors db)"
        "msp_errors db' = msp_errors db @ [with_error_id i (mspErrorToModelMSPError e)]"
      using err by (auto simp: row_saved_def mspErrorToModelMSPError_def split: option.splits)
    then have "db' = put_row (q\<lparr>Mongod_ObservationErrorID := Some i\<rparr>) (db\<lparr>msp_errors := msp_errors db @
        [\<lparr>MSPError_ID = i, MSPError_Identifier = Error_Identifier e, MSPError_Description = Error_Description e,
          MSPError_LongDescription = Error_LongDescription e\<rparr>]\<rparr>)"
      using db' by (simp add: with_error_id_def mspErrorToModelMSPError_def)
    then show ?thesis
      using False i(2) by (auto simp: error_recorded_def mspErrorToModelMSPError_def zeroMSPError_def)
  qed
qed

lemma run_insert_mongod_total:
  assumes "fault_free D"
    and "\<And>m'. m' = m\<lparr>Mongod_ID := newID D (txCalls s) (map Mongod_ID (mongods (txDB s)))\<rparr> \<Longrightarrow>
      Q m' ((tick s)\<lparr>txDB := (txDB s)\<lparr>mongods := mongods (txDB s) @ [m']\<rparr>\<rparr>)"
  shows "run (insert_mongod D m) Q (\<lambda>_ _. False) s"
  using assms unfolding insert_mongod_def by (intro run_sql_stmt) (auto simp: fault_free_def Let_def)

lemma run_create_unknown_total:
  assumes "dbms_ok D" and "fault_free D"
  shows "run (create_unknown D show_err slave om) (\<lambda>q s'. entered slave om q (txDB s) (txDB s')) (\<lambda>_ _. False) s"
proof -
  have fresh: "newID D n (map Mongod_ID ms) \<notin> Mongod_ID ` set ms" "newID D n (map State_ID sts) \<notin> State_ID ` set sts" for n ms sts
    using dbms_ok_newID [OF assms(1), of n "map Mongod_ID ms"] dbms_ok_newID [OF assms(1), of n "map State_ID sts"] by simp_all
  have only: "map (\<lambda>q. if Mongod_ID q = newID D n (map Mongod_ID ms) then f q else q) ms = ms" for n f and ms :: "Mongod list"
    using fresh(1) [of n ms] by (intro map_idI) (metis imageI)
  show ?thesis
    unfolding create_unknown_def run_bindM
    by (intro run_wrapErr_total run_insert_mongod_total run_insert_state_total run_exec_total assms(2))
      (simp add: run_returnM entered_def state_row_def recorded_role update_mongod_def fresh only)
qed

text \<open>The row that is written to: the first one the report identifies, or a new one.\<close>

definition chosen :: "Slave \<Rightarrow> mspMongod \<Rightarrow> DB \<Rightarrow> DB \<Rightarrow> Mongod \<Rightarrow> bool" where
  "chosen slave om db db1 q \<longleftrightarrow>
    (if \<exists>p \<in> set (mongods db). identifies slave om p
     then db1 = db \<and> q \<in> set (mongods db) \<and> identifies slave om q \<and>
       (\<forall>p \<in> set (mongods db). identifies slave om p \<longrightarrow> Mongod_ID q \<le> Mongod_ID p)
     else entered slave om q db db1)"

lemma run_chosen:
  assumes "dbms_ok D" and "fault_free D" and "tx_ok (txDB s)"
  shows "run (bindM (wrapErr show_err pre (find_observed D slave om)) (\<lambda>found.
    case found of Some m \<Rightarrow> returnM m | None \<Rightarrow> create_unknown D show_err slave om))
    (\<lambda>q s'. (tx_ok (txDB s') \<and> q \<in> set (mongods (txDB s'))) \<and> chosen slave om (txDB s) (txDB s') q) (\<lambda>_ _. False) s"
proof -
  let ?rows = "filter (identifies slave om) (mongods (txDB s))"
  let ?Q = "\<lambda>q s'. (tx_ok (txDB s') \<and> q \<in> set (mongods (txDB s'))) \<and> chosen slave om (txDB s) (txDB s') q"
  have "run (case limit1 (order_by D n Mongod_ID ?rows) of Some m \<Rightarrow> returnM m | None \<Rightarrow> create_unknown D show_err slave om)
      ?Q (\<lambda>_ _. False) (tick s)" for n
  proof (cases "limit1 (order_by D n Mongod_ID ?rows)")
    case None
    then have none: "\<forall>p \<in> set (mongods (txDB s)). \<not> identifies slave om p"
      using order_by_Nil [OF assms(1), of n Mongod_ID ?rows] by (simp add: filter_empty_conv)
    have "tx_ok (txDB (tick s))"
      using assms(3) by simp
    then show ?thesis
      unfolding None option.case
      by (rule run_mono [OF run_conj [OF run_create_unknown [OF assms(1)] run_create_unknown_total [OF assms(1,2)]]])
        (use none in \<open>auto simp: chosen_def\<close>)
  next
    case (Some q)
    have "q \<in> set ?rows"
      using Some by (rule limit1_order_by_Some [OF assms(1)])
    moreover have "Mongod_ID q \<le> Mongod_ID p" if "p \<in> set ?rows" for p
      using limit1_order_by_least [OF assms(1) Some that] .
    ultimately show ?thesis
      using assms(3) by (auto simp: Some run_simps chosen_def)
  qed
  then show ?thesis
    unfolding run_bindM find_observed_def matches_identifies by (intro run_wrapErr_total run_query_total assms(2))
qed

definition never_fails :: "save_mongod \<Rightarrow> bool" where
  "never_fails saveMongod \<longleftrightarrow> (\<forall>m st e n db. \<exists>db'. saveMongod m st e n db = Inr db')"

lemma run_save_total:
  assumes "fault_free D" and "saves_as_documented saveMongod" and "never_fails saveMongod"
    and "\<And>db' s'. mongod_saved m st e (txDB s) db' \<Longrightarrow> txDB s' = db' \<Longrightarrow> Q () s'"
  shows "run (sql_stmt D (\<lambda>n db. map_sum id (\<lambda>db'. ((), db')) (saveMongod m st e n db))) Q (\<lambda>_ _. False) s"
proof -
  obtain db' where db': "saveMongod m st e (txCalls s) (txDB s) = Inr db'"
    using assms(3) unfolding never_fails_def by blast
  then have "mongod_saved m st e (txDB s) db'"
    using assms(2) by (simp add: saves_as_documented_def)
  with db' show ?thesis
    using assms(1,4) by (intro run_sql_stmt) (auto simp: fault_free_def)
qed

lemma run_observe_mongod_total:
  assumes D: "dbms_ok D" "fault_free D" and save: "saves_as_documented saveMongod" "never_fails saveMongod"
    and tx: "tx_ok (txDB s)"
  shows "run (observe_mongod D saveMongod show_err slave om observedMap)
    (\<lambda>r s'. \<exists>q db1. r = observedMap(Mongod_ID q \<mapsto> om) \<and> chosen slave om (txDB s) db1 q \<and> recorded om q db1 (txDB s'))
    (\<lambda>_ _. False) s" (is "run _ ?Q _ s")
proof -
  let ?new = "\<lambda>q db. case mspMongod_StatusError om of
      None \<Rightarrow> (updateObservedState om ((observed_row db q)\<lparr>State_ParentMongodID := Mongod_ID q\<rparr>), zeroMSPError)
    | Some e \<Rightarrow> (observed_row db q, mspErrorToModelMSPError e)"
  have recorded: "recorded om q db db'"
    if "mongod_saved q (fst (?new q db)) (snd (?new q db)) db db'" "tx_ok db" "q \<in> set (mongods db)" for q db db'
    using that saved_state_recorded [of q om db db'] saved_error_recorded [of q db _ db']
    by (cases "mspMongod_StatusError om") (simp_all add: recorded_def)
  have rest: "run (bindM (wrapErr show_err p1 (sql_query D (\<lambda>n db. lookup_state db (Mongod_DesiredStateID q)))) (\<lambda>_.
      bindM (wrapErr show_err p2 (sql_query D (\<lambda>n db. case Mongod_ObservedStateID q of None \<Rightarrow> None | Some i \<Rightarrow> lookup_state db i))) (\<lambda>observed.
      case (case mspMongod_StatusError om of
          None \<Rightarrow> (updateObservedState om ((case observed of None \<Rightarrow> zeroState | Some st \<Rightarrow> st)\<lparr>State_ParentMongodID := Mongod_ID q\<rparr>), zeroMSPError)
        | Some e \<Rightarrow> ((case observed of None \<Rightarrow> zeroState | Some st \<Rightarrow> st), mspErrorToModelMSPError e)) of
        (st, e) \<Rightarrow> bindM (wrapErr show_err p3 (sql_stmt D (\<lambda>n db. map_sum id (\<lambda>db'. ((), db')) (saveMongod q st e n db))))
          (\<lambda>_. returnM (observedMap(Mongod_ID q \<mapsto> om)))))) ?Q (\<lambda>_ _. False) s1"
    if "tx_ok (txDB s1)" "q \<in> set (mongods (txDB s1))" "chosen slave om (txDB s) (txDB s1) q" for q p1 p2 p3 and s1 :: tx
  proof -
    have kept: "\<exists>p db1. observedMap(Mongod_ID q \<mapsto> om) = observedMap(Mongod_ID p \<mapsto> om) \<and> chosen slave om (txDB s) db1 p \<and>
        recorded om p db1 db'" if "mongod_saved q (fst (?new q (txDB s1))) (snd (?new q (txDB s1))) (txDB s1) db'" for db'
      using recorded [OF that] \<open>tx_ok (txDB s1)\<close> \<open>q \<in> set _\<close> \<open>chosen _ _ _ _ q\<close> by blast
    show ?thesis
      unfolding run_bindM
      by (intro run_wrapErr_total run_query_total D(2), fold observed_row_def, unfold split_beta run_bindM)
        (rule run_wrapErr_total, rule run_save_total [OF D(2) save], simp only: run_returnM tick_simps, rule kept)
  qed
  have "run (bindM (bindM (wrapErr show_err (''monitor: database error when querying for Mongod corresponding to observed Mongod `'' @
        mongodTuple slave om @ ''`: '') (find_observed D slave om)) (\<lambda>found.
        case found of Some m \<Rightarrow> returnM m | None \<Rightarrow> create_unknown D show_err slave om)) f) ?Q (\<lambda>_ _. False) s"
    if "\<And>q s1. tx_ok (txDB s1) \<Longrightarrow> q \<in> set (mongods (txDB s1)) \<Longrightarrow> chosen slave om (txDB s) (txDB s1) q \<Longrightarrow>
      run (f q) ?Q (\<lambda>_ _. False) s1" for f
    by (rule run_bind_seq [OF run_chosen [OF D tx]]) (use that in blast)
  note this [OF rest]
  then show ?thesis
    unfolding observe_mongod_def Let_def run_bindM .
qed

section \<open>Properties\<close>

text \<open>C40: over consistent tables, and if neither the database nor \<open>Save\<close> fails, a report about
  a Mongod is recorded at the row it identifies (the lowest key, should there be several) or, if there is none, at a new
  row without replica set, to be destroyed by force.  A report without error makes the reported execution state and sharding role
  the observed state of that Mongod; a report with an error only adds the error to it.  Nothing else in any table changes, and
  the report is kept under the key of the row.  In particular a report without error leaves an earlier error at
  the Mongod, and each report with an error adds a row.\<close>

theorem observation_recorded:
  assumes "dbms_ok D" and "fault_free D" and "saves_as_documented saveMongod" and "never_fails saveMongod"
    and "tx_ok (txDB s)"
  shows "\<exists>s' q db1. observe_mongod D saveMongod show_err slave om observedMap s = (Inr (observedMap(Mongod_ID q \<mapsto> om)), s') \<and>
    (if \<exists>p \<in> set (mongods (txDB s)). identifies slave om p
     then q \<in> set (mongods (txDB s)) \<and> identifies slave om q \<and> db1 = txDB s \<and>
       (\<forall>p \<in> set (mongods (txDB s)). identifies slave om p \<longrightarrow> Mongod_ID q \<le> Mongod_ID p)
     else entered slave om q (txDB s) db1) \<and>
    (case mspMongod_StatusError om of
       None \<Rightarrow> state_recorded om q db1 (txDB s')
     | Some e \<Rightarrow> error_recorded e q db1 (txDB s'))"
  using run_total [OF run_observe_mongod_total [OF assms, of show_err slave om observedMap]]
  unfolding chosen_def recorded_def by fastforce

text \<open>The Mongod of the example is reported as recovering; one that is not known is reported.\<close>

definition recovering :: mspMongod where
  "recovering = zeroMspMongod\<lparr>mspMongod_Port := 18080, mspMongod_State := MongodStateRecovering,
     mspMongod_ReplicaSetConfig := zeroReplicaSetConfig\<lparr>Config_ReplicaSetName := ''repl1'', Config_ShardingRole := ShardingRoleNone\<rparr>\<rparr>"

definition reported_db :: DB where
  "reported_db = running_db\<lparr>slaves := [example_slave 1 True]\<rparr>"

lemma reported_db_tx_ok: "tx_ok reported_db"
  by (simp add: tx_ok_def constraints_ok_def ids_ok_def roles_ok_def serial_def states_owned_def owns_state_def sharding_role_def reported_db_def names_ok_def
      running_db_def example_defs)

lemma plain_save_never_fails: "never_fails plain_save"
  by (simp add: never_fails_def plain_save_def split: prod.split)

theorem observation_recorded_witness:
  "(\<exists>s'. observe_mongod plain_dbms plain_save (\<lambda>_. []) (example_slave 1 True) recovering Map.empty (begin_tx reported_db) =
      (Inr [1 \<mapsto> recovering], s') \<and> mongods (txDB s') = [example_mongod] \<and>
      map State_ExecutionState (mongod_states (txDB s')) = [MongodExecutionStateRunning, MongodExecutionStateRecovering]) \<and>
   (\<exists>s' i. observe_mongod plain_dbms plain_save (\<lambda>_. []) (example_slave 1 True) zeroMspMongod Map.empty (begin_tx empty_DB) =
      (Inr [i \<mapsto> zeroMspMongod], s') \<and> map Mongod_ID (mongods (txDB s')) = [i] \<and>
      map State_ExecutionState (mongod_states (txDB s')) = [MongodExecutionStateForceDestroyed,
        MspMongodStateToModelExecutionState (mspMongod_State zeroMspMongod)])"
proof (intro conjI)
  have "identifies (example_slave 1 True) recovering example_mongod" and "mongods reported_db = [example_mongod]"
    and "MspMongodStateToModelExecutionState (mspMongod_State recovering) = MongodExecutionStateRecovering"
    and "mspMongod_StatusError recovering = None"
    by (simp_all add: identifies_def agrees_def recovering_def reported_db_def running_db_def example_defs zeroMspMongod_def)
  moreover have tx: "tx_ok (txDB (begin_tx reported_db))"
    using reported_db_tx_ok by simp
  ultimately show "\<exists>s'. observe_mongod plain_dbms plain_save (\<lambda>_. []) (example_slave 1 True) recovering Map.empty (begin_tx reported_db) =
      (Inr [1 \<mapsto> recovering], s') \<and> mongods (txDB s') = [example_mongod] \<and>
      map State_ExecutionState (mongod_states (txDB s')) = [MongodExecutionStateRunning, MongodExecutionStateRecovering]"
    using observation_recorded [OF plain_dbms_ok plain_dbms_fault_free plain_save_documented plain_save_never_fails tx,
        of "\<lambda>_. []" "example_slave 1 True" recovering Map.empty]
    by (auto simp: state_recorded_def state_row_def Let_def reported_db_def running_db_def example_defs simp del: MspMongodStateToModelExecutionState.simps)
next
  have tx: "tx_ok (txDB (begin_tx empty_DB))"
    using cluster_ok_tx_ok [OF empty_cluster_ok] by simp
  from observation_recorded [OF plain_dbms_ok plain_dbms_fault_free plain_save_documented plain_save_never_fails tx,
      of "\<lambda>_. []" "example_slave 1 True" zeroMspMongod Map.empty]
  show "\<exists>s' i. observe_mongod plain_dbms plain_save (\<lambda>_. []) (example_slave 1 True) zeroMspMongod Map.empty (begin_tx empty_DB) =
      (Inr [i \<mapsto> zeroMspMongod], s') \<and> map Mongod_ID (mongods (txDB s')) = [i] \<and>
      map State_ExecutionState (mongod_states (txDB s')) = [MongodExecutionStateForceDestroyed,
        MspMongodStateToModelExecutionState (mspMongod_State zeroMspMongod)]"
    by (auto simp: entered_def state_recorded_def state_row_def put_row_def Let_def zeroMspMongod_def empty_DB_def
        simp del: MspMongodStateToModelExecutionState.simps)
qed

end
