(* ===== verification/TestDatabase.thy ===== *)
theory TestDatabase
  imports Migration
begin

text \<open>
  The databases of the tests, \<open>InitializeTestDB\<close>, \<open>InitializeTestDBFromFile\<close> and \<open>CloseAndDrop\<close> of
  \<open>src/model/db.go\<close>, on a server that holds databases by name.  PostgreSQL does not drop a database that has
  connections, so the server also keeps the names of the databases gorm is connected to.

  The environment, the file, the random numbers, the effect of a line of SQL and the faults of each step are
  parameters.  \<open>Fatalf\<close> and \<open>Panic\<close> of the logger end the run.
\<close>

section \<open>The server\<close>

record db_server =
  ds_databases :: "string \<rightharpoonup> store"
  ds_connected :: "string list"
  ds_calls :: nat

datatype db_stop = DbFatal string | DbPanic string

type_synonym 'a server_action = "(db_server, db_stop, 'a) sem"

type_synonym tables = "DB \<times> metadata_rows"

record test_env =
  te_dsn :: string
  te_fault :: "nat \<Rightarrow> string option"
  te_opening :: db_opening
  te_rand :: "nat \<Rightarrow> nat"
  te_open_file :: "string \<Rightarrow> string + string list"
  te_run_line :: "string \<Rightarrow> tables \<Rightarrow> string + tables"

text \<open>The struct \<open>DB\<close>; a connection made by \<open>InitializeDB\<close> has neither name nor DSN.\<close>

record db_handle =
  dh_Driver :: string
  dh_dbName :: "string option"
  dh_connDSN :: "string option"

definition opened_handle :: "string \<Rightarrow> db_handle" where
  "opened_handle driver = \<lparr>dh_Driver = driver, dh_dbName = None, dh_connDSN = None\<rparr>"

text \<open>A call to the server: its error, or its effect.\<close>

definition server_call :: "test_env \<Rightarrow> (db_server \<Rightarrow> string + 'a \<times> db_server) \<Rightarrow> (string + 'a) server_action" where
  "server_call E f = (\<lambda>s.
    let s1 = s\<lparr>ds_calls := Suc (ds_calls s)\<rparr> in
    case te_fault E (ds_calls s) of
      Some err \<Rightarrow> (Inr (Inl err), s1)
    | None \<Rightarrow> (case f s1 of Inl err \<Rightarrow> (Inr (Inl err), s1) | Inr (x, s2) \<Rightarrow> (Inr (Inr x), s2)))"

definition or_fatal :: "string \<Rightarrow> (string + 'a) server_action \<Rightarrow> 'a server_action" where
  "or_fatal msg m = bindM m (\<lambda>r. case r of Inl err \<Rightarrow> raiseM (DbFatal (msg @ err)) | Inr x \<Rightarrow> returnM x)"

definition sql_Open :: "test_env \<Rightarrow> (string + unit) server_action" where
  "sql_Open E = server_call E (\<lambda>s. Inr ((), s))"

definition create_database :: "test_env \<Rightarrow> string \<Rightarrow> (string + unit) server_action" where
  "create_database E name = server_call E (\<lambda>s. if ds_databases s name \<noteq> None then Inl ''database already exists''
     else Inr ((), s\<lparr>ds_databases := (ds_databases s)(name \<mapsto> \<lparr>st_schema = None, st_calls = 0\<rparr>)\<rparr>))"

definition gorm_Open :: "test_env \<Rightarrow> string \<Rightarrow> (string + unit) server_action" where
  "gorm_Open E name = server_call E (\<lambda>s. if ds_databases s name = None then Inl ''database does not exist''
     else Inr ((), s\<lparr>ds_connected := name # ds_connected s\<rparr>))"

definition gorm_Close :: "test_env \<Rightarrow> string \<Rightarrow> (string + unit) server_action" where
  "gorm_Close E name = server_call E (\<lambda>s. Inr ((), s\<lparr>ds_connected := remove1 name (ds_connected s)\<rparr>))"

definition drop_database :: "test_env \<Rightarrow> string \<Rightarrow> (string + unit) server_action" where
  "drop_database E name = server_call E (\<lambda>s. if ds_databases s name = None then Inl ''database does not exist''
     else if name \<in> set (ds_connected s) then Inl ''database is being accessed by other users''
     else Inr ((), s\<lparr>ds_databases := (ds_databases s)(name := None)\<rparr>))"

text \<open>A computation on one database.\<close>

definition in_database :: "string \<Rightarrow> 'a store_action \<Rightarrow> (string + 'a) server_action" where
  "in_database name m = (\<lambda>s. case ds_databases s name of
     None \<Rightarrow> (Inr (Inl ''database does not exist''), s)
   | Some st \<Rightarrow> (case m st of (r, st') \<Rightarrow> (Inr r, s\<lparr>ds_databases := (ds_databases s)(name \<mapsto> st')\<rparr>)))"

section \<open>Creating a database\<close>

definition name_chars :: string where
  "name_chars = ''abcdefghijklmnopqrstuvwxyz0123456789''"

definition randomDBName :: "(nat \<Rightarrow> nat) \<Rightarrow> string \<Rightarrow> nat \<Rightarrow> string" where
  "randomDBName rand pre strlen = pre @ map (\<lambda>i. name_chars ! rand i) [0..<strlen]"

type_synonym test_db = "db_handle option \<times> string \<times> string option"

definition InitializeTestDB :: "test_env \<Rightarrow> test_db server_action" where
  "InitializeTestDB E =
    (if te_dsn E = [] then raiseM (DbPanic ''MAMID_TESTDB_DSN environment variable is not set'')
     else bindM (or_fatal ''cannot connect to test database: '' (sql_Open E)) (\<lambda>_.
       let dbName = randomDBName (te_rand E) ''mamid_testing_'' 20; dsn = te_dsn E @ '' dbname='' @ dbName in
       bindM (or_fatal (''cannot create test database `'' @ dbName @ ''`: '') (create_database E dbName)) (\<lambda>_.
       bindM (or_fatal (''cannot open just created test database `'' @ dsn @ ''`: '') (gorm_Open E dbName)) (\<lambda>_.
       bindM (in_database dbName (migrate (te_opening E))) (\<lambda>r. returnM (case r of
         Inl err \<Rightarrow> (None, dsn, Some (''could not migrate database: '' @ err))
       | Inr _ \<Rightarrow> (Some \<lparr>dh_Driver = ''postgres'', dh_dbName = Some dbName, dh_connDSN = Some (te_dsn E)\<rparr>, dsn, None)))))))"

text \<open>The lines of the file run in a transaction, after the metadata have been deleted outside of it.  If
  \<open>sql.Open\<close> fails, the deferred \<open>Close\<close> is called on nil.\<close>

fun run_lines :: "test_env \<Rightarrow> string list \<Rightarrow> tables \<Rightarrow> string + tables" where
  "run_lines E [] t = Inr t"
| "run_lines E (l # ls) t = (case te_run_line E l t of Inl err \<Rightarrow> Inl err | Inr t' \<Rightarrow> run_lines E ls t')"

definition delete_metadata :: "test_env \<Rightarrow> string \<Rightarrow> (string + tables) server_action" where
  "delete_metadata E name = server_call E (\<lambda>s. case ds_databases s name of
     Some st \<Rightarrow> (case st_schema st of
         Some (db, _) \<Rightarrow> Inr ((db, []), s\<lparr>ds_databases := (ds_databases s)(name \<mapsto> st\<lparr>st_schema := Some (db, [])\<rparr>)\<rparr>)
       | None \<Rightarrow> Inl ''relation does not exist'')
   | None \<Rightarrow> Inl ''database does not exist'')"

definition commit_lines :: "test_env \<Rightarrow> string \<Rightarrow> tables \<Rightarrow> (string + unit) server_action" where
  "commit_lines E name t = server_call E (\<lambda>s. case ds_databases s name of
     Some st \<Rightarrow> Inr ((), s\<lparr>ds_databases := (ds_databases s)(name \<mapsto> st\<lparr>st_schema := Some t\<rparr>)\<rparr>)
   | None \<Rightarrow> Inl ''database does not exist'')"

definition load_lines :: "test_env \<Rightarrow> string \<Rightarrow> string list \<Rightarrow> db_handle option \<Rightarrow> string \<Rightarrow> test_db server_action" where
  "load_lines E name ls db dsn =
    bindM (sql_Open E) (\<lambda>r. case r of Inl err \<Rightarrow> raiseM (DbPanic ''nil pointer dereference'') | Inr _ \<Rightarrow>
    bindM (server_call E (\<lambda>s. Inr ((), s))) (\<lambda>r. case r of Inl err \<Rightarrow> returnM (db, dsn, Some err) | Inr _ \<Rightarrow>
    bindM (delete_metadata E name) (\<lambda>r. case r of Inl err \<Rightarrow> returnM (None, [], Some err) | Inr t \<Rightarrow>
    (case run_lines E ls t of Inl err \<Rightarrow> returnM (None, [], Some err) | Inr t' \<Rightarrow>
    bindM (commit_lines E name t') (\<lambda>r. returnM (db, dsn, case r of Inl err \<Rightarrow> Some err | Inr _ \<Rightarrow> None))))))"

definition InitializeTestDBFromFile :: "test_env \<Rightarrow> string \<Rightarrow> test_db server_action" where
  "InitializeTestDBFromFile E path =
    bindM (InitializeTestDB E) (\<lambda>(db, dsn, err).
    if err \<noteq> None then returnM (db, dsn, err)
    else case te_open_file E path of
      Inl err \<Rightarrow> returnM (db, dsn, Some err)
    | Inr ls \<Rightarrow> load_lines E (randomDBName (te_rand E) ''mamid_testing_'' 20) ls db dsn)"

section \<open>Dropping it\<close>

definition CloseAndDrop :: "test_env \<Rightarrow> db_handle \<Rightarrow> unit server_action" where
  "CloseAndDrop E h = (case (dh_dbName h, dh_connDSN h) of
     (Some name, Some dsn) \<Rightarrow>
       bindM (or_fatal ''could not close connection with database open: '' (gorm_Close E name)) (\<lambda>_.
       bindM (or_fatal ''cannot connect to test database: '' (sql_Open E)) (\<lambda>_.
       or_fatal (''could not drop database `'' @ name @ ''`: '') (drop_database E name)))
   | _ \<Rightarrow> raiseM (DbFatal ''model.DB object not initialized for dropping database''))"

section \<open>Properties\<close>

lemmas server_defs = or_fatal_def sql_Open_def create_database_def gorm_Open_def gorm_Close_def drop_database_def
  server_call_def in_database_def bindM_def returnM_def raiseM_def Let_def

text \<open>The name needs no quotes in SQL, and no connection of the master is ever dropped.\<close>

theorem test_name_plain:
  assumes "\<forall>i. rand i < 36"
  shows "set (randomDBName rand ''mamid_testing_'' n) \<subseteq> set (''_'' @ name_chars) \<and>
    length (randomDBName rand ''mamid_testing_'' n) = 14 + n"
proof -
  have "length name_chars = 36"
    by (simp add: name_chars_def)
  then have "name_chars ! rand i \<in> set name_chars" for i
    using assms by simp
  moreover have "set ''mamid_testing_'' \<subseteq> set (''_'' @ name_chars)"
    by (simp add: name_chars_def)
  ultimately show ?thesis
    unfolding randomDBName_def by auto
qed

theorem only_test_databases_dropped:
  "CloseAndDrop E (opened_handle driver) s =
    (Inl (DbFatal ''model.DB object not initialized for dropping database''), s)"
  by (simp add: CloseAndDrop_def opened_handle_def raiseM_def)

text \<open>A test database that was created is new and has the schema of the program; no other database is
  touched.\<close>

theorem test_database_created:
  assumes "sound (te_opening E)" and "InitializeTestDB E s = (Inr (Some h, dsn, err), s')"
  defines "name \<equiv> randomDBName (te_rand E) ''mamid_testing_'' 20"
  shows "ds_databases s name = None \<and> (\<exists>st. ds_databases s' = (ds_databases s)(name \<mapsto> st) \<and>
      st_schema st = Some (empty_DB, [(''schema_version'', SCHEMA_VERSION)])) \<and>
    ds_connected s' = name # ds_connected s \<and> h = \<lparr>dh_Driver = ''postgres'', dh_dbName = Some name, dh_connDSN = Some (te_dsn E)\<rparr>"
proof -
  have "migrate (te_opening E) \<lparr>st_schema = None, st_calls = 0\<rparr> =
      (Inr (), \<lparr>st_schema = Some (empty_DB, [(''schema_version'', SCHEMA_VERSION)]), st_calls = 3\<rparr>)"
    using assms(1) by (simp add: migration_defs)
  then show ?thesis
    using assms(2) unfolding name_def
    by (auto simp: InitializeTestDB_def server_defs split: if_splits option.splits sum.splits prod.splits)
qed

text \<open>Creating and dropping a test database leaves the databases of the server as they were.\<close>

theorem test_database_dropped:
  assumes "sound (te_opening E)" and "InitializeTestDB E s = (Inr (Some h, dsn, err), s')" and "\<forall>n. te_fault E n = None"
    and "randomDBName (te_rand E) ''mamid_testing_'' 20 \<notin> set (ds_connected s)"
  shows "\<exists>s''. CloseAndDrop E h s' = (Inr (), s'') \<and> ds_databases s'' = ds_databases s \<and> ds_connected s'' = ds_connected s"
proof -
  note created = test_database_created [OF assms(1,2)]
  then show ?thesis
    using assms(3,4) by (auto simp: CloseAndDrop_def server_defs fun_upd_idem)
qed

text \<open>A file that cannot be opened leaves the database that was created for it.\<close>

theorem test_database_leaked:
  assumes "InitializeTestDB E s = (Inr (Some h, dsn, None), s')" and "te_open_file E path = Inl e"
  shows "InitializeTestDBFromFile E path s = (Inr (Some h, dsn, Some e), s')"
  using assms by (simp add: InitializeTestDBFromFile_def bindM_def returnM_def)

definition example_test_env :: test_env where
  "example_test_env = \<lparr>te_dsn = ''host=db'', te_fault = \<lambda>_. None, te_opening = example_opening, te_rand = \<lambda>_. 0,
     te_open_file = \<lambda>_. Inl ''no such file'', te_run_line = \<lambda>_ t. Inr t\<rparr>"

end
