(* ===== verification/Uncalled.thy ===== *)
theory Uncalled
  imports ApiCreate SlaveMongodProps "HOL-Library.List_Lexorder" "HOL-Library.Char_ord"
begin

text \<open>
  Operations of the program that nothing calls: \<open>replicaSets\<close> of \<open>src/master/cluster_allocator.go\<close>, which loads
  all replica sets with their Mongods, and the sort order \<open>mongodMembers\<close> of
  \<open>src/slave/mongodconfigurator.go\<close>.
\<close>

section \<open>Replica sets with their Mongods\<close>

text \<open>A Mongod with its observed state, desired state and slave.  A missing state is tolerated and leaves the zero
  value of the struct; a missing slave is a panic.\<close>

type_synonym full_mongod = "Mongod \<times> MongodStateRow \<times> MongodStateRow \<times> Slave"

definition related_state :: "dbms \<Rightarrow> ID option \<Rightarrow> MongodStateRow action" where
  "related_state D i = bindM (orPanic (sql_query D (\<lambda>_ db. Option.bind i (lookup_state db))))
    (\<lambda>r. returnM (case r of None \<Rightarrow> zeroState | Some st \<Rightarrow> st))"

definition load_mongod :: "dbms \<Rightarrow> Mongod \<Rightarrow> full_mongod action" where
  "load_mongod D m =
    bindM (related_state D (Mongod_ObservedStateID m)) (\<lambda>observed.
    bindM (related_state D (Some (Mongod_DesiredStateID m))) (\<lambda>desired.
    bindM (orPanic (find_or_err D (\<lambda>_ db. lookup_slave db (Mongod_ParentSlaveID m)))) (\<lambda>parentSlave.
    returnM (m, observed, desired, parentSlave))))"

definition load_replica_set :: "dbms \<Rightarrow> ReplicaSet \<Rightarrow> (ReplicaSet \<times> full_mongod list) action" where
  "load_replica_set D r =
    bindM (orPanic (sql_query D (\<lambda>n db. scan D n [m \<leftarrow> mongods db. Mongod_ReplicaSetID m = Some (ReplicaSet_ID r)])))
      (\<lambda>ms. bindM (mapM (load_mongod D) ms) (\<lambda>xs. returnM (r, xs)))"

definition replicaSets :: "dbms \<Rightarrow> (ReplicaSet \<times> full_mongod list) list action" where
  "replicaSets D = bindM (orPanic (sql_query D (\<lambda>n db. scan D n (replica_sets db)))) (mapM (load_replica_set D))"

text \<open>What the loaded objects hold.\<close>

definition row_of :: "DB \<Rightarrow> ID option \<Rightarrow> MongodStateRow" where
  "row_of db i = (case Option.bind i (lookup_state db) of None \<Rightarrow> zeroState | Some st \<Rightarrow> st)"

definition full :: "DB \<Rightarrow> Mongod \<Rightarrow> full_mongod" where
  "full db m = (m, row_of db (Mongod_ObservedStateID m), row_of db (Some (Mongod_DesiredStateID m)), host_of db m)"

definition loaded :: "DB \<Rightarrow> ReplicaSet \<times> full_mongod list \<Rightarrow> bool" where
  "loaded db x = (\<exists>ms. snd x = map (full db) ms \<and>
     mset ms = {#m \<in># mset (mongods db). Mongod_ReplicaSetID m = Some (ReplicaSet_ID (fst x))#})"

lemma run_mapM:
  assumes "\<And>x s. x \<in> set xs \<Longrightarrow> txDB s = db \<Longrightarrow> run (f x) (\<lambda>y s'. R x y \<and> txDB s' = db) (\<lambda>_ _. False) s" and "txDB s = db"
  shows "run (mapM f xs) (\<lambda>ys s'. list_all2 R xs ys \<and> txDB s' = db) (\<lambda>_ _. False) s"
  using assms
proof (induction xs arbitrary: s)
  case (Cons x xs)
  have "run (mapM f xs) (\<lambda>ys s'. list_all2 R xs ys \<and> txDB s' = db) (\<lambda>_ _. False) s'" if "txDB s' = db" for s'
    by (rule Cons.IH) (use Cons.prems that in auto)
  then have "run (bindM (mapM f xs) (\<lambda>ys. returnM (y # ys))) (\<lambda>ys s'. list_all2 R (x # xs) ys \<and> txDB s' = db) (\<lambda>_ _. False) s'"
    if "R x y \<and> txDB s' = db" for y s'
    unfolding run_bindM by (rule run_mono) (use that in \<open>auto simp: run_returnM\<close>)
  then show ?case
    unfolding mapM.simps run_bindM [of "f x"]
    by (intro run_mono [OF Cons.prems(1)] Cons.prems(2)) auto
qed (simp add: run_simps)

lemma run_related_state:
  assumes "fault_free D" and "txDB s = db"
  shows "run (related_state D i) (\<lambda>st s'. st = row_of db i \<and> txDB s' = db) (\<lambda>_ _. False) s"
  unfolding related_state_def run_bindM run_orPanic
  by (rule run_mono [OF run_query_total]) (use assms in \<open>auto simp: run_simps row_of_def\<close>)

lemma run_load_mongod:
  assumes "fault_free D" and "foreign_keys_ok db" and "m \<in> set (mongods db)" and "txDB s = db"
  shows "run (load_mongod D m) (\<lambda>x s'. x = full db m \<and> txDB s' = db) (\<lambda>_ _. False) s"
proof -
  have "mongod_keys_ok db m"
    using assms(2,3) by (simp add: foreign_keys_ok_def)
  then obtain slave where slave: "lookup_slave db (Mongod_ParentSlaveID m) = Some slave"
    by (cases "lookup_slave db (Mongod_ParentSlaveID m)") (auto simp: mongod_keys_ok_def refers_def find_row_None_iff)
  show ?thesis
    unfolding load_mongod_def run_bindM
    by (rule run_mono [OF run_related_state [OF assms(1,4)]], rule run_mono [OF run_related_state [OF assms(1)]], blast)
      (use slave in \<open>auto simp: run_orPanic run_returnM full_def host_of_def intro!: run_find_or_err [OF assms(1)]\<close>)
qed

lemma run_load_replica_set:
  assumes "dbms_ok D" and "fault_free D" and "foreign_keys_ok db" and "txDB s = db"
  shows "run (load_replica_set D r) (\<lambda>x s'. (fst x = r \<and> loaded db x) \<and> txDB s' = db) (\<lambda>_ _. False) s"
proof -
  let ?ms = "[m \<leftarrow> mongods db. Mongod_ReplicaSetID m = Some (ReplicaSet_ID r)]"
  have "run (mapM (load_mongod D) ms) (\<lambda>xs s'. list_all2 (\<lambda>m x. x = full db m) ms xs \<and> txDB s' = db) (\<lambda>_ _. False) s'"
    if "mset ms = mset ?ms" "txDB s' = db" for ms s'
    using mset_eq_setD [OF that(1)] that(2) by (intro run_mapM run_load_mongod [OF assms(2,3)]) auto
  then have "run (bindM (mapM (load_mongod D) ms) (\<lambda>xs. returnM (r, xs)))
      (\<lambda>x s'. (fst x = r \<and> loaded db x) \<and> txDB s' = db) (\<lambda>_ _. False) s'"
    if "mset ms = mset ?ms" "txDB s' = db" for ms s'
    unfolding run_bindM
    by (rule run_mono) (use that in \<open>auto simp: run_returnM loaded_def list_all2_conv_all_nth list_eq_iff_nth_eq
      intro!: exI [of _ ms]\<close>)
  then show ?thesis
    unfolding load_replica_set_def run_bindM [of "orPanic _"] run_orPanic
    by (intro run_mono [OF run_query_total]) (use assms in \<open>auto simp: mset_scan\<close>)
qed

text \<open>Every replica set is loaded once, with exactly its Mongods, their states and their slaves, and the tables are
  only read.\<close>

theorem replicaSets_correct:
  assumes "dbms_ok D" and "fault_free D" and "foreign_keys_ok (txDB s)"
  shows "\<exists>xs s'. replicaSets D s = (Inr xs, s') \<and> txDB s' = txDB s \<and>
    mset (map fst xs) = mset (replica_sets (txDB s)) \<and> (\<forall>x\<in>set xs. loaded (txDB s) x)"
proof -
  let ?db = "txDB s"
  have loop: "run (mapM (load_replica_set D) rs) (\<lambda>xs s'. list_all2 (\<lambda>r x. fst x = r \<and> loaded ?db x) rs xs \<and> txDB s' = ?db)
      (\<lambda>_ _. False) s'" if "txDB s' = ?db" for rs s'
    by (intro run_mapM run_load_replica_set assms that)
  have split: "map fst xs = rs \<and> (\<forall>x\<in>set xs. loaded ?db x)"
    if "list_all2 (\<lambda>r x. fst x = r \<and> loaded ?db x) rs xs" for rs xs
    using that by induction auto
  have all: "run (mapM (load_replica_set D) rs)
      (\<lambda>xs s'. txDB s' = ?db \<and> map fst xs = rs \<and> (\<forall>x\<in>set xs. loaded ?db x)) (\<lambda>_ _. False) s'"
    if "txDB s' = ?db" for rs s'
    by (rule run_mono [OF loop [OF that]]) (auto dest: split)
  have "run (replicaSets D) (\<lambda>xs s'. txDB s' = ?db \<and> mset (map fst xs) = mset (replica_sets ?db) \<and>
      (\<forall>x\<in>set xs. loaded ?db x)) (\<lambda>_ _. False) s"
    unfolding replicaSets_def run_bindM run_orPanic
    by (rule run_mono [OF run_query_total [OF assms(2)]], rule run_mono [OF all]) (auto simp: mset_scan [OF assms(1)] simp flip: mset_map)
  from run_total [OF this] show ?thesis by blast
qed

section \<open>The order of members\<close>

text \<open>An index out of range panics: \<open>None\<close>.\<close>

definition Len :: "ReplicaSetMember list \<Rightarrow> nat" where
  "Len m = length m"

definition Less :: "ReplicaSetMember list \<Rightarrow> nat \<Rightarrow> nat \<Rightarrow> bool option" where
  "Less m i j =
    (if i < length m \<and> j < length m then
       let diff = HostPort_Port (Member_HostPort (m ! i)) - HostPort_Port (Member_HostPort (m ! j)) in
       Some (if diff < 0 then True else if diff > 0 then False
         else HostPort_Hostname (Member_HostPort (m ! i)) < HostPort_Hostname (Member_HostPort (m ! j)))
     else None)"

definition Swap :: "ReplicaSetMember list \<Rightarrow> nat \<Rightarrow> nat \<Rightarrow> ReplicaSetMember list option" where
  "Swap m i j = (if i < length m \<and> j < length m then Some (m[i := m ! j, j := m ! i]) else None)"

lemma Swap_permutes: "Swap m i j = Some m' \<Longrightarrow> mset m' = mset m"
  by (auto simp: Swap_def mset_swap split: if_splits)

text \<open>The difference of two ports is unsigned, so a smaller port is never less.\<close>

theorem Less_never_by_port:
  "Less m i j = Some True \<longleftrightarrow> i < Len m \<and> j < Len m \<and>
    HostPort_Port (Member_HostPort (m ! i)) = HostPort_Port (Member_HostPort (m ! j)) \<and>
    HostPort_Hostname (Member_HostPort (m ! i)) < HostPort_Hostname (Member_HostPort (m ! j))"
  by (auto simp: Less_def Len_def Let_def word_gt_0)

end
