(* ===== verification/Spec2Isabelle.thy ===== *)
theory Spec2Isabelle
  imports Periodic Migration Secrets Deployer ProblemManager Bus ApiCreate SlaveMongodProps Protocol Notifier BusyTable ProcessTable MasterMain SlaveMain NotifierMain MasterRun Observations TestDatabase Uncalled
begin

text \<open>
  MAMID manages MongoDB replica sets on a fleet of machines, the slaves.  A master keeps the wanted and
  the observed state in a PostgreSQL database and is told what is wanted over an HTTP API; a program
  on each slave starts and stops Mongods and reports what runs; a notifier mails problems.  This
  development models all three programs, written in Go under \<open>src/\<close>, and proves what makes them correct.

  \<^bold>\<open>How the parts interact.\<close>  An API request or a timer runs the cluster allocator inside a
  transaction: it decides which Mongods exist, on which slave and port, and whether they are to run.
  The monitor asks every slave for its Mongods, stores the observation and writes to the bus: connection
  states, mismatches between wanted and observed state, replica sets without initiation.  The deployer reads
  mismatches and pushes the wanted state to the slave, the problem manager turns messages into stored
  problems.  Master and slave talk over HTTPS with JSON bodies.  On the slave the controller
  compares with the running processes, manages directories and lets the configurator
  talk to MongoDB.

  \<^bold>\<open>Vocabulary.\<close>
  \<^item> \<open>Prelude\<close>: computations with state and errors (\<open>sem\<close>), their weakest preconditions \<open>run\<close>, and the contract
    of loop bodies (locale \<open>loop_body\<close>); rows with a primary key, SQL's three-valued logic, decimal numbers.
  \<^item> \<open>Database\<close>: the tables and views of \<open>src/model/sql/mamid_postgresql.sql\<close> as lists of rows, statements as
    \<open>sql_stmt\<close>, transactions by the copy of the tables a rollback restores.  A \<open>dbms\<close> fixes what PostgreSQL
    leaves open: which statement fails with which error, the identifiers it gives out, the order it returns rows
    in and its clock; every commit checks the foreign keys; \<open>dbms_ok\<close> states what it documents.  \<open>Tables\<close> has the invariant \<open>db_wf\<close> of the
    tables and the rules for statements.
  \<^item> \<open>Msp\<close> and \<open>Model\<close>: the structs of \<open>src/msp/dataobjects.go\<close>, \<open>src/model/db.go\<close> and \<open>src/model/messages.go\<close> as
    records, ports as 16-bit words; \<open>Projections\<close>: the conversions between the database, the protocol and the API
    (locales \<open>projection\<close> and \<open>inverse_projection\<close>).

  \<^bold>\<open>Master.\<close>
  \<^item> \<open>Ports\<close>, \<open>Allocator\<close>: \<open>findUnusedPort\<close> and \<open>CompileMongodLayout\<close> of \<open>src/master/cluster_allocator.go\<close>,
    statement by statement.  \<open>AllocSteps\<close> abstracts a run to a step relation \<open>alloc_step\<close> with its
    invariants; \<open>AllocRun\<close> shows that a run is a sequence of such steps and what it achieves: every replica
    set gets its members or no slave is left that could take one, but for those the query passes over by mistake, never two in a risk group, never more than
    wanted, no running member given up too early.  \<open>Periodic\<close>: the timer around it, \<open>Members\<close>: priorities and votes of
    the members of a replica set, \<open>Secrets\<close>: the keyfile and the management user.
  \<^item> \<open>Monitor\<close>, \<open>Deployer\<close>, \<open>ProblemManager\<close>, \<open>Bus\<close>: the files of the same names under \<open>src/master\<close>.  The bus is a
    transition relation over bounded queues: one order of its messages explains what all writers wrote and all
    readers got, and a reader loses none as long as its channel has room; the others are functions of a message or an answer and the tables.
  \<^item> \<open>MasterApi\<close>, \<open>ApiResources\<close>: every handler under \<open>src/master/masterapi\<close>, with what it writes to the
    response, and the routes.  \<open>ApiSafety\<close>: requests answered with an error change nothing; \<open>ApiChanges\<close>,
    \<open>ApiSlaves\<close>, \<open>ApiCreate\<close>: what the changing requests do together with the allocator they run.
  \<^item> \<open>Observations\<close>: the exact tables after a slave has reported a Mongod, known or unknown, with or without an error.
  \<^item> \<open>Schema\<close>, \<open>ApiInvariant\<close>, \<open>MonitorInvariant\<close>, \<open>MasterRun\<close>: the invariant \<open>cluster_ok\<close> of the stored tables:
    serial keys, unique names, valid roles, states that belong to their Mongod, and the foreign keys.  The first three show that each handler,
    report, message and run of the allocator either keeps it or stores nothing; the last takes them as the steps
    of a relation \<open>master_step\<close> and concludes that every reachable database is as the schema wants it.  It also reaches one in which
    two Mongods of a slave have the same port, which the schema permits.
  \<^item> \<open>Migration\<close>: opening a database and creating its schema, \<open>src/model/db.go\<close>; \<open>TestDatabase\<close>: the
    databases its tests create and drop.  \<open>MasterMain\<close>: \<open>main\<close> of
    \<open>src/master/cmd/master.go\<close>, from the flags to serving: in which order the components start, with which channels,
    and how the API is protected.

  \<^bold>\<open>Slave.\<close>
  \<^item> \<open>SlaveFiles\<close>, \<open>SlaveController\<close>: \<open>src/slave/procmgr_fs.go\<close>, \<open>procmgr_cmdline.go\<close>, \<open>processmanager.go\<close> and \<open>controller.go\<close>
    over an abstract file system and a set of running processes; a call that fails may have made or removed a part
    of the directories.  \<open>SlaveProps\<close>: which files a request can change and when data is deleted, what
    a process finds when it starts, what is reported (locale \<open>configurator\<close>).
  \<^item> \<open>SlaveMongod\<close>: \<open>mongodconfigurator.go\<close> and \<open>mongodb.go\<close>, with the commands sent to MongoDB as the state;
    \<open>SlaveMongodProps\<close>: which commands are sent when, how member identifiers are kept, that what is
    written is read back.
  \<^item> \<open>BusyTable\<close>: the locks of \<open>controller_synchronization.go\<close> with threads interleaved at every access to the
    map and every operation on a mutex.  \<open>ProcessTable\<close> adds the processes, the goroutines that wait for them and the table of running processes; it
    shows that a request can rely on the table, where it cannot, that the goroutines alone clear the entry of an ended process, and that the set of ports kept in \<open>SlaveController\<close>
    is an abstraction of the table.
  \<^item> \<open>SlaveMain\<close>: \<open>src/slave/cmd/slave.go\<close> and the start of the server.  \<open>Uncalled\<close>: operations of the allocator
    and the configurator that nothing calls.

  \<^bold>\<open>Between and beside.\<close>
  \<^item> \<open>Protocol\<close>: \<open>src/msp/protocolclient.go\<close> and \<open>protocolserver.go\<close>, put together around the controller.
  \<^item> \<open>Notifier\<close>: \<open>src/notifier\<close>, a round of the main loop and its files; \<open>NotifierMain\<close>: its \<open>main\<close>.
  \<^item> \<open>Certificates\<close>: what the three start-ups share, flags, certificate files, servers and clients over TLS.
  \<^item> This theory: properties from the tables of the master to the slave and back.  What the tables want reaches the
    controller of the right slave unchanged, and once MongoDB has stored it the monitor finds no mismatch any
    more; a slave that cannot list its directories is taken for one without Mongods.

  \<^bold>\<open>Errors.\<close>  A Go error is \<open>Failed\<close>, a panic \<open>Panic\<close>; early returns and recovered panics are branches of the
  definitions.  On the slave the answer of a request holds its error, and a request that ends on the left side of
  the sum has panicked: the configurator can panic on an answer of MongoDB of an unexpected type, which the HTTP server recovers
  in a request but which ends the slave in the goroutines of \<open>RequestStatus\<close>; the model ends the request and does not follow what a dead slave does.  A theorem without a hypothesis on failing statements holds whatever fails.

  \<^bold>\<open>Bounds and fuel.\<close>  The one loop without a bound in the code adds members in the allocator.  It runs with
  the fuel \<open>loop_bound\<close>, one more than the sum over all replica sets of the members wanted and one: each round
  adds a member of a replica set that lacks one, or takes a replica set out of the queue.
  \<open>CompileMongodLayout_terminates\<close> shows that the fuel never ends.  All other loops are
  structural or have a termination proof.  Machine integers are words where they can wrap, and numbers of
  the database are natural numbers or integers.

  \<^bold>\<open>Parameters.\<close>  Code outside \<open>src/\<close> and the world: PostgreSQL and gorm (\<open>dbms\<close>; \<open>Save\<close> of an object with
  its associations is a parameter of the monitor, \<open>saves_as_documented\<close> states what gorm documents of it), the HTTP transport, JSON (by the values it carries), SMTP
  and INI files, which URLs \<open>http.NewRequest\<close>
  refuses (\<open>bad_url\<close>), MongoDB and its driver (\<open>mongo\<close>), the file system's failures and what a failed call has done (\<open>env_partial\<close>), processes and the semver
  package (\<open>environment\<close>), random bytes, certificates and the server loop (\<open>certificates\<close>, \<open>me_listen\<close>), and the
  printed form of errors.

  \<^bold>\<open>Not modelled.\<close>  Logging; signals; timers, of which only the ticks are modelled; the browser application and
  serving its files; structs' references to other rows, where the code only uses their keys.
  Transactions run one after the other: what concurrent ones see of each other is
  left to PostgreSQL.  The parts of the master follow each other in any order in \<open>MasterRun\<close>, transaction
  by transaction; that every message on the bus reaches them is not shown: it does as long as a reader keeps up, as
  \<open>Bus\<close> shows, and a full channel loses messages.  The requests to a slave are serialised in \<open>SlaveController\<close>; how they interleave is the subject
  of \<open>BusyTable\<close> and \<open>ProcessTable\<close>, where an access to the Go map of processes is one step.

  What is left: the convergence of repeated rounds of allocator, monitor and deployer.  It depends
  on when slaves answer and on what MongoDB does with a configuration, which the program does
  not determine.
\<close>

section \<open>Properties that span components\<close>

lemma reads_only_compareStates: "reads_only (compareStates D show_err show_mongod m om)"
  unfolding compareStates_def by (intro reading reads_only_DesiredMembers)

interpretation mismatches: loop_body
  "\<lambda>modelMongod. bindM (attempt (compareStates D show_err show_mongod modelMongod
      (case obs (Mongod_ID modelMongod) of None \<Rightarrow> zeroMspMongod | Some om \<Rightarrow> om)))
    (\<lambda>r. case r of Inl _ \<Rightarrow> returnM () | Inr busMessage \<Rightarrow> send (MongodMatchStatusMsg busMessage))"
  "\<lambda>_. True" "\<lambda>s. txDB s = db" "\<lambda>_. False" for D show_err show_mongod obs db
  by unfold_locales
    (auto simp: run_bindM intro!: run_attempt_reads_only [OF reads_only_compareStates] simp: run_simps split: sum.split)

lemma run_sendMongodMismatch:
  "run (attempt (sendMongodMismatchStatusToBus D show_err show_mongod slave obs))
    (\<lambda>_ s'. txDB s' = txDB s) (\<lambda>_ _. False) s"
proof -
  have query: "run (sql_query D q) (\<lambda>_ s'. txDB s' = txDB s) (\<lambda>f s'. txDB s' = txDB s \<and> (\<exists>e. f = Failed e)) s"
    for q :: "nat \<Rightarrow> DB \<Rightarrow> Mongod list"
    by (rule run_mono [OF reads_only_query [unfolded reads_only_def, rule_format]]) auto
  show ?thesis
    unfolding run_attempt sendMongodMismatchStatusToBus_def run_bindM
    by (rule run_mono [OF query], rule run_mono [OF mismatches.forM_keeps [where db = "txDB s"]]) auto
qed

lemma unobserves_gone:
  "unobserves ids db db' \<Longrightarrow> m \<in> set (mongods db) \<Longrightarrow> Mongod_ID m \<in> ids \<Longrightarrow>
    \<exists>m'\<in>set (mongods db'). same_mongod m m' \<and> observed_gone db' m'"
  unfolding unobserves_def by blast

text \<open>C36: the error of a slave that cannot list its directories, say because the disk failed, is lost on
  the way: the monitor takes the empty answer for an observation and records every Mongod of the
  slave as destroyed, which is what the allocator waits for before it removes a Mongod.\<close>

theorem unlistable_slave_unobserved:
  assumes "dbms_ok D" and "fault_free D" and "db_wf (txDB st)" and "foreign_keys_ok (txDB st)"
    and "Slave_ObservationErrorID slave = None"
    and "parseProcessDirTree E s = (Inl err, s')"
    and "client_status (slave_server E arrival address) address s = ((observed, observation_error), s'')"
  shows "\<exists>st'. handleObservation D saveMongod show_err show_mongod observed observation_error slave st = (Inr (), st') \<and>
    (\<forall>m\<in>set (mongods (txDB st)). Mongod_ParentSlaveID m = Slave_ID slave \<longrightarrow>
      (\<exists>m'\<in>set (mongods (txDB st')). same_mongod m m' \<and> observed_gone (txDB st') m'))"
proof -
  let ?ids = "Mongod_ID ` {m \<in> set (mongods (txDB st)). Mongod_ParentSlaveID m = Slave_ID slave \<and> \<not> is_reported [] m}"
  obtain e where "RequestStatus E arrival s = (Inr (Some [], Some e), s')"
    using unlistable_status [OF assms(6)] by blast
  then have lost: "observed = []" "observation_error = None"
    using client_status_controller [of E arrival s "[]" _ s' address] assms(7) by auto
  let ?st = "st\<lparr>txBus := txBus st @ [ConnectionStatusMsg (connection_status slave None)]\<rparr>"
  have notify: "run (bindM (getM txDB) (\<lambda>db1.
        bindM (attempt (sendMongodMismatchStatusToBus D show_err show_mongod slave obs)) (\<lambda>_. rollback db1)))
      (\<lambda>_ st'. unobserves ?ids (txDB st) (txDB st')) (\<lambda>_ _. False) s2"
    if "unobserves ?ids (txDB st) (txDB s2)" for obs s2
    unfolding run_bindM run_getM
    by (rule run_mono [OF run_sendMongodMismatch]) (simp_all add: run_simps that)
  have finish: "run (bindM (attempt (commit D (txDB st))) (\<lambda>_. bindM (getM txDB) (\<lambda>db1.
        bindM (attempt (sendMongodMismatchStatusToBus D show_err show_mongod slave obs)) (\<lambda>_. rollback db1))))
      (\<lambda>_ st'. unobserves ?ids (txDB st) (txDB st')) (\<lambda>_ _. False) s2"
    if "unobserves ?ids (txDB st) (txDB s2) \<and> foreign_keys_ok (txDB s2)" for obs s2
    unfolding run_bindM [of "attempt (commit _ _)"]
    by (rule run_attempt_total, rule run_commit_total [OF assms(2)], simp add: that, rule notify) (simp add: that)
  have "run (handle_reported D saveMongod show_err show_mongod (txDB st) [] slave)
      (\<lambda>_ st'. unobserves ?ids (txDB st) (txDB st')) (\<lambda>_ _. False) ?st"
    unfolding handle_reported_def run_bindM [of "attempt (updateMongodStatesNotObservedOnSlave _ _ _ _)"]
    by (rule run_attempt_total, rule run_mono [OF run_conj [OF run_updateMongodStatesNotObservedOnSlave [OF assms(1,2)]
        run_unobserved_foreign_keys [OF assms(1)]]])
      (use assms(3,4) in \<open>auto simp: updateOrCreateObservedMongodStates_def run_bindM [of "attempt (returnM _)"]
         run_attempt run_returnM intro!: finish\<close>)
  then have "run (handleObservation D saveMongod show_err show_mongod [] None slave)
      (\<lambda>_ st'. unobserves ?ids (txDB st) (txDB st')) (\<lambda>_ _. False) st"
    by (simp add: handleObservation_def run_simps run_attempt updateSlaveObservationError_def assms(5))
  from run_total [OF this] show ?thesis
    unfolding lost by (auto simp: is_reported_def dest: unobserves_gone)
qed

theorem unlistable_slave_unobserved_witness:
  "\<exists>st'. handleObservation plain_dbms (\<lambda>_ _ _ _ db. Inr db) (\<lambda>_. []) (\<lambda>_. []) [] None (example_slave 1 True)
      (begin_tx running_db) = (Inr (), st') \<and> (\<exists>m'\<in>set (mongods (txDB st')). observed_gone (txDB st') m')"
proof -
  have m: "example_mongod \<in> set (mongods running_db)" "Mongod_ParentSlaveID example_mongod = Slave_ID (example_slave 1 True)"
    by (simp_all add: running_db_def example_defs)
  have wf: "db_wf (txDB (begin_tx running_db))" "foreign_keys_ok (txDB (begin_tx running_db))"
    using running_db_consistent by (simp_all add: consistent_def)
  obtain err s' where listing: "parseProcessDirTree example_environment example_slave_state = (Inl err, s')"
    using example_unlistable by blast
  then obtain e where "RequestStatus example_environment id example_slave_state = (Inr (Some [], Some e), s')"
    using unlistable_status by blast
  then have "client_status (slave_server example_environment id example_address) example_address example_slave_state =
      (([], None), s')"
    by (rule client_status_controller)
  from unlistable_slave_unobserved [OF plain_dbms_ok plain_dbms_fault_free wf(1,2) _ listing this,
      of "example_slave 1 True" "\<lambda>_ _ _ _ db. Inr db" "\<lambda>_. []" "\<lambda>_. []"] m
  show ?thesis by (fastforce simp: example_defs)
qed

section \<open>From the tables to the slave\<close>

text \<open>What the calls of the deployer do over the protocol, each sent to the address it names.\<close>

definition perform_call ::
  "(string \<Rightarrow> string option) \<Rightarrow> 's peer \<Rightarrow> msp_call \<Rightarrow> 's \<Rightarrow> (string + mspError option) \<times> 's" where
  "perform_call bad_url peer call s = (case call of
     CallEstablishMongodState target m \<Rightarrow> client_establish bad_url peer target m s
   | CallInitiateReplicaSet target msg \<Rightarrow> client_initiate bad_url peer target msg s)"

text \<open>C6: on a mismatch, the controller of the slave that hosts the Mongod is asked for
  exactly what the tables want of it: the port and set name, the stored keyfile, the desired state and
  role, and the members of the replica set; its answer is what the deployer gets back, its panic is an error of
  communication, and the tables are not changed.  Only if the hostname of the slave makes no URL is nothing
  sent: the master panics.\<close>

theorem mismatch_reaches_slave:
  assumes "dbms_ok D" and "fault_free D" and "db_wf (txDB st)" and "m \<in> set (mongods (txDB st))"
    and "lookup_state (txDB st) (Mongod_DesiredStateID m) = Some desired"
    and "State_ExecutionState desired \<in> {MongodExecutionStateRunning, MongodExecutionStateNotRunning,
      MongodExecutionStateDestroyed, MongodExecutionStateForceDestroyed}"
    and "State_ShardingRole desired \<in> {ShardingRoleNone, ShardingRoleShardServer, ShardingRoleConfigServer}"
    and "mongod_keyfiles (txDB st) = [k]"
  shows "\<exists>call mm st'. handleMatchStatus D show_err \<lparr>Match_Mismatch = True, Match_Mongod = m\<rparr> st = (Inr [call], st') \<and>
    txDB st' = txDB st \<and> describes D (txDB st) m desired mm \<and>
    perform_call bad_url (slave_server E arrival (slave_hostport (host_of (txDB st) m))) call s =
      (case bad_url (constructBaseUrl (slave_hostport (host_of (txDB st) m)) @ ''msp/establishMongodState'') of
         Some err \<Rightarrow> (Inl err, s) | None \<Rightarrow> map_prod seen_by_master id (EstablishMongodState E mm s))"
proof -
  obtain x where x: "mspMongodStateFromExecutionState (State_ExecutionState desired) = Inr x"
    using assms(6) by auto
  obtain mm st' where sent: "handleMatchStatus D show_err \<lparr>Match_Mismatch = True, Match_Mongod = m\<rparr> st =
      (Inr [CallEstablishMongodState (slave_hostport (host_of (txDB st) m)) mm], st')"
    and describes: "describes D (txDB st) m desired mm" and same: "txDB st' = txDB st"
    using handleMatchStatus_sends [OF assms(1-5) x assms(7,8), of show_err] by blast
  have "mspMongod_State mm \<noteq> MongodStateRecovering"
    using describes assms(6) by (auto simp: describes_def)
  then show ?thesis
    using sent describes same by (auto simp: perform_call_def client_establish_transparent)
qed

theorem mismatch_reaches_slave_witness:
  "\<exists>call mm st'. handleMatchStatus plain_dbms (\<lambda>_. []) \<lparr>Match_Mismatch = True, Match_Mongod = example_mongod\<rparr>
      (begin_tx keyed_db) = (Inr [call], st') \<and> mspMongod_KeyfileContent mm = ''key'' \<and>
    perform_call (\<lambda>_. None) (slave_server example_environment id (slave_hostport (host_of keyed_db example_mongod)))
      call example_slave_state = map_prod seen_by_master id (EstablishMongodState example_environment mm example_slave_state)"
proof -
  let ?desired = "(example_state 1)\<lparr>State_ExecutionState := MongodExecutionStateRunning\<rparr>"
  have db: "db_wf (txDB (begin_tx keyed_db))" "example_mongod \<in> set (mongods (txDB (begin_tx keyed_db)))"
    "lookup_state (txDB (begin_tx keyed_db)) (Mongod_DesiredStateID example_mongod) = Some ?desired"
    "State_ExecutionState ?desired \<in> {MongodExecutionStateRunning, MongodExecutionStateNotRunning,
      MongodExecutionStateDestroyed, MongodExecutionStateForceDestroyed}"
    "State_ShardingRole ?desired \<in> {ShardingRoleNone, ShardingRoleShardServer, ShardingRoleConfigServer}"
    "mongod_keyfiles (txDB (begin_tx keyed_db)) = [\<lparr>Keyfile_ID = 1, Keyfile_Content = ''key''\<rparr>]"
    by (simp_all add: keyed_db_wf) (simp_all add: keyed_db_def running_db_def example_defs)
  from mismatch_reaches_slave [OF plain_dbms_ok plain_dbms_fault_free db, of "\<lambda>_. []" "\<lambda>_. None" example_environment id example_slave_state]
  show ?thesis
    by (fastforce simp: describes_def keyed_db_def)
qed

section \<open>And back\<close>

text \<open>MongoDB keeps the configuration it was sent, for a Mongod that was started with the wanted role and has
  become primary or secondary.\<close>

definition role_option :: "ShardingRole \<Rightarrow> string" where
  "role_option role = (if role = ShardingRoleShardServer then ''shardsvr''
     else if role = ShardingRoleConfigServer then ''configsvr'' else [])"

definition mongo_stored :: "mongo \<Rightarrow> mspMongod \<Rightarrow> doc \<Rightarrow> bool" where
  "mongo_stored M mm config \<longleftrightarrow> mongo_dial M (mspMongod_Port mm) = None \<and>
    (\<exists>isMasterRes status n. answers M (mspMongod_Port mm) IsMaster isMasterRes \<and> map_of isMasterRes ''setName'' \<noteq> None \<and>
      answers M (mspMongod_Port mm) ReplSetGetStatus status \<and> map_of status ''myState'' = Some (BInt n) \<and> n \<in> {1, 2} \<and>
      map_of status ''set'' = Some (BString (Config_ReplicaSetName (mspMongod_ReplicaSetConfig mm)))) \<and>
    answers M (mspMongod_Port mm) ReplSetGetConfig [(''config'', BDoc config)] \<and>
    answers M (mspMongod_Port mm) GetCmdLineOpts (command_line (role_option (Config_ShardingRole (mspMongod_ReplicaSetConfig mm))))"

text \<open>The row of the observed state holds what the slave reported.\<close>

definition recorded :: "DB \<Rightarrow> Mongod \<Rightarrow> mspMongod \<Rightarrow> bool" where
  "recorded db m om \<longleftrightarrow> (\<exists>i observed. Mongod_ObservedStateID m = Some i \<and> lookup_state db i = Some observed \<and>
     State_ExecutionState observed = MspMongodStateToModelExecutionState (mspMongod_State om) \<and>
     ProjectMSPShardingRoleToModelShardingRole (Config_ShardingRole (mspMongod_ReplicaSetConfig om)) =
       Inr (State_ShardingRole observed))"

lemma run_compareStates_members:
  assumes "dbms_ok D" and "fault_free D" and "db_wf (txDB s)"
    and "Mongod_ReplicaSetID m = Some rid" and "Mongod_ObservedStateID m = Some i"
    and "lookup_state (txDB s) (Mongod_DesiredStateID m) = Some desired" and "lookup_state (txDB s) i = Some observed"
  shows "run (compareStates D show_err show_mongod m om) (\<lambda>msg _. msg = \<lparr>Match_Mismatch =
      \<not> (MongodStatesEquivalent desired observed \<and> MSPReplicaSetMembersDeepEqualsIgnoringOrder
        (wanted_members (txDB s) rid) (Config_ReplicaSetMembers (mspMongod_ReplicaSetConfig om))), Match_Mongod = m\<rparr>)
    (\<lambda>_ _. False) s"
  unfolding compareStates_def run_bindM
  using assms(5-7)
  by (auto simp: run_simps assms(4) vote_loop_wanted [OF assms(1,3)] intro!: run_wrapErr_total run_query_total
    run_DesiredMembers assms(2))

text \<open>C7: the repair of a mismatch is final.  When the slave has configured a running
  Mongod as the deployer asked it to, and MongoDB has stored that, what the slave then reports and the monitor
  records is no mismatch any more, however the database orders its rows, as long as
  the same members are wanted.\<close>

theorem repaired_mongod_matches:
  assumes "dbms_ok D" and "fault_free D"
    and "describes D db m desired mm" and "State_ExecutionState desired = MongodExecutionStateRunning"
    and "State_ShardingRole desired \<in> {ShardingRoleNone, ShardingRoleShardServer, ShardingRoleConfigServer}"
    and "Mongod_ReplicaSetID m = Some rid" and "distinct (map Member_HostPort (wanted_members db rid))"
    and "\<forall>x\<in>set (wanted_members db rid). CHR '':'' \<notin> set (HostPort_Hostname (Member_HostPort x))"
    and "updateConfig current mm = Inr config" and "mongo_stored M mm config"
    and "fst (MongodConfiguration M (mspMongod_Port mm) cred []) = Inr om"
    and "db_wf (txDB st)" and "wanted_members (txDB st) rid = wanted_members db rid"
    and "Mongod_ReplicaSetID m' = Some rid" and "lookup_state (txDB st) (Mongod_DesiredStateID m') = Some desired"
    and "recorded (txDB st) m' om"
  shows "\<exists>st'. compareStates D show_err show_mongod m' om st = (Inr \<lparr>Match_Mismatch = False, Match_Mongod = m'\<rparr>, st')"
proof -
  let ?wanted = "wanted_members db rid" and ?role = "State_ShardingRole desired"
  have mm: "Config_ReplicaSetMembers (mspMongod_ReplicaSetConfig mm) = ?wanted"
    "Config_ShardingRole (mspMongod_ReplicaSetConfig mm) = ?role"
    using assms(3,6) by (simp_all add: describes_def)
  obtain isMasterRes status n where mongo: "mongo_dial M (mspMongod_Port mm) = None"
    "answers M (mspMongod_Port mm) IsMaster isMasterRes" "map_of isMasterRes ''setName'' \<noteq> None"
    "answers M (mspMongod_Port mm) ReplSetGetStatus status" "map_of status ''myState'' = Some (BInt n)" "n \<in> {1, 2}"
    "map_of status ''set'' = Some (BString (Config_ReplicaSetName (mspMongod_ReplicaSetConfig mm)))"
    "answers M (mspMongod_Port mm) ReplSetGetConfig [(''config'', BDoc config)]"
    "answers M (mspMongod_Port mm) GetCmdLineOpts (command_line (role_option ?role))"
    using assms(10) unfolding mongo_stored_def mm(2) by blast
  have om: "mspMongod_State om = MongodStateRunning" "Config_ReplicaSetMembers (mspMongod_ReplicaSetConfig om) = ?wanted"
    "Config_ShardingRole (mspMongod_ReplicaSetConfig om) = ?role"
    using fetch_reconfigured [OF assms(9) _ _ mongo, unfolded mm, of cred] assms(5,7,8,11)
    by (auto simp: role_option_def)
  obtain i observed where observed: "Mongod_ObservedStateID m' = Some i" "lookup_state (txDB st) i = Some observed"
    "State_ExecutionState observed = MongodExecutionStateRunning"
    "ProjectMSPShardingRoleToModelShardingRole ?role = Inr (State_ShardingRole observed)"
    using assms(16) om by (auto simp: recorded_def)
  then have "MongodStatesEquivalent desired observed"
    using assms(4,5) by (auto simp: MongodStatesEquivalent_def ProjectMSPShardingRoleToModelShardingRole_def split: if_splits)
  moreover have "MSPReplicaSetMembersDeepEqualsIgnoringOrder ?wanted ?wanted"
    by (simp add: DeepEquals_iff)
  ultimately show ?thesis
    using run_total [OF run_compareStates_members [OF assms(1,2,12,14) observed(1) assms(15) observed(2),
      of show_err show_mongod om]] assms(13) om(2) by auto
qed

definition example_wanted :: mspMongod where
  "example_wanted = zeroMspMongod\<lparr>mspMongod_Port := 18080, mspMongod_KeyfileContent := ''key'',
     mspMongod_State := MongodStateRunning, mspMongod_ReplicaSetConfig := zeroReplicaSetConfig\<lparr>
       Config_ReplicaSetName := Mongod_ReplSetName example_mongod, Config_ShardingRole := ShardingRoleNone,
       Config_ReplicaSetMembers := wanted_members keyed_db 1\<rparr>\<rparr>"

definition example_stored :: doc where
  "example_stored = (case updateConfig [] example_wanted of Inl _ \<Rightarrow> [] | Inr c \<Rightarrow> c)"

definition example_store :: mongo where
  "example_store = example_mongo\<lparr>mongo_run := (\<lambda>_ _ cmd. (case cmd of
      IsMaster \<Rightarrow> [(''setName'', BString (Mongod_ReplSetName example_mongod))]
    | ReplSetGetStatus \<Rightarrow> [(''myState'', BInt 1), (''set'', BString (Mongod_ReplSetName example_mongod))]
    | ReplSetGetConfig \<Rightarrow> [(''config'', BDoc example_stored)]
    | GetCmdLineOpts \<Rightarrow> command_line (role_option ShardingRoleNone)
    | _ \<Rightarrow> [], None))\<rparr>"

lemma keyed_members:
  "wanted_members keyed_db 1 = [\<lparr>Member_HostPort = \<lparr>HostPort_Hostname = ''host'', HostPort_Port = 18080\<rparr>,
     Member_Priority = 10, Member_Votes = 1\<rparr>]"
  by (simp add: wanted_members_def keyed_db_def running_db_def desired_members_def example_defs member_priority_def priority_defs)

lemma example_stored_config: "updateConfig [] example_wanted = Inr example_stored"
  by (simp add: example_stored_def example_wanted_def keyed_members updateConfig_def updateMembersList_def current_members_def
    free_id_def Let_def deref_def upt_conv_Cons)

theorem repaired_mongod_matches_witness:
  "\<exists>om st'. fst (MongodConfiguration example_store 18080 zeroCredential []) = Inr om \<and>
    compareStates plain_dbms (\<lambda>_. []) (\<lambda>_. []) example_mongod om (begin_tx keyed_db) =
      (Inr \<lparr>Match_Mismatch = False, Match_Mongod = example_mongod\<rparr>, st')"
proof -
  let ?desired = "(example_state 1)\<lparr>State_ExecutionState := MongodExecutionStateRunning\<rparr>"
  have stored: "mongo_stored example_store example_wanted example_stored"
    by (simp add: mongo_stored_def example_store_def example_mongo_def answers_def example_wanted_def)
  have om: "fst (MongodConfiguration example_store 18080 zeroCredential []) = Inr (zeroMspMongod\<lparr>mspMongod_Port := 18080,
      mspMongod_State := MongodStateRunning, mspMongod_ReplicaSetConfig := zeroReplicaSetConfig\<lparr>
        Config_ReplicaSetName := ''repl1'', Config_ReplicaSetMembers := wanted_members keyed_db 1,
        Config_ShardingRole := ShardingRoleNone\<rparr>\<rparr>)" (is "_ = Inr ?om")
    using fetch_reconfigured [OF example_stored_config, of example_store 18080
        "[(''setName'', BString ''repl1'')]" "[(''myState'', BInt 1), (''set'', BString ''repl1'')]" 1 "[]" zeroCredential]
    by (simp add: example_store_def example_mongo_def answers_def example_wanted_def keyed_members example_mongod_def
      role_option_def)
  have describes: "describes plain_dbms keyed_db example_mongod ?desired example_wanted"
    using wanted_members_hosts [OF keyed_db_wf, of 1] unfolding describes_def example_wanted_def
    by (simp add: example_mongod_def example_state_def keyed_db_def [THEN arg_cong, of mongod_keyfiles])
  note repaired_mongod_matches [OF plain_dbms_ok plain_dbms_fault_free describes _ _ _ _ _ example_stored_config stored,
      of 1 zeroCredential ?om "begin_tx keyed_db" example_mongod "\<lambda>_. []" "\<lambda>_. []"]
  moreover have "recorded keyed_db example_mongod ?om"
    by (simp add: recorded_def keyed_db_def running_db_def example_defs ProjectMSPShardingRoleToModelShardingRole_def)
  moreover have "lookup_state keyed_db 1 = Some ?desired" "Mongod_ReplicaSetID example_mongod = Some 1"
    "Mongod_DesiredStateID example_mongod = 1" "mspMongod_Port example_wanted = 18080"
    by (simp_all add: keyed_db_def running_db_def example_defs example_wanted_def)
  ultimately show ?thesis
    using om keyed_db_wf by (auto simp: keyed_members example_state_def)
qed

end
